(* ===== verification/Prelude.thy ===== *)
theory Prelude
  imports Main "HOL-Library.Char_ord" "HOL-Library.List_Lexorder" "HOL-Library.AList"
begin

text \<open>
  The shared vocabulary of the development: Go strings as byte lists with the functions of
  the packages \<^verbatim>\<open>strings\<close> and \<^verbatim>\<open>strconv\<close> that the server uses, Go's error results, Go maps as
  association lists, SQL tables as row lists, and the lemma collections every component
  proof draws on.

  A Go string is a list of bytes (\<^typ>\<open>string\<close>, whose \<^typ>\<open>char\<close> is one byte). \<open>trim_space\<close>
  knows the UTF-8 encodings of all the runes of \<^verbatim>\<open>unicode.IsSpace\<close>; \<open>to_lower\<close> and \<open>to_upper\<close>
  map the ASCII letters and leave every other byte alone, which is what Go does on ASCII
  text (the case mappings of non-ASCII runes are not modelled).
\<close>

section \<open>Lemma collections and result types\<close>

named_theorems str_simps \<open>equations of the string functions\<close>
named_theorems tbl_simps \<open>equations of the table operations\<close>
named_theorems inv_intros \<open>preservation lemmas of the invariants\<close>

text \<open>A Go function that returns \<^verbatim>\<open>(T, error)\<close> is a sum: \<open>Inl\<close> carries the error text.\<close>

type_synonym 'a result = "string + 'a"

definition bind_result :: "'e + 'a \<Rightarrow> ('a \<Rightarrow> 'e + 'b) \<Rightarrow> 'e + 'b" where
  "bind_result r f = (case r of Inl e \<Rightarrow> Inl e | Inr a \<Rightarrow> f a)"

lemma bind_result_simps [simp]:
  "bind_result (Inl e) f = Inl e"
  "bind_result (Inr a) f = f a"
  by (simp_all add: bind_result_def)

lemma bind_result_Inr:
  "bind_result r f = Inr b \<longleftrightarrow> (\<exists>a. r = Inr a \<and> f a = Inr b)"
  by (cases r) auto

abbreviation newline :: char where "newline \<equiv> CHR 0x0A"

section \<open>Splitting and joining\<close>

text \<open>\<^verbatim>\<open>strings.Split(s, c)\<close> for a one-byte separator, and \<^verbatim>\<open>strings.Join\<close>.\<close>

fun split_on :: "char \<Rightarrow> string \<Rightarrow> string list" where
  "split_on c [] = [[]]"
| "split_on c (x # xs) =
     (if x = c then [] # split_on c xs
      else (case split_on c xs of [] \<Rightarrow> [[x]] | l # ls \<Rightarrow> (x # l) # ls))"

fun join :: "string \<Rightarrow> string list \<Rightarrow> string" where
  "join sep [] = []"
| "join sep [x] = x"
| "join sep (x # y # ys) = x @ sep @ join sep (y # ys)"

lemma split_on_nonempty [simp]: "split_on c s \<noteq> []"
  by (cases s) (auto split: list.splits)

lemma split_on_no_sep: "l \<in> set (split_on c s) \<Longrightarrow> c \<notin> set l"
  by (induction s arbitrary: l) (auto split: list.splits if_splits)

lemma join_Cons: "ls \<noteq> [] \<Longrightarrow> join sep (l # ls) = l @ sep @ join sep ls"
  by (cases ls) auto

lemma join_split_on [str_simps]: "join [c] (split_on c s) = s"
proof (induction s)
  case (Cons x xs)
  then show ?case
    by (cases "split_on c xs"; cases "tl (split_on c xs)") (auto simp: join_Cons)
qed simp

lemma split_on_no_sep_id: "c \<notin> set s \<Longrightarrow> split_on c s = [s]"
  by (induction s) auto

lemma split_on_append: "c \<notin> set a \<Longrightarrow> split_on c (a @ c # b) = a # split_on c b"
  by (induction a) auto

lemma split_on_join:
  assumes "ls \<noteq> []" "\<forall>l \<in> set ls. c \<notin> set l"
  shows "split_on c (join [c] ls) = ls"
  using assms
proof (induction ls)
  case (Cons l ls)
  then show ?case
    by (cases "ls = []") (auto simp: join_Cons split_on_append split_on_no_sep_id)
qed simp

lemma split_on_append_sep: "split_on c (a @ c # b) = split_on c a @ split_on c b"
proof (induction a)
  case (Cons x xs)
  then show ?case by (cases "split_on c xs") auto
qed simp

text \<open>\<^verbatim>\<open>strings.SplitN(s, c, 2)\<close>: at most two parts, cut at the first separator.\<close>

fun cut_at :: "char \<Rightarrow> string \<Rightarrow> (string \<times> string) option" where
  "cut_at c [] = None"
| "cut_at c (x # xs) =
     (if x = c then Some ([], xs)
      else (case cut_at c xs of None \<Rightarrow> None | Some (a, b) \<Rightarrow> Some (x # a, b)))"

lemma cut_at_Some: "cut_at c s = Some (a, b) \<Longrightarrow> s = a @ c # b \<and> c \<notin> set a"
  by (induction s arbitrary: a b) (auto split: if_splits option.splits)

lemma cut_at_None [simp]: "cut_at c s = None \<longleftrightarrow> c \<notin> set s"
  by (induction s) (auto split: option.splits)

lemma cut_at_absent [simp]: "c \<notin> set s \<Longrightarrow> cut_at c s = None"
  by simp

lemma cut_at_append [simp]: "c \<notin> set a \<Longrightarrow> cut_at c (a @ c # b) = Some (a, b)"
  by (induction a) auto

section \<open>Prefixes, suffixes and substrings\<close>

fun has_prefix :: "string \<Rightarrow> string \<Rightarrow> bool" where
  "has_prefix s [] = True"
| "has_prefix [] (p # ps) = False"
| "has_prefix (x # xs) (p # ps) = (x = p \<and> has_prefix xs ps)"

lemma has_prefix_iff: "has_prefix s p \<longleftrightarrow> (\<exists>r. s = p @ r)"
  by (induction s p rule: has_prefix.induct) auto

definition has_suffix :: "string \<Rightarrow> string \<Rightarrow> bool" where
  "has_suffix s p = has_prefix (rev s) (rev p)"

lemma has_suffix_iff: "has_suffix s p \<longleftrightarrow> (\<exists>r. s = r @ p)"
  by (auto simp: has_suffix_def has_prefix_iff) (metis rev_append rev_rev_ident)+

definition trim_prefix :: "string \<Rightarrow> string \<Rightarrow> string" where
  "trim_prefix s p = (if has_prefix s p then drop (length p) s else s)"

definition trim_suffix :: "string \<Rightarrow> string \<Rightarrow> string" where
  "trim_suffix s p = (if has_suffix s p then take (length s - length p) s else s)"

fun contains :: "string \<Rightarrow> string \<Rightarrow> bool" where
  "contains [] p = (p = [])"
| "contains (x # xs) p = (has_prefix (x # xs) p \<or> contains xs p)"

lemma contains_iff: "contains s p \<longleftrightarrow> (\<exists>a b. s = a @ p @ b)"
proof (induction s)
  case IH: (Cons x xs)
  show ?case
  proof
    assume "contains (x # xs) p"
    then consider r where "x # xs = p @ r" | "contains xs p"
      by (auto simp: has_prefix_iff)
    then show "\<exists>a b. x # xs = a @ p @ b"
      by cases (metis append_Nil, metis IH.IH append_Cons)
  next
    assume "\<exists>a b. x # xs = a @ p @ b"
    then obtain a b where ab: "x # xs = a @ p @ b" by blast
    show "contains (x # xs) p"
    proof (cases a)
      case Nil
      with ab have "has_prefix (x # xs) p" by (auto simp: has_prefix_iff)
      then show ?thesis by simp
    next
      case (Cons y ys)
      with ab have "contains xs p" using IH.IH by auto
      then show ?thesis by simp
    qed
  qed
qed auto

text \<open>\<^verbatim>\<open>strings.TrimLeft\<close> and \<^verbatim>\<open>strings.TrimRight\<close> with a cutset of ASCII bytes.\<close>

definition trim_left :: "string \<Rightarrow> string \<Rightarrow> string" where
  "trim_left s cutset = dropWhile (\<lambda>c. c \<in> set cutset) s"

definition trim_right :: "string \<Rightarrow> string \<Rightarrow> string" where
  "trim_right s cutset = rev (dropWhile (\<lambda>c. c \<in> set cutset) (rev s))"

lemma set_trim_left: "set (trim_left s cs) \<subseteq> set s"
  by (auto simp: trim_left_def dest: set_dropWhileD)

lemma set_trim_right: "set (trim_right s cs) \<subseteq> set s"
  by (auto simp: trim_right_def dest: set_dropWhileD)

lemma trim_right_decomp: "\<exists>t. s = trim_right s cs @ t \<and> set t \<subseteq> set cs"
proof -
  have "rev s = takeWhile (\<lambda>c. c \<in> set cs) (rev s) @ dropWhile (\<lambda>c. c \<in> set cs) (rev s)"
    by simp
  then have "s = trim_right s cs @ rev (takeWhile (\<lambda>c. c \<in> set cs) (rev s))"
    unfolding trim_right_def by (metis rev_append rev_rev_ident)
  moreover have "set (rev (takeWhile (\<lambda>c. c \<in> set cs) (rev s))) \<subseteq> set cs"
    by (auto dest: set_takeWhileD)
  ultimately show ?thesis by blast
qed

section \<open>Case mapping\<close>

text \<open>\<^verbatim>\<open>strings.ToLower\<close> and \<^verbatim>\<open>strings.ToUpper\<close> on the ASCII letters; other bytes are left alone.\<close>

definition lower_char :: "char \<Rightarrow> char" where
  "lower_char c = (if CHR ''A'' \<le> c \<and> c \<le> CHR ''Z'' then char_of (of_char c + 32 :: nat) else c)"

definition upper_char :: "char \<Rightarrow> char" where
  "upper_char c = (if CHR ''a'' \<le> c \<and> c \<le> CHR ''z'' then char_of (of_char c - 32 :: nat) else c)"

definition to_lower :: "string \<Rightarrow> string" where "to_lower = map lower_char"

definition to_upper :: "string \<Rightarrow> string" where "to_upper = map upper_char"

section \<open>White space\<close>

text \<open>
  The byte sequences that \<^verbatim>\<open>unicode.IsSpace\<close> accepts: the six ASCII ones, U+0085 and U+00A0
  (two bytes), and U+1680, U+2000 to U+200A, U+2028, U+2029, U+202F, U+205F and U+3000
  (three bytes).
\<close>

definition ascii_space :: "char \<Rightarrow> bool" where
  "ascii_space c = (c \<in> set [CHR 0x09, CHR 0x0A, CHR 0x0B, CHR 0x0C, CHR 0x0D, CHR 0x20])"

definition space2 :: "char \<Rightarrow> char \<Rightarrow> bool" where
  "space2 a b = (a = CHR 0xC2 \<and> (b = CHR 0x85 \<or> b = CHR 0xA0))"

definition space3 :: "char \<Rightarrow> char \<Rightarrow> char \<Rightarrow> bool" where
  "space3 a b c =
     (a = CHR 0xE1 \<and> b = CHR 0x9A \<and> c = CHR 0x80
      \<or> a = CHR 0xE2 \<and> b = CHR 0x80 \<and>
          (CHR 0x80 \<le> c \<and> c \<le> CHR 0x8A \<or> c = CHR 0xA8 \<or> c = CHR 0xA9 \<or> c = CHR 0xAF)
      \<or> a = CHR 0xE2 \<and> b = CHR 0x81 \<and> c = CHR 0x9F
      \<or> a = CHR 0xE3 \<and> b = CHR 0x80 \<and> c = CHR 0x80)"

text \<open>How many bytes the space at the front of a string takes, 0 when there is none.\<close>

definition space_run :: "(char \<Rightarrow> char \<Rightarrow> bool) \<Rightarrow> (char \<Rightarrow> char \<Rightarrow> char \<Rightarrow> bool) \<Rightarrow> string \<Rightarrow> nat" where
  "space_run p2 p3 s =
     (case s of [] \<Rightarrow> 0
      | a # r \<Rightarrow> if ascii_space a then 1 else
         (case r of [] \<Rightarrow> 0
          | b # r2 \<Rightarrow> if p2 a b then 2 else
             (case r2 of [] \<Rightarrow> 0 | c # _ \<Rightarrow> if p3 a b c then 3 else 0)))"

definition lead_space :: "string \<Rightarrow> nat" where
  "lead_space = space_run space2 space3"

definition trail_space :: "string \<Rightarrow> nat" where
  "trail_space = space_run (\<lambda>a b. space2 b a) (\<lambda>a b c. space3 c b a)"

function trim_by :: "(string \<Rightarrow> nat) \<Rightarrow> string \<Rightarrow> string" where
  "trim_by f s = (if s = [] \<or> f s = 0 then s else trim_by f (drop (f s) s))"
  by pat_completeness auto
termination
  by (relation "measure (\<lambda>(f, s). length s)") (auto simp: neq_Nil_conv)

declare trim_by.simps [simp del]

definition trim_left_space :: "string \<Rightarrow> string" where
  "trim_left_space s = trim_by lead_space s"

definition trim_right_space :: "string \<Rightarrow> string" where
  "trim_right_space s = rev (trim_by trail_space (rev s))"

definition trim_space :: "string \<Rightarrow> string" where
  "trim_space s = trim_right_space (trim_left_space s)"

text \<open>
  A \<^emph>\<open>plain\<close> byte is an ASCII byte that is no space: no encoding of a space contains one, so
  trimming stops at it from either side.
\<close>

definition plain :: "char \<Rightarrow> bool" where
  "plain c = (c < CHR 0x80 \<and> \<not> ascii_space c)"

lemma plain_not_space:
  assumes "plain x"
  shows "\<not> ascii_space x" "\<not> space2 a x" "\<not> space2 x b"
    "\<not> space3 x b c" "\<not> space3 a x c" "\<not> space3 a b x"
  using assms by (auto simp: plain_def space2_def space3_def)

lemma space_run_le: "space_run p2 p3 s \<le> length s"
  by (auto simp: space_run_def split: list.splits)

lemma space_run_barrier:
  assumes "plain x" "\<And>a. \<not> p2 a x" "\<And>b. \<not> p2 x b"
    "\<And>b c. \<not> p3 x b c" "\<And>a c. \<not> p3 a x c" "\<And>a b. \<not> p3 a b x"
  shows "space_run p2 p3 (u @ x # v) = space_run p2 p3 u"
  using assms plain_not_space(1) [OF assms(1)]
  by (auto simp: space_run_def split: list.splits)

lemma space_run_append:
  "space_run p2 p3 u \<noteq> 0 \<Longrightarrow> space_run p2 p3 (u @ v) = space_run p2 p3 u"
  by (auto simp: space_run_def split: list.splits if_splits)

lemma lead_space_barrier: "plain x \<Longrightarrow> lead_space (u @ x # v) = lead_space u"
  unfolding lead_space_def by (rule space_run_barrier) (simp_all add: plain_not_space)

lemma trail_space_barrier: "plain x \<Longrightarrow> trail_space (u @ x # v) = trail_space u"
  unfolding trail_space_def by (rule space_run_barrier) (simp_all add: plain_not_space)

lemma trim_by_barrier:
  assumes "\<And>u v. f (u @ x # v) = f u" "\<And>s. f s \<le> length s"
  shows "trim_by f (u @ x # v) = trim_by f u @ x # v"
proof (induction u rule: length_induct)
  case (1 u)
  show ?case
  proof (cases "f u = 0")
    case True
    then show ?thesis by (simp add: trim_by.simps [of f "u @ x # v"] trim_by.simps [of f u] assms)
  next
    case False
    with assms(2) [of u] have u: "u \<noteq> []" "f u \<le> length u" by auto
    then have "drop (f u) (u @ x # v) = drop (f u) u @ x # v" by simp
    moreover have "length (drop (f u) u) < length u" using u False by (cases u) auto
    ultimately show ?thesis
      using 1 u False
      by (simp add: trim_by.simps [of f "u @ x # v"] trim_by.simps [of f u] assms)
  qed
qed

lemma lead_space_le: "lead_space s \<le> length s"
  by (simp add: lead_space_def space_run_le)

lemma trail_space_le: "trail_space s \<le> length s"
  by (simp add: trail_space_def space_run_le)

lemma trim_by_suffix: "\<exists>p. s = p @ trim_by f s"
proof (induction s rule: length_induct)
  case (1 s)
  show ?case
  proof (cases "s = [] \<or> f s = 0")
    case False
    then have "length (drop (f s) s) < length s" by (cases s) auto
    with 1 obtain p where "drop (f s) s = p @ trim_by f (drop (f s) s)" by blast
    then have "s = (take (f s) s @ p) @ trim_by f s"
      using False by (metis append.assoc append_take_drop_id trim_by.simps)
    then show ?thesis by blast
  qed (simp add: trim_by.simps [of f s])
qed

lemma trim_by_done: "trim_by f s = [] \<or> f (trim_by f s) = 0"
proof (induction s rule: length_induct)
  case (1 s)
  show ?case
  proof (cases "s = [] \<or> f s = 0")
    case False
    then have "length (drop (f s) s) < length s" by (cases s) auto
    with 1 False show ?thesis by (simp add: trim_by.simps [of f s])
  qed (auto simp: trim_by.simps [of f s])
qed

lemma trim_by_id: "f s = 0 \<Longrightarrow> trim_by f s = s"
  by (simp add: trim_by.simps)

lemma trim_left_space_barrier:
  "plain x \<Longrightarrow> trim_left_space (u @ x # v) = trim_left_space u @ x # v"
  by (simp add: trim_left_space_def trim_by_barrier lead_space_barrier lead_space_le)

lemma trim_right_space_barrier:
  "plain x \<Longrightarrow> trim_right_space (u @ x # v) = u @ x # trim_right_space v"
  by (simp add: trim_right_space_def trim_by_barrier trail_space_barrier trail_space_le)

lemma trim_space_barrier [str_simps]:
  "plain x \<Longrightarrow> trim_space (u @ x # v) = trim_left_space u @ x # trim_right_space v"
  by (simp add: trim_space_def trim_left_space_barrier trim_right_space_barrier)

lemma trim_left_space_suffix: "\<exists>p. s = p @ trim_left_space s"
  by (simp add: trim_left_space_def trim_by_suffix)

lemma trim_right_space_prefix: "\<exists>p. s = trim_right_space s @ p"
proof -
  obtain p where "rev s = p @ trim_by trail_space (rev s)" using trim_by_suffix by blast
  then have "s = trim_right_space s @ rev p"
    unfolding trim_right_space_def by (metis rev_append rev_rev_ident)
  then show ?thesis by blast
qed

lemma set_trim_left_space: "set (trim_left_space s) \<subseteq> set s"
  using trim_left_space_suffix [of s] by (metis set_append sup_ge2)

lemma set_trim_right_space: "set (trim_right_space s) \<subseteq> set s"
  using trim_right_space_prefix [of s] by (metis set_append sup_ge1)

lemma set_trim_space: "set (trim_space s) \<subseteq> set s"
  using set_trim_left_space set_trim_right_space unfolding trim_space_def by blast

lemma trim_space_Nil [simp]: "trim_space [] = []"
  "trim_left_space [] = []" "trim_right_space [] = []"
  by (simp_all add: trim_space_def trim_left_space_def trim_right_space_def trim_by.simps)

lemma lead_space_trimmed: "lead_space (trim_left_space s) = 0"
  using trim_by_done [of lead_space s]
  by (auto simp: trim_left_space_def lead_space_def space_run_def)

lemma trail_space_trimmed: "trail_space (rev (trim_right_space s)) = 0"
  using trim_by_done [of trail_space "rev s"]
  by (auto simp: trim_right_space_def trail_space_def space_run_def)

lemma lead_space_prefix_closed:
  assumes "lead_space s = 0" "s = a @ b"
  shows "lead_space a = 0"
proof (rule ccontr)
  assume "lead_space a \<noteq> 0"
  then have "lead_space (a @ b) \<noteq> 0"
    unfolding lead_space_def by (simp add: space_run_append)
  with assms show False by simp
qed

lemma trim_right_space_idem [simp]: "trim_right_space (trim_right_space s) = trim_right_space s"
  using trail_space_trimmed [of s] by (simp add: trim_right_space_def trim_by_id)

lemma trim_left_space_idem [simp]: "trim_left_space (trim_left_space s) = trim_left_space s"
  using lead_space_trimmed [of s] by (simp add: trim_left_space_def trim_by_id)

lemma trim_left_trim_right:
  assumes "lead_space s = 0"
  shows "trim_left_space (trim_right_space s) = trim_right_space s"
proof -
  obtain p where "s = trim_right_space s @ p" using trim_right_space_prefix by blast
  with assms have "lead_space (trim_right_space s) = 0" by (rule lead_space_prefix_closed)
  then show ?thesis by (simp add: trim_left_space_def trim_by_id)
qed

lemma trim_left_space_trim_space [simp]: "trim_left_space (trim_space s) = trim_space s"
  by (simp add: trim_space_def trim_left_trim_right lead_space_trimmed)

lemma trim_space_idem [simp]: "trim_space (trim_space s) = trim_space s"
  by (metis trim_left_space_trim_space trim_right_space_idem trim_space_def)

text \<open>A string whose first and last bytes are plain is left as it is.\<close>

lemma trim_space_plain:
  assumes "\<forall>c \<in> set s. plain c"
  shows "trim_space s = s"
proof (cases s)
  case (Cons x xs)
  with assms have x: "plain x" by simp
  have "trim_left_space s = s"
    using trim_left_space_barrier [OF x, of "[]" xs] Cons by simp
  moreover have "trim_right_space s = s"
  proof -
    obtain ys y where s: "s = ys @ [y]" using Cons by (metis append_butlast_last_id list.distinct(1))
    with assms have "plain y" by simp
    from trim_right_space_barrier [OF this, of ys "[]"] s show ?thesis by simp
  qed
  ultimately show ?thesis by (simp add: trim_space_def)
qed simp

section \<open>Numbers\<close>

text \<open>
  \<^verbatim>\<open>strconv.Atoi\<close>: an optional sign and decimal digits. The result is the value Go returns
  and whether the error is nil; a syntax error returns 0 and a value out of the range of a
  64-bit \<^verbatim>\<open>int\<close> returns the nearest bound.
\<close>

definition max_int :: int where "max_int = 2 ^ 63 - 1"

definition min_int :: int where "min_int = - (2 ^ 63)"

definition is_digit :: "char \<Rightarrow> bool" where
  "is_digit c = (CHR ''0'' \<le> c \<and> c \<le> CHR ''9'')"

definition digit_val :: "char \<Rightarrow> int" where
  "digit_val c = int (of_char c) - 48"

fun digits_val :: "int \<Rightarrow> string \<Rightarrow> int option" where
  "digits_val acc [] = Some acc"
| "digits_val acc (c # cs) =
     (if is_digit c then digits_val (10 * acc + digit_val c) cs else None)"

definition parse_uint :: "string \<Rightarrow> int option" where
  "parse_uint s = (if s = [] then None else digits_val 0 s)"

definition clamp_int :: "int \<Rightarrow> int \<times> bool" where
  "clamp_int v = (if v > max_int then (max_int, False)
                  else if v < min_int then (min_int, False) else (v, True))"

definition atoi :: "string \<Rightarrow> int \<times> bool" where
  "atoi s =
     (case s of
        CHR ''-'' # r \<Rightarrow> (case parse_uint r of None \<Rightarrow> (0, False) | Some v \<Rightarrow> clamp_int (- v))
      | CHR ''+'' # r \<Rightarrow> (case parse_uint r of None \<Rightarrow> (0, False) | Some v \<Rightarrow> clamp_int v)
      | _ \<Rightarrow> (case parse_uint s of None \<Rightarrow> (0, False) | Some v \<Rightarrow> clamp_int v))"

lemma clamp_int_bounds: "clamp_int v = (n, ok) \<Longrightarrow> min_int \<le> n \<and> n \<le> max_int"
  by (auto simp: clamp_int_def max_int_def min_int_def split: if_splits)

text \<open>\<^verbatim>\<open>strconv.Itoa\<close> and the \<^verbatim>\<open>%d\<close> verb.\<close>

definition digit_char :: "nat \<Rightarrow> char" where
  "digit_char d = char_of (48 + d)"

fun nat_string :: "nat \<Rightarrow> string" where
  "nat_string n = (if n < 10 then [digit_char n] else nat_string (n div 10) @ [digit_char (n mod 10)])"

declare nat_string.simps [simp del]

definition itoa :: "int \<Rightarrow> string" where
  "itoa i = (if i < 0 then CHR ''-'' # nat_string (nat (- i)) else nat_string (nat i))"

lemma of_char_digit_char: "d < 10 \<Longrightarrow> of_char (digit_char d) = 48 + d"
  by (simp add: digit_char_def)

lemma is_digit_digit_char: "d < 10 \<Longrightarrow> is_digit (digit_char d)"
  by (simp add: is_digit_def less_eq_char_def of_char_digit_char)

lemma digit_val_digit_char: "d < 10 \<Longrightarrow> digit_val (digit_char d) = int d"
  by (simp add: digit_val_def of_char_digit_char)

lemma digits_val_append:
  "digits_val acc (xs @ ys) =
     (case digits_val acc xs of None \<Rightarrow> None | Some v \<Rightarrow> digits_val v ys)"
  by (induction acc xs rule: digits_val.induct) auto

lemma digits_val_nat_string: "digits_val 0 (nat_string n) = Some (int n)"
proof (induction n rule: nat_string.induct)
  case (1 n)
  show ?case
  proof (cases "n < 10")
    case True
    then show ?thesis
      by (simp add: nat_string.simps [of n] is_digit_digit_char digit_val_digit_char)
  next
    case False
    with 1 have "digits_val 0 (nat_string (n div 10)) = Some (int (n div 10))" by simp
    moreover have "10 * int (n div 10) + int (n mod 10) = int n" by presburger
    ultimately show ?thesis
      using False
      by (simp add: nat_string.simps [of n] digits_val_append is_digit_digit_char
          digit_val_digit_char)
  qed
qed

lemma nat_string_nonempty [simp]: "nat_string n \<noteq> []"
  by (simp add: nat_string.simps [of n])

lemma nat_string_digits: "\<forall>c \<in> set (nat_string n). is_digit c"
proof (induction n rule: nat_string.induct)
  case (1 n)
  then show ?case
    by (cases "n < 10") (auto simp: nat_string.simps [of n] is_digit_digit_char)
qed

lemma nat_string_inject [simp]: "nat_string m = nat_string n \<longleftrightarrow> m = n"
  by (metis digits_val_nat_string of_nat_eq_iff option.inject)

lemma digit_not_sign: "is_digit c \<Longrightarrow> c \<noteq> CHR ''-'' \<and> c \<noteq> CHR ''+''"
  by (auto simp: is_digit_def less_eq_char_def)

lemma itoa_inject [simp]: "itoa i = itoa j \<longleftrightarrow> i = j"
proof -
  have no: "nat_string n \<noteq> CHR ''-'' # r" for n r
    using nat_string_digits [of n] digit_not_sign by (metis list.set_intros(1))
  show ?thesis
    using no by (auto simp: itoa_def dest: sym)
qed

text \<open>The bounds of a 64-bit Go integer: arithmetic wraps around.\<close>

definition wrap64 :: "int \<Rightarrow> int" where
  "wrap64 x = (x + 2 ^ 63) mod 2 ^ 64 - 2 ^ 63"

lemma wrap64_id: "min_int \<le> x \<Longrightarrow> x \<le> max_int \<Longrightarrow> wrap64 x = x"
  by (simp add: wrap64_def min_int_def max_int_def)

lemma wrap64_range: "min_int \<le> wrap64 x \<and> wrap64 x \<le> max_int"
proof -
  have "0 \<le> (x + 2 ^ 63) mod 2 ^ 64" "(x + 2 ^ 63) mod 2 ^ 64 < (2 ^ 64 :: int)"
    by (rule pos_mod_sign, simp, rule pos_mod_bound, simp)
  then show ?thesis by (simp add: wrap64_def min_int_def max_int_def)
qed

section \<open>Tables and maps\<close>

text \<open>
  An SQL table is the list of its rows. \<open>update_where\<close> is \<^verbatim>\<open>UPDATE ... WHERE\<close>, \<open>count_where\<close> its
  number of matching rows, \<open>delete_where\<close> is \<^verbatim>\<open>DELETE ... WHERE\<close> and \<open>find\<close> the single-row
  \<^verbatim>\<open>SELECT\<close>. A Go map is an association list without duplicate keys, or a HOL map where only
  lookups matter.
\<close>

definition update_where :: "('r \<Rightarrow> bool) \<Rightarrow> ('r \<Rightarrow> 'r) \<Rightarrow> 'r list \<Rightarrow> 'r list" where
  "update_where P f rows = map (\<lambda>r. if P r then f r else r) rows"

definition delete_where :: "('r \<Rightarrow> bool) \<Rightarrow> 'r list \<Rightarrow> 'r list" where
  "delete_where P rows = filter (\<lambda>r. \<not> P r) rows"

definition count_where :: "('r \<Rightarrow> bool) \<Rightarrow> 'r list \<Rightarrow> nat" where
  "count_where P rows = length (filter P rows)"

lemma update_where_simps [simp]:
  "update_where P f [] = []"
  "update_where P f (r # rs) = (if P r then f r else r) # update_where P f rs"
  by (simp_all add: update_where_def)

lemma length_update_where [simp]: "length (update_where P f rows) = length rows"
  by (simp add: update_where_def)

lemma map_update_where [tbl_simps]:
  "(\<And>r. g (f r) = g r) \<Longrightarrow> map g (update_where P f rows) = map g rows"
  by (induction rows) auto

lemma set_update_where: "set (update_where P f rows) = (\<lambda>r. if P r then f r else r) ` set rows"
  by (simp add: update_where_def)

lemma count_where_0 [simp]: "count_where P rows = 0 \<longleftrightarrow> (\<forall>r \<in> set rows. \<not> P r)"
  by (simp add: count_where_def filter_empty_conv)

lemma count_where_Cons [simp]:
  "count_where P (r # rs) = (if P r then Suc (count_where P rs) else count_where P rs)"
  by (simp add: count_where_def)

lemma update_where_no_match: "\<forall>r \<in> set rows. \<not> P r \<Longrightarrow> update_where P f rows = rows"
  by (induction rows) auto

lemma distinct_map_delete_where [tbl_simps]:
  "distinct (map g rows) \<Longrightarrow> distinct (map g (delete_where P rows))"
  by (simp add: delete_where_def distinct_map_filter)

lemma set_delete_where [simp]: "set (delete_where P rows) = {r \<in> set rows. \<not> P r}"
  by (simp add: delete_where_def)

lemma find_update_where:
  assumes "\<And>r. Q (f r) = Q r"
  shows "find Q (update_where P f rows) =
    (case find Q rows of None \<Rightarrow> None | Some r \<Rightarrow> Some (if P r then f r else r))"
  using assms by (induction rows) auto

lemma find_append: "find Q (xs @ ys) = (case find Q xs of None \<Rightarrow> find Q ys | Some r \<Rightarrow> Some r)"
  by (induction xs) auto

lemma find_Some_in: "find P xs = Some x \<Longrightarrow> x \<in> set xs \<and> P x"
  by (auto simp: find_Some_iff)

lemma find_None_all: "find P xs = None \<longleftrightarrow> (\<forall>x \<in> set xs. \<not> P x)"
  by (auto simp: find_None_iff)

section \<open>HTTP responses\<close>

text \<open>
  \<^verbatim>\<open>writeError\<close> and \<^verbatim>\<open>writeJSON\<close> of \<^verbatim>\<open>handlers/helpers.go\<close>: a response is the status code with either
  the error text or the value written as JSON.
\<close>

type_synonym 'a response = "int \<times> (string + 'a)"

abbreviation write_error :: "int \<Rightarrow> string \<Rightarrow> 'a response" where
  "write_error code msg \<equiv> (code, Inl msg)"

abbreviation write_json :: "int \<Rightarrow> 'a \<Rightarrow> 'a response" where
  "write_json code v \<equiv> (code, Inr v)"

end
