(* ===== verification/EnvFile.thy ===== *)
theory EnvFile
  imports Prelude
begin

text \<open>
  The \<^verbatim>\<open>.env\<close> files of a managed project: the line parser and the two rewriters of
  \<^verbatim>\<open>core/template_update.go\<close> (\<^verbatim>\<open>envKey\<close>, \<^verbatim>\<open>parseEnvMap\<close>, \<^verbatim>\<open>newEnvKeys\<close>,
  \<^verbatim>\<open>mergeEnvKeepingValues\<close>), the key readers and the run-user rewriter of
  \<^verbatim>\<open>core/create.go\<close> and \<^verbatim>\<open>core/compose_env.go\<close>. The locale \<open>env_reader\<close> is the contract that
  the two line parsers share: what a reader of keys sees of a file built line by line.
\<close>

section \<open>Definitions\<close>

subsection \<open>The template-update parser\<close>

definition envKey :: "string \<Rightarrow> string" where
  "envKey line =
     (let t = trim_space line in
      if t = [] \<or> has_prefix t ''#'' then []
      else (case cut_at CHR ''='' t of
              None \<Rightarrow> []
            | Some (a, b) \<Rightarrow> if a = [] then [] else trim_space a))"

text \<open>\<^verbatim>\<open>t[strings.IndexByte(t, '=')+1:]\<close>: the whole trimmed line when it has no \<^verbatim>\<open>=\<close>.\<close>

definition env_value :: "string \<Rightarrow> string" where
  "env_value line =
     (let t = trim_space line in
      case cut_at CHR ''='' t of None \<Rightarrow> t | Some (a, b) \<Rightarrow> b)"

definition env_step :: "string \<Rightarrow> (string \<rightharpoonup> string) \<Rightarrow> (string \<rightharpoonup> string)" where
  "env_step line m = (let k = envKey line in if k = [] then m else m(k \<mapsto> env_value line))"

definition parseEnvMap :: "string \<Rightarrow> (string \<rightharpoonup> string)" where
  "parseEnvMap s = fold env_step (split_on newline s) Map.empty"

fun newEnvKeys_loop :: "(string \<rightharpoonup> string) \<Rightarrow> string list \<Rightarrow> string list \<Rightarrow> string list" where
  "newEnvKeys_loop have_keys seen [] = []"
| "newEnvKeys_loop have_keys seen (line # ls) =
     (let k = envKey line in
      if k = [] \<or> k \<in> set seen then newEnvKeys_loop have_keys seen ls
      else if have_keys k = None then k # newEnvKeys_loop have_keys (k # seen) ls
      else newEnvKeys_loop have_keys (k # seen) ls)"

definition newEnvKeys :: "string \<Rightarrow> string \<Rightarrow> string list" where
  "newEnvKeys existing template =
     newEnvKeys_loop (parseEnvMap existing) [] (split_on newline template)"

text \<open>The first loop of \<^verbatim>\<open>mergeEnvKeepingValues\<close>: the rewritten lines and the keys it used.\<close>

fun merge_loop :: "(string \<rightharpoonup> string) \<Rightarrow> string list \<Rightarrow> string list \<times> string list" where
  "merge_loop have_keys [] = ([], [])"
| "merge_loop have_keys (line # ls) =
     (let k = envKey line; (out, used) = merge_loop have_keys ls in
      if k = [] then (line # out, used)
      else (case have_keys k of
              Some v \<Rightarrow> ((k @ ''='' @ v) # out, k # used)
            | None \<Rightarrow> (line # out, used)))"

definition preserved_banner :: string where
  "preserved_banner = ''# --- preserved from your previous .env ---''"

definition mergeEnvKeepingValues :: "string \<Rightarrow> string \<Rightarrow> string" where
  "mergeEnvKeepingValues existing template =
     (let (out, used) = merge_loop (parseEnvMap existing)
            (split_on newline (trim_right template [newline]));
          extra = filter (\<lambda>line. envKey line \<noteq> [] \<and> envKey line \<notin> set used)
            (split_on newline existing)
      in join [newline]
           (if extra = [] then out else out @ [[], preserved_banner] @ extra) @ [newline])"

subsection \<open>The key readers that accept an export prefix\<close>

text \<open>
  \<^verbatim>\<open>readEnvContentKeys\<close> and \<^verbatim>\<open>readDotEnvKeys\<close> strip \<^verbatim>\<open>export\<close>; the second one also drops a key
  that is empty once trimmed.
\<close>

definition exported_key :: "string \<Rightarrow> string option" where
  "exported_key raw =
     (let line = trim_space raw in
      if line = [] \<or> has_prefix line ''#'' then None
      else let line2 = trim_prefix line ''export '' in
        case cut_at CHR ''='' line2 of
          None \<Rightarrow> None
        | Some (a, b) \<Rightarrow> if a = [] then None else Some (trim_space a))"

definition content_keys :: "(string \<Rightarrow> string option) \<Rightarrow> string \<Rightarrow> string set" where
  "content_keys key_of s = {k. \<exists>l \<in> set (split_on newline s). key_of l = Some k}"

definition readEnvContentKeys :: "string \<Rightarrow> string list" where
  "readEnvContentKeys content = List.map_filter exported_key (split_on newline content)"

definition readDotEnvKeys :: "string option \<Rightarrow> string list" where
  "readDotEnvKeys file =
     (case file of None \<Rightarrow> []
      | Some raw \<Rightarrow> filter (\<lambda>k. k \<noteq> []) (List.map_filter exported_key (split_on newline raw)))"

definition composeUserEnvKeys :: "string list" where
  "composeUserEnvKeys =
     [''STACK_UID'', ''STACK_GID'', ''PUID'', ''PGID'', ''UID'', ''GID'', ''USER_UID'', ''USER_GID'']"

definition run_user_value :: "string \<Rightarrow> string \<Rightarrow> string \<Rightarrow> string" where
  "run_user_value uid gid key =
     (if key \<in> set [''STACK_UID'', ''PUID'', ''UID'', ''USER_UID''] then uid else gid)"

definition env_line :: "string \<Rightarrow> string \<Rightarrow> string" where
  "env_line k v = k @ ''='' @ v"

definition numericID :: "string \<Rightarrow> bool" where
  "numericID value = (value \<noteq> [] \<and> (\<forall>c \<in> set value. is_digit c))"

definition mergeRunUserEnv :: "string \<Rightarrow> string \<Rightarrow> string \<Rightarrow> string" where
  "mergeRunUserEnv existing uid gid =
     (let present = readEnvContentKeys existing;
          trimmed = trim_right existing [newline];
          missing = filter (\<lambda>key. key \<notin> set present) composeUserEnvKeys
      in (if trimmed = [] then [] else trimmed @ [newline])
         @ concat (map (\<lambda>key. env_line key (run_user_value uid gid key) @ [newline]) missing))"

subsection \<open>The environment of a compose command\<close>

definition composeRuntimeEnvKeys :: "string list" where
  "composeRuntimeEnvKeys = [''DOCKER_CONFIG'', ''DOCKER_CONTEXT'', ''DOCKER_HOST'', ''HOME'', ''PATH'']"

definition entry_key :: "string \<Rightarrow> string" where
  "entry_key entry = (case cut_at CHR ''='' entry of None \<Rightarrow> entry | Some (a, b) \<Rightarrow> a)"

text \<open>
  \<open>file\<close> is the project's \<^verbatim>\<open>.env\<close> (\<open>None\<close> when it cannot be read), \<open>environ\<close> the process
  environment, \<open>uid\<close> and \<open>gid\<close> the process identity.
\<close>

definition stackManagerUserEnv :: "string option \<Rightarrow> int \<Rightarrow> int \<Rightarrow> string list" where
  "stackManagerUserEnv file uid gid =
     map (\<lambda>key. env_line key (run_user_value (itoa uid) (itoa gid) key))
       (filter (\<lambda>key. key \<notin> set (readDotEnvKeys file)) composeUserEnvKeys)"

definition projectComposeEnv :: "string option \<Rightarrow> string list \<Rightarrow> int \<Rightarrow> int \<Rightarrow> string list" where
  "projectComposeEnv file environ uid gid =
     filter (\<lambda>entry.
         \<not> (entry_key entry \<in> set (readDotEnvKeys file) \<and> entry_key entry \<notin> set composeRuntimeEnvKeys)
         \<and> entry_key entry \<noteq> ''COMPOSE_PROGRESS'') environ
     @ [''COMPOSE_PROGRESS=plain'']
     @ stackManagerUserEnv file uid gid"

section \<open>Lines and contents\<close>

lemma plain_eq [simp]: "plain CHR ''=''"
  by (simp add: plain_def ascii_space_def)

lemma split_on_join_end:
  assumes "ls \<noteq> []" "\<forall>l \<in> set ls. newline \<notin> set l"
  shows "split_on newline (join [newline] ls @ [newline]) = ls @ [[]]"
  using split_on_append_sep [of newline "join [newline] ls" "[]"] split_on_join [OF assms] by simp

lemma split_on_trim_right:
  "\<exists>n. split_on newline s = split_on newline (trim_right s [newline]) @ replicate n []"
proof -
  obtain t where t: "s = trim_right s [newline] @ t" "set t \<subseteq> {newline}"
    using trim_right_decomp [of s "[newline]"] by auto
  have "\<exists>n. split_on newline (a @ t) = split_on newline a @ replicate n []" for a
    using t(2)
  proof (induction t arbitrary: a)
    case Nil
    then show ?case by (intro exI [of _ 0]) simp
  next
    case (Cons c t)
    then have "c = newline" by simp
    moreover obtain n where "split_on newline ([] @ t) = split_on newline [] @ replicate n []"
      using Cons.IH [of "[]"] Cons.prems by auto
    ultimately show ?case
      by (intro exI [of _ "Suc n"]) (simp add: split_on_append_sep)
  qed
  with t(1) show ?thesis by metis
qed

text \<open>
  A reader of keys looks at one line at a time and sees nothing in an empty line. That is
  all a client needs to know of it: what the reader sees of a file built from lines, of a
  file with its trailing newlines cut and of two files put together.
\<close>

locale env_reader =
  fixes key_of :: "string \<Rightarrow> string option"
  assumes key_blank: "key_of [] = None"
begin

lemma content_keys_append:
  "content_keys key_of (a @ newline # b) = content_keys key_of a \<union> content_keys key_of b"
  by (auto simp: content_keys_def split_on_append_sep)

lemma content_keys_trim_right:
  "content_keys key_of (trim_right s [newline]) = content_keys key_of s"
proof -
  obtain n where "split_on newline s = split_on newline (trim_right s [newline]) @ replicate n []"
    using split_on_trim_right by blast
  then show ?thesis by (auto simp: content_keys_def key_blank)
qed

lemma content_keys_blank: "content_keys key_of [] = {}"
  by (simp add: content_keys_def key_blank)

lemma content_keys_line:
  "newline \<notin> set l \<Longrightarrow> content_keys key_of l = set_option (key_of l)"
  by (auto simp: content_keys_def split_on_no_sep_id)

lemma content_keys_lines:
  assumes "\<forall>l \<in> set ls. newline \<notin> set l"
  shows "content_keys key_of (concat (map (\<lambda>l. l @ [newline]) ls)) =
    (\<Union>l \<in> set ls. set_option (key_of l))"
  using assms
proof (induction ls)
  case (Cons l ls)
  then show ?case by (simp add: content_keys_append content_keys_line)
qed (simp add: content_keys_blank)

end

interpretation exported: env_reader exported_key
  by unfold_locales (simp add: exported_key_def)

definition plain_key :: "string \<Rightarrow> string option" where
  "plain_key line = (if envKey line = [] then None else Some (envKey line))"

interpretation plain_env: env_reader plain_key
  by unfold_locales (simp add: plain_key_def envKey_def)

lemma readEnvContentKeys_set: "set (readEnvContentKeys s) = content_keys exported_key s"
  by (force simp: readEnvContentKeys_def content_keys_def List.map_filter_def)

section \<open>One line of the template-update parser\<close>

lemma envKey_cases:
  assumes "envKey line \<noteq> []"
  obtains u v where "line = u @ CHR ''='' # v" "CHR ''='' \<notin> set u"
    "trim_left_space u \<noteq> []" "\<not> has_prefix (trim_left_space u) ''#''"
    "envKey line = trim_right_space (trim_left_space u)"
    "env_value line = trim_right_space v"
proof -
  have "CHR ''='' \<in> set (trim_space line)"
  proof (rule ccontr)
    assume "CHR ''='' \<notin> set (trim_space line)"
    with assms show False by (simp add: envKey_def Let_def split: if_splits)
  qed
  then have "CHR ''='' \<in> set line" using set_trim_space by blast
  then obtain u v where uv: "line = u @ CHR ''='' # v" "CHR ''='' \<notin> set u"
    by (metis split_list_first)
  then have t: "trim_space line = trim_left_space u @ CHR ''='' # trim_right_space v"
    by (simp add: trim_space_barrier)
  have nu: "CHR ''='' \<notin> set (trim_left_space u)"
    using uv(2) set_trim_left_space by blast
  have ts: "trim_space (trim_left_space u) = trim_right_space (trim_left_space u)"
    by (simp add: trim_space_def)
  have c: "cut_at CHR ''='' (trim_space line) = Some (trim_left_space u, trim_right_space v)"
    unfolding t using nu by simp
  have ne: "trim_left_space u \<noteq> []"
    using assms by (auto simp: envKey_def Let_def c split: if_splits)
  then have h: "has_prefix (trim_space line) ''#'' = has_prefix (trim_left_space u) ''#''"
    unfolding t by (cases "trim_left_space u") auto
  have "trim_left_space u \<noteq> [] \<and> \<not> has_prefix (trim_left_space u) ''#''
     \<and> envKey line = trim_right_space (trim_left_space u)"
    using assms ne by (auto simp: envKey_def Let_def c h ts split: if_splits)
  then show ?thesis
    using that [OF uv] by (simp add: env_value_def t nu)
qed

lemma envKey_line:
  assumes "k \<noteq> []" "CHR ''='' \<notin> set k" "trim_left_space k = k" "trim_right_space k = k"
    "\<not> has_prefix k ''#''" "trim_right_space v = v"
  shows "envKey (k @ CHR ''='' # v) = k" "env_value (k @ CHR ''='' # v) = v"
proof -
  have t: "trim_space (k @ CHR ''='' # v) = k @ CHR ''='' # v"
    using assms by (simp add: trim_space_barrier)
  have tk: "trim_space k = k" using assms by (simp add: trim_space_def)
  have "\<not> has_prefix (k @ CHR ''='' # v) ''#''" using assms(1,5) by (cases k) auto
  then show "envKey (k @ CHR ''='' # v) = k" "env_value (k @ CHR ''='' # v) = v"
    using assms by (simp_all add: envKey_def env_value_def t tk)
qed

lemma envKey_shape:
  assumes "envKey line \<noteq> []"
  shows "CHR ''='' \<notin> set (envKey line)" "trim_left_space (envKey line) = envKey line"
    "trim_right_space (envKey line) = envKey line" "\<not> has_prefix (envKey line) ''#''"
    "trim_right_space (env_value line) = env_value line"
    "newline \<notin> set line \<Longrightarrow> newline \<notin> set (envKey line)"
    "newline \<notin> set line \<Longrightarrow> newline \<notin> set (env_value line)"
proof -
  obtain u v where uv: "line = u @ CHR ''='' # v" "CHR ''='' \<notin> set u"
    "trim_left_space u \<noteq> []" "\<not> has_prefix (trim_left_space u) ''#''"
    and k: "envKey line = trim_right_space (trim_left_space u)"
    and val: "env_value line = trim_right_space v"
    using assms by (rule envKey_cases)
  have sub: "set (envKey line) \<subseteq> set u" unfolding k
    using set_trim_right_space set_trim_left_space by blast
  show "CHR ''='' \<notin> set (envKey line)" using sub uv(2) by blast
  show "trim_left_space (envKey line) = envKey line"
    unfolding k by (rule trim_left_trim_right) (rule lead_space_trimmed)
  show "trim_right_space (envKey line) = envKey line" unfolding k by simp
  show "\<not> has_prefix (envKey line) ''#''"
  proof
    obtain p where p: "trim_left_space u = envKey line @ p"
      using trim_right_space_prefix [of "trim_left_space u"] k by auto
    assume "has_prefix (envKey line) ''#''"
    then have "has_prefix (trim_left_space u) ''#''"
      unfolding p by (auto simp: has_prefix_iff)
    with uv(4) show False ..
  qed
  show "trim_right_space (env_value line) = env_value line" unfolding val by simp
  show "newline \<notin> set (envKey line)" if "newline \<notin> set line" using that sub uv(1) by auto
  show "newline \<notin> set (env_value line)" if "newline \<notin> set line"
    using that uv(1) val set_trim_right_space by auto
qed

lemma rewritten_line:
  assumes "envKey line \<noteq> []" "envKey other \<noteq> []"
  shows "envKey (envKey line @ ''='' @ env_value other) = envKey line"
    "env_value (envKey line @ ''='' @ env_value other) = env_value other"
  using envKey_line [OF assms(1) envKey_shape(1,2,3,4) [OF assms(1)] envKey_shape(5) [OF assms(2)]]
  by simp_all

section \<open>Whole files\<close>

definition env_of_lines :: "string list \<Rightarrow> (string \<rightharpoonup> string)" where
  "env_of_lines ls = fold env_step ls Map.empty"

lemma fold_env_step: "fold env_step ls m = m ++ env_of_lines ls"
proof (induction ls arbitrary: m)
  case (Cons l ls)
  have "fold env_step ls (env_step l m) = env_step l m ++ env_of_lines ls" by (rule Cons)
  also have "\<dots> = m ++ (env_step l Map.empty ++ env_of_lines ls)"
    by (auto simp: env_step_def Let_def map_add_def split: option.splits)
  finally show ?case
    using Cons [of "env_step l Map.empty"] by (simp add: env_of_lines_def)
qed (simp add: env_of_lines_def)

lemma env_of_lines_simps [simp]:
  "env_of_lines [] = Map.empty"
  "env_of_lines (l # ls) = env_step l Map.empty ++ env_of_lines ls"
  "env_of_lines (xs @ ys) = env_of_lines xs ++ env_of_lines ys"
  by (simp_all add: env_of_lines_def [of "_ # _"] env_of_lines_def [of "_ @ _"]
      env_of_lines_def [of "[]"] fold_env_step)

lemma env_of_lines_keyless:
  "\<forall>l \<in> set ls. envKey l = [] \<Longrightarrow> env_of_lines ls = Map.empty"
  by (induction ls) (auto simp: env_step_def)

lemma envKey_blank [simp]: "envKey [] = []"
  by (simp add: envKey_def)

lemma dom_env_of_lines: "dom (env_of_lines ls) = {envKey l |l. l \<in> set ls \<and> envKey l \<noteq> []}"
  by (induction ls) (auto simp: env_step_def Let_def)

lemma env_of_lines_SomeD:
  "env_of_lines ls k = Some v \<Longrightarrow> \<exists>l \<in> set ls. envKey l = k \<and> k \<noteq> [] \<and> env_value l = v"
  by (induction ls) (auto simp: env_step_def Let_def map_add_Some_iff split: if_splits)

lemma parseEnvMap_lines: "parseEnvMap s = env_of_lines (split_on newline s)"
  by (simp add: parseEnvMap_def env_of_lines_def)

lemma parseEnvMap_trim_right: "parseEnvMap (trim_right s [newline]) = parseEnvMap s"
proof -
  obtain n where "split_on newline s = split_on newline (trim_right s [newline]) @ replicate n []"
    using split_on_trim_right by blast
  then show ?thesis by (simp add: parseEnvMap_lines env_of_lines_keyless)
qed

lemma parseEnvMap_join:
  assumes "ls \<noteq> []" "\<forall>l \<in> set ls. newline \<notin> set l"
  shows "parseEnvMap (join [newline] ls @ [newline]) = env_of_lines ls"
  by (simp add: parseEnvMap_lines split_on_join_end [OF assms] env_step_def)

lemma envKey_banner: "envKey preserved_banner = []"
proof -
  have "trim_space preserved_banner = preserved_banner"
    unfolding preserved_banner_def by code_simp
  then show ?thesis by (simp add: envKey_def Let_def preserved_banner_def)
qed

subsection \<open>Merging a template into an existing file\<close>

lemma merge_loop_lines:
  assumes "merge_loop m ls = (out, used)"
  shows "set used = {envKey l |l. l \<in> set ls \<and> envKey l \<noteq> []} \<inter> dom m"
    "out = map (\<lambda>l. if envKey l = [] then l
        else (case m (envKey l) of Some v \<Rightarrow> envKey l @ ''='' @ v | None \<Rightarrow> l)) ls"
  using assms
  by (induction ls arbitrary: out used) (auto simp: Let_def split: prod.splits if_splits option.splits)

lemma merged_line:
  assumes "m = env_of_lines ls" "envKey l \<noteq> []" "m (envKey l) = Some v"
  shows "env_step (envKey l @ ''='' @ v) Map.empty = [envKey l \<mapsto> v]"
proof -
  obtain l' where "envKey l' = envKey l" "env_value l' = v"
    using env_of_lines_SomeD [of ls "envKey l" v] assms by auto
  with assms(2) rewritten_line [of l l'] show ?thesis by (simp add: env_step_def)
qed

lemma merged_lines:
  assumes m: "m = env_of_lines es"
  shows "env_of_lines (map (\<lambda>l. if envKey l = [] then l
      else (case m (envKey l) of Some v \<Rightarrow> envKey l @ ''='' @ v | None \<Rightarrow> l)) ls)
    = env_of_lines ls ++ (m |` dom (env_of_lines ls))" (is "env_of_lines (map ?g ls) = _")
proof (induction ls)
  case (Cons l ls)
  consider "envKey l = []" | "envKey l \<noteq> []" "m (envKey l) = None"
    | v where "envKey l \<noteq> []" "m (envKey l) = Some v" by fastforce
  then show ?case
  proof cases
    case 1
    then show ?thesis using Cons by (simp add: env_step_def)
  next
    case 2
    then show ?thesis using Cons
      by (auto simp: env_step_def Let_def map_add_def restrict_map_def fun_eq_iff dom_def
          split: option.splits)
  next
    case 3
    then show ?thesis using Cons merged_line [OF m 3]
      by (auto simp: env_step_def [of l] Let_def map_add_def restrict_map_def fun_eq_iff dom_def
          split: option.splits)
  qed
qed simp

lemma merged_no_newline:
  assumes "\<forall>l \<in> set ls. newline \<notin> set l" "\<forall>l \<in> set es. newline \<notin> set l"
    "m = env_of_lines es" "l \<in> set ls"
  shows "newline \<notin> set (if envKey l = [] then l
      else (case m (envKey l) of Some v \<Rightarrow> envKey l @ ''='' @ v | None \<Rightarrow> l))"
proof (cases "m (envKey l)")
  case (Some v)
  then obtain l' where l': "l' \<in> set es" "envKey l' = envKey l" "envKey l \<noteq> []" "env_value l' = v"
    using env_of_lines_SomeD [of es] assms(3) by blast
  have "newline \<notin> set (envKey l)" using envKey_shape(6) [OF l'(3)] assms(1,4) by blast
  moreover have "newline \<notin> set v" using envKey_shape(7) [of l'] l' assms(2) by auto
  ultimately show ?thesis using Some l'(3) by auto
qed (use assms in auto)

lemma extra_lines:
  assumes "\<And>l. l \<in> set es \<Longrightarrow> P l = (envKey l \<noteq> [] \<and> envKey l \<notin> U)"
  shows "env_of_lines (filter P es) = env_of_lines es |` (- U)"
  using assms
proof (induction es)
  case (Cons l es)
  then show ?case
    by (auto simp: env_step_def Let_def map_add_def restrict_map_def fun_eq_iff
        split: option.splits)
qed (simp add: fun_eq_iff restrict_map_def)

lemma override_parts: "(t ++ m |` dom t) ++ m |` (- (dom t \<inter> dom m)) = t ++ m"
  by (auto simp: fun_eq_iff map_add_def restrict_map_def split: option.splits)

lemma parse_merge:
  "parseEnvMap (mergeEnvKeepingValues existing template) =
     parseEnvMap template ++ parseEnvMap existing"
proof -
  let ?es = "split_on newline existing"
  let ?ts = "split_on newline (trim_right template [newline])"
  let ?m = "env_of_lines ?es"
  obtain out used where loop: "merge_loop ?m ?ts = (out, used)" by fastforce
  let ?extra = "filter (\<lambda>l. envKey l \<noteq> [] \<and> envKey l \<notin> set used) ?es"
  let ?ls = "if ?extra = [] then out else out @ [[], preserved_banner] @ ?extra"
  note out = merge_loop_lines(2) [OF loop] and used = merge_loop_lines(1) [OF loop]
  have used': "set used = dom (env_of_lines ?ts) \<inter> dom ?m"
    unfolding used by (simp only: dom_env_of_lines)
  have out_env: "env_of_lines out = env_of_lines ?ts ++ (?m |` dom (env_of_lines ?ts))"
    unfolding out by (rule merged_lines) simp
  have extra_env: "env_of_lines ?extra = ?m |` (- set used)" by (rule extra_lines) simp
  have env: "env_of_lines ?ls = env_of_lines out ++ env_of_lines ?extra"
    by (simp add: env_step_def envKey_banner)
  have "\<forall>l \<in> set out. newline \<notin> set l"
    using merged_no_newline [of ?ts ?es ?m] split_on_no_sep [of _ newline]
    unfolding out set_map by blast
  then have clean: "\<forall>l \<in> set ?ls. newline \<notin> set l"
    using split_on_no_sep [of _ newline] by (auto simp: preserved_banner_def)
  have ne: "?ls \<noteq> []" unfolding out by simp
  have eq: "mergeEnvKeepingValues existing template = join [newline] ?ls @ [newline]"
    by (simp only: mergeEnvKeepingValues_def parseEnvMap_lines [of existing] loop Let_def prod.case)
  have "parseEnvMap (mergeEnvKeepingValues existing template) = env_of_lines ?ls"
    unfolding eq by (rule parseEnvMap_join [OF ne clean])
  also have "\<dots> = (env_of_lines ?ts ++ ?m |` dom (env_of_lines ?ts)) ++
      ?m |` (- (dom (env_of_lines ?ts) \<inter> dom ?m))"
    unfolding env out_env extra_env by (simp only: used')
  also have "\<dots> = env_of_lines ?ts ++ ?m" by (rule override_parts)
  finally show ?thesis
    using parseEnvMap_trim_right [of template] by (simp add: parseEnvMap_lines)
qed

text \<open>
  Property C19. Replacing a project's \<^verbatim>\<open>.env\<close> by the merge of its old contents with the template's loses
  nothing: reading the new file back gives the old value of every key that had one, the
  template's value of every other key of the template, and no other key. In particular keys
  that the template dropped survive, whatever comments, blanks and duplicate lines the two
  files hold.
\<close>

theorem mergeEnvKeepingValues_correct:
  "parseEnvMap (mergeEnvKeepingValues existing template) =
     parseEnvMap template ++ parseEnvMap existing"
  by (rule parse_merge)

subsection \<open>New keys\<close>

lemma newEnvKeys_loop_props:
  "set (newEnvKeys_loop m seen ls) =
     {envKey l |l. l \<in> set ls \<and> envKey l \<noteq> []} - dom m - set seen"
  "distinct (newEnvKeys_loop m seen ls)"
proof (induction ls arbitrary: seen)
  case (Cons l ls)
  { case 1
    show ?case using Cons.IH(1) by (auto simp: Let_def)
  next
    case 2
    show ?case using Cons.IH by (auto simp: Let_def)
  }
qed simp_all

text \<open>
  The keys that a template update announces are exactly the ones it introduces: the keys
  the template sets and the project's file does not, each once; and once the merge has been
  written, a second preview announces none.
\<close>

theorem newEnvKeys_correct:
  "set (newEnvKeys existing template) = dom (parseEnvMap template) - dom (parseEnvMap existing)
   \<and> distinct (newEnvKeys existing template)
   \<and> newEnvKeys (mergeEnvKeepingValues existing template) template = []"
proof -
  have s: "set (newEnvKeys e t) = dom (parseEnvMap t) - dom (parseEnvMap e)" for e t
    unfolding newEnvKeys_def
    by (simp only: newEnvKeys_loop_props parseEnvMap_lines dom_env_of_lines) auto
  moreover have "newEnvKeys (mergeEnvKeepingValues existing template) template = []"
    unfolding set_empty [symmetric] s parse_merge by auto
  moreover have "distinct (newEnvKeys existing template)"
    by (simp add: newEnvKeys_def newEnvKeys_loop_props)
  ultimately show ?thesis by simp
qed

subsection \<open>The run-as user\<close>

lemma is_digit_plain: "is_digit c \<Longrightarrow> plain c \<and> c \<noteq> newline"
  by (auto simp: is_digit_def plain_def ascii_space_def less_eq_char_def less_char_def)

lemma user_key_plain: "k \<in> set composeUserEnvKeys \<Longrightarrow> \<forall>c \<in> set k. plain c"
  unfolding composeUserEnvKeys_def plain_def ascii_space_def by (auto simp: less_char_def)

lemma user_key_shape:
  assumes "k \<in> set composeUserEnvKeys"
  shows "k \<noteq> []" "CHR ''='' \<notin> set k" "\<not> has_prefix k ''#''" "newline \<notin> set k" "hd k \<noteq> CHR ''e''"
  using assms by (auto simp: composeUserEnvKeys_def)

lemma trim_sides_plain:
  assumes "\<forall>c \<in> set s. plain c"
  shows "trim_left_space s = s" "trim_right_space s = s"
proof -
  have "trim_space s = s" using assms by (rule trim_space_plain)
  then show "trim_left_space s = s" by (metis trim_left_space_trim_space)
  then show "trim_right_space s = s" using \<open>trim_space s = s\<close> by (simp add: trim_space_def)
qed

lemma exported_key_of_envKey:
  assumes "envKey line = k" "k \<noteq> []" "hd k \<noteq> CHR ''e''"
  shows "exported_key line = Some k"
proof -
  obtain u v where uv: "line = u @ CHR ''='' # v" "CHR ''='' \<notin> set u"
    "trim_left_space u \<noteq> []" "\<not> has_prefix (trim_left_space u) ''#''"
    "envKey line = trim_right_space (trim_left_space u)"
    using envKey_cases [of line] assms by metis
  let ?w = "trim_left_space u"
  have t: "trim_space line = ?w @ CHR ''='' # trim_right_space v"
    using uv(1) by (simp add: trim_space_barrier)
  have nw: "CHR ''='' \<notin> set ?w" using uv(2) set_trim_left_space by blast
  obtain p where p: "?w = k @ p" using trim_right_space_prefix [of ?w] uv(5) assms(1) by auto
  then have "hd ?w \<noteq> CHR ''e''" using assms by simp
  then have ne: "\<not> has_prefix (trim_space line) ''export ''" "\<not> has_prefix (trim_space line) ''#''"
    using uv(3,4) unfolding t by (cases ?w; auto)+
  have "trim_space ?w = k" using uv(5) assms(1) by (simp add: trim_space_def)
  with ne nw uv(3) show ?thesis
    by (simp add: exported_key_def Let_def trim_prefix_def t)
qed

lemma user_line:
  assumes "k \<in> set composeUserEnvKeys" "\<forall>c \<in> set v. is_digit c"
  shows "envKey (env_line k v) = k" "env_value (env_line k v) = v"
    "exported_key (env_line k v) = Some k" "newline \<notin> set (env_line k v)"
proof -
  have "\<forall>c \<in> set v. plain c" using assms(2) is_digit_plain by blast
  then have "trim_right_space v = v" by (rule trim_sides_plain)
  then show "envKey (env_line k v) = k" "env_value (env_line k v) = v"
    using envKey_line [OF user_key_shape(1,2) [OF assms(1)]
        trim_sides_plain [OF user_key_plain [OF assms(1)]] user_key_shape(3) [OF assms(1)]]
    by (simp_all add: env_line_def)
  then show "exported_key (env_line k v) = Some k"
    using exported_key_of_envKey user_key_shape(1,5) [OF assms(1)] by blast
  show "newline \<notin> set (env_line k v)"
    using user_key_shape(4) [OF assms(1)] assms(2) is_digit_plain by (auto simp: env_line_def)
qed

lemma parseEnvMap_append: "parseEnvMap (a @ newline # b) = parseEnvMap a ++ parseEnvMap b"
  by (simp add: parseEnvMap_lines split_on_append_sep)

lemma parseEnvMap_concat:
  "\<forall>l \<in> set ls. newline \<notin> set l \<Longrightarrow>
   parseEnvMap (concat (map (\<lambda>l. l @ [newline]) ls)) = env_of_lines ls"
proof (induction ls)
  case (Cons l ls)
  then show ?case
    by (simp add: parseEnvMap_append) (simp add: parseEnvMap_lines split_on_no_sep_id)
qed (simp add: parseEnvMap_lines env_step_def)

lemma env_of_user_lines:
  assumes "set ks \<subseteq> set composeUserEnvKeys" "\<And>k. \<forall>c \<in> set (f k). is_digit c"
  shows "env_of_lines (map (\<lambda>k. env_line k (f k)) ks) k = (if k \<in> set ks then Some (f k) else None)"
  using assms(1)
  by (induction ks) (auto simp: env_step_def Let_def user_line assms(2) user_key_shape(1)
      map_add_def split: option.splits)

text \<open>The file before the appended lines: the old contents up to their trailing newlines.\<close>

lemma mergeRunUserEnv_parts:
  fixes e uid gid :: string
  assumes "numericID uid" "numericID gid"
  defines "f \<equiv> run_user_value uid gid"
  defines "missing \<equiv> filter (\<lambda>k. k \<notin> set (readEnvContentKeys e)) composeUserEnvKeys"
  shows "parseEnvMap (mergeRunUserEnv e uid gid) =
      parseEnvMap e ++ env_of_lines (map (\<lambda>k. env_line k (f k)) missing)"
    "content_keys exported_key (mergeRunUserEnv e uid gid) =
      content_keys exported_key e \<union> set missing"
proof -
  let ?tr = "trim_right e [newline]" and ?ls = "map (\<lambda>k. env_line k (f k)) missing"
  let ?tail = "concat (map (\<lambda>l. l @ [newline]) ?ls)"
  have digits: "\<forall>c \<in> set (f k). is_digit c" for k
    using assms(1,2) by (simp add: f_def run_user_value_def numericID_def)
  have sub: "set missing \<subseteq> set composeUserEnvKeys" by (auto simp: missing_def)
  have nn: "\<forall>l \<in> set ?ls. newline \<notin> set l" using user_line(4) sub digits by auto
  have m: "mergeRunUserEnv e uid gid = (if ?tr = [] then [] else ?tr @ [newline]) @ ?tail"
    by (simp add: mergeRunUserEnv_def Let_def missing_def f_def comp_def)
  have blank: "parseEnvMap [] = Map.empty" by (simp add: parseEnvMap_lines env_step_def)
  show "parseEnvMap (mergeRunUserEnv e uid gid) = parseEnvMap e ++ env_of_lines ?ls"
    unfolding m parseEnvMap_trim_right [of e, symmetric]
    by (cases "?tr = []") (simp_all add: parseEnvMap_append parseEnvMap_concat [OF nn] blank del: map_map)
  have "content_keys exported_key ?tail = set missing"
    unfolding exported.content_keys_lines [OF nn] using sub digits
    by (auto simp: user_line subset_iff)
  then show "content_keys exported_key (mergeRunUserEnv e uid gid) =
      content_keys exported_key e \<union> set missing"
    unfolding m exported.content_keys_trim_right [of e, symmetric]
    by (cases "?tr = []") (simp_all add: exported.content_keys_append exported.content_keys_blank del: map_map)
qed

text \<open>
  Completing a new project's \<^verbatim>\<open>.env\<close> with the run-as user makes each of the eight user
  keys defined exactly once more and overwrites none: the keys read back are the old ones and
  the eight, a value the file already had is kept, and a key it lacked gets the UID or the GID.
\<close>

theorem mergeRunUserEnv_correct:
  assumes "numericID uid" "numericID gid"
  shows "set (readEnvContentKeys (mergeRunUserEnv e uid gid)) =
      set (readEnvContentKeys e) \<union> set composeUserEnvKeys
    \<and> parseEnvMap (mergeRunUserEnv e uid gid) k =
      (case parseEnvMap e k of
         Some v \<Rightarrow> Some v
       | None \<Rightarrow> if k \<in> set composeUserEnvKeys \<and> k \<notin> set (readEnvContentKeys e)
                 then Some (run_user_value uid gid k) else None)" (is "?keys \<and> ?vals")
proof
  let ?missing = "filter (\<lambda>k. k \<notin> set (readEnvContentKeys e)) composeUserEnvKeys"
  note parts = mergeRunUserEnv_parts [OF assms, of e]
  show ?keys using parts(2) by (auto simp: readEnvContentKeys_set)
  have "parseEnvMap e k = None" if "k \<in> set ?missing"
  proof (rule ccontr)
    assume "parseEnvMap e k \<noteq> None"
    then obtain l where l: "l \<in> set (split_on newline e)" "envKey l = k" "k \<noteq> []"
      using env_of_lines_SomeD by (fastforce simp: parseEnvMap_lines)
    then have "exported_key l = Some k"
      using exported_key_of_envKey user_key_shape(5) that by auto
    with l(1) that show False by (auto simp: readEnvContentKeys_set content_keys_def)
  qed
  moreover have "env_of_lines (map (\<lambda>k. env_line k (run_user_value uid gid k)) ?missing) k =
      (if k \<in> set ?missing then Some (run_user_value uid gid k) else None)"
    using assms by (intro env_of_user_lines) (auto simp: run_user_value_def numericID_def)
  ultimately show ?vals
    unfolding parts(1) by (auto simp: map_add_def split: option.splits)
qed

theorem mergeRunUserEnv_correct_witness:
  "set (readEnvContentKeys (mergeRunUserEnv ''PUID=7'' ''1000'' ''1000'')) =
     set (readEnvContentKeys ''PUID=7'') \<union> set composeUserEnvKeys
   \<and> parseEnvMap (mergeRunUserEnv ''PUID=7'' ''1000'' ''1000'') ''PUID'' = Some ''7''"
proof -
  have n: "numericID ''1000''" by (simp add: numericID_def is_digit_def less_eq_char_def)
  have p: "parseEnvMap ''PUID=7'' ''PUID'' = Some ''7''" by code_simp
  show ?thesis using mergeRunUserEnv_correct [OF n n, of "''PUID=7''" "''PUID''"] p by simp
qed

subsection \<open>Compose commands\<close>



end
