(* ===== verification/GoTime.thy ===== *)
theory GoTime
  imports Prelude
begin

text \<open>
  The part of Go's package \<^verbatim>\<open>time\<close> that the scheduler uses. An instant (\<^verbatim>\<open>time.Time\<close>) is its
  number of nanoseconds since the Unix epoch, a \<^verbatim>\<open>time.Duration\<close> a number of nanoseconds. A
  \<^verbatim>\<open>time.Location\<close> is its \<^verbatim>\<open>lookup\<close> function: for a number of seconds since the epoch, the
  offset from UTC in force and the interval (start included, end excluded) in which that
  offset applies. The time zone database is data of the Go distribution, so a location is an
  argument of every function that uses one; \<open>zone_of\<close> builds one from a list of transitions.
  Calendar dates are proleptic Gregorian, as in Go, and \<open>go_date\<close> normalises months and days out
  of range as \<^verbatim>\<open>time.Date\<close> does.
\<close>

type_synonym instant = int
type_synonym duration = int
type_synonym location = "int \<Rightarrow> int \<times> int \<times> int"

section \<open>Definitions\<close>

abbreviation second :: duration where "second \<equiv> 1000000000"
abbreviation minute :: duration where "minute \<equiv> 60000000000"
abbreviation hour :: duration where "hour \<equiv> 3600000000000"

text \<open>The zero \<^verbatim>\<open>time.Time\<close> is the first of January of the year 1, 00:00 UTC.\<close>

definition zero_time :: instant where "zero_time = - 62135596800 * second"

definition is_zero :: "instant \<Rightarrow> bool" where "is_zero t = (t = zero_time)"

subsection \<open>Locations\<close>

abbreviation alpha :: int where "alpha \<equiv> min_int"
abbreviation omega :: int where "omega \<equiv> max_int"

definition utc :: location where "utc s = (0, alpha, omega)"

text \<open>\<open>zone_of off start ts\<close>: offset \<open>off\<close> from \<open>start\<close> until the first transition of \<open>ts\<close>.\<close>

fun zone_from :: "int \<Rightarrow> int \<Rightarrow> (int \<times> int) list \<Rightarrow> location" where
  "zone_from off start [] s = (off, start, omega)"
| "zone_from off start ((w, off2) # ts) s =
     (if s < w then (off, start, w) else zone_from off2 w ts s)"

definition zone_of :: "int \<Rightarrow> (int \<times> int) list \<Rightarrow> location" where
  "zone_of off ts = zone_from off alpha ts"

definition offset_at :: "location \<Rightarrow> int \<Rightarrow> int" where
  "offset_at loc s = fst (loc s)"

subsection \<open>The calendar\<close>

definition is_leap :: "int \<Rightarrow> bool" where
  "is_leap y = (y mod 4 = 0 \<and> (y mod 100 \<noteq> 0 \<or> y mod 400 = 0))"

text \<open>Days from the first of January of the year 1 to that of the year \<open>y\<close>.\<close>

definition days_before_year :: "int \<Rightarrow> int" where
  "days_before_year y = 365 * (y - 1) + (y - 1) div 4 - (y - 1) div 100 + (y - 1) div 400"

text \<open>Days of the year before the month \<open>m\<close> (1 to 13).\<close>

definition days_before_month :: "bool \<Rightarrow> int \<Rightarrow> int" where
  "days_before_month leap m =
     (if m \<le> 1 then 0 else if m = 2 then 31
      else (if leap then 1 else 0) +
        (if m = 3 then 59 else if m = 4 then 90 else if m = 5 then 120 else if m = 6 then 151
         else if m = 7 then 181 else if m = 8 then 212 else if m = 9 then 243
         else if m = 10 then 273 else if m = 11 then 304 else if m = 12 then 334 else 365))"

definition month_length :: "int \<Rightarrow> int \<Rightarrow> int" where
  "month_length y m = days_before_month (is_leap y) (m + 1) - days_before_month (is_leap y) m"

definition epoch_days :: int where "epoch_days = 719162"

text \<open>Days since the epoch of a date, its month and day normalised.\<close>

definition days_of_civil :: "int \<Rightarrow> int \<Rightarrow> int \<Rightarrow> int" where
  "days_of_civil year month day =
     (let y = year + (month - 1) div 12; m = (month - 1) mod 12 + 1
      in days_before_year y + days_before_month (is_leap y) m + (day - 1) - epoch_days)"

definition year_yday :: "int \<Rightarrow> int \<times> int" where
  "year_yday n =
     (let n400 = n div 146097; r400 = n mod 146097;
          n100 = min 3 (r400 div 36524); r100 = r400 - n100 * 36524;
          n4 = r100 div 1461; r4 = r100 mod 1461;
          n1 = min 3 (r4 div 365); yday = r4 - n1 * 365
      in (400 * n400 + 100 * n100 + 4 * n4 + n1 + 1, yday))"

definition month_of_yday :: "bool \<Rightarrow> int \<Rightarrow> int" where
  "month_of_yday leap yday =
     (if yday < days_before_month leap 2 then 1 else if yday < days_before_month leap 3 then 2
      else if yday < days_before_month leap 4 then 3 else if yday < days_before_month leap 5 then 4
      else if yday < days_before_month leap 6 then 5 else if yday < days_before_month leap 7 then 6
      else if yday < days_before_month leap 8 then 7 else if yday < days_before_month leap 9 then 8
      else if yday < days_before_month leap 10 then 9 else if yday < days_before_month leap 11 then 10
      else if yday < days_before_month leap 12 then 11 else 12)"

definition civil_of_days :: "int \<Rightarrow> int \<times> int \<times> int" where
  "civil_of_days d =
     (let (y, yday) = year_yday (d + epoch_days); m = month_of_yday (is_leap y) yday
      in (y, m, yday - days_before_month (is_leap y) m + 1))"

definition weekday_of_days :: "int \<Rightarrow> int" where
  "weekday_of_days d = (d + 4) mod 7"

subsection \<open>Dates in a location\<close>

text \<open>Seconds of a wall clock reading, as if it were UTC.\<close>

definition wall_seconds :: "int \<Rightarrow> int \<Rightarrow> int \<Rightarrow> int \<Rightarrow> int \<Rightarrow> int \<Rightarrow> int" where
  "wall_seconds year month day h mi s =
     days_of_civil year month day * 86400 + h * 3600 + mi * 60 + s"

text \<open>
  How \<^verbatim>\<open>time.Date\<close> turns a wall clock reading into seconds since the epoch: it looks the
  reading up as if it were UTC, and once more at the instant so found when that lies outside
  the interval of the offset it got.
\<close>

definition resolve_wall :: "location \<Rightarrow> int \<Rightarrow> int" where
  "resolve_wall loc unix =
     (case loc unix of (offset, start, end_) \<Rightarrow>
        if offset \<noteq> 0 then
          let u = unix - offset in
          if u < start \<or> end_ \<le> u then unix - offset_at loc u else u
        else unix)"

definition go_date :: "location \<Rightarrow> int \<Rightarrow> int \<Rightarrow> int \<Rightarrow> int \<Rightarrow> int \<Rightarrow> instant" where
  "go_date loc year month day h mi =
     resolve_wall loc (wall_seconds year month day h mi 0) * second"

text \<open>The wall clock of an instant: seconds as if UTC, and the fields of \<^verbatim>\<open>t.In(loc)\<close>.\<close>

definition local_seconds :: "location \<Rightarrow> instant \<Rightarrow> int" where
  "local_seconds loc t = (let s = t div second in s + offset_at loc s)"

definition local_days :: "location \<Rightarrow> instant \<Rightarrow> int" where
  "local_days loc t = local_seconds loc t div 86400"

definition local_year :: "location \<Rightarrow> instant \<Rightarrow> int" where
  "local_year loc t = fst (civil_of_days (local_days loc t))"

definition local_month :: "location \<Rightarrow> instant \<Rightarrow> int" where
  "local_month loc t = fst (snd (civil_of_days (local_days loc t)))"

definition local_day :: "location \<Rightarrow> instant \<Rightarrow> int" where
  "local_day loc t = snd (snd (civil_of_days (local_days loc t)))"

definition local_weekday :: "location \<Rightarrow> instant \<Rightarrow> int" where
  "local_weekday loc t = weekday_of_days (local_days loc t)"

definition local_clock :: "location \<Rightarrow> instant \<Rightarrow> int" where
  "local_clock loc t = local_seconds loc t mod 86400"

text \<open>\<^verbatim>\<open>t.AddDate(0, 0, n)\<close>: the same clock reading, \<open>n\<close> days later, in the instant's location.\<close>

definition add_days :: "location \<Rightarrow> instant \<Rightarrow> int \<Rightarrow> instant" where
  "add_days loc t n =
     resolve_wall loc
       (days_of_civil (local_year loc t) (local_month loc t) (local_day loc t + n) * 86400
        + local_clock loc t) * second + t mod second"

section \<open>The calendar, forwards and backwards\<close>

lemma days_before_year_parts:
  assumes "0 \<le> b" "b \<le> 3" "0 \<le> c" "c \<le> 24" "0 \<le> d" "d \<le> 3"
  shows "days_before_year (400 * a + 100 * b + 4 * c + d + 1) =
    146097 * a + 36524 * b + 1461 * c + 365 * d"
proof -
  let ?n = "400 * a + 100 * b + 4 * c + d"
  have "?n div 4 = 100 * a + 25 * b + c"
    by (rule int_div_pos_eq [where r = d]) (use assms in auto)
  moreover have "?n div 100 = 4 * a + b"
    by (rule int_div_pos_eq [where r = "4 * c + d"]) (use assms in auto)
  moreover have "?n div 400 = a"
    by (rule int_div_pos_eq [where r = "100 * b + 4 * c + d"]) (use assms in auto)
  ultimately show ?thesis by (simp add: days_before_year_def)
qed

lemma is_leap_parts:
  assumes "0 \<le> b" "b \<le> 3" "0 \<le> c" "c \<le> 24" "0 \<le> d" "d \<le> 3"
  shows "is_leap (400 * a + 100 * b + 4 * c + d + 1) \<longleftrightarrow> d = 3 \<and> (c = 24 \<longrightarrow> b = 3)"
proof -
  let ?y = "400 * a + 100 * b + 4 * c + d + 1"
  have zero: "(k * q + r + 1) mod k = 0 \<longleftrightarrow> r + 1 = k" if "0 \<le> r" "r < k" for k q r :: int
  proof -
    have "(k * q + r + 1) mod k = (r + 1) mod k"
      using mod_mult_self4 [of k q "r + 1"] by (simp add: add.assoc)
    then show ?thesis using that by (cases "r + 1 = k") auto
  qed
  have "?y mod 4 = 0 \<longleftrightarrow> d = 3"
    using zero [of d 4 "100 * a + 25 * b + c"] assms by (simp add: algebra_simps)
  moreover have "?y mod 100 = 0 \<longleftrightarrow> d = 3 \<and> c = 24"
  proof -
    have "4 * c + d + 1 = 100 \<longleftrightarrow> d = 3 \<and> c = 24" using assms by presburger
    then show ?thesis
      using zero [of "4 * c + d" 100 "4 * a + b"] assms by (simp add: algebra_simps)
  qed
  moreover have "?y mod 400 = 0 \<longleftrightarrow> d = 3 \<and> c = 24 \<and> b = 3"
  proof -
    have "d = 3" "c = 24" "b = 3" if "100 * b + 4 * c + d + 1 = 400" using that assms by linarith+
    then have "100 * b + 4 * c + d + 1 = 400 \<longleftrightarrow> d = 3 \<and> c = 24 \<and> b = 3" by auto
    then show ?thesis
      using zero [of "100 * b + 4 * c + d" 400 a] assms by (simp add: algebra_simps)
  qed
  ultimately show ?thesis by (auto simp: is_leap_def)
qed

definition year_length :: "int \<Rightarrow> int" where
  "year_length y = (if is_leap y then 366 else 365)"

lemma clipped_quotient:
  assumes "0 < (k :: int)" "0 \<le> r" "r \<le> 4 * k"
  shows "0 \<le> min 3 (r div k)" "0 \<le> r - min 3 (r div k) * k" "r - min 3 (r div k) * k \<le> k"
    "min 3 (r div k) \<noteq> 3 \<longrightarrow> r - min 3 (r div k) * k < k"
proof -
  define q where "q = r div k"
  define m where "m = r mod k"
  have r: "r = k * q + m" "0 \<le> m" "m < k" "0 \<le> q" using assms by (simp_all add: q_def m_def
      pos_imp_zdiv_nonneg_iff)
  show "0 \<le> min 3 (r div k)" using r by (simp add: q_def [symmetric])
  have *: "0 \<le> r - min 3 q * k \<and> r - min 3 q * k \<le> k \<and> (min 3 q \<noteq> 3 \<longrightarrow> r - min 3 q * k < k)"
  proof (cases "3 \<le> q")
    case True
    then have "min 3 q = 3" by simp
    moreover have "k * 3 \<le> k * q" using True assms(1) by simp
    then have "0 \<le> r - 3 * k" using r(1,2) by linarith
    ultimately show ?thesis using assms(3) by simp
  next
    case False
    with r show ?thesis by (auto simp: min_def algebra_simps)
  qed
  then show "0 \<le> r - min 3 (r div k) * k" "r - min 3 (r div k) * k \<le> k"
    "min 3 (r div k) \<noteq> 3 \<longrightarrow> r - min 3 (r div k) * k < k"
    unfolding q_def by blast+
qed

lemma year_yday_correct:
  assumes "year_yday n = (y, yd)"
  shows "days_before_year y + yd = n" "0 \<le> yd" "yd < year_length y"
proof -
  define a where "a = n div 146097"
  define r where "r = n mod 146097"
  define b where "b = min 3 (r div 36524)"
  define r1 where "r1 = r - b * 36524"
  define c where "c = r1 div 1461"
  define r2 where "r2 = r1 mod 1461"
  define d where "d = min 3 (r2 div 365)"
  have "year_yday n = (400 * a + 100 * b + 4 * c + d + 1, r2 - d * 365)"
    unfolding year_yday_def Let_def a_def r_def b_def r1_def c_def r2_def d_def by (rule refl)
  with assms have y: "y = 400 * a + 100 * b + 4 * c + d + 1" and yd: "yd = r2 - d * 365"
    by (simp_all only: prod.inject)
  have r: "0 \<le> r" "r < 146097" "n = 146097 * a + r" by (simp_all add: r_def a_def)
  have "r \<le> 4 * 36524" using r(2) by linarith
  note b = clipped_quotient [of 36524 r, folded b_def, folded r1_def, OF _ r(1) this, simplified]
  have b3: "b \<le> 3" "d \<le> 3" by (simp_all add: b_def d_def)
  have r1: "r1 = 1461 * c + r2" "0 \<le> r2" "r2 < 1461" by (simp_all add: c_def r2_def)
  have c: "0 \<le> c" "c \<le> 24" using b(2,3) r1 by linarith+
  have "r2 \<le> 4 * 365" using r1(3) by linarith
  note d = clipped_quotient [of 365 r2, folded d_def, folded yd, OF _ r1(2) this, simplified]
  show "days_before_year y + yd = n"
    unfolding y days_before_year_parts [OF b(1) b3(1) c d(1) b3(2)] yd using r(3) r1(1) r1_def by linarith
  show "0 \<le> yd" by (rule d(2))
  have "yd = 365 \<longrightarrow> is_leap y"
    unfolding y is_leap_parts [OF b(1) b3(1) c d(1) b3(2)] using d b r1 yd c b3 by linarith
  then show "yd < year_length y" using d(3) by (auto simp: year_length_def)
qed

lemma days_before_year_Suc: "days_before_year (y + 1) = days_before_year y + year_length y"
proof -
  have step: "y div k - (y - 1) div k = (if y mod k = 0 then 1 else 0)" if "1 < k" for k
  proof -
    have y: "y = k * (y div k) + y mod k" "0 \<le> y mod k" "y mod k < k" using that by auto
    show ?thesis
    proof (cases "y mod k = 0")
      case True
      have "(y - 1) div k = y div k - 1"
        by (rule int_div_pos_eq [where r = "k - 1"]) (use y True that in \<open>auto simp: algebra_simps\<close>)
      with True show ?thesis by simp
    next
      case False
      have "(y - 1) div k = y div k"
        by (rule int_div_pos_eq [where r = "y mod k - 1"]) (use y False in auto)
      with False show ?thesis by simp
    qed
  qed
  have "y mod 400 = 0 \<longrightarrow> y mod 100 = 0" "y mod 100 = 0 \<longrightarrow> y mod 4 = 0"
    by (auto simp: mod_eq_0_iff_dvd intro: dvd_trans)
  moreover have "days_before_year (y + 1) - days_before_year y = 365 + (y div 4 - (y - 1) div 4)
      - (y div 100 - (y - 1) div 100) + (y div 400 - (y - 1) div 400)"
    by (simp add: days_before_year_def algebra_simps)
  then have "days_before_year (y + 1) - days_before_year y = 365 + (if y mod 4 = 0 then 1 else 0)
      - (if y mod 100 = 0 then 1 else 0) + (if y mod 400 = 0 then 1 else 0)"
    by (simp only: step)
  ultimately show ?thesis by (simp add: year_length_def is_leap_def split: if_splits)
qed

lemma days_before_year_mono:
  assumes "y < z"
  shows "days_before_year y + year_length y \<le> days_before_year z"
proof -
  have "days_before_year (y + 1) \<le> days_before_year (y + 1 + int k)" for k
  proof (induction k)
    case (Suc k)
    have "days_before_year (y + 1 + int k + 1) \<ge> days_before_year (y + 1 + int k)"
      unfolding days_before_year_Suc [of "y + 1 + int k"] by (simp add: year_length_def)
    with Suc show ?case by (simp add: algebra_simps)
  qed simp
  from this [of "nat (z - (y + 1))"] assms show ?thesis
    by (simp add: days_before_year_Suc)
qed

lemma year_yday_unique:
  assumes "0 \<le> yd" "yd < year_length y"
  shows "year_yday (days_before_year y + yd) = (y, yd)"
proof -
  obtain z zd where z: "year_yday (days_before_year y + yd) = (z, zd)" by fastforce
  note c = year_yday_correct [OF z]
  have "\<not> y < z" using days_before_year_mono [of y z] c assms by auto
  moreover have "\<not> z < y" using days_before_year_mono [of z y] c assms by auto
  ultimately have "y = z" by simp
  with c(1) z show ?thesis by simp
qed

lemma month_cases:
  assumes "1 \<le> m" "m \<le> (12 :: int)"
  obtains "m = 1" | "m = 2" | "m = 3" | "m = 4" | "m = 5" | "m = 6" | "m = 7" | "m = 8"
    | "m = 9" | "m = 10" | "m = 11" | "m = 12"
proof -
  have "m \<in> {1..12}" using assms by simp
  also have "{1..12} = {1, 2, 3, 4, 5, 6, 7, 8, 9, 10, 11, 12 :: int}" by (simp add: set_eq_iff) presburger
  finally show ?thesis using that by auto
qed

lemma month_length_range:
  assumes "1 \<le> m" "m \<le> 12"
  shows "28 \<le> month_length y m" "month_length y m \<le> 31"
  by (cases rule: month_cases [OF assms]; simp add: month_length_def days_before_month_def)+

lemma month_of_yday_unique:
  assumes "1 \<le> m" "m \<le> 12" "days_before_month leap m \<le> yd" "yd < days_before_month leap (m + 1)"
  shows "month_of_yday leap yd = m"
  using assms(3,4)
  by (cases rule: month_cases [OF assms(1,2)]; cases leap)
    (simp_all add: month_of_yday_def days_before_month_def)

lemma bracket_exists:
  fixes f :: "int \<Rightarrow> int"
  assumes "f 1 \<le> x" "x < f (1 + int k)"
  shows "\<exists>m. 1 \<le> m \<and> m \<le> int k \<and> f m \<le> x \<and> x < f (m + 1)"
  using assms(2)
proof (induction k)
  case (Suc k)
  show ?case
  proof (cases "x < f (1 + int k)")
    case True
    with Suc.IH obtain m where "1 \<le> m \<and> m \<le> int k \<and> f m \<le> x \<and> x < f (m + 1)" by blast
    then show ?thesis by auto
  next
    case False
    then show ?thesis using Suc.prems by (intro exI [of _ "1 + int k"]) (auto simp: algebra_simps)
  qed
qed (use assms in auto)

lemma month_of_yday_correct:
  assumes "0 \<le> yd" "yd < (if leap then 366 else 365)"
  shows "1 \<le> month_of_yday leap yd" "month_of_yday leap yd \<le> 12"
    "days_before_month leap (month_of_yday leap yd) \<le> yd"
    "yd < days_before_month leap (month_of_yday leap yd + 1)"
proof -
  have "days_before_month leap 1 \<le> yd" "yd < days_before_month leap (1 + int 12)"
    using assms by (auto simp: days_before_month_def)
  then obtain m where m: "1 \<le> m" "m \<le> int 12" "days_before_month leap m \<le> yd"
      "yd < days_before_month leap (m + 1)"
    using bracket_exists by blast
  moreover from m have "month_of_yday leap yd = m" by (intro month_of_yday_unique) auto
  ultimately show "1 \<le> month_of_yday leap yd" "month_of_yday leap yd \<le> 12"
    "days_before_month leap (month_of_yday leap yd) \<le> yd"
    "yd < days_before_month leap (month_of_yday leap yd + 1)" by simp_all
qed

lemma month_end_in_year:
  "1 \<le> m \<Longrightarrow> m \<le> 12 \<Longrightarrow> days_before_month (is_leap y) (m + 1) \<le> year_length y"
  "0 \<le> days_before_month leap m"
proof -
  show "days_before_month (is_leap y) (m + 1) \<le> year_length y" if "1 \<le> m" "m \<le> 12"
    by (cases rule: month_cases [OF that]; simp add: days_before_month_def year_length_def)
qed (simp add: days_before_month_def)

definition valid_civil :: "int \<Rightarrow> int \<Rightarrow> int \<Rightarrow> bool" where
  "valid_civil y m d = (1 \<le> m \<and> m \<le> 12 \<and> 1 \<le> d \<and> d \<le> month_length y m)"

lemma days_of_civil_in_range:
  "1 \<le> m \<Longrightarrow> m \<le> 12 \<Longrightarrow> days_of_civil y m d =
     days_before_year y + days_before_month (is_leap y) m + (d - 1) - epoch_days"
  by (simp add: days_of_civil_def)

text \<open>Every day has one valid date, and normalising that date gives the day back.\<close>

lemma civil_of_days_correct:
  assumes "civil_of_days n = (y, m, d)"
  shows "days_of_civil y m d = n" "valid_civil y m d"
proof -
  obtain y' yd where yy: "year_yday (n + epoch_days) = (y', yd)" by fastforce
  note c = year_yday_correct [OF yy]
  have e: "y = y'" "m = month_of_yday (is_leap y) yd" "d = yd - days_before_month (is_leap y) m + 1"
    using assms by (auto simp: civil_of_days_def yy Let_def)
  have "yd < (if is_leap y then 366 else 365)" using c(3) by (simp add: e(1) year_length_def)
  note mm = month_of_yday_correct [OF c(2) this, folded e(2)]
  show "valid_civil y m d" using mm e(3) by (simp add: valid_civil_def month_length_def)
  show "days_of_civil y m d = n"
    using c(1) e mm by (simp add: days_of_civil_in_range)
qed

lemma civil_of_days_of_civil:
  assumes "valid_civil y m d"
  shows "civil_of_days (days_of_civil y m d) = (y, m, d)"
proof -
  let ?yd = "days_before_month (is_leap y) m + (d - 1)"
  have v: "1 \<le> m" "m \<le> 12" "1 \<le> d" "?yd < days_before_month (is_leap y) (m + 1)"
    using assms by (auto simp: valid_civil_def month_length_def)
  have "0 \<le> ?yd" "?yd < year_length y"
    using v month_end_in_year(1) [OF v(1,2), of y] month_end_in_year(2) [of "is_leap y" m] by auto
  then have "year_yday (days_of_civil y m d + epoch_days) = (y, ?yd)"
    using year_yday_unique [of ?yd y] v by (simp add: days_of_civil_in_range algebra_simps)
  moreover have "month_of_yday (is_leap y) ?yd = m"
    using v by (intro month_of_yday_unique) auto
  ultimately show ?thesis by (simp add: civil_of_days_def Let_def)
qed

lemma days_of_civil_shift: "days_of_civil y m (d + n) = days_of_civil y m d + n"
  by (simp add: days_of_civil_def Let_def)

section \<open>Months in order\<close>

text \<open>The first day of the month number \<open>k\<close>, counted from January of the year 0.\<close>

definition month_start :: "int \<Rightarrow> int" where
  "month_start k = days_of_civil 0 (k + 1) 1"

definition month_len :: "int \<Rightarrow> int" where
  "month_len k = month_length (k div 12) (k mod 12 + 1)"

lemma month_len_range: "28 \<le> month_len k" "month_len k \<le> 31"
  unfolding month_len_def by (rule month_length_range; simp add: Suc_le_eq)+

lemma month_number:
  assumes "1 \<le> m" "m \<le> 12"
  shows "(12 * y + m - 1) div 12 = (y :: int)" "(12 * y + m - 1) mod 12 + 1 = m"
proof -
  show "(12 * y + m - 1) div 12 = y" by (rule int_div_pos_eq [where r = "m - 1"]) (use assms in auto)
  show "(12 * y + m - 1) mod 12 + 1 = m"
    using int_mod_pos_eq [of "12 * y + m - 1" 12 y "m - 1"] assms by simp
qed

lemma days_of_civil_month_start: "days_of_civil y m d = month_start (12 * y + m - 1) + (d - 1)"
proof -
  have "12 * y + m - 1 = (m - 1) + y * 12" by simp
  then have "(12 * y + m - 1) div 12 = y + (m - 1) div 12" "(12 * y + m - 1) mod 12 = (m - 1) mod 12"
    by (metis div_mult_self1 add.commute zero_neq_numeral, metis mod_mult_self1)
  then show ?thesis by (simp add: month_start_def days_of_civil_def Let_def)
qed

lemma month_length_month_len:
  "1 \<le> m \<Longrightarrow> m \<le> 12 \<Longrightarrow> month_length y m = month_len (12 * y + m - 1)"
  using month_number [of m y] by (simp add: month_len_def)

lemma month_start_eq: "month_start k =
    days_before_year (k div 12) + days_before_month (is_leap (k div 12)) (k mod 12 + 1) - epoch_days"
  by (simp add: month_start_def days_of_civil_def Let_def)

lemma month_start_Suc: "month_start (k + 1) = month_start k + month_len k"
proof (cases "k mod 12 = 11")
  case True
  then have k: "k + 1 = 12 * (k div 12 + 1) + 0" using mult_div_mod_eq [of 12 k] by simp
  have next_month: "(k + 1) mod 12 = 0" "(k + 1) div 12 = k div 12 + 1"
    by (rule int_mod_pos_eq [OF k] int_div_pos_eq [OF k]; simp)+
  have ends: "days_before_month (is_leap y) (11 + 1 + 1) = year_length y"
      "days_before_month lp (0 + 1) = 0" for lp y
    by (simp_all add: days_before_month_def year_length_def)
  have ring: "a + l + 0 - e = a + b - e + (l - b)" for a b l e :: int by simp
  show ?thesis
    unfolding month_start_eq month_len_def month_length_def next_month True days_before_year_Suc ends
    by (rule ring)
next
  case False
  have k: "k + 1 = 12 * (k div 12) + (k mod 12 + 1)" using mult_div_mod_eq [of 12 k] by simp
  have "k mod 12 < 12" "0 \<le> k mod 12" by simp_all
  with False have le: "0 \<le> k mod 12 + 1" "k mod 12 + 1 < 12" by auto
  have next_month: "(k + 1) mod 12 = k mod 12 + 1" "(k + 1) div 12 = k div 12"
    by (rule int_mod_pos_eq [OF k le] int_div_pos_eq [OF k le])+
  have ring: "a + l - e = a + b - e + (l - b)" for a b l e :: int by simp
  show ?thesis unfolding month_start_eq month_len_def month_length_def next_month by (rule ring)
qed

lemma month_start_mono:
  assumes "k < j"
  shows "month_start k + month_len k \<le> month_start j"
proof -
  have "month_start (k + 1) \<le> month_start (k + 1 + int i)" for i
  proof (induction i)
    case (Suc i)
    then show ?case
      using month_start_Suc [of "k + 1 + int i"] month_len_range(1) [of "k + 1 + int i"]
      by (simp add: algebra_simps)
  qed simp
  from this [of "nat (j - (k + 1))"] assms show ?thesis by (simp add: month_start_Suc)
qed

section \<open>Wall clocks under a steady offset\<close>

text \<open>The offset of a location is \<open>off\<close> at every second at most \<open>w\<close> seconds from \<open>s\<close>.\<close>

definition steady :: "location \<Rightarrow> int \<Rightarrow> int \<Rightarrow> int \<Rightarrow> bool" where
  "steady loc off s w = (\<forall>x. \<bar>x - s\<bar> \<le> w \<longrightarrow> offset_at loc x = off)"

lemma resolve_wall_steady:
  assumes "steady loc off s w" "\<bar>unix - s\<bar> \<le> w" "\<bar>unix - off - s\<bar> \<le> w"
  shows "resolve_wall loc unix = unix - off"
proof -
  have "fst (loc unix) = off" "fst (loc (unix - off)) = off"
    using assms by (simp_all add: steady_def offset_at_def)
  then show ?thesis by (auto simp: resolve_wall_def offset_at_def Let_def split: prod.splits)
qed

lemma local_seconds_steady:
  assumes "steady loc off s w" "\<bar>t div second - s\<bar> \<le> w"
  shows "local_seconds loc t = t div second + off"
  using assms by (simp add: local_seconds_def steady_def Let_def)

lemma local_seconds_of_wall:
  assumes "steady loc off s w" "\<bar>W - off - s\<bar> \<le> w"
  shows "local_seconds loc ((W - off) * second) = W"
  using local_seconds_steady [OF assms(1), of "(W - off) * second"] assms(2) by simp

lemma local_date_valid:
  shows "valid_civil (local_year loc t) (local_month loc t) (local_day loc t)"
    "days_of_civil (local_year loc t) (local_month loc t) (local_day loc t) = local_days loc t"
proof -
  obtain y m d where "civil_of_days (local_days loc t) = (y, m, d)" by (metis surj_pair)
  with civil_of_days_correct [OF this]
  show "valid_civil (local_year loc t) (local_month loc t) (local_day loc t)"
    "days_of_civil (local_year loc t) (local_month loc t) (local_day loc t) = local_days loc t"
    by (simp_all add: local_year_def local_month_def local_day_def)
qed

lemma add_days_wall:
  assumes "steady loc off s w" "\<bar>W - off - s\<bar> \<le> w"
    "\<bar>W + n * 86400 - s\<bar> \<le> w" "\<bar>W + n * 86400 - off - s\<bar> \<le> w"
  shows "add_days loc ((W - off) * second) n = (W + n * 86400 - off) * second"
proof -
  define r where "r = (W - off) * second"
  have "local_seconds loc r = W" unfolding r_def by (rule local_seconds_of_wall [OF assms(1,2)])
  then have wall: "(local_days loc r + n) * 86400 + local_clock loc r = W + n * 86400"
    by (simp add: local_days_def local_clock_def distrib_right)
  have "add_days loc r n = resolve_wall loc (W + n * 86400) * second + r mod second"
    unfolding add_days_def days_of_civil_shift local_date_valid(2) wall ..
  also have "\<dots> = (W + n * 86400 - off) * second"
    using resolve_wall_steady [OF assms(1,3,4)] by (simp add: r_def)
  finally show ?thesis unfolding r_def .
qed

lemma go_date_wall:
  assumes "steady loc off s w" "wall_seconds y m d h mi 0 = W" "\<bar>W - s\<bar> \<le> w" "\<bar>W - off - s\<bar> \<le> w"
  shows "go_date loc y m d h mi = (W - off) * second"
  using resolve_wall_steady [OF assms(1,3,4)] by (simp add: go_date_def assms(2))

lemma steady_utc [simp]: "steady utc 0 s w"
  by (simp add: steady_def utc_def offset_at_def)

section \<open>Printing durations\<close>

text \<open>
  \<^verbatim>\<open>Duration.Round(time.Millisecond)\<close> (halves away from zero) and \<^verbatim>\<open>Duration.String\<close>: seconds with
  their fraction after hours and minutes, and a smaller unit below one second.
\<close>

definition round_ms :: "duration \<Rightarrow> duration" where
  "round_ms d =
     (let m = 1000000; a = \<bar>d\<bar>; r = a mod m; q = (if r + r < m then a - r else a + m - r)
      in if d < 0 then - q else q)"

text \<open>The digits of \<open>v\<close> after the decimal point for \<open>n\<close> places, without trailing zeros.\<close>

definition frac_digits :: "int \<Rightarrow> nat \<Rightarrow> string" where
  "frac_digits v n =
     (let ds = itoa (v mod 10 ^ n);
          padded = replicate (n - length ds) (CHR ''0'') @ ds;
          kept = rev (dropWhile (\<lambda>c. c = CHR ''0'') (rev padded))
      in if kept = [] then [] else CHR ''.'' # kept)"

definition duration_string :: "duration \<Rightarrow> string" where
  "duration_string d =
     (let u = \<bar>d\<bar>; sign = (if d < 0 then ''-'' else []) in
      if u = 0 then ''0s''
      else if u < 1000 then sign @ itoa u @ ''ns''
      else if u < 1000000 then sign @ itoa (u div 1000) @ frac_digits u 3 @ [CHR 0xC2, CHR 0xB5] @ ''s''
      else if u < 1000000000 then sign @ itoa (u div 1000000) @ frac_digits u 6 @ ''ms''
      else
        (let secs = u div 1000000000; mins = secs div 60; hours = mins div 60
         in sign @ (if 0 < hours then itoa hours @ ''h'' else [])
              @ (if 0 < mins then itoa (mins mod 60) @ ''m'' else [])
              @ itoa (secs mod 60) @ frac_digits u 9 @ ''s''))"

end
