(* ===== verification/Types.thy ===== *)
theory Types
  imports GoTime
begin

text \<open>
  The data of \<^verbatim>\<open>server/internal/core/types.go\<close>, one record per struct with the fields of the
  source, each prefixed by a short name of its struct. A Go \<^verbatim>\<open>int\<close> or \<^verbatim>\<open>int64\<close> is an \<^typ>\<open>int\<close>
  (arithmetic that may leave 64 bits is written with \<open>wrap64\<close>), a pointer an \<^typ>\<open>'a option\<close>, a
  slice a list, a \<^verbatim>\<open>time.Time\<close> an \<^typ>\<open>instant\<close>.
\<close>

record UpdateSchedule =
  us_ID :: int
  us_AgentID :: "int option"
  us_AgentName :: string
  us_Project :: string
  us_Action :: string
  us_Enabled :: bool
  us_Cadence :: string
  us_TimeOfDay :: string
  us_DayOfWeek :: int
  us_DayOfMonth :: int
  us_IntervalMinutes :: int
  us_TimeoutSeconds :: int
  us_NextRunAt :: instant
  us_LastRunAt :: "instant option"
  us_LastJobID :: string
  us_LastStatus :: string
  us_LastError :: string
  us_CreatedAt :: instant
  us_UpdatedAt :: instant

record UpdateScheduleRequest =
  usr_ID :: int
  usr_AgentID :: "int option"
  usr_Project :: string
  usr_Action :: string
  usr_Enabled :: "bool option"
  usr_Cadence :: string
  usr_TimeOfDay :: string
  usr_DayOfWeek :: int
  usr_DayOfMonth :: int
  usr_IntervalMinutes :: int
  usr_TimeoutSeconds :: int
  usr_NextRunAt :: "instant option"
  usr_ConfirmDestructive :: bool

record UpdateScheduleRun =
  run_ID :: int
  run_ScheduleID :: int
  run_AgentID :: "int option"
  run_AgentName :: string
  run_Project :: string
  run_Action :: string
  run_JobID :: string
  run_Status :: string
  run_Success :: bool
  run_Output :: string
  run_Error :: string
  run_StartedAt :: instant
  run_EndedAt :: "instant option"
  run_Duration :: string

record AgentCommand =
  ac_ID :: int
  ac_AgentID :: int
  ac_Project :: string
  ac_Action :: string
  ac_Params :: string
  ac_Status :: string
  ac_Success :: bool
  ac_Output :: string
  ac_CreatedAt :: instant
  ac_UpdatedAt :: instant

record AgentCommandDispatch =
  ad_ID :: int
  ad_Project :: string
  ad_Action :: string
  ad_Params :: string

record AgentCommandResult =
  ar_ID :: int
  ar_Success :: bool
  ar_Output :: string

record AgentCommandRequest =
  aq_Project :: string
  aq_Action :: string
  aq_Params :: string

record ComposeAgent =
  ag_ID :: int
  ag_Name :: string
  ag_BaseURL :: string
  ag_Mode :: string
  ag_Enabled :: bool
  ag_LastSeen :: "instant option"
  ag_CreatedAt :: instant
  ag_UpdatedAt :: instant
  ag_Token :: string

record ComposeAgentRequest =
  agr_Name :: string
  agr_BaseURL :: string
  agr_Mode :: string
  agr_Token :: string
  agr_Enabled :: "bool option"

record OpResult =
  op_Project :: string
  op_Action :: string
  op_Success :: bool
  op_Output :: string
  op_ExitCode :: int
  op_Duration :: string

text \<open>The job of \<^verbatim>\<open>core/jobs.go\<close> and the audit row of \<^verbatim>\<open>storage/audit.go\<close>.\<close>

record ActionJob =
  aj_ID :: string
  aj_Project :: string
  aj_Action :: string
  aj_Status :: string
  aj_Success :: bool
  aj_ExitCode :: int
  aj_Output :: string
  aj_StartedAt :: instant
  aj_EndedAt :: instant
  aj_Duration :: string
  aj_Error :: string

record AuditEntry =
  au_ID :: int
  au_Node :: string
  au_Actor :: string
  au_Action :: string
  au_Project :: string
  au_Target :: string
  au_Success :: bool
  au_DurationMs :: int
  au_Details :: string
  au_RemoteIP :: string
  au_CreatedAt :: instant

record Container =
  ct_ID :: string
  ct_Name :: string
  ct_Image :: string
  ct_State :: string
  ct_Ports :: string
  ct_HostNetwork :: bool
  ct_HostPorts :: "int list"

record ImageSource =
  is_Service :: string
  is_Image :: string
  is_Build :: bool
  is_BuildContext :: string
  is_SourceType :: string
  is_Registry :: string
  is_Repository :: string
  is_Tag :: string
  is_Access :: string
  is_Message :: string

record ProjectDoc =
  pd_Title :: string
  pd_Path :: string
  pd_FileName :: string
  pd_SizeBytes :: int
  pd_UpdatedAt :: instant

record ProjectUpdatePolicy =
  pp_Mode :: string
  pp_EffectivePolicy :: string
  pp_SourceType :: string
  pp_SourceURL :: string
  pp_NoUpdatesReason :: string
  pp_Notes :: string
  pp_AutoDetected :: bool
  pp_DetectedPolicy :: string
  pp_DetectedSourceType :: string
  pp_DetectedSourceURL :: string
  pp_DetectedReason :: string

record ImageUpdateCheck =
  iu_Project :: string
  iu_Service :: string
  iu_Image :: string
  iu_LocalDigest :: string
  iu_RemoteDigest :: string
  iu_Status :: string
  iu_UpdateAvailable :: bool
  iu_Error :: string
  iu_CheckedAt :: instant

record ProjectUpdateStatus =
  ps_Checked :: bool
  ps_Available :: bool
  ps_Count :: int
  ps_CheckedAt :: "instant option"
  ps_NextCheckAt :: "instant option"
  ps_RefreshAllowedAt :: "instant option"
  ps_Cached :: bool
  ps_RetryAfterSeconds :: int
  ps_Message :: string
  ps_Error :: string
  ps_Images :: "ImageUpdateCheck list"
  ps_RegistryImages :: int
  ps_SkippedServices :: int

record Project =
  pr_Name :: string
  pr_Dir :: string
  pr_ComposeFile :: string
  pr_SourceHost :: string
  pr_Inactive :: bool
  pr_Running :: bool
  pr_State :: string
  pr_IsGit :: bool
  pr_Containers :: "Container list"
  pr_HasHook :: "(string \<times> bool) list"
  pr_ImageSources :: "ImageSource list"
  pr_Documentation :: "ProjectDoc list"
  pr_UpdatePolicy :: ProjectUpdatePolicy
  pr_UpdateStatus :: ProjectUpdateStatus
  pr_Controller :: bool
  pr_TemplateUpdateAvailable :: bool

record ExecResult =
  ex_Stdout :: string
  ex_Stderr :: string
  ex_ExitCode :: int

end
