(* ===== verification/Cadence.thy ===== *)
theory Cadence
  imports Types
begin

text \<open>
  When a schedule runs next: the cadence arithmetic of \<^verbatim>\<open>server/internal/core/scheduler.go\<close> and
  the validation of schedule requests of \<^verbatim>\<open>server/internal/handlers/schedules.go\<close>. The
  environment variable \<^verbatim>\<open>TZ\<close> and the time zone database (\<^verbatim>\<open>time.LoadLocation\<close>) are arguments.
  The main result is that the next run is the first instant after the given one at which the
  cadence is due, in every zone whose offset does not change around that instant; the lemma
  on a midnight clock change shows why that hypothesis is there.
\<close>

section \<open>Definitions\<close>

subsection \<open>scheduler.go\<close>

definition schedulerLocation :: "string \<Rightarrow> (string \<Rightarrow> location option) \<Rightarrow> location" where
  "schedulerLocation env_TZ LoadLocation =
     (let tz = trim_space env_TZ in
      if tz \<noteq> [] then (case LoadLocation tz of Some loc \<Rightarrow> loc | None \<Rightarrow> utc) else utc)"

text \<open>
  The loop of \<open>nextInterval\<close>. Its step is positive there; for any other step, with which the
  loop would not end, the function returns its argument.
\<close>

function advance :: "duration \<Rightarrow> instant \<Rightarrow> instant \<Rightarrow> instant" where
  "advance step after next =
     (if step \<le> 0 \<or> after < next then next else advance step after (next + step))"
  by pat_completeness auto
termination by (relation "measure (\<lambda>(step, after, next). nat (after - next + 1))") auto

declare advance.simps [simp del]

definition nextInterval :: "int \<Rightarrow> instant \<Rightarrow> instant \<Rightarrow> instant" where
  "nextInterval intervalMinutes nextRunAt after =
     (let step0 = wrap64 (intervalMinutes * minute);
          step = (if step0 \<le> 0 then 24 * hour else step0);
          next = (if is_zero nextRunAt \<or> \<not> after < nextRunAt then after + step else nextRunAt)
      in advance step after next)"

definition parseTimeOfDay :: "string \<Rightarrow> int \<times> int" where
  "parseTimeOfDay tod =
     (case cut_at (CHR '':'') tod of
        None \<Rightarrow> (0, 0)
      | Some (a, b) \<Rightarrow>
          (let h = fst (atoi a); m = fst (atoi b)
           in (if h < 0 \<or> 23 < h then 0 else h, if m < 0 \<or> 59 < m then 0 else m)))"

definition nextDaily :: "string \<Rightarrow> instant \<Rightarrow> location \<Rightarrow> instant" where
  "nextDaily timeOfDay after loc =
     (let (h, m) = parseTimeOfDay timeOfDay;
          candidate = go_date loc (local_year loc after) (local_month loc after) (local_day loc after) h m
      in if \<not> after < candidate then add_days loc candidate 1 else candidate)"

definition nextWeekly :: "int \<Rightarrow> string \<Rightarrow> instant \<Rightarrow> location \<Rightarrow> instant" where
  "nextWeekly dayOfWeek timeOfDay after loc =
     (let (h, m) = parseTimeOfDay timeOfDay;
          candidate = go_date loc (local_year loc after) (local_month loc after) (local_day loc after) h m;
          ahead = dayOfWeek - local_weekday loc candidate;
          daysAhead = (if ahead < 0 then ahead + 7 else ahead);
          candidate2 = add_days loc candidate daysAhead
      in if \<not> after < candidate2 then add_days loc candidate2 7 else candidate2)"

definition daysInMonth :: "int \<Rightarrow> int \<Rightarrow> int" where
  "daysInMonth year month = local_day utc (go_date utc year (month + 1) 0 0 0)"

definition clampMonthDay :: "int \<Rightarrow> int \<Rightarrow> int \<Rightarrow> int \<Rightarrow> int \<Rightarrow> location \<Rightarrow> instant" where
  "clampMonthDay year month day h m loc =
     (let last = daysInMonth year month
      in go_date loc year month (if last < day then last else day) h m)"

definition nextMonthly :: "int \<Rightarrow> string \<Rightarrow> instant \<Rightarrow> location \<Rightarrow> instant" where
  "nextMonthly dayOfMonth timeOfDay after loc =
     (let (h, m) = parseTimeOfDay timeOfDay;
          mday = (if dayOfMonth < 1 then 1 else dayOfMonth);
          y = local_year loc after; mo = local_month loc after;
          candidate = clampMonthDay y mo mday h m loc
      in if \<not> after < candidate
         then (if 12 < mo + 1 then clampMonthDay (y + 1) 1 mday h m loc
               else clampMonthDay y (mo + 1) mday h m loc)
         else candidate)"

definition nextScheduleRun :: "location \<Rightarrow> UpdateSchedule \<Rightarrow> instant \<Rightarrow> instant" where
  "nextScheduleRun loc schedule after =
     (if us_Cadence schedule = ''daily'' then nextDaily (us_TimeOfDay schedule) after loc
      else if us_Cadence schedule = ''weekly''
        then nextWeekly (us_DayOfWeek schedule) (us_TimeOfDay schedule) after loc
      else if us_Cadence schedule = ''monthly''
        then nextMonthly (us_DayOfMonth schedule) (us_TimeOfDay schedule) after loc
      else nextInterval (us_IntervalMinutes schedule) (us_NextRunAt schedule) after)"

subsection \<open>handlers/schedules.go and the actions of jobs.go\<close>

definition ValidJobAction :: "string \<Rightarrow> bool" where
  "ValidJobAction action \<longleftrightarrow>
     action \<in> {''check'', ''pull'', ''up'', ''down'', ''restart'', ''status'', ''update''}"

definition ValidScheduleAction :: "string \<Rightarrow> bool" where
  "ValidScheduleAction action \<longleftrightarrow> ValidJobAction action \<or> action = ''prune-system-all''"

definition validTimeOfDay :: "string \<Rightarrow> bool" where
  "validTimeOfDay tod =
     (case cut_at (CHR '':'') tod of
        None \<Rightarrow> False
      | Some (a, b) \<Rightarrow>
          (let (h, okh) = atoi a; (m, okm) = atoi b in
           if \<not> okh \<or> h < 0 \<or> 23 < h then False
           else if \<not> okm \<or> m < 0 \<or> 59 < m then False
           else True))"

definition normalizeSchedule :: "UpdateScheduleRequest \<Rightarrow> UpdateScheduleRequest" where
  "normalizeSchedule req =
     (let act = to_lower (trim_space (usr_Action req));
          act = (if act = [] then ''update'' else act);
          project = (if act = ''prune-system-all'' then ''(system)'' else trim_space (usr_Project req));
          cad = to_lower (trim_space (usr_Cadence req));
          cad = (if cad = [] then ''interval'' else cad)
      in req \<lparr> usr_Project := project,
               usr_Action := act,
               usr_Cadence := cad,
               usr_TimeOfDay := trim_space (usr_TimeOfDay req),
               usr_TimeoutSeconds := (if usr_TimeoutSeconds req \<le> 0 then 300 else usr_TimeoutSeconds req),
               usr_NextRunAt := map_option (\<lambda>t. t div second * second) (usr_NextRunAt req) \<rparr>)"

definition validateSchedule :: "UpdateScheduleRequest \<Rightarrow> string option" where
  "validateSchedule req =
     (if usr_Project req = [] then Some ''project is required''
      else if \<not> ValidScheduleAction (usr_Action req) then Some ''invalid action''
      else if usr_Action req = ''prune-system-all'' \<and> usr_Project req \<noteq> ''(system)''
        then Some ''full system prune must target the host''
      else if usr_Action req = ''prune-system-all'' \<and> \<not> usr_ConfirmDestructive req
        then Some ''full system prune requires destructive-action acknowledgement''
      else
        (let bad_cadence =
           (if usr_Cadence req = ''interval'' then
              (if usr_IntervalMinutes req < 5 then Some ''interval must be at least 5 minutes'' else None)
            else if usr_Cadence req = ''daily'' then
              (if \<not> validTimeOfDay (usr_TimeOfDay req)
               then Some ''time_of_day is required for daily cadence (HH:MM)'' else None)
            else if usr_Cadence req = ''weekly'' then
              (if \<not> validTimeOfDay (usr_TimeOfDay req)
               then Some ''time_of_day is required for weekly cadence (HH:MM)''
               else if usr_DayOfWeek req < 0 \<or> 6 < usr_DayOfWeek req
               then Some ''day_of_week must be 0 (Sunday) through 6 (Saturday)'' else None)
            else if usr_Cadence req = ''monthly'' then
              (if \<not> validTimeOfDay (usr_TimeOfDay req)
               then Some ''time_of_day is required for monthly cadence (HH:MM)''
               else if usr_DayOfMonth req < 1 \<or> 31 < usr_DayOfMonth req
               then Some ''day_of_month must be 1 through 31'' else None)
            else Some ''cadence must be interval, daily, weekly, or monthly'')
         in case bad_cadence of
              Some e \<Rightarrow> Some e
            | None \<Rightarrow> if usr_TimeoutSeconds req < 0 then Some ''timeout cannot be negative'' else None))"

section \<open>What a cadence promises\<close>

text \<open>
  The instants at which a calendar schedule is due: whole seconds at which the local clock
  shows its time of day, on its weekday if it is weekly, and on its day of the month, or the
  last one of a shorter month, if it is monthly.
\<close>

definition due_wall :: "UpdateSchedule \<Rightarrow> int \<Rightarrow> bool" where
  "due_wall u W =
     (let (h, m) = parseTimeOfDay (us_TimeOfDay u); D = W div 86400; (y, mo, d) = civil_of_days D in
      W mod 86400 = h * 3600 + m * 60 \<and>
      (us_Cadence u = ''weekly'' \<longrightarrow> weekday_of_days D = us_DayOfWeek u) \<and>
      (us_Cadence u = ''monthly'' \<longrightarrow> d = min (us_DayOfMonth u) (month_length y mo)))"

definition due :: "location \<Rightarrow> UpdateSchedule \<Rightarrow> instant \<Rightarrow> bool" where
  "due loc u t \<longleftrightarrow> t mod second = 0 \<and> due_wall u (local_seconds loc t)"

definition first_after :: "(int \<Rightarrow> bool) \<Rightarrow> int \<Rightarrow> int \<Rightarrow> bool" where
  "first_after P a r \<longleftrightarrow> a < r \<and> P r \<and> (\<forall>t. a < t \<and> t < r \<longrightarrow> \<not> P t)"

section \<open>Lemmas\<close>

lemma parseTimeOfDay_range:
  assumes "parseTimeOfDay tod = (h, m)"
  shows "0 \<le> h" "h \<le> 23" "0 \<le> m" "m \<le> 59" "0 \<le> h * 3600 + m * 60" "h * 3600 + m * 60 < 86400"
proof -
  show r: "0 \<le> h" "h \<le> 23" "0 \<le> m" "m \<le> 59"
    using assms by (auto simp: parseTimeOfDay_def Let_def split: option.splits if_splits)
  then show "0 \<le> h * 3600 + m * 60" "h * 3600 + m * 60 < 86400" by simp_all
qed

lemma first_after_wall:
  assumes st: "steady loc off (after div second) w"
    and f: "first_after Q (after div second + off) W" and win: "W - off - after div second \<le> w"
  shows "first_after (\<lambda>t. t mod second = 0 \<and> Q (local_seconds loc t)) after ((W - off) * second)"
proof -
  define s where "s = after div second"
  define frac where "frac = after mod second"
  have a: "after = s * second + frac" "0 \<le> frac" "frac < second"
    by (simp_all add: s_def frac_def)
  have w: "s < W - off" "0 \<le> w" using f win by (simp_all add: first_after_def s_def)
  then have "(s + 1) * second \<le> (W - off) * second" by (intro mult_right_mono) auto
  then have gt: "after < (W - off) * second" using a by (simp add: distrib_right)
  have loc: "local_seconds loc ((W - off) * second) = W"
    by (rule local_seconds_of_wall [OF st]) (use w win in \<open>simp add: s_def\<close>)
  have "\<not> Q (local_seconds loc t)" if "after < t" "t < (W - off) * second" "t mod second = 0" for t
  proof -
    have t: "t = t div second * second" using that(3) by (simp add: minus_mod_eq_div_mult [symmetric])
    have "t div second * second < (W - off) * second" "s * second < t div second * second"
      using that a t by linarith+
    then have "s < t div second" "t div second < W - off" by simp_all
    then have "local_seconds loc t = t div second + off" "s + off < t div second + off"
        "t div second + off < W"
      using local_seconds_steady [OF st, of t] win by (auto simp: s_def)
    with f show ?thesis by (simp add: first_after_def s_def)
  qed
  with gt loc f show ?thesis by (auto simp: first_after_def)
qed

text \<open>The first wall clock second after \<open>L\<close> that shows the clock reading \<open>c\<close> on a day chosen by \<open>P\<close>.\<close>

lemma first_after_day:
  assumes c: "0 \<le> c" "c < 86400" and D: "P D" "L < D * 86400 + c"
    and least: "\<And>E. P E \<Longrightarrow> L div 86400 \<le> E \<Longrightarrow> L < E * 86400 + c \<Longrightarrow> D \<le> E"
  shows "first_after (\<lambda>W. W mod 86400 = c \<and> P (W div 86400)) L (D * 86400 + c)"
proof -
  have "\<not> P (V div 86400)" if V: "L < V" "V < D * 86400 + c" "V mod 86400 = c" for V
  proof
    assume "P (V div 86400)"
    moreover have "V = V div 86400 * 86400 + c" using V(3) mult_div_mod_eq [of 86400 V] by simp
    moreover have "L div 86400 \<le> V div 86400" using V(1) by (intro zdiv_mono1) auto
    ultimately have "D \<le> V div 86400" using least V(1) by metis
    with V(2) \<open>V = _\<close> show False by linarith
  qed
  moreover have "(D * 86400 + c) mod 86400 = c" "(D * 86400 + c) div 86400 = D"
    using c by auto
  ultimately show ?thesis using D by (simp add: first_after_def)
qed

lemma day_bounds:
  assumes "0 \<le> c" "c < 86400"
  shows "(L :: int) div 86400 * 86400 \<le> L" "L < L div 86400 * 86400 + 86400"
    "E < L div 86400 \<Longrightarrow> E * 86400 + c \<le> L" "L div 86400 < E \<Longrightarrow> L < E * 86400 + c"
proof -
  show a: "L div 86400 * 86400 \<le> L" "L < L div 86400 * 86400 + 86400"
    using mult_div_mod_eq [of 86400 L] pos_mod_bound [of 86400 L] pos_mod_sign [of 86400 L]
    by linarith+
  show "E * 86400 + c \<le> L" if "E < L div 86400" using that a assms by linarith
  show "L < E * 86400 + c" if "L div 86400 < E" using that a assms by linarith
qed

lemma first_daily:
  fixes L c :: int
  assumes "0 \<le> c" "c < 86400"
  defines "W0 \<equiv> L div 86400 * 86400 + c"
  shows "first_after (\<lambda>W. W mod 86400 = c \<and> True) L (if L < W0 then W0 else W0 + 86400)"
proof -
  define D where "D = (if L < W0 then L div 86400 else L div 86400 + 1)"
  have "first_after (\<lambda>W. W mod 86400 = c \<and> True) L (D * 86400 + c)"
  proof (rule first_after_day [OF assms(1,2), where P = "\<lambda>_. True"])
    show "L < D * 86400 + c" using day_bounds(2) [OF assms(1,2), of L] assms(1)
      by (auto simp: D_def W0_def)
    show "D \<le> E" if "L div 86400 \<le> E" "L < E * 86400 + c" for E
      using that by (cases "E = L div 86400") (auto simp: D_def W0_def)
  qed simp
  moreover have "D * 86400 + c = (if L < W0 then W0 else W0 + 86400)" by (simp add: D_def W0_def)
  ultimately show ?thesis by simp
qed

lemma weekday_class:
  assumes "0 \<le> dow" "dow \<le> 6"
  shows "weekday_of_days E = dow \<longleftrightarrow> 7 dvd (E + 4 - dow)"
proof -
  have "dow mod 7 = dow" using assms by simp
  then show ?thesis unfolding weekday_of_days_def by (metis mod_eq_dvd_iff)
qed

lemma weekday_range: "0 \<le> weekday_of_days E" "weekday_of_days E \<le> 6"
  using pos_mod_bound [of 7 "E + 4"] by (simp_all add: weekday_of_days_def)

lemma first_weekly:
  fixes L c dow :: int
  assumes c: "0 \<le> c" "c < 86400" and dow: "0 \<le> dow" "dow \<le> 6"
  defines "ahead \<equiv> dow - weekday_of_days (L div 86400)"
  defines "W1 \<equiv> (L div 86400 + (if ahead < 0 then ahead + 7 else ahead)) * 86400 + c"
  shows "first_after (\<lambda>W. W mod 86400 = c \<and> weekday_of_days (W div 86400) = dow) L
    (if L < W1 then W1 else W1 + 7 * 86400)"
proof -
  define T where "T = L div 86400"
  define n where "n = (if ahead < 0 then ahead + 7 else ahead)"
  define D where "D = (if L < W1 then T + n else T + n + 7)"
  have "7 dvd (T + 4 - weekday_of_days T)"
    using weekday_class [of "weekday_of_days T" T] weekday_range [of T] by simp
  then obtain j where j: "T + 4 - weekday_of_days T = 7 * j" by blast
  have "T + n + 4 - dow = 7 * (if ahead < 0 then j + 1 else j)"
    using j by (simp add: n_def ahead_def T_def)
  then have n: "0 \<le> n" "n \<le> 6" "7 dvd (T + n + 4 - dow)"
    using dow weekday_range [of T] by (auto simp: n_def ahead_def T_def)
  have least: "E = T + n \<or> T + n + 7 \<le> E" if E: "7 dvd (E + 4 - dow)" "T \<le> E" for E
  proof -
    have "7 dvd (E - (T + n))" using dvd_diff [OF E(1) n(3)] by (simp add: algebra_simps)
    then obtain i where i: "E - (T + n) = 7 * i" by blast
    then have "- 1 < i" using E(2) n(2) by linarith
    with i show ?thesis by (cases "i = 0") auto
  qed
  have "first_after (\<lambda>W. W mod 86400 = c \<and> weekday_of_days (W div 86400) = dow) L (D * 86400 + c)"
  proof (rule first_after_day [OF c])
    have "7 dvd (T + n + 7 + 4 - dow)"
      using dvd_add [OF n(3) dvd_refl] by (simp add: algebra_simps)
    with n(3) show "weekday_of_days D = dow" unfolding weekday_class [OF dow] D_def by auto
    show "L < D * 86400 + c" using day_bounds(2) [OF c, of L] n c(1)
      by (auto simp: D_def W1_def T_def n_def)
    show "D \<le> E" if "weekday_of_days E = dow" "L div 86400 \<le> E" "L < E * 86400 + c" for E
    proof (cases "E = T + n")
      case True
      with that(3) show ?thesis by (simp add: D_def W1_def T_def n_def)
    next
      case False
      with least [of E] that(1,2) n show ?thesis unfolding weekday_class [OF dow]
        by (auto simp: D_def T_def)
    qed
  qed
  moreover have "D * 86400 + c = (if L < W1 then W1 else W1 + 7 * 86400)"
    by (simp add: D_def W1_def T_def n_def)
  ultimately show ?thesis by simp
qed

subsection \<open>Months\<close>

text \<open>The day a monthly schedule with day \<open>mday\<close> picks in the month number \<open>j\<close>.\<close>

definition month_day :: "int \<Rightarrow> int \<Rightarrow> int" where
  "month_day mday j = month_start j + min mday (month_len j) - 1"

definition month_of_day :: "int \<Rightarrow> int" where
  "month_of_day E = (case civil_of_days E of (y, m, d) \<Rightarrow> 12 * y + m - 1)"

definition picked_day :: "int \<Rightarrow> int \<Rightarrow> bool" where
  "picked_day mday E = (case civil_of_days E of (y, m, d) \<Rightarrow> d = min mday (month_length y m))"

lemma month_of_day_bounds:
  "month_start (month_of_day E) \<le> E" "E < month_start (month_of_day E) + month_len (month_of_day E)"
  "picked_day mday E \<longleftrightarrow> E = month_day mday (month_of_day E)"
proof -
  obtain y m d where e: "civil_of_days E = (y, m, d)" by (metis surj_pair)
  note c = civil_of_days_correct [OF e]
  have m: "1 \<le> m" "m \<le> 12" "1 \<le> d" "d \<le> month_length y m" using c(2) by (simp_all add: valid_civil_def)
  note ms = days_of_civil_month_start [of y m] month_length_month_len [OF m(1,2), of y]
  show "month_start (month_of_day E) \<le> E"
    "E < month_start (month_of_day E) + month_len (month_of_day E)"
    "picked_day mday E \<longleftrightarrow> E = month_day mday (month_of_day E)"
    using c(1) m ms by (auto simp: month_of_day_def e picked_day_def month_day_def)
qed

lemma month_day_bounds:
  assumes "1 \<le> mday"
  shows "month_start j \<le> month_day mday j" "month_day mday j < month_start (j + 1)"
  using assms month_len_range(1) [of j] by (auto simp: month_day_def month_start_Suc min_def)

lemma month_day_mono:
  assumes "1 \<le> mday" "i < j"
  shows "month_day mday i < month_day mday j"
proof -
  have "month_start (i + 1) \<le> month_start j"
    using month_start_mono [OF assms(2)] by (simp add: month_start_Suc)
  then show ?thesis using month_day_bounds(2) [OF assms(1), of i] month_day_bounds(1) [OF assms(1), of j]
    by linarith
qed

lemma month_of_day_unique:
  assumes "month_start j \<le> E" "E < month_start (j + 1)"
  shows "month_of_day E = j"
proof -
  note b = month_of_day_bounds [of E]
  have "\<not> month_of_day E < j" using month_start_mono [of "month_of_day E" j] b assms by linarith
  moreover have "\<not> j < month_of_day E"
    using month_start_mono [of j "month_of_day E"] b assms month_start_Suc [of j] by linarith
  ultimately show ?thesis by simp
qed

lemma first_monthly:
  fixes L c mday :: int
  assumes c: "0 \<le> c" "c < 86400" and mday: "1 \<le> mday"
  defines "k \<equiv> month_of_day (L div 86400)"
  defines "W1 \<equiv> month_day mday k * 86400 + c"
  shows "first_after (\<lambda>W. W mod 86400 = c \<and> picked_day mday (W div 86400)) L
    (if L < W1 then W1 else month_day mday (k + 1) * 86400 + c)"
proof -
  define D where "D = (if L < W1 then month_day mday k else month_day mday (k + 1))"
  note T = month_of_day_bounds [of "L div 86400", folded k_def]
  have picked: "picked_day mday (month_day mday j)" for j
    using month_of_day_unique [OF month_day_bounds [OF mday]] month_of_day_bounds(3) by metis
  have "first_after (\<lambda>W. W mod 86400 = c \<and> picked_day mday (W div 86400)) L (D * 86400 + c)"
  proof (rule first_after_day [OF c])
    show "picked_day mday D" using picked by (simp add: D_def)
    have "L div 86400 < month_day mday (k + 1)"
      using T(2) month_day_bounds(1) [OF mday, of "k + 1"] month_start_Suc [of k] by linarith
    then have "L < month_day mday (k + 1) * 86400 + c" by (rule day_bounds(4) [OF c])
    then show "L < D * 86400 + c" by (simp add: D_def W1_def)
    show "D \<le> E" if E: "picked_day mday E" "L div 86400 \<le> E" "L < E * 86400 + c" for E
    proof -
      define j where "j = month_of_day E"
      have Ej: "E = month_day mday j" using E(1) month_of_day_bounds(3) [of mday E] by (simp add: j_def)
      have "\<not> j < k"
        using month_start_mono [of j k] month_of_day_bounds(2) [of E] T(1) E(2) by (auto simp: j_def)
      then consider "j = k" | "j = k + 1" | "k + 1 < j" by linarith
      then show ?thesis
      proof cases
        case 1
        with E(3) show ?thesis by (simp add: D_def W1_def Ej)
      next
        case 2
        then show ?thesis using month_day_mono [OF mday, of k "k + 1"] by (simp add: D_def Ej)
      next
        case 3
        then show ?thesis using month_day_mono [OF mday, of k "k + 1"] month_day_mono [OF mday 3]
          by (auto simp: D_def Ej)
      qed
    qed
  qed
  moreover have "D * 86400 + c = (if L < W1 then W1 else month_day mday (k + 1) * 86400 + c)"
    by (simp add: D_def W1_def)
  ultimately show ?thesis by simp
qed

section \<open>The code computes the first due instant\<close>

text \<open>What the cadence lemmas assume of the zone: one offset, of at most a day, for seventy days around.\<close>

definition calm :: "location \<Rightarrow> int \<Rightarrow> instant \<Rightarrow> bool" where
  "calm loc off after \<longleftrightarrow> steady loc off (after div second) (70 * 86400) \<and> \<bar>off\<bar> \<le> 86400"

lemma wall_of_local_date:
  "wall_seconds (local_year loc t) (local_month loc t) (local_day loc t) h m 0 =
     local_days loc t * 86400 + (h * 3600 + m * 60)"
  by (simp add: wall_seconds_def local_date_valid(2))

lemma calm_local_days:
  assumes "calm loc off after"
  shows "local_days loc after = (after div second + off) div 86400"
  using assms local_seconds_steady [of loc off "after div second" "70 * 86400" after]
  by (simp add: local_days_def calm_def)

text \<open>A wall clock second at most sixty-eight days from now resolves to itself.\<close>

lemma calm_facts:
  assumes "calm loc off after" "\<bar>W - (after div second + off)\<bar> \<le> 68 * 86400"
  shows "wall_seconds y m d h mi 0 = W \<Longrightarrow> go_date loc y m d h mi = (W - off) * second"
    "local_seconds loc ((W - off) * second) = W"
    "\<bar>W + n * 86400 - (after div second + off)\<bar> \<le> 68 * 86400 \<Longrightarrow>
       add_days loc ((W - off) * second) n = (W + n * 86400 - off) * second"
    "after < (W - off) * second \<longleftrightarrow> after div second + off < W"
proof -
  define s where "s = after div second"
  have st: "steady loc off s (70 * 86400)" and off: "\<bar>off\<bar> \<le> 86400"
    using assms(1) by (simp_all add: calm_def s_def)
  have near: "\<bar>V - s\<bar> \<le> 70 * 86400 \<and> \<bar>V - off - s\<bar> \<le> 70 * 86400"
    if "\<bar>V - (s + off)\<bar> \<le> 68 * 86400" for V using that off by linarith
  note W = near [OF assms(2) [folded s_def]]
  show "go_date loc y m d h mi = (W - off) * second" if "wall_seconds y m d h mi 0 = W"
    by (rule go_date_wall [OF st that]) (use W in auto)
  show "local_seconds loc ((W - off) * second) = W"
    by (rule local_seconds_of_wall [OF st]) (use W in auto)
  show "add_days loc ((W - off) * second) n = (W + n * 86400 - off) * second"
    if "\<bar>W + n * 86400 - (after div second + off)\<bar> \<le> 68 * 86400"
    by (rule add_days_wall [OF st]) (use W near [OF that [folded s_def]] in auto)
  define frac where "frac = after mod second"
  have a: "after = s * second + frac" "0 \<le> frac" "frac < second" by (simp_all add: s_def frac_def)
  have "after < (W - off) * second" if "s < W - off"
  proof -
    have "(s + 1) * second \<le> (W - off) * second" using that by (intro mult_right_mono) auto
    with a show ?thesis by (simp add: distrib_right)
  qed
  moreover have "(W - off) * second \<le> after" if "W - off \<le> s"
  proof -
    have "(W - off) * second \<le> s * second" using that by (intro mult_right_mono) auto
    with a show ?thesis by linarith
  qed
  ultimately show "after < (W - off) * second \<longleftrightarrow> after div second + off < W"
    unfolding s_def [symmetric] by (cases "s < W - off") auto
qed

lemma nextDaily_wall:
  assumes "calm loc off after" "parseTimeOfDay tod = (h, m)"
  defines "L \<equiv> after div second + off"
  defines "W0 \<equiv> L div 86400 * 86400 + (h * 3600 + m * 60)"
  shows "nextDaily tod after loc = ((if L < W0 then W0 else W0 + 86400) - off) * second"
proof -
  note r = parseTimeOfDay_range [OF assms(2)]
  have near: "\<bar>W0 - L\<bar> \<le> 68 * 86400" "\<bar>W0 + 1 * 86400 - L\<bar> \<le> 68 * 86400"
    using day_bounds(1,2) [OF r(5,6), of L] r(5,6) by (auto simp: W0_def)
  note c = calm_facts [OF assms(1) near(1) [unfolded L_def]]
  have "go_date loc (local_year loc after) (local_month loc after) (local_day loc after) h m =
      (W0 - off) * second"
    by (rule c(1)) (simp add: wall_of_local_date calm_local_days [OF assms(1)] W0_def L_def)
  then show ?thesis
    using c(3) [OF near(2) [unfolded L_def]] c(4) by (simp add: nextDaily_def assms(2) L_def)
qed

lemma nextWeekly_wall:
  assumes "calm loc off after" "parseTimeOfDay tod = (h, m)" "0 \<le> dow" "dow \<le> 6"
  defines "L \<equiv> after div second + off"
  defines "ahead \<equiv> dow - weekday_of_days (L div 86400)"
  defines "W1 \<equiv> (L div 86400 + (if ahead < 0 then ahead + 7 else ahead)) * 86400 + (h * 3600 + m * 60)"
  shows "nextWeekly dow tod after loc = ((if L < W1 then W1 else W1 + 7 * 86400) - off) * second"
proof -
  note r = parseTimeOfDay_range [OF assms(2)]
  define W0 where "W0 = L div 86400 * 86400 + (h * 3600 + m * 60)"
  define n where "n = (if ahead < 0 then ahead + 7 else ahead)"
  have n: "0 \<le> n" "n \<le> 6" using weekday_range [of "L div 86400"] assms(3,4)
    by (auto simp: n_def ahead_def)
  have W1: "W1 = W0 + n * 86400" by (simp add: W1_def W0_def n_def distrib_right)
  have near: "\<bar>W0 - L\<bar> \<le> 68 * 86400" "\<bar>W0 + n * 86400 - L\<bar> \<le> 68 * 86400"
      "\<bar>W1 - L\<bar> \<le> 68 * 86400" "\<bar>W1 + 7 * 86400 - L\<bar> \<le> 68 * 86400"
    using day_bounds(1,2) [OF r(5,6), of L] r(5,6) n by (auto simp: W0_def W1)
  note c0 = calm_facts [OF assms(1) near(1) [unfolded L_def]]
  note c1 = calm_facts [OF assms(1) near(3) [unfolded L_def]]
  have cand: "go_date loc (local_year loc after) (local_month loc after) (local_day loc after) h m =
      (W0 - off) * second"
    by (rule c0(1)) (simp add: wall_of_local_date calm_local_days [OF assms(1)] W0_def L_def)
  have "W0 div 86400 = L div 86400" using r(5,6) by (simp add: W0_def)
  then have wd: "local_weekday loc ((W0 - off) * second) = weekday_of_days (L div 86400)"
    by (simp only: local_weekday_def local_days_def c0(2))
  note add = c0(3) [OF near(2) [unfolded L_def], folded W1] c1(3) [OF near(4) [unfolded L_def]]
  show ?thesis
    unfolding nextWeekly_def assms(2) Let_def split_conv cand wd ahead_def [symmetric]
      n_def [symmetric] add c1(4) L_def [symmetric]
    by (cases "L < W1") simp_all
qed

lemma daysInMonth_correct:
  assumes "1 \<le> m" "m \<le> 12"
  shows "daysInMonth y m = month_length y m"
proof -
  let ?k = "12 * y + m - 1"
  have len: "month_length y m = month_len ?k" by (rule month_length_month_len [OF assms])
  have "days_of_civil y (m + 1) 0 = days_of_civil y m (month_length y m)"
    using month_start_Suc [of ?k] by (simp add: days_of_civil_month_start len algebra_simps)
  moreover have "valid_civil y m (month_length y m)"
    using assms month_length_range(1) [OF assms, of y] by (simp add: valid_civil_def)
  ultimately have "civil_of_days (days_of_civil y (m + 1) 0) = (y, m, month_length y m)"
    using civil_of_days_of_civil by simp
  then show ?thesis
    by (simp add: daysInMonth_def local_day_def local_days_def local_seconds_def go_date_def
        resolve_wall_def wall_seconds_def utc_def offset_at_def)
qed

lemma clampMonthDay_wall:
  fixes y m mday h mi off :: int
  assumes "1 \<le> m" "m \<le> 12" "1 \<le> mday" "calm loc off after"
  defines "W \<equiv> month_day mday (12 * y + m - 1) * 86400 + (h * 3600 + mi * 60)"
  assumes "\<bar>W - (after div second + off)\<bar> \<le> 68 * 86400"
  shows "clampMonthDay y m mday h mi loc = (W - off) * second"
proof -
  have "wall_seconds y m (if month_length y m < mday then month_length y m else mday) h mi 0 = W"
    by (simp add: wall_seconds_def days_of_civil_month_start W_def month_day_def
        month_length_month_len [OF assms(1,2)] min_def)
  then show ?thesis
    unfolding clampMonthDay_def daysInMonth_correct [OF assms(1,2)] Let_def
    by (rule calm_facts(1) [OF assms(4) assms(6)])
qed

lemma nextMonthly_wall:
  assumes "calm loc off after" "parseTimeOfDay tod = (h, m)" "1 \<le> mday"
  defines "L \<equiv> after div second + off"
  defines "k \<equiv> month_of_day (L div 86400)"
  defines "W1 \<equiv> month_day mday k * 86400 + (h * 3600 + m * 60)"
  defines "W2 \<equiv> month_day mday (k + 1) * 86400 + (h * 3600 + m * 60)"
  shows "nextMonthly mday tod after loc = ((if L < W1 then W1 else W2) - off) * second"
    "\<bar>W1 - L\<bar> \<le> 68 * 86400" "\<bar>W2 - L\<bar> \<le> 68 * 86400"
proof -
  note r = parseTimeOfDay_range [OF assms(2)]
  define y mo where "y = local_year loc after" and "mo = local_month loc after"
  have k: "k = 12 * y + mo - 1"
    using calm_local_days [OF assms(1)]
    by (simp add: k_def month_of_day_def y_def mo_def local_year_def local_month_def L_def
        split: prod.splits)
  have mo: "1 \<le> mo" "mo \<le> 12"
    using local_date_valid(1) [of loc after] by (simp_all add: mo_def valid_civil_def)
  note T = month_of_day_bounds(1,2) [of "L div 86400", folded k_def]
  note b = month_day_bounds [OF assms(3)] month_len_range(2) month_start_Suc
  have "\<bar>month_day mday k - L div 86400\<bar> \<le> 31" "\<bar>month_day mday (k + 1) - L div 86400\<bar> \<le> 62"
    using T b [of k] b [of "k + 1"] by linarith+
  then show near: "\<bar>W1 - L\<bar> \<le> 68 * 86400" "\<bar>W2 - L\<bar> \<le> 68 * 86400"
    using day_bounds(1,2) [OF r(5,6), of L] r(5,6) unfolding W1_def W2_def by linarith+
  have c1: "clampMonthDay y mo mday h m loc = (W1 - off) * second"
    using clampMonthDay_wall [OF mo assms(3,1), of y h m] near(1) by (simp add: W1_def k L_def)
  have c2: "clampMonthDay y' mo' mday h m loc = (W2 - off) * second"
    if "12 * y' + mo' - 1 = k + 1" "1 \<le> mo'" "mo' \<le> 12" for y' mo'
    using clampMonthDay_wall [OF that(2,3) assms(3,1), of y' h m] near(2) that(1)
    by (simp add: W2_def L_def)
  have "(if 12 < mo + 1 then clampMonthDay (y + 1) 1 mday h m loc
         else clampMonthDay y (mo + 1) mday h m loc) = (W2 - off) * second"
    using c2 [of "y + 1" 1] c2 [of y "mo + 1"] mo k by auto
  moreover have "(if mday < 1 then 1 else mday) = mday" using assms(3) by simp
  moreover note calm_facts(4) [OF assms(1) near(1) [unfolded L_def]]
  ultimately show "nextMonthly mday tod after loc = ((if L < W1 then W1 else W2) - off) * second"
    unfolding nextMonthly_def assms(2) Let_def split_conv y_def [symmetric] mo_def [symmetric]
    by (simp only: c1 L_def [symmetric]) simp
qed

text \<open>The schedules with a calendar cadence that \<open>validateSchedule\<close> lets through.\<close>

definition calendar_schedule :: "UpdateSchedule \<Rightarrow> bool" where
  "calendar_schedule u \<longleftrightarrow>
     us_Cadence u = ''daily'' \<or>
     us_Cadence u = ''weekly'' \<and> 0 \<le> us_DayOfWeek u \<and> us_DayOfWeek u \<le> 6 \<or>
     us_Cadence u = ''monthly'' \<and> 1 \<le> us_DayOfMonth u"

lemma due_wall_cases:
  assumes "parseTimeOfDay (us_TimeOfDay u) = (h, m)"
  shows "us_Cadence u = ''daily'' \<Longrightarrow> due_wall u = (\<lambda>W. W mod 86400 = h * 3600 + m * 60 \<and> True)"
    "us_Cadence u = ''weekly'' \<Longrightarrow> due_wall u =
       (\<lambda>W. W mod 86400 = h * 3600 + m * 60 \<and> weekday_of_days (W div 86400) = us_DayOfWeek u)"
    "us_Cadence u = ''monthly'' \<Longrightarrow> due_wall u =
       (\<lambda>W. W mod 86400 = h * 3600 + m * 60 \<and> picked_day (us_DayOfMonth u) (W div 86400))"
  by (auto simp: due_wall_def assms picked_day_def Let_def fun_eq_iff split: prod.splits)

lemma nextScheduleRun_first_due:
  assumes c: "calm loc off after" and u: "calendar_schedule u"
  shows "first_after (due loc u) after (nextScheduleRun loc u after)"
proof -
  define L where "L = after div second + off"
  obtain h m where p: "parseTimeOfDay (us_TimeOfDay u) = (h, m)" by fastforce
  note r = parseTimeOfDay_range(5,6) [OF p]
  note b = day_bounds(1,2) [OF r, of L]
  have st: "steady loc off (after div second) (70 * 86400)" using c by (simp add: calm_def)
  have lift: ?thesis if "first_after (due_wall u) L W" "W - L \<le> 70 * 86400"
      "nextScheduleRun loc u after = (W - off) * second" for W
    using first_after_wall [OF st, of "due_wall u" W] that by (simp add: L_def due_def [abs_def])
  consider "us_Cadence u = ''daily''" | "us_Cadence u = ''weekly''" "0 \<le> us_DayOfWeek u" "us_DayOfWeek u \<le> 6"
    | "us_Cadence u = ''monthly''" "1 \<le> us_DayOfMonth u" using u by (auto simp: calendar_schedule_def)
  then show ?thesis
  proof cases
    case 1
    note f = first_daily [OF r, of L] and e = nextDaily_wall [OF c p, folded L_def]
    show ?thesis
      by (rule lift [OF f [folded due_wall_cases(1) [OF p 1]]])
        (use r b e 1 in \<open>auto simp: nextScheduleRun_def\<close>)
  next
    case 2
    note f = first_weekly [OF r 2(2,3), of L] and e = nextWeekly_wall [OF c p 2(2,3), folded L_def]
    show ?thesis
      by (rule lift [OF f [folded due_wall_cases(2) [OF p 2(1)]]])
        (use r b e 2 weekday_range [of "L div 86400"] in \<open>auto simp: nextScheduleRun_def\<close>)
  next
    case 3
    note f = first_monthly [OF r 3(2), of L] and e = nextMonthly_wall [OF c p 3(2), folded L_def]
    show ?thesis
      by (rule lift [OF f [folded due_wall_cases(3) [OF p 3(1)]]])
        (use e 3(1) in \<open>auto simp: nextScheduleRun_def\<close>)
  qed
qed

lemma advance_later: "0 < step \<Longrightarrow> after < advance step after next"
  by (induction step after "next" rule: advance.induct) (simp add: advance.simps)

lemma nextInterval_eq:
  defines "step \<equiv> \<lambda>i. if wrap64 (i * minute) \<le> 0 then 24 * hour else wrap64 (i * minute)"
  shows "nextInterval i n after = (if is_zero n \<or> n \<le> after then after + step i else n)"
    "0 < step i"
  by (auto simp: nextInterval_def Let_def step_def advance.simps not_less)

lemma validTimeOfDay_parse:
  assumes "validTimeOfDay tod"
  obtains a b h m where "tod = a @ CHR '':'' # b" "atoi a = (h, True)" "atoi b = (m, True)"
    "parseTimeOfDay tod = (h, m)"
proof -
  obtain a b where ab: "cut_at (CHR '':'') tod = Some (a, b)"
    using assms by (auto simp: validTimeOfDay_def split: option.splits)
  obtain h okh m okm where hm: "atoi a = (h, okh)" "atoi b = (m, okm)" by (meson surj_pair)
  have ok: "okh" "okm" "0 \<le> h" "h \<le> 23" "0 \<le> m" "m \<le> 59"
    using assms by (auto simp: validTimeOfDay_def ab hm split: if_splits)
  show ?thesis
    by (rule that [of a b h m]) (use cut_at_Some [OF ab] hm ok in \<open>auto simp: parseTimeOfDay_def ab\<close>)
qed

section \<open>A contract for calendars\<close>

text \<open>
  What the dispatcher relies on when it asks for the next run: for the instants \<open>ok\<close> the answer
  is the first due instant. From it, a tick that comes late neither skips nor repeats a run.
\<close>

locale calendar =
  fixes next_run :: "instant \<Rightarrow> instant" and due_at :: "instant \<Rightarrow> bool" and ok :: "instant \<Rightarrow> bool"
  assumes next_first: "ok a \<Longrightarrow> first_after due_at a (next_run a)"
begin

lemma next_later: "ok a \<Longrightarrow> a < next_run a"
  using next_first by (auto simp: first_after_def)

lemma next_stable:
  assumes "ok a" "ok b" "a \<le> b" "b < next_run a"
  shows "next_run b = next_run a"
proof (rule antisym)
  note fa = next_first [OF assms(1)] and fb = next_first [OF assms(2)]
  show "next_run b \<le> next_run a"
    using fa fb assms(4) by (auto simp: first_after_def not_less [symmetric])
  show "next_run a \<le> next_run b"
    using fa fb assms(3) by (fastforce simp: first_after_def not_less [symmetric])
qed

lemma next_mono:
  assumes "ok a" "ok b" "a \<le> b"
  shows "next_run a \<le> next_run b"
  using next_stable [OF assms] next_later [OF assms(2)] by (cases "b < next_run a") auto

end

definition runnable :: "location \<Rightarrow> UpdateSchedule \<Rightarrow> instant \<Rightarrow> bool" where
  "runnable loc u a \<longleftrightarrow> calendar_schedule u \<and> (\<exists>off. calm loc off a)"

interpretation cadence: calendar "nextScheduleRun loc u" "due loc u" "runnable loc u" for loc u
  by unfold_locales (auto simp: runnable_def intro: nextScheduleRun_first_due)

section \<open>Properties\<close>

text \<open>
  Property C21. For a schedule saved from a request that \<open>validateSchedule\<close> accepts, with a daily,
  weekly or monthly cadence, and a zone whose offset does not change within seventy days,
  \<open>nextScheduleRun\<close> returns the first instant after the given one at which the local clock shows
  the time of day of the request on a day the cadence picks (for a monthly one, the day of the
  month or the last day of a shorter month). The hours and minutes are the numbers the request
  spells out, never the fallback 0 of \<open>parseTimeOfDay\<close>.
\<close>

theorem nextScheduleRun_correct:
  assumes "validateSchedule req = None" "usr_Cadence req \<noteq> ''interval''"
    and "us_Cadence u = usr_Cadence req" "us_TimeOfDay u = usr_TimeOfDay req"
    and "us_DayOfWeek u = usr_DayOfWeek req" "us_DayOfMonth u = usr_DayOfMonth req"
    and "calm loc off after"
  shows "first_after (due loc u) after (nextScheduleRun loc u after) \<and>
    (\<exists>a b h m. us_TimeOfDay u = a @ CHR '':'' # b \<and> atoi a = (h, True) \<and> atoi b = (m, True) \<and>
       parseTimeOfDay (us_TimeOfDay u) = (h, m))"
proof -
  have "validTimeOfDay (us_TimeOfDay u)" "calendar_schedule u"
    using assms(1-6)
    by (auto simp: validateSchedule_def calendar_schedule_def Let_def split: if_splits option.splits)
  then show ?thesis
    using nextScheduleRun_first_due [OF assms(7), of u] by (metis validTimeOfDay_parse)
qed

definition monthly_request :: UpdateScheduleRequest where
  "monthly_request = \<lparr> usr_ID = 0, usr_AgentID = None, usr_Project = ''web'', usr_Action = ''update'',
     usr_Enabled = None, usr_Cadence = ''monthly'', usr_TimeOfDay = ''02:30'', usr_DayOfWeek = 0,
     usr_DayOfMonth = 31, usr_IntervalMinutes = 0, usr_TimeoutSeconds = 300, usr_NextRunAt = None,
     usr_ConfirmDestructive = False \<rparr>"

definition monthly_schedule :: UpdateSchedule where
  "monthly_schedule = \<lparr> us_ID = 1, us_AgentID = None, us_AgentName = [], us_Project = ''web'',
     us_Action = ''update'', us_Enabled = True, us_Cadence = ''monthly'', us_TimeOfDay = ''02:30'',
     us_DayOfWeek = 0, us_DayOfMonth = 31, us_IntervalMinutes = 0, us_TimeoutSeconds = 300,
     us_NextRunAt = zero_time, us_LastRunAt = None, us_LastJobID = [], us_LastStatus = [],
     us_LastError = [], us_CreatedAt = 0, us_UpdatedAt = 0 \<rparr>"

lemma monthly_request_valid:
  "validateSchedule monthly_request = None" "usr_Cadence monthly_request \<noteq> ''interval''"
  "us_Cadence monthly_schedule = usr_Cadence monthly_request"
  "us_TimeOfDay monthly_schedule = usr_TimeOfDay monthly_request"
  "us_DayOfWeek monthly_schedule = usr_DayOfWeek monthly_request"
  "us_DayOfMonth monthly_schedule = usr_DayOfMonth monthly_request"
  by code_simp+

lemma calm_utc: "calm utc 0 a"
  by (simp add: calm_def)

text \<open>From noon on 31 January 2024 in UTC, the monthly schedule of day 31 runs on 29 February.\<close>

theorem nextScheduleRun_correct_witness:
  "first_after (due utc monthly_schedule) (1706702400 * second) (1709173800 * second)"
proof -
  have "nextScheduleRun utc monthly_schedule (1706702400 * second) = 1709173800 * second"
    by code_simp
  with nextScheduleRun_correct [OF monthly_request_valid calm_utc [of "1706702400 * second"]]
  show ?thesis by metis
qed

text \<open>
  Computing the next run of a calendar schedule late, at any instant before the run
  that was already announced, gives that same run: no run is skipped or repeated by a late
  tick, and later instants never give earlier runs.
\<close>

theorem nextScheduleRun_stable:
  assumes "runnable loc u a" "runnable loc u b" "a \<le> b"
  shows "(b < nextScheduleRun loc u a \<longrightarrow> nextScheduleRun loc u b = nextScheduleRun loc u a) \<and>
    nextScheduleRun loc u a \<le> nextScheduleRun loc u b"
  using cadence.next_stable [OF assms] cadence.next_mono [OF assms] by simp

theorem nextScheduleRun_stable_witness:
  "nextScheduleRun utc monthly_schedule (1706702401 * second) =
    nextScheduleRun utc monthly_schedule (1706702400 * second)"
proof -
  have "runnable utc monthly_schedule a" for a
    using calm_utc [of a] by (auto simp: runnable_def calendar_schedule_def monthly_schedule_def)
  moreover have "1706702401 * second < nextScheduleRun utc monthly_schedule (1706702400 * second)"
    by code_simp
  ultimately show ?thesis
    using nextScheduleRun_stable [of utc monthly_schedule "1706702400 * second" "1706702401 * second"]
    by simp
qed

text \<open>
  An interval schedule always moves forward: \<open>nextInterval\<close> returns the stored next
  run when that is still ahead and otherwise an instant a positive step later, and the step is
  the interval itself for every interval up to 153722867 minutes.
\<close>

theorem nextInterval_correct:
  "after < nextInterval i n after \<and>
   (after < n \<and> \<not> is_zero n \<longrightarrow> nextInterval i n after = n) \<and>
   (n \<le> after \<and> 0 < i \<and> i \<le> 153722867 \<longrightarrow> nextInterval i n after = after + i * minute)"
proof -
  have "wrap64 (i * minute) = i * minute" if "0 < i" "i \<le> 153722867"
    by (rule wrap64_id) (use that in \<open>simp_all add: min_int_def max_int_def\<close>)
  then show ?thesis using nextInterval_eq(1) [of i n after] nextInterval_eq(2) [of i] by auto
qed

theorem nextInterval_correct_witness:
  "nextInterval 30 zero_time (100 * second) = 1900 * second"
  using nextInterval_correct [of "100 * second" 30 zero_time] by (simp add: zero_time_def)

text \<open>
  The hypothesis of a steady zone is needed. In a zone whose clocks skip from
  midnight to one o'clock (Sao Paulo on 4 November 2018: offset -3 h until 03:00 UTC, then
  -2 h), a daily schedule at 00:00 asked at 23:30 local time gets 23:00 of the same evening,
  which is not after the instant asked about; the schedule stays due and is dispatched again
  at the next tick.
\<close>

theorem nextDaily_midnight_gap:
  "let loc = zone_of (- 10800) [(1541300400, - 7200)]; after = 1541298600 * second
   in nextDaily ''00:00'' after loc = after - 30 * minute"
  by code_simp

text \<open>
  \<open>validateSchedule\<close> puts no upper bound on the interval, and the product with a
  minute wraps around at 64 bits: an accepted interval of 307445735 minutes (585 years) runs
  again after 26 seconds.
\<close>

theorem nextInterval_wraps:
  "validateSchedule (monthly_request \<lparr> usr_Cadence := ''interval'', usr_IntervalMinutes := 307445735 \<rparr>) = None \<and>
   nextInterval 307445735 zero_time 0 = 26290448384"
proof
  show "validateSchedule (monthly_request \<lparr> usr_Cadence := ''interval'', usr_IntervalMinutes := 307445735 \<rparr>) = None"
    by code_simp
  have "wrap64 (307445735 * minute) = 26290448384" by code_simp
  then show "nextInterval 307445735 zero_time 0 = 26290448384"
    using nextInterval_eq(1) [of 307445735 zero_time 0] by (simp add: is_zero_def)
qed

end
