(* ===== verification/Storage.thy ===== *)
theory Storage
  imports Cadence
begin

text \<open>
  The relational store (\<^verbatim>\<open>server/internal/storage\<close>): agents, their command queue, update
  schedules, their run history, jobs and the audit log. The MySQL database is a record of
  tables, each a list of rows, with one auto-increment counter per table; a statement or a
  transaction is one atomic step that either happens or fails and leaves the tables alone
  (\<open>db_faults\<close> says which of the coming steps fail, so the lemmas hold for every pattern of
  failures). An empty string in a nullable column is \<^verbatim>\<open>NULL\<close>. String columns are compared
  byte by byte; the case-insensitive collation of the schema is not modelled. The Redis cache
  is part of the record: \<open>db_redis\<close> says whether one is connected. The clock is the argument
  \<open>now\<close> of each operation.
\<close>

section \<open>Definitions\<close>

datatype store_error = ErrNotFound | DBError string

record db =
  db_agents :: "ComposeAgent list"
  db_snapshots :: "(int \<times> string \<times> instant) list"
  db_commands :: "AgentCommand list"
  db_schedules :: "UpdateSchedule list"
  db_runs :: "UpdateScheduleRun list"
  db_jobs :: "ActionJob list"
  db_audit :: "AuditEntry list"
  db_next_agent :: int
  db_next_command :: int
  db_next_schedule :: int
  db_next_run :: int
  db_next_audit :: int
  db_redis :: bool
  db_cache_agents :: "ComposeAgent list option"
  db_cache_schedules :: "UpdateSchedule list option"
  db_cache_jobs :: "ActionJob list option"
  db_cache_job :: "string \<Rightarrow> ActionJob option"
  db_faults :: "string option list"

type_synonym 'a reply = "(store_error + 'a) \<times> db"

text \<open>One statement or transaction: the next entry of \<open>db_faults\<close> decides whether it happens.\<close>

definition sql :: "db \<Rightarrow> (db \<Rightarrow> 'a reply) \<Rightarrow> 'a reply" where
  "sql d f =
     (case db_faults d of
        [] \<Rightarrow> f d
      | None # fs \<Rightarrow> f (d \<lparr> db_faults := fs \<rparr>)
      | Some e # fs \<Rightarrow> (Inl (DBError e), d \<lparr> db_faults := fs \<rparr>))"

text \<open>Go's \<^verbatim>\<open>if err != nil { return err }\<close> between two statements.\<close>

definition and_then :: "'a reply \<Rightarrow> ('a \<Rightarrow> db \<Rightarrow> 'b reply) \<Rightarrow> 'b reply" where
  "and_then r k = (case r of (Inl e, d) \<Rightarrow> (Inl e, d) | (Inr a, d) \<Rightarrow> k a d)"

subsection \<open>The cache\<close>

text \<open>
  What survives \<^verbatim>\<open>json.Marshal\<close> and \<^verbatim>\<open>json.Unmarshal\<close> of an agent: every field but the token,
  which is tagged \<^verbatim>\<open>json:"-"\<close>. Schedules and jobs survive unchanged.
\<close>

definition agent_json :: "ComposeAgent \<Rightarrow> ComposeAgent" where
  "agent_json a = a \<lparr> ag_Token := [] \<rparr>"

definition drop_agents :: "db \<Rightarrow> db" where
  "drop_agents d = d \<lparr> db_cache_agents := None \<rparr>"

definition drop_schedules :: "db \<Rightarrow> db" where
  "drop_schedules d = d \<lparr> db_cache_schedules := None \<rparr>"

subsection \<open>Agents\<close>

definition scanAgent :: "ComposeAgent \<Rightarrow> ComposeAgent" where
  "scanAgent row =
     (let mode = trim_space (ag_Mode row) in
      row \<lparr> ag_Mode := (if mode = [] then (if ag_BaseURL row = [] then ''callback'' else ''inbound'')
                        else mode) \<rparr>)"

definition normalizeAgentMode :: "string \<Rightarrow> string \<Rightarrow> string" where
  "normalizeAgentMode mode baseURL =
     (let m = trim_space (to_lower mode) in
      if m = ''peer'' then ''peer''
      else if m = ''callback'' \<or> m = ''agent-callback'' then ''callback''
      else if m = ''inbound'' \<or> m = ''agent'' then ''inbound''
      else if m = ''both'' \<or> m = ''agent-both'' then ''both''
      else if trim_space baseURL = [] then ''callback'' else ''inbound'')"

definition ListAgents :: "db \<Rightarrow> ComposeAgent list reply" where
  "ListAgents d =
     (case (if db_redis d then db_cache_agents d else None) of
        Some cached \<Rightarrow> (Inr cached, d)
      | None \<Rightarrow> sql d (\<lambda>d.
          let agents = map scanAgent (sort_key ag_Name (db_agents d)) in
          (Inr agents,
           if db_redis d then d \<lparr> db_cache_agents := Some (map agent_json agents) \<rparr> else d)))"

definition find_row :: "('r \<Rightarrow> bool) \<Rightarrow> 'r list \<Rightarrow> store_error + 'r" where
  "find_row P rows = (case find P rows of None \<Rightarrow> Inl ErrNotFound | Some r \<Rightarrow> Inr r)"

definition GetAgent :: "int \<Rightarrow> db \<Rightarrow> ComposeAgent reply" where
  "GetAgent i d = sql d (\<lambda>d. (map_sum id scanAgent (find_row (\<lambda>a. ag_ID a = i) (db_agents d)), d))"

definition GetAgentByName :: "string \<Rightarrow> db \<Rightarrow> ComposeAgent reply" where
  "GetAgentByName name d =
     sql d (\<lambda>d. (map_sum id scanAgent (find_row (\<lambda>a. ag_Name a = name) (db_agents d)), d))"

text \<open>
  \<^verbatim>\<open>INSERT ... ON DUPLICATE KEY UPDATE\<close> on the unique name. The counter advances either way.
  Whether the driver reports the row's id or the code looks it up by name, the row returned is
  the one with that name.
\<close>

definition upsert_agent :: "instant \<Rightarrow> ComposeAgentRequest \<Rightarrow> db \<Rightarrow> db" where
  "upsert_agent now req d =
     (let enabled = (case agr_Enabled req of Some b \<Rightarrow> b | None \<Rightarrow> True);
          mode = normalizeAgentMode (agr_Mode req) (agr_BaseURL req);
          fresh = \<lparr> ag_ID = db_next_agent d, ag_Name = agr_Name req, ag_BaseURL = agr_BaseURL req,
                    ag_Mode = mode, ag_Enabled = enabled, ag_LastSeen = None, ag_CreatedAt = now,
                    ag_UpdatedAt = now, ag_Token = agr_Token req \<rparr>
      in d \<lparr> db_next_agent := db_next_agent d + 1,
             db_agents :=
               (if \<exists>a \<in> set (db_agents d). ag_Name a = agr_Name req
                then update_where (\<lambda>a. ag_Name a = agr_Name req)
                       (\<lambda>a. a \<lparr> ag_BaseURL := agr_BaseURL req, ag_Mode := mode,
                               ag_Token := (if agr_Token req = [] then ag_Token a else agr_Token req),
                               ag_Enabled := enabled, ag_UpdatedAt := now \<rparr>) (db_agents d)
                else db_agents d @ [fresh]) \<rparr>)"

definition SaveAgent :: "instant \<Rightarrow> ComposeAgentRequest \<Rightarrow> db \<Rightarrow> ComposeAgent reply" where
  "SaveAgent now req d =
     and_then (sql d (\<lambda>d. (Inr (), drop_agents (upsert_agent now req d))))
       (\<lambda>_. GetAgentByName (agr_Name req))"

text \<open>Deleting an agent cascades to its snapshot, its commands and its schedules.\<close>

definition DeleteAgent :: "int \<Rightarrow> db \<Rightarrow> unit reply" where
  "DeleteAgent i d = sql d (\<lambda>d.
     if \<not> (\<exists>a \<in> set (db_agents d). ag_ID a = i) then (Inl ErrNotFound, d)
     else (Inr (), drop_schedules (drop_agents
       (d \<lparr> db_agents := delete_where (\<lambda>a. ag_ID a = i) (db_agents d),
            db_snapshots := delete_where (\<lambda>s. fst s = i) (db_snapshots d),
            db_commands := delete_where (\<lambda>c. ac_AgentID c = i) (db_commands d),
            db_schedules := delete_where (\<lambda>u. us_AgentID u = Some i) (db_schedules d) \<rparr>))))"

definition TouchAgent :: "instant \<Rightarrow> int \<Rightarrow> db \<Rightarrow> unit reply" where
  "TouchAgent now i d = sql d (\<lambda>d.
     (Inr (), drop_agents (d \<lparr> db_agents :=
        update_where (\<lambda>a. ag_ID a = i) (\<lambda>a. a \<lparr> ag_LastSeen := Some now, ag_UpdatedAt := now \<rparr>)
          (db_agents d) \<rparr>)))"

text \<open>
  \<open>SaveAgentProjectSnapshot\<close>: \<open>raw\<close> is the JSON text of the projects, or the error of
  \<^verbatim>\<open>json.Marshal\<close>. The snapshot row refers to its agent.
\<close>

definition SaveAgentProjectSnapshot :: "instant \<Rightarrow> int \<Rightarrow> string result \<Rightarrow> db \<Rightarrow> unit reply" where
  "SaveAgentProjectSnapshot now i raw d =
     (case raw of
        Inl e \<Rightarrow> (Inl (DBError e), d)
      | Inr text \<Rightarrow> sql d (\<lambda>d.
          if \<not> (\<exists>a \<in> set (db_agents d). ag_ID a = i) then (Inl (DBError ''foreign key''), d)
          else (Inr (), drop_agents (d \<lparr> db_snapshots :=
                 (i, text, now) # delete_where (\<lambda>s. fst s = i) (db_snapshots d) \<rparr>))))"

text \<open>\<open>unmarshal\<close> stands for \<^verbatim>\<open>json.Unmarshal\<close> into a list of projects.\<close>

definition GetAgentProjectSnapshot ::
  "(string \<Rightarrow> 'p list result) \<Rightarrow> int \<Rightarrow> db \<Rightarrow> (int \<times> 'p list \<times> instant) reply" where
  "GetAgentProjectSnapshot unmarshal i d = sql d (\<lambda>d.
     (case find_row (\<lambda>s. fst s = i) (db_snapshots d) of
        Inl e \<Rightarrow> (Inl e, d)
      | Inr (_, raw, receivedAt) \<Rightarrow>
          (case unmarshal raw of
             Inl e \<Rightarrow> (Inl (DBError e), d)
           | Inr projects \<Rightarrow> (Inr (i, projects, receivedAt), d))))"

subsection \<open>The command queue of callback agents\<close>

definition EnqueueAgentCommand :: "instant \<Rightarrow> int \<Rightarrow> AgentCommandRequest \<Rightarrow> db \<Rightarrow> AgentCommand reply" where
  "EnqueueAgentCommand now agentID req d = sql d (\<lambda>d.
     let cmd = \<lparr> ac_ID = db_next_command d, ac_AgentID = agentID, ac_Project = aq_Project req,
                 ac_Action = aq_Action req, ac_Params = aq_Params req, ac_Status = ''pending'',
                 ac_Success = False, ac_Output = [], ac_CreatedAt = now, ac_UpdatedAt = now \<rparr>
     in if \<not> (\<exists>a \<in> set (db_agents d). ag_ID a = agentID) then (Inl (DBError ''foreign key''), d)
        else (Inr cmd, d \<lparr> db_next_command := db_next_command d + 1,
                           db_commands := db_commands d @ [cmd] \<rparr>))"

definition pending_of :: "int \<Rightarrow> AgentCommand list \<Rightarrow> AgentCommand list" where
  "pending_of agentID rows =
     take 100 (sort_key ac_ID (filter (\<lambda>c. ac_AgentID c = agentID \<and> ac_Status c = ''pending'') rows))"

definition dispatch_of :: "AgentCommand \<Rightarrow> AgentCommandDispatch" where
  "dispatch_of c = \<lparr> ad_ID = ac_ID c, ad_Project = ac_Project c, ad_Action = ac_Action c,
                     ad_Params = ac_Params c \<rparr>"

definition ClaimPendingCommands :: "instant \<Rightarrow> int \<Rightarrow> db \<Rightarrow> AgentCommandDispatch list reply" where
  "ClaimPendingCommands now agentID d = sql d (\<lambda>d.
     let rows = pending_of agentID (db_commands d); ids = map ac_ID rows in
     (Inr (map dispatch_of rows),
      d \<lparr> db_commands :=
           update_where (\<lambda>c. ac_ID c \<in> set ids)
             (\<lambda>c. c \<lparr> ac_Status := ''dispatched'', ac_UpdatedAt := now \<rparr>) (db_commands d) \<rparr>))"

definition ListAgentCommands :: "int \<Rightarrow> string \<Rightarrow> int \<Rightarrow> db \<Rightarrow> AgentCommand list reply" where
  "ListAgentCommands agentID project limit d =
     (let n = (if limit \<le> 0 \<or> 200 < limit then 50 else limit) in
      sql d (\<lambda>d. (Inr (take (nat n) (rev (sort_key ac_ID
        (filter (\<lambda>c. ac_AgentID c = agentID \<and> (project \<noteq> [] \<longrightarrow> ac_Project c = project))
          (db_commands d))))), d)))"

subsection \<open>Schedules\<close>

text \<open>The \<^verbatim>\<open>LEFT JOIN compose_agents\<close> that fills in the agent's name.\<close>

definition agent_name :: "db \<Rightarrow> int option \<Rightarrow> string" where
  "agent_name d ag =
     (case ag of None \<Rightarrow> [] | Some i \<Rightarrow>
        (case find (\<lambda>a. ag_ID a = i) (db_agents d) of None \<Rightarrow> [] | Some a \<Rightarrow> ag_Name a))"

definition joined :: "db \<Rightarrow> UpdateSchedule \<Rightarrow> UpdateSchedule" where
  "joined d u = u \<lparr> us_AgentName := agent_name d (us_AgentID u) \<rparr>"

definition all_schedules :: "db \<Rightarrow> UpdateSchedule list" where
  "all_schedules d =
     (let by_next = sort_key us_NextRunAt (map (joined d) (db_schedules d))
      in filter us_Enabled by_next @ filter (\<lambda>u. \<not> us_Enabled u) by_next)"

definition ListSchedules :: "db \<Rightarrow> UpdateSchedule list reply" where
  "ListSchedules d =
     (case (if db_redis d then db_cache_schedules d else None) of
        Some cached \<Rightarrow> (Inr cached, d)
      | None \<Rightarrow> sql d (\<lambda>d.
          (Inr (all_schedules d),
           if db_redis d then d \<lparr> db_cache_schedules := Some (all_schedules d) \<rparr> else d)))"

definition ListDueSchedules :: "instant \<Rightarrow> db \<Rightarrow> UpdateSchedule list reply" where
  "ListDueSchedules now d = sql d (\<lambda>d.
     (Inr (sort_key us_NextRunAt
        (map (joined d) (filter (\<lambda>u. us_Enabled u \<and> us_NextRunAt u \<le> now) (db_schedules d)))), d))"

definition GetSchedule :: "int \<Rightarrow> db \<Rightarrow> UpdateSchedule reply" where
  "GetSchedule i d =
     sql d (\<lambda>d. (map_sum id (joined d) (find_row (\<lambda>u. us_ID u = i) (db_schedules d)), d))"

definition request_row :: "location \<Rightarrow> instant \<Rightarrow> UpdateScheduleRequest \<Rightarrow> UpdateSchedule" where
  "request_row loc now req =
     (let stub = \<lparr> us_ID = 0, us_AgentID = usr_AgentID req, us_AgentName = [],
            us_Project = usr_Project req,
            us_Action = (if usr_Action req = [] then ''update'' else usr_Action req),
            us_Enabled = (case usr_Enabled req of Some b \<Rightarrow> b | None \<Rightarrow> True),
            us_Cadence = (if usr_Cadence req = [] then ''interval'' else usr_Cadence req),
            us_TimeOfDay = (if usr_TimeOfDay req = [] then ''00:00'' else usr_TimeOfDay req),
            us_DayOfWeek = usr_DayOfWeek req, us_DayOfMonth = usr_DayOfMonth req,
            us_IntervalMinutes = usr_IntervalMinutes req,
            us_TimeoutSeconds = (if usr_TimeoutSeconds req \<le> 0 then 300 else usr_TimeoutSeconds req),
            us_NextRunAt = now, us_LastRunAt = None, us_LastJobID = [], us_LastStatus = [],
            us_LastError = [], us_CreatedAt = now, us_UpdatedAt = now \<rparr>
      in stub \<lparr> us_NextRunAt :=
           (case usr_NextRunAt req of
              Some t \<Rightarrow> if is_zero t then nextScheduleRun loc stub now else t
            | None \<Rightarrow> nextScheduleRun loc stub now) \<rparr>)"

text \<open>The columns that the \<^verbatim>\<open>UPDATE\<close> of \<open>SaveSchedule\<close> overwrites.\<close>

definition overwrite_row :: "UpdateSchedule \<Rightarrow> UpdateSchedule \<Rightarrow> UpdateSchedule" where
  "overwrite_row r u = u \<lparr> us_AgentID := us_AgentID r, us_Project := us_Project r,
     us_Action := us_Action r, us_Enabled := us_Enabled r, us_Cadence := us_Cadence r,
     us_TimeOfDay := us_TimeOfDay r, us_DayOfWeek := us_DayOfWeek r, us_DayOfMonth := us_DayOfMonth r,
     us_IntervalMinutes := us_IntervalMinutes r, us_TimeoutSeconds := us_TimeoutSeconds r,
     us_NextRunAt := us_NextRunAt r, us_UpdatedAt := us_UpdatedAt r \<rparr>"

definition known_agent :: "db \<Rightarrow> int option \<Rightarrow> bool" where
  "known_agent d ag = (case ag of None \<Rightarrow> True | Some i \<Rightarrow> \<exists>a \<in> set (db_agents d). ag_ID a = i)"

definition SaveSchedule :: "location \<Rightarrow> instant \<Rightarrow> UpdateScheduleRequest \<Rightarrow> db \<Rightarrow> UpdateSchedule reply" where
  "SaveSchedule loc now req d =
     (let row = request_row loc now req in
      if 0 < usr_ID req then
        and_then (sql d (\<lambda>d.
            if \<not> (\<exists>u \<in> set (db_schedules d). us_ID u = usr_ID req) then (Inl ErrNotFound, d)
            else if \<not> known_agent d (usr_AgentID req) then (Inl (DBError ''foreign key''), d)
            else (Inr (), drop_schedules (d \<lparr> db_schedules :=
                   update_where (\<lambda>u. us_ID u = usr_ID req) (overwrite_row row) (db_schedules d) \<rparr>))))
          (\<lambda>_. GetSchedule (usr_ID req))
      else
        and_then (sql d (\<lambda>d.
            if \<not> known_agent d (usr_AgentID req) then (Inl (DBError ''foreign key''), d)
            else (Inr (db_next_schedule d),
                  drop_schedules (d \<lparr> db_next_schedule := db_next_schedule d + 1,
                     db_schedules := db_schedules d @ [row \<lparr> us_ID := db_next_schedule d \<rparr>] \<rparr>))))
          GetSchedule)"

definition DeleteSchedule :: "int \<Rightarrow> db \<Rightarrow> unit reply" where
  "DeleteSchedule i d = sql d (\<lambda>d.
     if \<not> (\<exists>u \<in> set (db_schedules d). us_ID u = i) then (Inl ErrNotFound, d)
     else (Inr (), drop_schedules (d \<lparr> db_schedules := delete_where (\<lambda>u. us_ID u = i) (db_schedules d) \<rparr>)))"

definition disabled_row :: "instant \<Rightarrow> string \<Rightarrow> UpdateSchedule \<Rightarrow> UpdateSchedule" where
  "disabled_row now reason u = u \<lparr> us_Enabled := False, us_LastStatus := ''disabled'',
     us_LastError := reason, us_UpdatedAt := now \<rparr>"

definition DisableSchedule :: "instant \<Rightarrow> int \<Rightarrow> string \<Rightarrow> db \<Rightarrow> unit reply" where
  "DisableSchedule now i reason d = sql d (\<lambda>d.
     if \<not> (\<exists>u \<in> set (db_schedules d). us_ID u = i) then (Inl ErrNotFound, d)
     else (Inr (), drop_schedules (d \<lparr> db_schedules :=
            update_where (\<lambda>u. us_ID u = i) (disabled_row now reason) (db_schedules d) \<rparr>)))"

definition DisableLocalSchedulesForProject :: "instant \<Rightarrow> string \<Rightarrow> string \<Rightarrow> db \<Rightarrow> nat reply" where
  "DisableLocalSchedulesForProject now project reason d = sql d (\<lambda>d.
     let P = (\<lambda>u. us_Project u = project \<and> us_AgentID u = None \<and> us_Enabled u);
         affected = count_where P (db_schedules d);
         d' = d \<lparr> db_schedules := update_where P (disabled_row now reason) (db_schedules d) \<rparr>
     in (Inr affected, if 0 < affected then drop_schedules d' else d'))"

definition ScheduledCheckProjectNames :: "db \<Rightarrow> string list reply" where
  "ScheduledCheckProjectNames d = sql d (\<lambda>d.
     (Inr (remdups (map us_Project (filter (\<lambda>u. us_Enabled u \<and> us_AgentID u = None \<and>
        us_Action u = ''check'') (db_schedules d)))), d))"

subsection \<open>The run history and its audit rows\<close>

text \<open>
  \<open>insertScheduleRunTx\<close> and \<open>insertScheduleAuditTx\<close> insert one row for the schedule with the
  given id, if there is one; \<open>node\<close> is the environment variable \<^verbatim>\<open>AUDIT_NODE_NAME\<close>.
\<close>

definition insertScheduleRunTx :: "int \<Rightarrow> string \<Rightarrow> string \<Rightarrow> string \<Rightarrow> instant \<Rightarrow> db \<Rightarrow> db" where
  "insertScheduleRunTx scheduleID jobID status errText startedAt d =
     (case find (\<lambda>u. us_ID u = scheduleID) (db_schedules d) of
        None \<Rightarrow> d
      | Some u \<Rightarrow>
          d \<lparr> db_next_run := db_next_run d + 1,
              db_runs := db_runs d @
                [\<lparr> run_ID = db_next_run d, run_ScheduleID = us_ID u, run_AgentID = us_AgentID u,
                   run_AgentName = agent_name d (us_AgentID u), run_Project = us_Project u,
                   run_Action = us_Action u, run_JobID = jobID, run_Status = status,
                   run_Success = False, run_Output = [], run_Error = errText,
                   run_StartedAt = startedAt, run_EndedAt = None, run_Duration = [] \<rparr>] \<rparr>)"

definition or_this_server :: "string \<Rightarrow> string" where
  "or_this_server name = (if name = [] then ''this server'' else name)"

definition schedule_audit ::
  "string \<Rightarrow> string \<Rightarrow> string \<Rightarrow> string \<Rightarrow> int \<Rightarrow> string \<Rightarrow> string \<Rightarrow> string \<Rightarrow> instant \<Rightarrow> db \<Rightarrow> db" where
  "schedule_audit node act project target scheduleID job_part status errText createdAt d =
     d \<lparr> db_next_audit := db_next_audit d + 1,
         db_audit := db_audit d @
           [\<lparr> au_ID = db_next_audit d, au_Node = node, au_Actor = ''scheduler'',
              au_Action = ''scheduled_'' @ act @ ''_'' @ status, au_Project = project,
              au_Target = target, au_Success = (status \<notin> {''failed'', ''unknown''}),
              au_DurationMs = 0,
              au_Details = ''schedule_id='' @ itoa scheduleID @ job_part
                @ (if errText \<noteq> [] then '' error='' @ errText else []),
              au_RemoteIP = [], au_CreatedAt = createdAt \<rparr>] \<rparr>"

definition insertScheduleAuditTx ::
  "string \<Rightarrow> int \<Rightarrow> string \<Rightarrow> string \<Rightarrow> string \<Rightarrow> instant \<Rightarrow> db \<Rightarrow> db" where
  "insertScheduleAuditTx node scheduleID jobID status errText createdAt d =
     (case find (\<lambda>u. us_ID u = scheduleID) (db_schedules d) of
        None \<Rightarrow> d
      | Some u \<Rightarrow>
          schedule_audit node (us_Action u) (us_Project u)
            (or_this_server (agent_name d (us_AgentID u))) (us_ID u)
            (if jobID \<noteq> [] then '' job_id='' @ jobID else []) status errText createdAt d)"

definition insertScheduleCompletionAuditTx ::
  "string \<Rightarrow> string \<Rightarrow> string \<Rightarrow> string \<Rightarrow> instant \<Rightarrow> db \<Rightarrow> db" where
  "insertScheduleCompletionAuditTx node jobID status errText createdAt d =
     (case rev (sort_key run_ID (filter (\<lambda>r. run_JobID r = jobID) (db_runs d))) of
        [] \<Rightarrow> d
      | r # _ \<Rightarrow>
          schedule_audit node (run_Action r) (run_Project r) (or_this_server (run_AgentName r))
            (run_ScheduleID r) ('' job_id='' @ jobID) status errText createdAt d)"

definition dispatched_row :: "instant \<Rightarrow> instant \<Rightarrow> string \<Rightarrow> string \<Rightarrow> string \<Rightarrow> UpdateSchedule \<Rightarrow> UpdateSchedule" where
  "dispatched_row now nextRun jobID status errText u =
     u \<lparr> us_NextRunAt := nextRun, us_LastRunAt := Some now, us_LastJobID := jobID,
         us_LastStatus := status, us_LastError := errText, us_UpdatedAt := now \<rparr>"

definition MarkScheduleDispatched ::
  "string \<Rightarrow> instant \<Rightarrow> int \<Rightarrow> instant \<Rightarrow> string \<Rightarrow> string \<Rightarrow> string \<Rightarrow> db \<Rightarrow> unit reply" where
  "MarkScheduleDispatched node now i nextRun jobID status errText d = sql d (\<lambda>d.
     if \<not> (\<exists>u \<in> set (db_schedules d). us_ID u = i) then (Inl ErrNotFound, d)
     else
       (let d1 = d \<lparr> db_schedules := update_where (\<lambda>u. us_ID u = i)
                       (dispatched_row now nextRun jobID status errText) (db_schedules d) \<rparr>;
            d2 = insertScheduleRunTx i jobID status errText now d1;
            d3 = insertScheduleAuditTx node i jobID status errText now d2
        in (Inr (), drop_schedules d3)))"

definition completes :: "string \<Rightarrow> string \<Rightarrow> UpdateScheduleRun \<Rightarrow> bool" where
  "completes jobID status r \<longleftrightarrow> run_JobID r = jobID \<and> run_Status r \<noteq> status"

definition completed_row :: "string \<Rightarrow> string \<Rightarrow> string \<Rightarrow> instant \<Rightarrow> string \<Rightarrow> UpdateScheduleRun \<Rightarrow> UpdateScheduleRun" where
  "completed_row status output errText endedAt duration r =
     r \<lparr> run_Status := status, run_Output := output, run_Error := errText,
         run_EndedAt := Some endedAt, run_Duration := duration \<rparr>"

definition CompleteScheduleRun ::
  "string \<Rightarrow> instant \<Rightarrow> string \<Rightarrow> string \<Rightarrow> string \<Rightarrow> string \<Rightarrow> instant \<Rightarrow> string \<Rightarrow> db \<Rightarrow> unit reply" where
  "CompleteScheduleRun node now jobID status output errText endedAt0 duration d =
     (if jobID = [] then (Inr (), d)
      else
        let endedAt = (if is_zero endedAt0 then now else endedAt0) in
        sql d (\<lambda>d.
          if count_where (completes jobID status) (db_runs d) = 0 then (Inr (), d)
          else
            (let d1 = d \<lparr> db_runs := update_where (completes jobID status)
                            (completed_row status output errText endedAt duration) (db_runs d) \<rparr>;
                 d2 = d1 \<lparr> db_schedules := update_where (\<lambda>u. us_LastJobID u = jobID)
                            (\<lambda>u. u \<lparr> us_LastStatus := status, us_LastError := errText, us_UpdatedAt := now \<rparr>)
                            (db_schedules d1) \<rparr>;
                 d3 = insertScheduleCompletionAuditTx node jobID status errText endedAt d2
             in (Inr (), drop_schedules d3))))"

definition agent_job_id :: "int \<Rightarrow> string" where
  "agent_job_id i = ''agent-cmd-'' @ itoa i"

definition SaveAgentCommandResult ::
  "string \<Rightarrow> instant \<Rightarrow> int \<Rightarrow> int \<Rightarrow> bool \<Rightarrow> string \<Rightarrow> db \<Rightarrow> unit reply" where
  "SaveAgentCommandResult node now agentID i success output d =
     and_then (sql d (\<lambda>d. (Inr (), d \<lparr> db_commands :=
         update_where (\<lambda>c. ac_ID c = i \<and> ac_AgentID c = agentID)
           (\<lambda>c. c \<lparr> ac_Status := (if success then ''done'' else ''error''), ac_Success := success,
                   ac_Output := output, ac_UpdatedAt := now \<rparr>) (db_commands d) \<rparr>)))
       (\<lambda>_. CompleteScheduleRun node now (agent_job_id i)
              (if success then ''completed'' else ''failed'') output
              (if success then [] else ''agent command failed'') now [])"

text \<open>
  \<open>ListScheduleRuns\<close>: the newest runs, with the status, success, output, error and end of the
  job or of the agent command behind them.
\<close>

definition resolved_run :: "db \<Rightarrow> UpdateScheduleRun \<Rightarrow> UpdateScheduleRun" where
  "resolved_run d r =
     (let j = (if run_JobID r = [] then None else find (\<lambda>j. aj_ID j = run_JobID r) (db_jobs d));
          c = find (\<lambda>c. run_JobID r = agent_job_id (ac_ID c)) (db_commands d)
      in r \<lparr> run_Status :=
               (case j of Some j \<Rightarrow> aj_Status j | None \<Rightarrow>
                 (case c of
                    Some c \<Rightarrow> if ac_Status c = ''done'' then ''completed''
                               else if ac_Status c = ''error'' then ''failed'' else ac_Status c
                  | None \<Rightarrow> run_Status r)),
             run_Success :=
               (case j of Some j \<Rightarrow> aj_Success j | None \<Rightarrow>
                 (case c of Some c \<Rightarrow> ac_Success c | None \<Rightarrow> run_Status r = ''skipped'')),
             run_Output := take 32768
               (case j of Some j \<Rightarrow> aj_Output j | None \<Rightarrow>
                 (case c of Some c \<Rightarrow> if ac_Output c \<noteq> [] then ac_Output c else run_Output r
                  | None \<Rightarrow> run_Output r)),
             run_Error :=
               (case j of Some j \<Rightarrow> if aj_Error j \<noteq> [] then aj_Error j else run_Error r
                | None \<Rightarrow> run_Error r),
             run_EndedAt :=
               (case j of Some j \<Rightarrow> if is_zero (aj_EndedAt j) then None else Some (aj_EndedAt j)
                | None \<Rightarrow>
                 (case c of
                    Some c \<Rightarrow> if ac_Status c = ''done'' \<or> ac_Status c = ''error''
                               then Some (ac_UpdatedAt c) else run_EndedAt r
                  | None \<Rightarrow> run_EndedAt r)),
             run_Duration := (case j of Some j \<Rightarrow> aj_Duration j | None \<Rightarrow> run_Duration r) \<rparr>)"

definition ListScheduleRuns :: "int \<Rightarrow> db \<Rightarrow> UpdateScheduleRun list reply" where
  "ListScheduleRuns limit d =
     (let n = (if limit \<le> 0 \<or> 500 < limit then 100 else limit) in
      sql d (\<lambda>d. (Inr (take (nat n)
        (rev (sort_key run_StartedAt (sort_key run_ID (map (resolved_run d) (db_runs d)))))), d)))"

text \<open>
  The two repairs that \<^verbatim>\<open>Migrate\<close> runs at start: a run row for the last run of each schedule that
  has none, and the schedules' last status from the job or command behind it.
\<close>

definition backfillLatestScheduleRuns :: "db \<Rightarrow> unit reply" where
  "backfillLatestScheduleRuns d = sql d (\<lambda>d.
     let missing = filter (\<lambda>u. us_LastRunAt u \<noteq> None \<and>
           \<not> (\<exists>r \<in> set (db_runs d). run_ScheduleID r = us_ID u \<and> Some (run_StartedAt r) = us_LastRunAt u))
           (db_schedules d);
         rows = map (\<lambda>(k, u). \<lparr> run_ID = db_next_run d + int k, run_ScheduleID = us_ID u,
             run_AgentID = us_AgentID u, run_AgentName = agent_name d (us_AgentID u),
             run_Project = us_Project u, run_Action = us_Action u, run_JobID = us_LastJobID u,
             run_Status = us_LastStatus u, run_Success = False, run_Output = [],
             run_Error = us_LastError u,
             run_StartedAt = (case us_LastRunAt u of Some t \<Rightarrow> t | None \<Rightarrow> 0),
             run_EndedAt = None, run_Duration = [] \<rparr>) (enumerate 0 missing)
     in (Inr (), d \<lparr> db_runs := db_runs d @ rows, db_next_run := db_next_run d + int (length rows) \<rparr>))"

definition reconcileLatestScheduleStatuses :: "db \<Rightarrow> unit reply" where
  "reconcileLatestScheduleStatuses d =
     and_then (sql d (\<lambda>d. (Inr (), d \<lparr> db_schedules := map (\<lambda>u.
         case find (\<lambda>j. aj_ID j = us_LastJobID u) (db_jobs d) of
           None \<Rightarrow> u
         | Some j \<Rightarrow> u \<lparr> us_LastStatus := aj_Status j, us_LastError := aj_Error j,
             us_UpdatedAt := max (us_UpdatedAt u)
               (if is_zero (aj_EndedAt j) then aj_StartedAt j else aj_EndedAt j) \<rparr>) (db_schedules d) \<rparr>)))
       (\<lambda>_ d. sql d (\<lambda>d. (Inr (), d \<lparr> db_schedules := map (\<lambda>u.
         case find (\<lambda>c. us_LastJobID u = agent_job_id (ac_ID c)) (db_commands d) of
           None \<Rightarrow> u
         | Some c \<Rightarrow> u \<lparr> us_LastStatus := (if ac_Status c = ''done'' then ''completed''
               else if ac_Status c = ''error'' then ''failed'' else ac_Status c),
             us_LastError := (if ac_Status c = ''error'' then ''agent command failed'' else []),
             us_UpdatedAt := max (us_UpdatedAt u) (ac_UpdatedAt c) \<rparr>) (db_schedules d) \<rparr>)))"

subsection \<open>Jobs\<close>

text \<open>The row of a job: an end time of zero is stored as \<^verbatim>\<open>NULL\<close> and read back as zero.\<close>

definition SaveJob :: "ActionJob \<Rightarrow> db \<Rightarrow> unit reply" where
  "SaveJob job d = sql d (\<lambda>d.
     let d1 = d \<lparr> db_jobs :=
           (if \<exists>j \<in> set (db_jobs d). aj_ID j = aj_ID job
            then update_where (\<lambda>j. aj_ID j = aj_ID job) (\<lambda>_. job) (db_jobs d)
            else db_jobs d @ [job]) \<rparr>
     in (Inr (), if db_redis d
                 then d1 \<lparr> db_cache_job := (db_cache_job d)(aj_ID job \<mapsto> job), db_cache_jobs := None \<rparr>
                 else d1))"

definition LoadJob :: "string \<Rightarrow> db \<Rightarrow> ActionJob reply" where
  "LoadJob i d =
     (case (if db_redis d then db_cache_job d i else None) of
        Some cached \<Rightarrow> (Inr cached, d)
      | None \<Rightarrow> sql d (\<lambda>d.
          (case find_row (\<lambda>j. aj_ID j = i) (db_jobs d) of
             Inl e \<Rightarrow> (Inl e, d)
           | Inr job \<Rightarrow> (Inr job, if db_redis d then d \<lparr> db_cache_job := (db_cache_job d)(i \<mapsto> job) \<rparr> else d))))"

definition recent_jobs :: "db \<Rightarrow> ActionJob list" where
  "recent_jobs d = take 300 (rev (sort_key aj_StartedAt (rev (db_jobs d))))"

definition ListJobs :: "db \<Rightarrow> ActionJob list reply" where
  "ListJobs d =
     (case (if db_redis d then db_cache_jobs d else None) of
        Some cached \<Rightarrow> (Inr cached, d)
      | None \<Rightarrow> sql d (\<lambda>d.
          (Inr (recent_jobs d), if db_redis d then d \<lparr> db_cache_jobs := Some (recent_jobs d) \<rparr> else d)))"

subsection \<open>The audit log\<close>

definition trimShort :: "string \<Rightarrow> nat \<Rightarrow> string" where
  "trimShort s n = (let t = trim_space s in if n < length t then take n t else t)"

definition trimLong :: "string \<Rightarrow> nat \<Rightarrow> string" where
  "trimLong s n = (if n < length s then take n s else s)"

definition InsertAuditEntry :: "instant \<Rightarrow> AuditEntry \<Rightarrow> db \<Rightarrow> int reply" where
  "InsertAuditEntry now e d =
     (if trim_space (au_Action e) = [] then (Inr 0, d)
      else sql d (\<lambda>d.
        (Inr (db_next_audit d),
         d \<lparr> db_next_audit := db_next_audit d + 1,
             db_audit := db_audit d @
               [\<lparr> au_ID = db_next_audit d, au_Node = trimShort (au_Node e) 128,
                  au_Actor = trimShort (au_Actor e) 128, au_Action = trimShort (au_Action e) 64,
                  au_Project = trimShort (au_Project e) 255, au_Target = trimShort (au_Target e) 255,
                  au_Success = au_Success e, au_DurationMs = au_DurationMs e,
                  au_Details = trimLong (au_Details e) 8192, au_RemoteIP = trimShort (au_RemoteIP e) 64,
                  au_CreatedAt = (if is_zero (au_CreatedAt e) then now else au_CreatedAt e) \<rparr>] \<rparr>)))"

record AuditListParams =
  alp_Node :: string
  alp_Actor :: string
  alp_Action :: string
  alp_Q :: string
  alp_Project :: string
  alp_Since :: instant
  alp_Until :: instant
  alp_Success :: "bool option"
  alp_Limit :: int
  alp_Offset :: int

text \<open>
  The filters of \<open>ListAuditEntries\<close>. \<open>like p s\<close> stands for MySQL's \<^verbatim>\<open>s LIKE p\<close>; the code builds the
  pattern from the search text without escaping its wildcards.
\<close>

definition audit_matches :: "(string \<Rightarrow> string \<Rightarrow> bool) \<Rightarrow> AuditListParams \<Rightarrow> AuditEntry \<Rightarrow> bool" where
  "audit_matches like p e \<longleftrightarrow>
     (alp_Node p \<noteq> [] \<longrightarrow> au_Node e = alp_Node p) \<and>
     (alp_Actor p \<noteq> [] \<longrightarrow> au_Actor e = alp_Actor p) \<and>
     (alp_Action p \<noteq> [] \<longrightarrow> au_Action e = alp_Action p) \<and>
     (alp_Q p \<noteq> [] \<longrightarrow> like (''%'' @ alp_Q p @ ''%'') (au_Action e)) \<and>
     (alp_Project p \<noteq> [] \<longrightarrow> au_Project e = alp_Project p) \<and>
     (\<not> is_zero (alp_Since p) \<longrightarrow> alp_Since p \<le> au_CreatedAt e) \<and>
     (\<not> is_zero (alp_Until p) \<longrightarrow> au_CreatedAt e \<le> alp_Until p) \<and>
     (case alp_Success p of None \<Rightarrow> True | Some b \<Rightarrow> au_Success e = b)"

definition ListAuditEntries ::
  "(string \<Rightarrow> string \<Rightarrow> bool) \<Rightarrow> AuditListParams \<Rightarrow> db \<Rightarrow> AuditEntry list reply" where
  "ListAuditEntries like p d =
     (let n = (if alp_Limit p \<le> 0 \<or> 500 < alp_Limit p then 100 else alp_Limit p);
          off = (if alp_Offset p < 0 then 0 else alp_Offset p)
      in sql d (\<lambda>d. (Inr (take (nat n) (drop (nat off)
           (rev (sort_key au_CreatedAt (sort_key au_ID (filter (audit_matches like p) (db_audit d))))))), d)))"

definition distinctAuditColumn :: "string \<Rightarrow> db \<Rightarrow> string list reply" where
  "distinctAuditColumn col d =
     (if col = ''node'' then
        sql d (\<lambda>d. (Inr (sort (remdups (filter (\<lambda>v. v \<noteq> []) (map au_Node (db_audit d))))), d))
      else if col = ''action'' then
        sql d (\<lambda>d. (Inr (sort (remdups (filter (\<lambda>v. v \<noteq> []) (map au_Action (db_audit d))))), d))
      else (Inl (DBError ''sql: no rows in result set''), d))"

end
