(* ===== verification/StoreInvariants.thy ===== *)
theory StoreInvariants
  imports Storage
begin

text \<open>
  Invariants of the store: unique increasing identifiers, referential integrity and a cache
  that agrees with the tables, kept by every operation under every pattern of failures; and
  the exactly-once hand-out of queued agent commands over arbitrary executions.
\<close>

section \<open>Statements that may fail\<close>

lemma sql_cases:
  assumes "sql d f = (r, d')"
  obtains (fault) e fs where "r = Inl (DBError e)" "d' = d \<lparr> db_faults := fs \<rparr>"
  | (ok) fs where "f (d \<lparr> db_faults := fs \<rparr>) = (r, d')"
proof (cases "db_faults d")
  case Nil
  then have eq: "d \<lparr> db_faults := [] \<rparr> = d" by (cases d) simp
  have "f (d \<lparr> db_faults := [] \<rparr>) = (r, d')" unfolding eq using assms Nil by (simp add: sql_def)
  then show ?thesis by (rule ok)
next
  case (Cons a fs)
  then show ?thesis using assms fault ok by (cases a) (auto simp: sql_def)
qed

text \<open>A property that ignores \<open>db_faults\<close> and that the body keeps is kept by the statement.\<close>

definition fault_blind :: "(db \<Rightarrow> bool) \<Rightarrow> bool" where
  "fault_blind I \<longleftrightarrow> (\<forall>d fs. I (d \<lparr> db_faults := fs \<rparr>) = I d)"

lemma sql_keeps:
  assumes "fault_blind I" "I d" "\<And>d. I d \<Longrightarrow> I (snd (f d))"
  shows "I (snd (sql d f))"
proof -
  obtain r d' where e: "sql d f = (r, d')" by fastforce
  from e show ?thesis
  proof (cases rule: sql_cases)
    case (fault e fs)
    then show ?thesis using assms(1,2) e by (simp add: fault_blind_def)
  next
    case (ok fs)
    then show ?thesis using assms(3) [of "d \<lparr> db_faults := fs \<rparr>"] assms(1,2) e
      by (simp add: fault_blind_def)
  qed
qed

lemma and_then_keeps:
  assumes "I (snd r)" "\<And>a d. I d \<Longrightarrow> I (snd (k a d))"
  shows "I (snd (and_then r k))"
  using assms by (cases r; cases "fst r") (auto simp: and_then_def split: sum.splits)

section \<open>Keyed tables\<close>

definition keyed :: "('r \<Rightarrow> int) \<Rightarrow> int \<Rightarrow> 'r list \<Rightarrow> bool" where
  "keyed k n rows \<longleftrightarrow> distinct (map k rows) \<and> (\<forall>i \<in> set (map k rows). i < n)"

lemma keyed_append [tbl_simps]: "k r = n \<Longrightarrow> keyed k n rows \<Longrightarrow> keyed k (n + 1) (rows @ [r])"
  by (fastforce simp: keyed_def)

lemma keyed_more: "keyed k n rows \<Longrightarrow> n \<le> m \<Longrightarrow> keyed k m rows"
  by (fastforce simp: keyed_def)

lemma keyed_update [tbl_simps]:
  "(\<And>r. k (f r) = k r) \<Longrightarrow> keyed k n (update_where P f rows) \<longleftrightarrow> keyed k n rows"
  by (simp only: keyed_def map_update_where)

lemma keyed_map [tbl_simps]: "(\<And>r. k (f r) = k r) \<Longrightarrow> keyed k n (map f rows) \<longleftrightarrow> keyed k n rows"
  by (simp add: keyed_def comp_def)

lemma keyed_delete [tbl_simps]: "keyed k n rows \<Longrightarrow> keyed k n (delete_where P rows)"
  by (auto simp: keyed_def distinct_map_delete_where)

lemma image_update_where [tbl_simps]:
  "(\<And>r. k (f r) = k r) \<Longrightarrow> k ` set (update_where P f rows) = k ` set rows"
  by (simp only: set_map [symmetric] map_update_where)

section \<open>The invariant\<close>

definition command_statuses :: "string set" where
  "command_statuses = {''pending'', ''dispatched'', ''done'', ''error''}"

definition wf_ids :: "db \<Rightarrow> bool" where
  "wf_ids d \<longleftrightarrow>
     keyed ag_ID (db_next_agent d) (db_agents d) \<and> distinct (map ag_Name (db_agents d)) \<and>
     keyed ac_ID (db_next_command d) (db_commands d) \<and>
     (\<forall>c \<in> set (db_commands d). ac_Status c \<in> command_statuses) \<and>
     keyed us_ID (db_next_schedule d) (db_schedules d) \<and>
     keyed run_ID (db_next_run d) (db_runs d) \<and> keyed au_ID (db_next_audit d) (db_audit d) \<and>
     distinct (map aj_ID (db_jobs d)) \<and> distinct (map fst (db_snapshots d))"

definition wf_refs :: "db \<Rightarrow> bool" where
  "wf_refs d \<longleftrightarrow>
     (\<forall>c \<in> set (db_commands d). ac_AgentID c \<in> ag_ID ` set (db_agents d)) \<and>
     (\<forall>u \<in> set (db_schedules d). \<forall>i. us_AgentID u = Some i \<longrightarrow> i \<in> ag_ID ` set (db_agents d)) \<and>
     (\<forall>s \<in> set (db_snapshots d). fst s \<in> ag_ID ` set (db_agents d))"

definition coherent :: "db \<Rightarrow> bool" where
  "coherent d \<longleftrightarrow>
     (\<forall>l. db_cache_agents d = Some l \<longrightarrow>
        l = map agent_json (map scanAgent (sort_key ag_Name (db_agents d)))) \<and>
     (\<forall>l. db_cache_schedules d = Some l \<longrightarrow> l = all_schedules d) \<and>
     (\<forall>l. db_cache_jobs d = Some l \<longrightarrow> l = recent_jobs d) \<and>
     (\<forall>i j. db_cache_job d i = Some j \<longrightarrow> find (\<lambda>j. aj_ID j = i) (db_jobs d) = Some j)"

definition wf_db :: "db \<Rightarrow> bool" where
  "wf_db d \<longleftrightarrow> wf_ids d \<and> wf_refs d \<and> (db_redis d \<longrightarrow> coherent d)"

lemma all_schedules_cong:
  assumes "db_schedules d' = db_schedules d" "\<And>u. u \<in> set (db_schedules d) \<Longrightarrow> joined d' u = joined d u"
  shows "all_schedules d' = all_schedules d"
proof -
  have "map (joined d') (db_schedules d') = map (joined d) (db_schedules d)" using assms by simp
  then show ?thesis by (simp add: all_schedules_def)
qed

lemma same_agents:
  assumes "db_agents d' = db_agents d"
  shows "joined d' = joined d"
    "db_schedules d' = db_schedules d \<Longrightarrow> all_schedules d' = all_schedules d"
proof -
  show j: "joined d' = joined d" unfolding joined_def [abs_def] agent_name_def assms ..
  show "all_schedules d' = all_schedules d" if "db_schedules d' = db_schedules d"
    unfolding all_schedules_def that j ..
qed

lemma same_jobs: "db_jobs d' = db_jobs d \<Longrightarrow> recent_jobs d' = recent_jobs d"
  by (simp add: recent_jobs_def)

text \<open>Operations that leave the cached tables alone, or drop what they change, stay coherent.\<close>

lemma coherent_step:
  assumes "coherent d"
    and "db_cache_agents d' = None \<or> db_cache_agents d' = db_cache_agents d \<and> db_agents d' = db_agents d"
    and "db_cache_schedules d' = None \<or>
      db_cache_schedules d' = db_cache_schedules d \<and> all_schedules d' = all_schedules d"
    and "db_cache_jobs d' = db_cache_jobs d" "db_cache_job d' = db_cache_job d" "db_jobs d' = db_jobs d"
  shows "coherent d'"
proof -
  have "recent_jobs d' = recent_jobs d" by (rule same_jobs) (rule assms)
  then show ?thesis unfolding coherent_def
  proof (intro conjI allI impI)
    show "l = map agent_json (map scanAgent (sort_key ag_Name (db_agents d')))"
      if "db_cache_agents d' = Some l" for l using that assms(1,2) by (auto simp: coherent_def)
    show "l = all_schedules d'" if "db_cache_schedules d' = Some l" for l
      using that assms(1,3) by (auto simp: coherent_def)
  qed (use assms(1,4-6) in \<open>auto simp: coherent_def\<close>)
qed

lemma wf_db_fault_blind: "fault_blind wf_db"
proof -
  have "joined (d \<lparr> db_faults := fs \<rparr>) = joined d" for d :: db and fs by (rule same_agents) simp
  then show ?thesis
    by (auto simp: fault_blind_def wf_db_def wf_ids_def wf_refs_def coherent_def all_schedules_def
        recent_jobs_def)
qed

lemmas wf_sql = sql_keeps [OF wf_db_fault_blind]

lemmas wf_and_then = and_then_keeps [where I = wf_db]

declare drop_agents_def [simp] drop_schedules_def [simp]

lemma wf_dbI:
  assumes "wf_db d" "wf_ids d'" "wf_refs d'" "db_redis d' = db_redis d"
    and "db_cache_agents d' = None \<or> db_cache_agents d' = db_cache_agents d \<and> db_agents d' = db_agents d"
    and "db_cache_schedules d' = None \<or>
      db_cache_schedules d' = db_cache_schedules d \<and> all_schedules d' = all_schedules d"
    and "db_cache_jobs d' = db_cache_jobs d" "db_cache_job d' = db_cache_job d" "db_jobs d' = db_jobs d"
  shows "wf_db d'"
  using assms coherent_step [of d d'] by (auto simp: wf_db_def)

lemma wf_db_parts: "wf_db d \<Longrightarrow> wf_ids d" "wf_db d \<Longrightarrow> wf_refs d"
  by (simp_all add: wf_db_def)

lemma ids_ofD:
  assumes "wf_db d"
  shows "keyed ag_ID (db_next_agent d) (db_agents d)" "distinct (map ag_Name (db_agents d))"
    "keyed ac_ID (db_next_command d) (db_commands d)"
    "keyed us_ID (db_next_schedule d) (db_schedules d)" "keyed run_ID (db_next_run d) (db_runs d)"
    "distinct (map aj_ID (db_jobs d))"
  using assms by (simp_all add: wf_db_def wf_ids_def)

section \<open>Every operation keeps the invariant\<close>

subsection \<open>Agents\<close>

lemma upsert_keeps_names:
  assumes "wf_db d" "\<And>i. us_AgentID u = Some i \<Longrightarrow> i \<in> ag_ID ` set (db_agents d)"
  shows "joined (upsert_agent now req d) u = joined d u"
proof (cases "us_AgentID u")
  case (Some i)
  then obtain a where a: "a \<in> set (db_agents d)" "ag_ID a = i" using assms(2) by auto
  then obtain b where b: "find (\<lambda>a. ag_ID a = i) (db_agents d) = Some b"
    by (cases "find (\<lambda>a. ag_ID a = i) (db_agents d)") (auto simp: find_None_all)
  let ?f = "\<lambda>a. a \<lparr> ag_BaseURL := agr_BaseURL req, ag_Mode := normalizeAgentMode (agr_Mode req) (agr_BaseURL req),
      ag_Token := (if agr_Token req = [] then ag_Token a else agr_Token req),
      ag_Enabled := (case agr_Enabled req of Some b \<Rightarrow> b | None \<Rightarrow> True), ag_UpdatedAt := now \<rparr>"
  have "find (\<lambda>a. ag_ID a = i) (update_where (\<lambda>a. ag_Name a = agr_Name req) ?f (db_agents d)) =
      Some (if ag_Name b = agr_Name req then ?f b else b)"
    using b by (subst find_update_where) auto
  moreover have "find (\<lambda>a. ag_ID a = i) (db_agents d @ [x]) = Some b" for x
    using b by (simp add: find_append)
  ultimately have "agent_name (upsert_agent now req d) (Some i) = agent_name d (Some i)"
    using b by (simp add: agent_name_def upsert_agent_def Let_def)
  then show ?thesis by (simp add: joined_def Some)
qed (simp add: joined_def agent_name_def)

lemma wf_upsert_agent:
  assumes "wf_db d"
  shows "wf_db (drop_agents (upsert_agent now req d))"
proof (rule wf_dbI [OF assms])
  note d = wf_db_parts [OF assms]
  show "wf_ids (drop_agents (upsert_agent now req d))"
    using d(1) by (auto simp: wf_ids_def upsert_agent_def Let_def tbl_simps intro: keyed_more)
  show "wf_refs (drop_agents (upsert_agent now req d))"
    using d(2) by (auto simp: wf_refs_def upsert_agent_def Let_def tbl_simps)
  have "all_schedules (upsert_agent now req d) = all_schedules d"
    by (rule all_schedules_cong)
      (use d(2) upsert_keeps_names [OF assms] in \<open>auto simp: wf_refs_def upsert_agent_def Let_def\<close>)
  then show "db_cache_schedules (drop_agents (upsert_agent now req d)) = None \<or>
      db_cache_schedules (drop_agents (upsert_agent now req d)) = db_cache_schedules d \<and>
      all_schedules (drop_agents (upsert_agent now req d)) = all_schedules d"
    using same_agents(2) [of "drop_agents (upsert_agent now req d)" "upsert_agent now req d"]
    by (simp add: upsert_agent_def Let_def)
qed (simp_all add: upsert_agent_def Let_def)

lemma wf_GetAgentByName [inv_intros]: "wf_db d \<Longrightarrow> wf_db (snd (GetAgentByName n d))"
  unfolding GetAgentByName_def by (rule wf_sql) auto

lemma wf_GetAgent [inv_intros]: "wf_db d \<Longrightarrow> wf_db (snd (GetAgent i d))"
  unfolding GetAgent_def by (rule wf_sql) auto

lemma wf_SaveAgent [inv_intros]: "wf_db d \<Longrightarrow> wf_db (snd (SaveAgent now req d))"
  unfolding SaveAgent_def
  by (rule wf_and_then [OF wf_sql wf_GetAgentByName]) (use wf_upsert_agent in auto)

lemma wf_DeleteAgent [inv_intros]:
  assumes "wf_db d"
  shows "wf_db (snd (DeleteAgent i d))"
  unfolding DeleteAgent_def
proof (rule wf_sql [OF assms])
  fix d assume d: "wf_db d"
  let ?d = "d \<lparr> db_agents := delete_where (\<lambda>a. ag_ID a = i) (db_agents d),
            db_snapshots := delete_where (\<lambda>s. fst s = i) (db_snapshots d),
            db_commands := delete_where (\<lambda>c. ac_AgentID c = i) (db_commands d),
            db_schedules := delete_where (\<lambda>u. us_AgentID u = Some i) (db_schedules d) \<rparr>"
  have "wf_db (drop_schedules (drop_agents ?d))"
  proof (rule wf_dbI [OF d])
    show "wf_ids (drop_schedules (drop_agents ?d))"
      using d by (auto simp: wf_db_def wf_ids_def tbl_simps)
    show "wf_refs (drop_schedules (drop_agents ?d))"
      using d by (fastforce simp: wf_db_def wf_refs_def)
  qed simp_all
  with d show "wf_db (snd (if \<not> (\<exists>a \<in> set (db_agents d). ag_ID a = i) then (Inl ErrNotFound, d)
      else (Inr (), drop_schedules (drop_agents ?d))))" by simp
qed

lemma wf_TouchAgent [inv_intros]:
  assumes "wf_db d"
  shows "wf_db (snd (TouchAgent now i d))"
  unfolding TouchAgent_def
proof (rule wf_sql [OF assms])
  fix d assume d: "wf_db d"
  let ?rows = "update_where (\<lambda>a. ag_ID a = i)
      (\<lambda>a. a \<lparr> ag_LastSeen := Some now, ag_UpdatedAt := now \<rparr>) (db_agents d)"
  have name: "joined (d \<lparr> db_agents := ?rows \<rparr>) u = joined d u" for u
  proof -
    have "find (\<lambda>a. ag_ID a = k) ?rows =
        map_option (\<lambda>a. if ag_ID a = i then a \<lparr> ag_LastSeen := Some now, ag_UpdatedAt := now \<rparr> else a)
          (find (\<lambda>a. ag_ID a = k) (db_agents d))" for k
      by (subst find_update_where) (auto split: option.splits)
    then show ?thesis by (auto simp: joined_def agent_name_def split: option.splits)
  qed
  have "wf_db (drop_agents (d \<lparr> db_agents := ?rows \<rparr>))"
  proof (rule wf_dbI [OF d])
    show "wf_ids (drop_agents (d \<lparr> db_agents := ?rows \<rparr>))"
      using d by (simp add: wf_db_def wf_ids_def tbl_simps)
    show "wf_refs (drop_agents (d \<lparr> db_agents := ?rows \<rparr>))"
      using d by (simp add: wf_db_def wf_refs_def tbl_simps)
    have "all_schedules (drop_agents (d \<lparr> db_agents := ?rows \<rparr>)) = all_schedules (d \<lparr> db_agents := ?rows \<rparr>)"
      by (rule same_agents(2)) simp_all
    also have "\<dots> = all_schedules d" by (rule all_schedules_cong) (simp_all add: name)
    finally show "db_cache_schedules (drop_agents (d \<lparr> db_agents := ?rows \<rparr>)) = None \<or>
        db_cache_schedules (drop_agents (d \<lparr> db_agents := ?rows \<rparr>)) = db_cache_schedules d \<and>
        all_schedules (drop_agents (d \<lparr> db_agents := ?rows \<rparr>)) = all_schedules d" by simp
  qed simp_all
  then show "wf_db (snd (Inr (), drop_agents (d \<lparr> db_agents := ?rows \<rparr>)))" by simp
qed

text \<open>An operation that changes neither the agents, the schedules nor the jobs.\<close>

lemma wf_other_tables:
  assumes "wf_db d" "wf_ids d'" "wf_refs d'" "db_redis d' = db_redis d" "db_agents d' = db_agents d"
    "db_schedules d' = db_schedules d" "db_jobs d' = db_jobs d"
    "db_cache_agents d' = None \<or> db_cache_agents d' = db_cache_agents d"
    "db_cache_schedules d' = None \<or> db_cache_schedules d' = db_cache_schedules d"
    "db_cache_jobs d' = db_cache_jobs d" "db_cache_job d' = db_cache_job d"
  shows "wf_db d'"
  using assms same_agents(2) [OF assms(5,6)] by (intro wf_dbI [OF assms(1-4)]) auto

lemma wf_SaveAgentProjectSnapshot [inv_intros]:
  assumes "wf_db d"
  shows "wf_db (snd (SaveAgentProjectSnapshot now i raw d))"
proof (cases raw)
  case (Inr js)
  show ?thesis unfolding SaveAgentProjectSnapshot_def Inr sum.case
  proof (rule wf_sql [OF assms])
    fix d assume d: "wf_db d"
    let ?d = "d \<lparr> db_snapshots := (i, js, now) # delete_where (\<lambda>s. fst s = i) (db_snapshots d) \<rparr>"
    have "wf_db (drop_agents ?d)" if "\<exists>a \<in> set (db_agents d). ag_ID a = i"
    proof (rule wf_other_tables [OF d])
      show "wf_ids (drop_agents ?d)"
        using d by (auto simp: wf_db_def wf_ids_def distinct_map_delete_where)
      show "wf_refs (drop_agents ?d)"
        using d that by (auto simp: wf_db_def wf_refs_def)
    qed simp_all
    with d show "wf_db (snd (if \<not> (\<exists>a \<in> set (db_agents d). ag_ID a = i)
        then (Inl (DBError ''foreign key''), d) else (Inr (), drop_agents ?d)))" by simp
  qed
qed (simp add: SaveAgentProjectSnapshot_def assms)

lemma wf_ListAgents [inv_intros]:
  assumes "wf_db d"
  shows "wf_db (snd (ListAgents d))"
proof -
  have "wf_db (snd (sql d (\<lambda>d. let agents = map scanAgent (sort_key ag_Name (db_agents d)) in
      (Inr agents :: store_error + ComposeAgent list,
       if db_redis d then d \<lparr> db_cache_agents := Some (map agent_json agents) \<rparr> else d))))"
  proof (rule wf_sql [OF assms])
    fix d assume d: "wf_db d"
    let ?d = "d \<lparr> db_cache_agents := Some (map agent_json (map scanAgent (sort_key ag_Name (db_agents d)))) \<rparr>"
    have "all_schedules ?d = all_schedules d" by (rule same_agents(2)) simp_all
    then have "wf_db ?d" if "db_redis d"
      using d that same_jobs [of ?d d] by (simp add: wf_db_def wf_ids_def wf_refs_def coherent_def)
    with d show "wf_db (snd (let agents = map scanAgent (sort_key ag_Name (db_agents d)) in
      (Inr agents :: store_error + ComposeAgent list,
       if db_redis d then d \<lparr> db_cache_agents := Some (map agent_json agents) \<rparr> else d)))"
      by (simp add: Let_def)
  qed
  with assms show ?thesis by (auto simp: ListAgents_def split: option.splits)
qed

subsection \<open>The command queue\<close>

lemma wf_EnqueueAgentCommand [inv_intros]:
  assumes "wf_db d"
  shows "wf_db (snd (EnqueueAgentCommand now i req d))"
  unfolding EnqueueAgentCommand_def
proof (rule wf_sql [OF assms])
  fix d assume d: "wf_db d"
  let ?cmd = "\<lparr> ac_ID = db_next_command d, ac_AgentID = i, ac_Project = aq_Project req,
                 ac_Action = aq_Action req, ac_Params = aq_Params req, ac_Status = ''pending'',
                 ac_Success = False, ac_Output = [], ac_CreatedAt = now, ac_UpdatedAt = now \<rparr>"
  let ?d = "d \<lparr> db_next_command := db_next_command d + 1, db_commands := db_commands d @ [?cmd] \<rparr>"
  have "wf_db ?d" if "\<exists>a \<in> set (db_agents d). ag_ID a = i"
  proof (rule wf_other_tables [OF d])
    show "wf_ids ?d"
      using d by (auto simp: wf_db_def wf_ids_def command_statuses_def intro: keyed_append)
    show "wf_refs ?d" using d that by (auto simp: wf_db_def wf_refs_def)
  qed simp_all
  with d show "wf_db (snd (let cmd = ?cmd
     in if \<not> (\<exists>a \<in> set (db_agents d). ag_ID a = i) then (Inl (DBError ''foreign key''), d)
        else (Inr cmd, d \<lparr> db_next_command := db_next_command d + 1,
                           db_commands := db_commands d @ [cmd] \<rparr>)))"
    by (simp add: Let_def)
qed

lemma wf_command_update:
  assumes "wf_db d" "\<And>c. ac_ID (f c) = ac_ID c" "\<And>c. ac_AgentID (f c) = ac_AgentID c"
    "\<And>c. ac_Status (f c) \<in> command_statuses"
  shows "wf_db (d \<lparr> db_commands := update_where P f (db_commands d) \<rparr>)"
  by (rule wf_other_tables [OF assms(1)])
    (use assms in \<open>auto simp: wf_db_def wf_ids_def wf_refs_def tbl_simps set_update_where\<close>)

lemma wf_ClaimPendingCommands [inv_intros]:
  assumes "wf_db d"
  shows "wf_db (snd (ClaimPendingCommands now i d))"
  unfolding ClaimPendingCommands_def
  by (rule wf_sql [OF assms]) (simp add: Let_def wf_command_update command_statuses_def)

subsection \<open>Schedules and their runs\<close>

text \<open>An operation on schedules, runs and audit rows that drops the cached schedule list.\<close>

lemma wf_schedule_tables:
  assumes "wf_db d" "wf_ids d'" "wf_refs d'" "db_redis d' = db_redis d" "db_agents d' = db_agents d"
    "db_cache_schedules d' = None" "db_cache_agents d' = db_cache_agents d" "db_jobs d' = db_jobs d"
    "db_cache_jobs d' = db_cache_jobs d" "db_cache_job d' = db_cache_job d"
  shows "wf_db d'"
  using assms by (intro wf_dbI [OF assms(1-4)]) auto

lemma wf_schedule_update:
  assumes "wf_db d" "\<And>u. us_ID (f u) = us_ID u"
    "\<And>u i. u \<in> set (db_schedules d) \<Longrightarrow> us_AgentID (f u) = Some i \<Longrightarrow> us_AgentID u = Some i \<or> i \<in> ag_ID ` set (db_agents d)"
  shows "wf_db (drop_schedules (d \<lparr> db_schedules := update_where P f (db_schedules d) \<rparr>))"
proof (rule wf_schedule_tables [OF assms(1)])
  show "wf_ids (drop_schedules (d \<lparr> db_schedules := update_where P f (db_schedules d) \<rparr>))"
    using assms(1,2) by (simp add: wf_db_def wf_ids_def tbl_simps)
  show "wf_refs (drop_schedules (d \<lparr> db_schedules := update_where P f (db_schedules d) \<rparr>))"
    using assms(1,3) by (fastforce simp: wf_db_def wf_refs_def set_update_where)
qed simp_all

lemma wf_ListSchedules [inv_intros]:
  assumes "wf_db d"
  shows "wf_db (snd (ListSchedules d))"
proof -
  have "wf_db (snd (sql d (\<lambda>d. (Inr (all_schedules d) :: store_error + UpdateSchedule list,
       if db_redis d then d \<lparr> db_cache_schedules := Some (all_schedules d) \<rparr> else d))))"
  proof (rule wf_sql [OF assms])
    fix d assume d: "wf_db d"
    let ?d = "d \<lparr> db_cache_schedules := Some (all_schedules d) \<rparr>"
    have "all_schedules ?d = all_schedules d" by (rule same_agents(2)) simp_all
    then have "wf_db ?d" if "db_redis d"
      using d that same_jobs [of ?d d] by (simp add: wf_db_def wf_ids_def wf_refs_def coherent_def)
    with d show "wf_db (snd (Inr (all_schedules d) :: store_error + UpdateSchedule list,
       if db_redis d then ?d else d))" by simp
  qed
  with assms show ?thesis by (auto simp: ListSchedules_def split: option.splits)
qed

lemma wf_GetSchedule [inv_intros]: "wf_db d \<Longrightarrow> wf_db (snd (GetSchedule i d))"
  unfolding GetSchedule_def by (rule wf_sql) auto

lemma wf_ListDueSchedules [inv_intros]: "wf_db d \<Longrightarrow> wf_db (snd (ListDueSchedules now d))"
  unfolding ListDueSchedules_def by (rule wf_sql) auto

lemma known_agent_ref: "known_agent d ag \<Longrightarrow> ag = Some i \<Longrightarrow> i \<in> ag_ID ` set (db_agents d)"
  by (auto simp: known_agent_def)

lemma wf_SaveSchedule [inv_intros]:
  assumes "wf_db d"
  shows "wf_db (snd (SaveSchedule loc now req d))"
proof -
  define row where "row = request_row loc now req"
  have row: "us_AgentID row = usr_AgentID req" by (simp add: row_def request_row_def Let_def)
  show ?thesis
  proof (cases "0 < usr_ID req")
    case True
    show ?thesis unfolding SaveSchedule_def Let_def if_P [OF True] row_def [symmetric]
    proof (rule wf_and_then [OF wf_sql [OF assms] wf_GetSchedule])
      fix d assume d: "wf_db d"
      have "wf_db (drop_schedules (d \<lparr> db_schedules :=
          update_where (\<lambda>u. us_ID u = usr_ID req) (overwrite_row row) (db_schedules d) \<rparr>))"
        if "known_agent d (usr_AgentID req)"
        using known_agent_ref [OF that] by (intro wf_schedule_update [OF d]) (auto simp: overwrite_row_def row)
      with d show "wf_db (snd (if \<not> (\<exists>u \<in> set (db_schedules d). us_ID u = usr_ID req) then (Inl ErrNotFound, d)
            else if \<not> known_agent d (usr_AgentID req) then (Inl (DBError ''foreign key''), d)
            else (Inr (), drop_schedules (d \<lparr> db_schedules :=
                   update_where (\<lambda>u. us_ID u = usr_ID req) (overwrite_row row) (db_schedules d) \<rparr>))))"
        by simp
    qed
  next
    case False
    show ?thesis unfolding SaveSchedule_def Let_def if_not_P [OF False] row_def [symmetric]
    proof (rule wf_and_then [OF wf_sql [OF assms] wf_GetSchedule])
      fix d assume d: "wf_db d"
      let ?d = "drop_schedules (d \<lparr> db_next_schedule := db_next_schedule d + 1,
                     db_schedules := db_schedules d @ [row \<lparr> us_ID := db_next_schedule d \<rparr>] \<rparr>)"
      have "wf_db ?d" if "known_agent d (usr_AgentID req)"
      proof (rule wf_schedule_tables [OF d])
        show "wf_ids ?d" using d by (auto simp: wf_db_def wf_ids_def intro: keyed_append)
        show "wf_refs ?d" using d known_agent_ref [OF that] by (auto simp: wf_db_def wf_refs_def row)
      qed simp_all
      with d show "wf_db (snd (if \<not> known_agent d (usr_AgentID req) then (Inl (DBError ''foreign key''), d)
            else (Inr (db_next_schedule d), ?d)))" by simp
    qed
  qed
qed

lemma wf_DeleteSchedule [inv_intros]:
  assumes "wf_db d"
  shows "wf_db (snd (DeleteSchedule i d))"
  unfolding DeleteSchedule_def
proof (rule wf_sql [OF assms])
  fix d assume d: "wf_db d"
  let ?d = "drop_schedules (d \<lparr> db_schedules := delete_where (\<lambda>u. us_ID u = i) (db_schedules d) \<rparr>)"
  have "wf_db ?d"
    by (rule wf_schedule_tables [OF d])
      (use d in \<open>auto simp: wf_db_def wf_ids_def wf_refs_def tbl_simps\<close>)
  with d show "wf_db (snd (if \<not> (\<exists>u \<in> set (db_schedules d). us_ID u = i) then (Inl ErrNotFound, d)
     else (Inr (), ?d)))" by simp
qed

lemma wf_DisableSchedule [inv_intros]:
  assumes "wf_db d"
  shows "wf_db (snd (DisableSchedule now i reason d))"
  unfolding DisableSchedule_def
  by (rule wf_sql [OF assms])
    (use wf_schedule_update [where f = "disabled_row now reason"] in \<open>auto simp: disabled_row_def\<close>)

lemma wf_DisableLocal [inv_intros]:
  assumes "wf_db d"
  shows "wf_db (snd (DisableLocalSchedulesForProject now project reason d))"
  unfolding DisableLocalSchedulesForProject_def
proof (rule wf_sql [OF assms])
  fix d assume d: "wf_db d"
  let ?P = "\<lambda>u. us_Project u = project \<and> us_AgentID u = None \<and> us_Enabled u"
  let ?d = "d \<lparr> db_schedules := update_where ?P (disabled_row now reason) (db_schedules d) \<rparr>"
  have "wf_db (drop_schedules ?d)"
    by (rule wf_schedule_update [OF d]) (auto simp: disabled_row_def)
  moreover have "?d = d" if "count_where ?P (db_schedules d) = 0"
    using that update_where_no_match [of "db_schedules d" ?P] by simp
  ultimately show "wf_db (snd (let P = ?P; affected = count_where P (db_schedules d);
         d' = d \<lparr> db_schedules := update_where P (disabled_row now reason) (db_schedules d) \<rparr>
     in (Inr affected, if 0 < affected then drop_schedules d' else d')))"
    using d by (cases "count_where ?P (db_schedules d) = 0") (simp_all add: Let_def)
qed

text \<open>The history and audit inserts touch only their own table and its counter.\<close>

definition same_but_history :: "db \<Rightarrow> db \<Rightarrow> bool" where
  "same_but_history d d' \<longleftrightarrow>
     db_agents d' = db_agents d \<and> db_snapshots d' = db_snapshots d \<and> db_commands d' = db_commands d \<and>
     db_schedules d' = db_schedules d \<and> db_jobs d' = db_jobs d \<and>
     db_next_command d' = db_next_command d \<and> db_redis d' = db_redis d \<and>
     db_cache_agents d' = db_cache_agents d \<and> db_cache_schedules d' = db_cache_schedules d \<and>
     db_cache_jobs d' = db_cache_jobs d \<and> db_cache_job d' = db_cache_job d"

lemma same_but_historyD:
  assumes "same_but_history d d'"
  shows "db_agents d' = db_agents d" "db_schedules d' = db_schedules d" "db_jobs d' = db_jobs d"
    "db_commands d' = db_commands d" "db_next_command d' = db_next_command d"
    "db_redis d' = db_redis d" "db_cache_agents d' = db_cache_agents d"
    "db_cache_schedules d' = db_cache_schedules d" "db_cache_jobs d' = db_cache_jobs d"
    "db_cache_job d' = db_cache_job d" "wf_refs d' = wf_refs d" "db_snapshots d' = db_snapshots d"
  using assms by (simp_all add: same_but_history_def wf_refs_def)

lemma history_inserts:
  "same_but_history d (insertScheduleRunTx i jobID status errText t d)"
  "same_but_history d (insertScheduleAuditTx node i jobID status errText t d)"
  "same_but_history d (insertScheduleCompletionAuditTx node jobID status errText t d)"
  "wf_ids d \<Longrightarrow> wf_ids (insertScheduleRunTx i jobID status errText t d)"
  "wf_ids d \<Longrightarrow> wf_ids (insertScheduleAuditTx node i jobID status errText t d)"
  "wf_ids d \<Longrightarrow> wf_ids (insertScheduleCompletionAuditTx node jobID status errText t d)"
proof -
  have refl: "same_but_history d d" by (simp add: same_but_history_def)
  have audit: "same_but_history d (schedule_audit node act pr tg sid jp st er t d)" for act pr tg sid jp st er
    by (simp add: same_but_history_def schedule_audit_def)
  have ids: "wf_ids (schedule_audit node act pr tg sid jp st er t d)" if "wf_ids d" for act pr tg sid jp st er
    using that by (simp add: wf_ids_def schedule_audit_def keyed_append)
  show "same_but_history d (insertScheduleRunTx i jobID status errText t d)"
    by (simp add: insertScheduleRunTx_def same_but_history_def split: option.splits)
  show "same_but_history d (insertScheduleAuditTx node i jobID status errText t d)"
    by (auto simp: insertScheduleAuditTx_def refl audit split: option.splits)
  show "same_but_history d (insertScheduleCompletionAuditTx node jobID status errText t d)"
    by (auto simp: insertScheduleCompletionAuditTx_def refl audit split: list.splits)
  show "wf_ids (insertScheduleRunTx i jobID status errText t d)" if "wf_ids d"
    using that by (auto simp: insertScheduleRunTx_def wf_ids_def keyed_append split: option.splits)
  show "wf_ids (insertScheduleAuditTx node i jobID status errText t d)" if "wf_ids d"
    using that by (auto simp: insertScheduleAuditTx_def ids split: option.splits)
  show "wf_ids (insertScheduleCompletionAuditTx node jobID status errText t d)" if "wf_ids d"
    using that by (auto simp: insertScheduleCompletionAuditTx_def ids split: list.splits)
qed

text \<open>A change of schedules, then of history, then the drop of the cached list.\<close>

lemma wf_schedule_history:
  assumes "wf_db (drop_schedules d1)" "same_but_history d1 d3" "wf_ids d1 \<Longrightarrow> wf_ids d3"
  shows "wf_db (drop_schedules d3)"
proof (rule wf_schedule_tables [OF assms(1)])
  note s = same_but_historyD [OF assms(2)]
  show "wf_ids (drop_schedules d3)" using assms(1,3) by (simp add: wf_db_def wf_ids_def)
  show "wf_refs (drop_schedules d3)" using assms(1) by (simp add: wf_db_def wf_refs_def s)
qed (use same_but_historyD [OF assms(2)] in simp_all)

lemma same_but_history_trans:
  "same_but_history a b \<Longrightarrow> same_but_history b c \<Longrightarrow> same_but_history a c"
  by (simp add: same_but_history_def)

lemma wf_MarkScheduleDispatched [inv_intros]:
  assumes "wf_db d"
  shows "wf_db (snd (MarkScheduleDispatched node now i nextRun jobID status errText d))"
  unfolding MarkScheduleDispatched_def
proof (rule wf_sql [OF assms])
  fix d assume d: "wf_db d"
  define d1 where "d1 = d \<lparr> db_schedules := update_where (\<lambda>u. us_ID u = i)
      (dispatched_row now nextRun jobID status errText) (db_schedules d) \<rparr>"
  let ?d2 = "insertScheduleRunTx i jobID status errText now d1"
  let ?d3 = "insertScheduleAuditTx node i jobID status errText now ?d2"
  have "wf_db (drop_schedules d1)"
    unfolding d1_def by (rule wf_schedule_update [OF d]) (auto simp: dispatched_row_def)
  then have "wf_db (drop_schedules ?d3)"
  proof (rule wf_schedule_history)
    show "same_but_history d1 ?d3"
      by (rule same_but_history_trans [OF history_inserts(1) history_inserts(2)])
    show "wf_ids ?d3" if "wf_ids d1" by (intro history_inserts that)
  qed
  with d show "wf_db (snd (if \<not> (\<exists>u \<in> set (db_schedules d). us_ID u = i) then (Inl ErrNotFound, d)
     else
       (let d1 = d \<lparr> db_schedules := update_where (\<lambda>u. us_ID u = i)
                       (dispatched_row now nextRun jobID status errText) (db_schedules d) \<rparr>;
            d2 = insertScheduleRunTx i jobID status errText now d1;
            d3 = insertScheduleAuditTx node i jobID status errText now d2
        in (Inr (), drop_schedules d3))))"
    unfolding d1_def [symmetric] Let_def by simp
qed

lemma wf_run_update:
  assumes "wf_db d" "\<And>r. run_ID (f r) = run_ID r"
  shows "wf_db (d \<lparr> db_runs := update_where P f (db_runs d) \<rparr>)"
  by (rule wf_other_tables [OF assms(1)])
    (use assms in \<open>auto simp: wf_db_def wf_ids_def wf_refs_def tbl_simps\<close>)

lemma wf_CompleteScheduleRun [inv_intros]:
  assumes "wf_db d"
  shows "wf_db (snd (CompleteScheduleRun node now jobID status output errText endedAt duration d))"
proof (cases "jobID = []")
  case False
  let ?e = "if is_zero endedAt then now else endedAt"
  show ?thesis unfolding CompleteScheduleRun_def if_not_P [OF False] Let_def
  proof (rule wf_sql [OF assms])
    fix d assume d: "wf_db d"
    define d1 where "d1 = d \<lparr> db_runs := update_where (completes jobID status)
        (completed_row status output errText ?e duration) (db_runs d) \<rparr>"
    define d2 where "d2 = d1 \<lparr> db_schedules := update_where (\<lambda>u. us_LastJobID u = jobID)
        (\<lambda>u. u \<lparr> us_LastStatus := status, us_LastError := errText, us_UpdatedAt := now \<rparr>) (db_schedules d1) \<rparr>"
    have "wf_db d1" unfolding d1_def by (rule wf_run_update [OF d]) (simp add: completed_row_def)
    then have "wf_db (drop_schedules d2)" unfolding d2_def by (rule wf_schedule_update) auto
    then have "wf_db (drop_schedules (insertScheduleCompletionAuditTx node jobID status errText ?e d2))"
      by (rule wf_schedule_history) (rule history_inserts, rule history_inserts)
    with d show "wf_db (snd (if count_where (completes jobID status) (db_runs d) = 0 then (Inr (), d)
        else (Inr (), drop_schedules (insertScheduleCompletionAuditTx node jobID status errText ?e
          (d \<lparr> db_runs := update_where (completes jobID status)
              (completed_row status output errText ?e duration) (db_runs d),
            db_schedules := update_where (\<lambda>u. us_LastJobID u = jobID)
              (\<lambda>u. u \<lparr> us_LastStatus := status, us_LastError := errText, us_UpdatedAt := now \<rparr>)
              (db_schedules (d \<lparr> db_runs := update_where (completes jobID status)
                (completed_row status output errText ?e duration) (db_runs d) \<rparr>)) \<rparr>)))))"
      unfolding d1_def [symmetric] d2_def [symmetric] by simp
  qed
qed (simp add: CompleteScheduleRun_def assms)

lemma wf_SaveAgentCommandResult [inv_intros]:
  assumes "wf_db d"
  shows "wf_db (snd (SaveAgentCommandResult node now agentID i success output d))"
  unfolding SaveAgentCommandResult_def
  by (rule wf_and_then [OF wf_sql [OF assms] wf_CompleteScheduleRun])
    (auto intro!: wf_command_update simp: command_statuses_def)

lemma keyed_enumerate:
  assumes "keyed k n rows" "\<And>i x. k (g (i, x)) = n + int i"
  shows "keyed k (n + int (length xs)) (rows @ map g (enumerate 0 xs))"
proof -
  have "map k (map g (enumerate m xs)) = map (\<lambda>i. n + int i) [m ..< m + length xs]" for m
    using assms(2) by (induction xs arbitrary: m) (auto simp: upt_rec)
  from this [of 0] have e: "map k (map g (enumerate 0 xs)) = map (\<lambda>i. n + int i) [0 ..< length xs]" by simp
  show ?thesis unfolding keyed_def map_append e
    using assms(1) by (fastforce simp: keyed_def distinct_map inj_on_def)
qed

lemma wf_backfill [inv_intros]:
  assumes "wf_db d"
  shows "wf_db (snd (backfillLatestScheduleRuns d))"
  unfolding backfillLatestScheduleRuns_def Let_def
proof (rule wf_sql [OF assms], unfold snd_conv, goal_cases)
  case (1 d)
  show ?case
    by (rule wf_other_tables [OF 1])
      (use 1 in \<open>auto simp: wf_db_def wf_ids_def wf_refs_def split_def intro!: keyed_enumerate\<close>)
qed

subsection \<open>Jobs and audit rows\<close>

lemma wf_SaveJob [inv_intros]:
  assumes "wf_db d"
  shows "wf_db (snd (SaveJob job d))"
  unfolding SaveJob_def
proof (rule wf_sql [OF assms])
  fix d assume d: "wf_db d"
  define rows where "rows = (if \<exists>j \<in> set (db_jobs d). aj_ID j = aj_ID job
      then update_where (\<lambda>j. aj_ID j = aj_ID job) (\<lambda>_. job) (db_jobs d) else db_jobs d @ [job])"
  let ?d1 = "d \<lparr> db_jobs := rows \<rparr>"
  let ?d2 = "?d1 \<lparr> db_cache_job := (db_cache_job d)(aj_ID job \<mapsto> job), db_cache_jobs := None \<rparr>"
  have same: "all_schedules ?d1 = all_schedules d" "all_schedules ?d2 = all_schedules d"
    by (rule same_agents(2); simp)+
  have "map aj_ID (update_where (\<lambda>j. aj_ID j = aj_ID job) (\<lambda>_. job) js) = map aj_ID js" for js
    by (induction js) auto
  then have ids: "distinct (map aj_ID rows)" using d by (auto simp: rows_def wf_db_def wf_ids_def)
  have found: "find (\<lambda>j. aj_ID j = aj_ID job) rows = Some job"
  proof -
    have "find (\<lambda>j. aj_ID j = aj_ID job) (update_where (\<lambda>j. aj_ID j = aj_ID job) (\<lambda>_. job) js) = Some job"
      if "\<exists>j \<in> set js. aj_ID j = aj_ID job" for js using that by (induction js) auto
    then show ?thesis
      by (auto simp: rows_def find_append find_None_all split: option.splits dest: find_Some_in)
  qed
  have others: "find (\<lambda>j. aj_ID j = i) rows = find (\<lambda>j. aj_ID j = i) (db_jobs d)" if "i \<noteq> aj_ID job" for i
  proof -
    have "find (\<lambda>j. aj_ID j = i) (update_where (\<lambda>j. aj_ID j = aj_ID job) (\<lambda>_. job) js) =
        find (\<lambda>j. aj_ID j = i) js" for js using that by (induction js) auto
    then show ?thesis using that by (auto simp: rows_def find_append split: option.splits)
  qed
  have 1: "wf_db ?d1" if "\<not> db_redis d"
    using d ids that by (auto simp: wf_db_def wf_ids_def wf_refs_def)
  have 2: "wf_db ?d2"
    using d ids found others same(2) by (auto simp: wf_db_def wf_ids_def wf_refs_def coherent_def)
  show "wf_db (snd (let d1 = d \<lparr> db_jobs := (if \<exists>j \<in> set (db_jobs d). aj_ID j = aj_ID job
            then update_where (\<lambda>j. aj_ID j = aj_ID job) (\<lambda>_. job) (db_jobs d) else db_jobs d @ [job]) \<rparr>
     in (Inr (), if db_redis d
                 then d1 \<lparr> db_cache_job := (db_cache_job d)(aj_ID job \<mapsto> job), db_cache_jobs := None \<rparr>
                 else d1)))"
    unfolding rows_def [symmetric] using 1 2 by (simp add: Let_def)
qed

lemma wf_LoadJob [inv_intros]:
  assumes "wf_db d"
  shows "wf_db (snd (LoadJob i d))"
proof -
  have "wf_db (snd (sql d (\<lambda>d. (case find_row (\<lambda>j. aj_ID j = i) (db_jobs d) of
             Inl e \<Rightarrow> (Inl e, d)
           | Inr job \<Rightarrow> (Inr job, if db_redis d then d \<lparr> db_cache_job := (db_cache_job d)(i \<mapsto> job) \<rparr> else d)))))"
  proof (rule wf_sql [OF assms])
    fix d assume d: "wf_db d"
    have "wf_db (d \<lparr> db_cache_job := (db_cache_job d)(i \<mapsto> job) \<rparr>)"
      if "find (\<lambda>j. aj_ID j = i) (db_jobs d) = Some job" for job
    proof -
      let ?d = "d \<lparr> db_cache_job := (db_cache_job d)(i \<mapsto> job) \<rparr>"
      have "all_schedules ?d = all_schedules d" "recent_jobs ?d = recent_jobs d"
        by (rule same_agents(2) same_jobs; simp)+
      then show ?thesis using d that by (auto simp: wf_db_def wf_ids_def wf_refs_def coherent_def)
    qed
    with d show "wf_db (snd (case find_row (\<lambda>j. aj_ID j = i) (db_jobs d) of
             Inl e \<Rightarrow> (Inl e, d)
           | Inr job \<Rightarrow> (Inr job, if db_redis d then d \<lparr> db_cache_job := (db_cache_job d)(i \<mapsto> job) \<rparr> else d)))"
      by (auto simp: find_row_def split: option.splits)
  qed
  with assms show ?thesis by (auto simp: LoadJob_def split: option.splits)
qed

lemma wf_ListJobs [inv_intros]:
  assumes "wf_db d"
  shows "wf_db (snd (ListJobs d))"
proof -
  have "wf_db (snd (sql d (\<lambda>d. (Inr (recent_jobs d) :: store_error + ActionJob list,
      if db_redis d then d \<lparr> db_cache_jobs := Some (recent_jobs d) \<rparr> else d))))"
  proof (rule wf_sql [OF assms])
    fix d assume d: "wf_db d"
    let ?d = "d \<lparr> db_cache_jobs := Some (recent_jobs d) \<rparr>"
    have "all_schedules ?d = all_schedules d" "recent_jobs ?d = recent_jobs d"
      by (rule same_agents(2) same_jobs; simp)+
    then have "wf_db ?d" using d by (auto simp: wf_db_def wf_ids_def wf_refs_def coherent_def)
    with d show "wf_db (snd (Inr (recent_jobs d) :: store_error + ActionJob list,
        if db_redis d then ?d else d))" by simp
  qed
  with assms show ?thesis by (auto simp: ListJobs_def split: option.splits)
qed

lemma wf_InsertAuditEntry [inv_intros]:
  assumes "wf_db d"
  shows "wf_db (snd (InsertAuditEntry now e d))"
proof (cases "trim_space (au_Action e) = []")
  case False
  show ?thesis unfolding InsertAuditEntry_def if_not_P [OF False]
  proof (rule wf_sql [OF assms], unfold snd_conv, goal_cases)
    case (1 d)
    show ?case
      by (rule wf_other_tables [OF 1])
        (use 1 in \<open>simp_all add: wf_db_def wf_ids_def wf_refs_def keyed_append\<close>)
  qed
qed (simp add: InsertAuditEntry_def assms)

section \<open>Executions of the store\<close>

text \<open>
  One operation of the store, by any caller with any arguments, at any time and with any
  failures; the label lists the ids of the commands it handed to an agent. Cache entries may
  expire at any time.
\<close>

inductive store_step :: "db \<Rightarrow> int list \<Rightarrow> db \<Rightarrow> bool" where
  save_agent: "store_step d [] (snd (SaveAgent now areq d))"
| delete_agent: "store_step d [] (snd (DeleteAgent i d))"
| touch_agent: "store_step d [] (snd (TouchAgent now i d))"
| save_snapshot: "store_step d [] (snd (SaveAgentProjectSnapshot now i raw d))"
| list_agents: "store_step d [] (snd (ListAgents d))"
| enqueue: "store_step d [] (snd (EnqueueAgentCommand now i creq d))"
| claim: "ClaimPendingCommands now i d = (Inr cmds, d') \<Longrightarrow> store_step d (map ad_ID cmds) d'"
| claim_failed: "ClaimPendingCommands now i d = (Inl e, d') \<Longrightarrow> store_step d [] d'"
| command_result: "store_step d [] (snd (SaveAgentCommandResult node now i j ok out d))"
| list_schedules: "store_step d [] (snd (ListSchedules d))"
| save_schedule: "store_step d [] (snd (SaveSchedule loc now sreq d))"
| delete_schedule: "store_step d [] (snd (DeleteSchedule i d))"
| disable_schedule: "store_step d [] (snd (DisableSchedule now i reason d))"
| disable_local: "store_step d [] (snd (DisableLocalSchedulesForProject now project reason d))"
| mark_dispatched: "store_step d [] (snd (MarkScheduleDispatched node now i t jobID st err d))"
| complete_run: "store_step d [] (snd (CompleteScheduleRun node now jobID st out err t dur d))"
| save_job: "store_step d [] (snd (SaveJob job d))"
| load_job: "store_step d [] (snd (LoadJob jobID d))"
| list_jobs: "store_step d [] (snd (ListJobs d))"
| insert_audit: "store_step d [] (snd (InsertAuditEntry now e d))"
| backfill: "store_step d [] (snd (backfillLatestScheduleRuns d))"
| expire: "store_step d [] (d \<lparr> db_cache_agents := None, db_cache_schedules := None,
    db_cache_jobs := None, db_cache_job := Map.empty \<rparr>)"

inductive store_run :: "db \<Rightarrow> int list \<Rightarrow> db \<Rightarrow> bool" where
  start: "store_run d [] d"
| more: "store_run d l d' \<Longrightarrow> store_step d' l' d'' \<Longrightarrow> store_run d (l @ l') d''"

lemma wf_store_step: "store_step d l d' \<Longrightarrow> wf_db d \<Longrightarrow> wf_db d'"
proof (induction rule: store_step.induct)
  case (claim now i d cmds d')
  then show ?case using wf_ClaimPendingCommands [of d now i] by simp
next
  case (claim_failed now i d e d')
  then show ?case using wf_ClaimPendingCommands [of d now i] by simp
next
  case (expire d)
  then show ?case by (auto simp: wf_db_def wf_ids_def wf_refs_def coherent_def)
qed (simp_all add: inv_intros)

lemma wf_store_run: "store_run d l d' \<Longrightarrow> wf_db d \<Longrightarrow> wf_db d'"
  by (induction rule: store_run.induct) (auto intro: wf_store_step)

subsection \<open>Hand-out of commands\<close>

text \<open>The ids that a future claim can still hand out: those pending and those not yet used.\<close>

definition claimable :: "db \<Rightarrow> int set" where
  "claimable d = {ac_ID c |c. c \<in> set (db_commands d) \<and> ac_Status c = ''pending''} \<union> {db_next_command d ..}"

definition queue_same :: "db \<Rightarrow> db \<Rightarrow> bool" where
  "queue_same d d' \<longleftrightarrow> db_commands d' = db_commands d \<and> db_next_command d' = db_next_command d"

lemma claimable_same: "queue_same d d' \<Longrightarrow> claimable d' = claimable d"
  by (simp add: claimable_def queue_same_def)

lemma queue_same_refl [simp]: "queue_same d d"
  by (simp add: queue_same_def)

text \<open>A statement whose body does not enlarge the claimable ids does not either.\<close>

lemma claimable_blind: "fault_blind (\<lambda>d. claimable d \<subseteq> A)"
  by (simp add: fault_blind_def claimable_def)

lemmas claimable_sql = sql_keeps [OF claimable_blind]
lemmas claimable_and_then = and_then_keeps [where I = "\<lambda>d. claimable d \<subseteq> A" for A]

lemma claimable_mono:
  "set (db_commands d') \<subseteq> set (db_commands d) \<Longrightarrow> db_next_command d' = db_next_command d \<Longrightarrow>
   claimable d \<subseteq> A \<Longrightarrow> claimable d' \<subseteq> A"
  by (auto simp: claimable_def)

lemma claimable_CompleteScheduleRun:
  assumes "claimable d \<subseteq> A"
  shows "claimable (snd (CompleteScheduleRun node now jobID st out err t dur d)) \<subseteq> A"
proof (cases "jobID = []")
  case False
  show ?thesis unfolding CompleteScheduleRun_def if_not_P [OF False] Let_def
  proof (rule claimable_sql [OF assms], goal_cases)
    case (1 d)
    then show ?case
      using same_but_historyD(4,5) [OF history_inserts(3)] by (auto simp: claimable_def)
  qed
qed (simp add: CompleteScheduleRun_def assms)

lemma claimable_schedule_ops:
  assumes "claimable d \<subseteq> A"
  shows "claimable (snd (SaveSchedule loc now sreq d)) \<subseteq> A"
    "claimable (snd (DeleteSchedule i d)) \<subseteq> A"
    "claimable (snd (DisableSchedule now i reason d)) \<subseteq> A"
    "claimable (snd (DisableLocalSchedulesForProject now project reason d)) \<subseteq> A"
    "claimable (snd (MarkScheduleDispatched node now i t jobID st err d)) \<subseteq> A"
    "claimable (snd (backfillLatestScheduleRuns d)) \<subseteq> A"
    "claimable (snd (ListSchedules d)) \<subseteq> A"
proof -
  have get: "claimable (snd (GetSchedule i d)) \<subseteq> A" if "claimable d \<subseteq> A" for i d
    unfolding GetSchedule_def by (rule claimable_sql [OF that]) simp
  show "claimable (snd (SaveSchedule loc now sreq d)) \<subseteq> A"
  proof (cases "0 < usr_ID sreq")
    case True
    show ?thesis unfolding SaveSchedule_def Let_def if_P [OF True]
      by (rule claimable_and_then [OF claimable_sql [OF assms] get]) (auto simp: claimable_def)
  next
    case False
    show ?thesis unfolding SaveSchedule_def Let_def if_not_P [OF False]
      by (rule claimable_and_then [OF claimable_sql [OF assms] get]) (auto simp: claimable_def)
  qed
  show "claimable (snd (DeleteSchedule i d)) \<subseteq> A" "claimable (snd (DisableSchedule now i reason d)) \<subseteq> A"
    "claimable (snd (DisableLocalSchedulesForProject now project reason d)) \<subseteq> A"
    "claimable (snd (backfillLatestScheduleRuns d)) \<subseteq> A"
    unfolding DeleteSchedule_def DisableSchedule_def DisableLocalSchedulesForProject_def
      backfillLatestScheduleRuns_def
    by (rule claimable_sql [OF assms]; simp add: claimable_def Let_def)+
  show "claimable (snd (MarkScheduleDispatched node now i t jobID st err d)) \<subseteq> A"
    unfolding MarkScheduleDispatched_def Let_def
  proof (rule claimable_sql [OF assms], goal_cases)
    case (1 d)
    then show ?case
      using same_but_historyD(4,5) [OF history_inserts(1)] same_but_historyD(4,5) [OF history_inserts(2)]
      by (auto simp: claimable_def)
  qed
  have "claimable (snd (sql d (\<lambda>d. (Inr (all_schedules d) :: store_error + UpdateSchedule list,
       if db_redis d then d \<lparr> db_cache_schedules := Some (all_schedules d) \<rparr> else d)))) \<subseteq> A"
    by (rule claimable_sql [OF assms]) (simp add: claimable_def)
  with assms show "claimable (snd (ListSchedules d)) \<subseteq> A"
    by (auto simp: ListSchedules_def split: option.splits)
qed

lemma claimable_agent_ops:
  assumes "claimable d \<subseteq> A"
  shows "claimable (snd (SaveAgent now areq d)) \<subseteq> A"
    "claimable (snd (DeleteAgent i d)) \<subseteq> A"
    "claimable (snd (TouchAgent now i d)) \<subseteq> A"
    "claimable (snd (SaveAgentProjectSnapshot now i raw d)) \<subseteq> A"
    "claimable (snd (ListAgents d)) \<subseteq> A"
    "claimable (snd (EnqueueAgentCommand now i creq d)) \<subseteq> A"
    "claimable (snd (SaveAgentCommandResult node now i j ok out d)) \<subseteq> A"
proof -
  have get: "claimable (snd (GetAgentByName n d)) \<subseteq> A" if "claimable d \<subseteq> A" for n d
    unfolding GetAgentByName_def by (rule claimable_sql [OF that]) simp
  show "claimable (snd (SaveAgent now areq d)) \<subseteq> A" unfolding SaveAgent_def
    by (rule claimable_and_then [OF claimable_sql [OF assms] get])
      (auto simp: claimable_def upsert_agent_def Let_def)
  show "claimable (snd (DeleteAgent i d)) \<subseteq> A" "claimable (snd (TouchAgent now i d)) \<subseteq> A"
    unfolding DeleteAgent_def TouchAgent_def
    by (rule claimable_sql [OF assms]; auto simp: claimable_def)+
  show "claimable (snd (SaveAgentProjectSnapshot now i raw d)) \<subseteq> A"
  proof (cases raw)
    case (Inr js)
    show ?thesis unfolding SaveAgentProjectSnapshot_def Inr sum.case
      by (rule claimable_sql [OF assms]) (auto simp: claimable_def)
  qed (simp add: SaveAgentProjectSnapshot_def assms)
  have "claimable (snd (sql d (\<lambda>d. let agents = map scanAgent (sort_key ag_Name (db_agents d)) in
      (Inr agents :: store_error + ComposeAgent list,
       if db_redis d then d \<lparr> db_cache_agents := Some (map agent_json agents) \<rparr> else d)))) \<subseteq> A"
    by (rule claimable_sql [OF assms]) (simp add: claimable_def Let_def)
  with assms show "claimable (snd (ListAgents d)) \<subseteq> A"
    by (auto simp: ListAgents_def split: option.splits)
  show "claimable (snd (EnqueueAgentCommand now i creq d)) \<subseteq> A"
    unfolding EnqueueAgentCommand_def Let_def
    by (rule claimable_sql [OF assms], erule order_trans [rotated]) (auto simp: claimable_def)
  show "claimable (snd (SaveAgentCommandResult node now i j ok out d)) \<subseteq> A"
    unfolding SaveAgentCommandResult_def
  proof (rule claimable_and_then [OF claimable_sql [OF assms] claimable_CompleteScheduleRun])
    fix d assume "claimable d \<subseteq> A"
    moreover have "claimable (d \<lparr> db_commands := update_where (\<lambda>c. ac_ID c = j \<and> ac_AgentID c = i)
        (\<lambda>c. c \<lparr> ac_Status := (if ok then ''done'' else ''error''), ac_Success := ok, ac_Output := out,
                ac_UpdatedAt := now \<rparr>) (db_commands d) \<rparr>) \<subseteq> claimable d"
      by (auto simp: claimable_def set_update_where split: if_splits)
    ultimately show "claimable (snd (Inr () :: store_error + unit, d \<lparr> db_commands :=
        update_where (\<lambda>c. ac_ID c = j \<and> ac_AgentID c = i)
        (\<lambda>c. c \<lparr> ac_Status := (if ok then ''done'' else ''error''), ac_Success := ok, ac_Output := out,
                ac_UpdatedAt := now \<rparr>) (db_commands d) \<rparr>)) \<subseteq> A" by auto
  qed
qed

lemma claimable_job_ops:
  assumes "claimable d \<subseteq> A"
  shows "claimable (snd (SaveJob job d)) \<subseteq> A" "claimable (snd (LoadJob jobID d)) \<subseteq> A"
    "claimable (snd (ListJobs d)) \<subseteq> A" "claimable (snd (InsertAuditEntry now e d)) \<subseteq> A"
proof -
  show "claimable (snd (SaveJob job d)) \<subseteq> A" unfolding SaveJob_def Let_def
    by (rule claimable_sql [OF assms]) (auto simp: claimable_def)
  have "claimable (snd (sql d (\<lambda>d. (case find_row (\<lambda>j. aj_ID j = jobID) (db_jobs d) of
       Inl e \<Rightarrow> (Inl e, d)
     | Inr job \<Rightarrow> (Inr job, if db_redis d then d \<lparr> db_cache_job := (db_cache_job d)(jobID \<mapsto> job) \<rparr> else d))))) \<subseteq> A"
    by (rule claimable_sql [OF assms]) (auto simp: claimable_def split: sum.splits)
  with assms show "claimable (snd (LoadJob jobID d)) \<subseteq> A"
    by (auto simp: LoadJob_def split: option.splits)
  have "claimable (snd (sql d (\<lambda>d. (Inr (recent_jobs d) :: store_error + ActionJob list,
      if db_redis d then d \<lparr> db_cache_jobs := Some (recent_jobs d) \<rparr> else d)))) \<subseteq> A"
    by (rule claimable_sql [OF assms]) (simp add: claimable_def)
  with assms show "claimable (snd (ListJobs d)) \<subseteq> A"
    by (auto simp: ListJobs_def split: option.splits)
  show "claimable (snd (InsertAuditEntry now e d)) \<subseteq> A"
  proof (cases "trim_space (au_Action e) = []")
    case False
    show ?thesis unfolding InsertAuditEntry_def if_not_P [OF False]
      by (rule claimable_sql [OF assms]) (simp add: claimable_def)
  qed (simp add: InsertAuditEntry_def assms)
qed

text \<open>A claim hands out distinct claimable ids, and they are not claimable after it.\<close>

lemma claim_once:
  assumes "wf_db d" "ClaimPendingCommands now i d = (Inr cmds, d')"
  shows "distinct (map ad_ID cmds)" "set (map ad_ID cmds) \<subseteq> claimable d"
    "claimable d' \<subseteq> claimable d - set (map ad_ID cmds)"
proof -
  obtain fs where f: "(let rows = pending_of i (db_commands (d \<lparr> db_faults := fs \<rparr>)); ids = map ac_ID rows in
     (Inr (map dispatch_of rows) :: store_error + AgentCommandDispatch list,
      d \<lparr> db_faults := fs, db_commands :=
           update_where (\<lambda>c. ac_ID c \<in> set ids)
             (\<lambda>c. c \<lparr> ac_Status := ''dispatched'', ac_UpdatedAt := now \<rparr>) (db_commands (d \<lparr> db_faults := fs \<rparr>)) \<rparr>))
     = (Inr cmds, d')"
    using assms(2) unfolding ClaimPendingCommands_def by (cases rule: sql_cases) auto
  define rows where "rows = pending_of i (db_commands d)"
  have cmds: "map ad_ID cmds = map ac_ID rows"
    and d': "db_commands d' = update_where (\<lambda>c. ac_ID c \<in> set (map ac_ID rows))
        (\<lambda>c. c \<lparr> ac_Status := ''dispatched'', ac_UpdatedAt := now \<rparr>) (db_commands d)"
      "db_next_command d' = db_next_command d"
    using f by (auto simp: Let_def rows_def dispatch_of_def)
  have k: "distinct (map ac_ID (db_commands d))" "\<forall>c \<in> set (db_commands d). ac_ID c < db_next_command d"
    using assms(1) by (auto simp: wf_db_def wf_ids_def keyed_def)
  have pend: "set rows \<subseteq> {c \<in> set (db_commands d). ac_Status c = ''pending''}"
    by (auto simp: rows_def pending_of_def dest: in_set_takeD)
  have "distinct (map ac_ID (sort_key ac_ID
      (filter (\<lambda>c. ac_AgentID c = i \<and> ac_Status c = ''pending'') (db_commands d))))"
    using k(1) by (auto simp: distinct_map intro: inj_on_subset)
  then show "distinct (map ad_ID cmds)"
    unfolding cmds rows_def pending_of_def take_map [symmetric] by (rule distinct_take)
  show "set (map ad_ID cmds) \<subseteq> claimable d" using pend by (auto simp: cmds claimable_def)
  show "claimable d' \<subseteq> claimable d - set (map ad_ID cmds)"
  proof
    fix x assume "x \<in> claimable d'"
    then consider c where "c \<in> set (db_commands d')" "ac_Status c = ''pending''" "x = ac_ID c"
      | "db_next_command d \<le> x" by (auto simp: claimable_def d'(2))
    then show "x \<in> claimable d - set (map ad_ID cmds)"
    proof cases
      case 1
      then have "c \<in> set (db_commands d)" "ac_ID c \<notin> set (map ac_ID rows)"
        unfolding d'(1) set_update_where by (auto split: if_splits)
      with 1 show ?thesis unfolding cmds by (auto simp: claimable_def)
    next
      case 2
      moreover have "y < db_next_command d" if "y \<in> set (map ac_ID rows)" for y
        using that pend k(2) by auto
      ultimately show ?thesis unfolding cmds by (fastforce simp: claimable_def)
    qed
  qed
qed

lemma step_claimable:
  "store_step d l d' \<Longrightarrow> wf_db d \<Longrightarrow>
     distinct l \<and> set l \<subseteq> claimable d \<and> claimable d' \<subseteq> claimable d - set l"
proof (induction rule: store_step.induct)
  case (claim now i d cmds d')
  then show ?case using claim_once [of d now i cmds d'] by simp
next
  case (claim_failed now i d e d')
  then obtain fs where "d' = d \<lparr> db_faults := fs \<rparr>"
    unfolding ClaimPendingCommands_def by (cases rule: sql_cases) (auto simp: Let_def)
  then show ?case by (simp add: claimable_def)
next
  case (expire d)
  show ?case by (simp add: claimable_def)
qed (simp_all add: claimable_agent_ops claimable_schedule_ops claimable_job_ops
      claimable_CompleteScheduleRun)

lemma run_claimable:
  "store_run d l d' \<Longrightarrow> wf_db d \<Longrightarrow>
     distinct l \<and> set l \<subseteq> claimable d \<and> claimable d' \<subseteq> claimable d - set l"
proof (induction rule: store_run.induct)
  case (more d l d' l' d'')
  then show ?case using step_claimable [OF more.hyps(2) wf_store_run [OF more.hyps(1)]] by auto
qed simp

section \<open>Properties\<close>

definition empty_db :: db where
  "empty_db = \<lparr> db_agents = [], db_snapshots = [], db_commands = [], db_schedules = [], db_runs = [],
     db_jobs = [], db_audit = [], db_next_agent = 1, db_next_command = 1, db_next_schedule = 1,
     db_next_run = 1, db_next_audit = 1, db_redis = True, db_cache_agents = None,
     db_cache_schedules = None, db_cache_jobs = None, db_cache_job = (\<lambda>_. None), db_faults = [] \<rparr>"

lemma wf_empty_db: "wf_db empty_db"
  by (simp add: wf_db_def wf_ids_def wf_refs_def coherent_def empty_db_def keyed_def)

definition edge_agent :: ComposeAgentRequest where
  "edge_agent = \<lparr> agr_Name = ''edge'', agr_BaseURL = [], agr_Mode = ''callback'', agr_Token = ''s3cret'',
     agr_Enabled = None \<rparr>"

definition pull_web :: AgentCommandRequest where
  "pull_web = \<lparr> aq_Project = ''web'', aq_Action = ''pull'', aq_Params = [] \<rparr>"

definition queued_db :: db where
  "queued_db = snd (EnqueueAgentCommand 20 1 pull_web (snd (SaveAgent 10 edge_agent empty_db)))"

definition claimed_db :: db where
  "claimed_db = snd (ClaimPendingCommands 30 1 queued_db)"

lemma claim_queued:
  "ClaimPendingCommands 30 1 queued_db =
     (Inr [\<lparr> ad_ID = 1, ad_Project = ''web'', ad_Action = ''pull'', ad_Params = [] \<rparr>], claimed_db)"
proof (rule prod_eqI)
  show "fst (ClaimPendingCommands 30 1 queued_db) =
      fst (Inr [\<lparr> ad_ID = 1, ad_Project = ''web'', ad_Action = ''pull'', ad_Params = [] \<rparr>], claimed_db)"
    by code_simp
qed (simp add: claimed_db_def)

lemma sample_run: "store_run empty_db [1] claimed_db"
proof -
  have "store_run empty_db ([] @ []) (snd (SaveAgent 10 edge_agent empty_db))"
    by (rule store_run.more [OF store_run.start store_step.save_agent])
  then have "store_run empty_db (([] @ []) @ []) queued_db"
    unfolding queued_db_def by (rule store_run.more) (rule store_step.enqueue)
  then have "store_run empty_db ((([] @ []) @ []) @ map ad_ID
      [\<lparr> ad_ID = 1, ad_Project = ''web'', ad_Action = ''pull'', ad_Params = [] \<rparr>]) claimed_db"
    by (rule store_run.more) (rule store_step.claim [OF claim_queued])
  then show ?thesis by simp
qed



text \<open>
  A queued command is handed to an agent at most once: over any execution of the
  store, the ids handed out by all claims together are distinct, and each of them was pending
  at the start or enqueued during the execution. After a command has been handed out, no later
  claim can return it.
\<close>

theorem commands_handed_out_once:
  assumes "wf_db d" "store_run d l d'"
  shows "distinct l \<and>
    set l \<subseteq> {ac_ID c |c. c \<in> set (db_commands d) \<and> ac_Status c = ''pending''} \<union> {db_next_command d ..} \<and>
    (\<forall>now i cmds d''. ClaimPendingCommands now i d' = (Inr cmds, d'') \<longrightarrow> set (map ad_ID cmds) \<inter> set l = {})"
proof -
  note r = run_claimable [OF assms(2,1)]
  have "set (map ad_ID cmds) \<inter> set l = {}" if "ClaimPendingCommands now i d' = (Inr cmds, d'')" for now i cmds d''
    using claim_once(2) [OF wf_store_run [OF assms(2,1)] that] r by auto
  with r show ?thesis by (simp add: claimable_def)
qed

theorem commands_handed_out_once_witness:
  "\<exists>cmds d''. ClaimPendingCommands 40 1 claimed_db = (Inr cmds, d'') \<and> 1 \<notin> set (map ad_ID cmds)"
proof -
  have "fst (ClaimPendingCommands 40 1 claimed_db) = Inr []" by code_simp
  then have "ClaimPendingCommands 40 1 claimed_db = (Inr [], snd (ClaimPendingCommands 40 1 claimed_db))"
    by (simp add: prod_eq_iff)
  with commands_handed_out_once [OF wf_empty_db sample_run] show ?thesis by (metis disjoint_insert(1) list.set(2))
qed

text \<open>
  A claim without a database failure returns the agent's pending commands in the
  order they were queued, at most a hundred of them; a pending command of the agent that it
  leaves behind is newer than all it returns, and only a full batch leaves one behind.
\<close>

theorem claim_in_order:
  fixes i :: int
  assumes "wf_db d" "db_faults d = []"
  defines "pending \<equiv> \<lambda>c. c \<in> set (db_commands d) \<and> ac_AgentID c = i \<and> ac_Status c = ''pending''"
  shows "\<exists>rows. fst (ClaimPendingCommands now i d) = Inr (map dispatch_of rows) \<and>
    (\<forall>c \<in> set rows. pending c) \<and> sorted (map ac_ID rows) \<and> length rows \<le> 100 \<and>
    (\<forall>c. pending c \<and> c \<notin> set rows \<longrightarrow> length rows = 100 \<and> (\<forall>c' \<in> set rows. ac_ID c' \<le> ac_ID c))"
proof (intro exI [of _ "pending_of i (db_commands d)"] conjI)
  let ?all = "sort_key ac_ID (filter (\<lambda>c. ac_AgentID c = i \<and> ac_Status c = ''pending'') (db_commands d))"
  have rows: "pending_of i (db_commands d) = take 100 ?all" by (simp add: pending_of_def)
  show "fst (ClaimPendingCommands now i d) = Inr (map dispatch_of (pending_of i (db_commands d)))"
    using assms(2) by (simp add: ClaimPendingCommands_def sql_def Let_def)
  show "\<forall>c \<in> set (pending_of i (db_commands d)). pending c"
    unfolding rows pending_def by (auto dest: in_set_takeD)
  show "sorted (map ac_ID (pending_of i (db_commands d)))"
    unfolding rows take_map [symmetric] by (intro sorted_wrt_take) simp
  show "length (pending_of i (db_commands d)) \<le> 100" by (simp add: rows)
  show "\<forall>c. pending c \<and> c \<notin> set (pending_of i (db_commands d)) \<longrightarrow>
      length (pending_of i (db_commands d)) = 100 \<and> (\<forall>c' \<in> set (pending_of i (db_commands d)). ac_ID c' \<le> ac_ID c)"
  proof (intro allI impI)
    fix c assume "pending c \<and> c \<notin> set (pending_of i (db_commands d))"
    then have "c \<in> set ?all" "c \<notin> set (take 100 ?all)" by (auto simp: pending_def rows)
    moreover have "set ?all = set (take 100 ?all) \<union> set (drop 100 ?all)"
      unfolding set_append [symmetric] append_take_drop_id ..
    ultimately have c: "c \<in> set (drop 100 ?all)" by blast
    then have "100 < length ?all" by (cases "length ?all \<le> 100") auto
    moreover have "sorted (map ac_ID (take 100 ?all @ drop 100 ?all))"
      unfolding append_take_drop_id by simp
    then have "\<forall>c' \<in> set (take 100 ?all). ac_ID c' \<le> ac_ID c" using c unfolding map_append sorted_append by auto
    ultimately show "length (pending_of i (db_commands d)) = 100 \<and>
        (\<forall>c' \<in> set (pending_of i (db_commands d)). ac_ID c' \<le> ac_ID c)" by (simp add: rows)
  qed
qed

lemma wf_queued_db: "wf_db queued_db" "db_faults queued_db = []"
proof -
  show "wf_db queued_db" unfolding queued_db_def by (intro inv_intros wf_empty_db)
  show "db_faults queued_db = []" by code_simp
qed

theorem claim_in_order_witness:
  "\<exists>rows. fst (ClaimPendingCommands 30 1 queued_db) = Inr (map dispatch_of rows) \<and> length rows \<le> 100"
  using claim_in_order [OF wf_queued_db, of 30 1] by metis

text \<open>
  The cached list of agents has lost their tokens: with a connected cache, a second
  \<open>ListAgents\<close> within the lifetime of the entry answers from it and returns every agent with an
  empty token, while the first returned the stored tokens. The project list passes these agents
  to the fetch from peer controllers, which then goes out without an API key.
\<close>

theorem cached_agents_have_no_token:
  assumes "db_redis d" "db_cache_agents d = None" "db_faults d = []"
    and "ListAgents d = (Inr agents, d1)" "ListAgents d1 = (Inr agents2, d2)"
  shows "map ag_Token agents = map ag_Token (sort_key ag_Name (db_agents d)) \<and>
    agents2 = map agent_json agents \<and> (\<forall>a \<in> set agents2. ag_Token a = [])"
proof -
  have l: "agents = map scanAgent (sort_key ag_Name (db_agents d))"
      "d1 = d \<lparr> db_cache_agents := Some (map agent_json agents) \<rparr>"
    using assms(1-4) by (auto simp: ListAgents_def sql_def Let_def)
  then have "agents2 = map agent_json agents" using assms(1,5) by (simp add: ListAgents_def)
  with l show ?thesis by (auto simp: scanAgent_def agent_json_def Let_def)
qed

theorem cached_agents_have_no_token_witness:
  "\<exists>l1 l2. fst (ListAgents queued_db) = Inr l1 \<and> map ag_Token l1 = [''s3cret''] \<and>
     fst (ListAgents (snd (ListAgents queued_db))) = Inr l2 \<and> (\<forall>a \<in> set l2. ag_Token a = [])"
proof -
  define d1 where "d1 = snd (ListAgents queued_db)"
  have d: "db_redis queued_db" "db_cache_agents queued_db = None" by code_simp+
  have sorted: "map ag_Token (sort_key ag_Name (db_agents queued_db)) = [''s3cret'']" by code_simp
  have 1: "ListAgents queued_db = (Inr (map scanAgent (sort_key ag_Name (db_agents queued_db))), d1)"
    using d wf_queued_db(2) by (simp add: ListAgents_def sql_def Let_def d1_def)
  have 2: "ListAgents d1 =
      (Inr (map agent_json (map scanAgent (sort_key ag_Name (db_agents queued_db)))), d1)"
    using d wf_queued_db(2) by (simp add: ListAgents_def sql_def Let_def d1_def)
  show ?thesis
    using cached_agents_have_no_token [OF d wf_queued_db(2) 1 2] 1 2 sorted
    unfolding d1_def [symmetric] by auto
qed

end
