(* ===== verification/AgentApi.thy ===== *)
theory AgentApi
  imports StoreInvariants
begin

text \<open>
  The HTTP handlers of agents and schedules: \<^verbatim>\<open>server/internal/handlers/agent_checkin.go\<close> (the
  calls a callback agent makes) and \<^verbatim>\<open>server/internal/handlers/schedules.go\<close> (the calls of the
  controller's users). A request body is \<open>None\<close> when \<^verbatim>\<open>json.Decode\<close> fails; a response is the status
  code with either the error text or the value written as JSON.
\<close>

section \<open>Definitions\<close>

fun err_text :: "store_error \<Rightarrow> string" where
  "err_text ErrNotFound = ''not found''"
| "err_text (DBError e) = e"

subsection \<open>agent_checkin.go\<close>

definition bearer_token :: "string \<Rightarrow> string \<Rightarrow> string" where
  "bearer_token authorization agent_token =
     (let t = trim_prefix authorization ''Bearer '' in if t = [] then agent_token else t)"

definition authAgent ::
  "string \<Rightarrow> string \<Rightarrow> string \<Rightarrow> db \<Rightarrow> ((int \<times> string) + ComposeAgent) \<times> db" where
  "authAgent authorization agent_token name d =
     (let token = bearer_token authorization agent_token in
      case GetAgentByName name d of
        (Inl ErrNotFound, d) \<Rightarrow> (Inl (401, ''unknown agent''), d)
      | (Inl e, d) \<Rightarrow> (Inl (500, err_text e), d)
      | (Inr agent, d) \<Rightarrow>
          if token = [] \<or> token \<noteq> ag_Token agent then (Inl (401, ''unauthorized''), d)
          else if \<not> ag_Enabled agent then (Inl (403, ''agent is disabled''), d)
          else (Inr agent, d))"

text \<open>
  \<open>CheckinProjects\<close> is the handler \<^verbatim>\<open>Projects\<close>. Its body is the agent's name and its projects, here
  the number of them and their JSON text (or the error of \<^verbatim>\<open>json.Marshal\<close>). Each step of the
  handler reads the clock anew; \<open>now\<close> stands for all of its readings.
\<close>

definition CheckinProjects ::
  "instant \<Rightarrow> string \<Rightarrow> string \<Rightarrow> (string \<times> nat \<times> string result) option \<Rightarrow> db \<Rightarrow>
   (int \<times> nat \<times> AgentCommandDispatch list) response \<times> db" where
  "CheckinProjects now authorization agent_token body d =
     (case body of
        None \<Rightarrow> (write_error 400 ''invalid request body'', d)
      | Some (name0, n, raw) \<Rightarrow>
          (let name = trim_space name0 in
           if name = [] then (write_error 400 ''agent name is required'', d)
           else
             (case authAgent authorization agent_token name d of
                (Inl (code, msg), d) \<Rightarrow> (write_error code msg, d)
              | (Inr agent, d) \<Rightarrow>
                  (case SaveAgentProjectSnapshot now (ag_ID agent) raw d of
                     (Inl e, d) \<Rightarrow> (write_error 500 (err_text e), d)
                   | (Inr _, d) \<Rightarrow>
                       (case TouchAgent now (ag_ID agent) d of
                          (Inl e, d) \<Rightarrow> (write_error 500 (err_text e), d)
                        | (Inr _, d) \<Rightarrow>
                            (case ClaimPendingCommands now (ag_ID agent) d of
                               (Inl e, d) \<Rightarrow> (write_error 500 (err_text e), d)
                             | (Inr commands, d) \<Rightarrow> (write_json 200 (ag_ID agent, n, commands), d)))))))"

fun save_results :: "string \<Rightarrow> instant \<Rightarrow> int \<Rightarrow> AgentCommandResult list \<Rightarrow> db \<Rightarrow> (store_error + unit) \<times> db" where
  "save_results node now agentID [] d = (Inr (), d)"
| "save_results node now agentID (r # rs) d =
     (case SaveAgentCommandResult node now agentID (ar_ID r) (ar_Success r) (ar_Output r) d of
        (Inl e, d) \<Rightarrow> (Inl e, d)
      | (Inr _, d) \<Rightarrow> save_results node now agentID rs d)"

definition CheckinResults ::
  "string \<Rightarrow> instant \<Rightarrow> string \<Rightarrow> string \<Rightarrow> (string \<times> AgentCommandResult list) option \<Rightarrow> db \<Rightarrow>
   nat response \<times> db" where
  "CheckinResults node now authorization agent_token body d =
     (case body of
        None \<Rightarrow> (write_error 400 ''invalid request body'', d)
      | Some (name0, results) \<Rightarrow>
          (let name = trim_space name0 in
           if name = [] then (write_error 400 ''agent name is required'', d)
           else
             (case authAgent authorization agent_token name d of
                (Inl (code, msg), d) \<Rightarrow> (write_error code msg, d)
              | (Inr agent, d) \<Rightarrow>
                  (case save_results node now (ag_ID agent) results d of
                     (Inl e, d) \<Rightarrow> (write_error 500 (err_text e), d)
                   | (Inr _, d) \<Rightarrow> (write_json 200 (length results), d)))))"

subsection \<open>schedules.go: agents\<close>

definition SaveAgentHandler :: "instant \<Rightarrow> ComposeAgentRequest option \<Rightarrow> db \<Rightarrow> ComposeAgent response \<times> db" where
  "SaveAgentHandler now body d =
     (case body of
        None \<Rightarrow> (write_error 400 ''invalid request body'', d)
      | Some req0 \<Rightarrow>
          (let name = trim_space (agr_Name req0);
               url = trim_right (trim_space (agr_BaseURL req0)) ''/'';
               mode0 = to_lower (trim_space (agr_Mode req0));
               mode = (if mode0 = [] then (if url = [] then ''callback'' else ''inbound'') else mode0);
               req = req0 \<lparr> agr_Name := name, agr_BaseURL := (if mode = ''callback'' then [] else url),
                            agr_Mode := mode \<rparr>
           in if name = [] then (write_error 400 ''agent name is required'', d)
              else if (mode = ''inbound'' \<or> mode = ''both'') \<and> url = []
                then (write_error 400 ''agent URL is required for inbound/both mode'', d)
              else if mode = ''peer'' \<and> url = []
                then (write_error 400 ''controller URL is required for peer mode'', d)
              else if mode \<notin> {''callback'', ''inbound'', ''both'', ''peer''}
                then (write_error 400 ''agent mode must be callback, inbound, both, or peer'', d)
              else
                (let (known, d) =
                   (if trim_space (agr_Token req) = []
                    then (case GetAgentByName name d of
                            (Inl ErrNotFound, d) \<Rightarrow> (Some (400, ''agent token is required for new agents''), d)
                          | (Inl e, d) \<Rightarrow> (Some (500, err_text e), d)
                          | (Inr _, d) \<Rightarrow> (None, d))
                    else (None, d))
                 in case known of
                      Some (code, msg) \<Rightarrow> (write_error code msg, d)
                    | None \<Rightarrow>
                        (case SaveAgent now req d of
                           (Inl e, d) \<Rightarrow> (write_error 500 (err_text e), d)
                         | (Inr agent, d) \<Rightarrow> (write_json 200 agent, d)))))"

text \<open>The id of the URL is \<open>None\<close> when \<open>parseInt64Param\<close> fails.\<close>

definition parseInt64Param :: "string \<Rightarrow> int option" where
  "parseInt64Param raw = (let (i, ok) = atoi raw in if \<not> ok \<or> i < 1 then None else Some i)"

definition DeleteAgentHandler :: "string \<Rightarrow> db \<Rightarrow> bool response \<times> db" where
  "DeleteAgentHandler raw d =
     (case parseInt64Param raw of
        None \<Rightarrow> (write_error 400 ''invalid id'', d)
      | Some i \<Rightarrow>
          (case DeleteAgent i d of
             (Inl ErrNotFound, d) \<Rightarrow> (write_error 404 ''agent not found'', d)
           | (Inl e, d) \<Rightarrow> (write_error 500 (err_text e), d)
           | (Inr _, d) \<Rightarrow> (write_json 200 True, d)))"

definition EnqueueCommand ::
  "instant \<Rightarrow> string \<Rightarrow> AgentCommandRequest option \<Rightarrow> db \<Rightarrow> AgentCommand response \<times> db" where
  "EnqueueCommand now raw body d =
     (case parseInt64Param raw of
        None \<Rightarrow> (write_error 400 ''invalid id'', d)
      | Some i \<Rightarrow>
          (case GetAgent i d of
             (Inl ErrNotFound, d) \<Rightarrow> (write_error 404 ''agent not found'', d)
           | (Inl e, d) \<Rightarrow> (write_error 500 (err_text e), d)
           | (Inr agent, d) \<Rightarrow>
               (case body of
                  None \<Rightarrow> (write_error 400 ''invalid request body'', d)
                | Some req0 \<Rightarrow>
                    (let req = req0 \<lparr> aq_Project := trim_space (aq_Project req0),
                                      aq_Action := trim_space (aq_Action req0) \<rparr>
                     in if aq_Project req = [] then (write_error 400 ''project is required'', d)
                        else if aq_Action req \<notin> {''check'', ''up'', ''down'', ''pull'', ''update'', ''restart''}
                          then (write_error 400 ''action must be check, up, down, pull, update, or restart'', d)
                        else
                          (case EnqueueAgentCommand now (ag_ID agent) req d of
                             (Inl e, d) \<Rightarrow> (write_error 500 (err_text e), d)
                           | (Inr cmd, d) \<Rightarrow> (write_json 202 cmd, d))))))"

subsection \<open>schedules.go: schedules\<close>

definition SaveScheduleHandler ::
  "location \<Rightarrow> instant \<Rightarrow> UpdateScheduleRequest option \<Rightarrow> db \<Rightarrow> UpdateSchedule response \<times> db" where
  "SaveScheduleHandler loc now body d =
     (case body of
        None \<Rightarrow> (write_error 400 ''invalid request body'', d)
      | Some req0 \<Rightarrow>
          (let req = normalizeSchedule req0 in
           case validateSchedule req of
             Some e \<Rightarrow> (write_error 400 e, d)
           | None \<Rightarrow>
               (case SaveSchedule loc now req d of
                  (Inl e, d) \<Rightarrow> (write_error 500 (err_text e), d)
                | (Inr u, d) \<Rightarrow> (write_json 200 u, d))))"

definition DeleteScheduleHandler :: "string \<Rightarrow> db \<Rightarrow> bool response \<times> db" where
  "DeleteScheduleHandler raw d =
     (case parseInt64Param raw of
        None \<Rightarrow> (write_error 400 ''invalid id'', d)
      | Some i \<Rightarrow>
          (case DeleteSchedule i d of
             (Inl ErrNotFound, d) \<Rightarrow> (write_error 404 ''schedule not found'', d)
           | (Inl e, d) \<Rightarrow> (write_error 500 (err_text e), d)
           | (Inr _, d) \<Rightarrow> (write_json 200 True, d)))"

definition ScheduleHistory :: "string \<Rightarrow> db \<Rightarrow> UpdateScheduleRun list response \<times> db" where
  "ScheduleHistory raw0 d =
     (let raw = trim_space raw0; (v, ok) = atoi raw in
      if raw \<noteq> [] \<and> (\<not> ok \<or> v < 1 \<or> 500 < v)
      then (write_error 400 ''limit must be between 1 and 500'', d)
      else
        (case ListScheduleRuns (if raw = [] then 100 else v) d of
           (Inl e, d) \<Rightarrow> (write_error 500 (err_text e), d)
         | (Inr runs, d) \<Rightarrow> (write_json 200 runs, d)))"

section \<open>Lemmas\<close>

text \<open>The only change a read or a refused request makes is to use up entries of \<open>db_faults\<close>.\<close>

definition same_data :: "db \<Rightarrow> db \<Rightarrow> bool" where
  "same_data d d' \<longleftrightarrow> (\<exists>fs. d' = d \<lparr> db_faults := fs \<rparr>)"

lemma same_data_refl [simp]: "same_data d d"
  unfolding same_data_def by (rule exI [of _ "db_faults d"]) simp

lemma same_data_fault [simp]: "same_data d (d \<lparr> db_faults := fs \<rparr>)"
  by (auto simp: same_data_def)

lemma GetAgentByName_cases:
  assumes "GetAgentByName name d = (r, d')"
  shows "same_data d d'"
    "r = Inr a \<Longrightarrow> \<exists>row \<in> set (db_agents d). a = scanAgent row \<and> ag_Name row = name"
proof -
  show "same_data d d'"
    using assms unfolding GetAgentByName_def by (cases rule: sql_cases) (auto simp: same_data_def)
  show "\<exists>row \<in> set (db_agents d). a = scanAgent row \<and> ag_Name row = name" if "r = Inr a"
    using assms that unfolding GetAgentByName_def
    by (cases rule: sql_cases) (auto simp: find_row_def split: option.splits dest: find_Some_in)
qed

text \<open>Who may act as the agent called \<open>name\<close>: whoever presents its non-empty token while it is enabled.\<close>

definition authorized :: "db \<Rightarrow> string \<Rightarrow> string \<Rightarrow> int \<Rightarrow> bool" where
  "authorized d name token i \<longleftrightarrow>
     (\<exists>a \<in> set (db_agents d). ag_ID a = i \<and> ag_Name a = name \<and> ag_Enabled a \<and>
        token \<noteq> [] \<and> ag_Token a = token)"

lemma scanAgent_fields [simp]:
  "ag_ID (scanAgent a) = ag_ID a" "ag_Name (scanAgent a) = ag_Name a"
  "ag_Token (scanAgent a) = ag_Token a" "ag_Enabled (scanAgent a) = ag_Enabled a"
  by (simp_all add: scanAgent_def Let_def)

lemma authAgent_cases:
  assumes "authAgent authorization agent_token name d = (r, d')"
  shows "same_data d d'"
    "r = Inr agent \<Longrightarrow> authorized d name (bearer_token authorization agent_token) (ag_ID agent)"
proof -
  obtain g dg where g: "GetAgentByName name d = (g, dg)" by fastforce
  have d': "d' = dg"
    using assms g by (auto simp: authAgent_def Let_def split: sum.splits store_error.splits if_splits)
  show "same_data d d'" using GetAgentByName_cases(1) [OF g] d' by simp
  show "authorized d name (bearer_token authorization agent_token) (ag_ID agent)" if "r = Inr agent"
  proof -
    have "g = Inr agent" "bearer_token authorization agent_token \<noteq> []"
        "ag_Token agent = bearer_token authorization agent_token" "ag_Enabled agent"
      using assms that
      by (auto simp: authAgent_def Let_def g split: sum.splits store_error.splits if_splits)
    with GetAgentByName_cases(2) [OF g] show ?thesis by (auto simp: authorized_def)
  qed
qed

lemma same_data_tables:
  assumes "same_data d d'"
  shows "db_commands d' = db_commands d" "db_agents d' = db_agents d" "wf_db d' = wf_db d"
  using assms wf_db_fault_blind by (auto simp: same_data_def fault_blind_def)

text \<open>The commands that a claim returns are pending commands of its agent.\<close>

lemma claim_commands:
  assumes "ClaimPendingCommands now i d = (Inr cmds, d')"
  shows "\<forall>x \<in> set cmds. \<exists>c \<in> set (db_commands d). dispatch_of c = x \<and> ac_AgentID c = i \<and> ac_Status c = ''pending''"
proof -
  have "cmds = map dispatch_of (pending_of i (db_commands d))"
    using assms unfolding ClaimPendingCommands_def by (cases rule: sql_cases) (auto simp: Let_def)
  then show ?thesis by (auto simp: pending_of_def dest!: in_set_takeD)
qed

lemma snapshot_touch_commands:
  "db_commands (snd (SaveAgentProjectSnapshot now i raw d)) = db_commands d"
  "db_commands (snd (TouchAgent now i d)) = db_commands d"
proof -
  have blind: "fault_blind (\<lambda>d. db_commands d = C)" for C by (simp add: fault_blind_def)
  show "db_commands (snd (SaveAgentProjectSnapshot now i raw d)) = db_commands d"
    unfolding SaveAgentProjectSnapshot_def by (cases raw) (auto intro!: sql_keeps [OF blind])
  show "db_commands (snd (TouchAgent now i d)) = db_commands d"
    unfolding TouchAgent_def by (rule sql_keeps [OF blind]) auto
qed

section \<open>Properties\<close>

text \<open>
  Property C17. Queued commands leave the controller only towards their own agent: a check-in
  answers with commands only if the caller presented the non-empty token of the enabled agent
  it names, and then every command it answers with was pending for that agent. Any other
  check-in is refused and changes no table.
\<close>

theorem checkin_needs_token:
  assumes "CheckinProjects now authorization agent_token (Some (name, n, raw)) d = (r, d')"
  shows "(r = (code, Inr (i, k, commands)) \<longrightarrow>
       authorized d (trim_space name) (bearer_token authorization agent_token) i \<and>
       (\<forall>x \<in> set commands. \<exists>c \<in> set (db_commands d).
          dispatch_of c = x \<and> ac_AgentID c = i \<and> ac_Status c = ''pending'')) \<and>
    ((\<nexists>i. authorized d (trim_space name) (bearer_token authorization agent_token) i) \<longrightarrow>
       same_data d d' \<and> (\<exists>code msg. r = (code, Inl msg)))"
proof -
  let ?name = "trim_space name"
  obtain g d1 where g: "authAgent authorization agent_token ?name d = (g, d1)" by fastforce
  note ga = authAgent_cases [OF g]
  have refused: "same_data d d' \<and> (\<exists>code msg. r = (code, Inl msg))"
    if "\<nexists>i. authorized d ?name (bearer_token authorization agent_token) i"
  proof -
    have "\<nexists>a. g = Inr a" using ga(2) that by blast
    then show ?thesis using assms ga(1)
      by (cases g) (auto simp: CheckinProjects_def Let_def g split: if_splits)
  qed
  have "authorized d ?name (bearer_token authorization agent_token) i \<and>
      (\<forall>x \<in> set commands. \<exists>c \<in> set (db_commands d).
          dispatch_of c = x \<and> ac_AgentID c = i \<and> ac_Status c = ''pending'')"
    if ok: "r = (code, Inr (i, k, commands))"
  proof -
    obtain agent d2 d3 where s: "g = Inr agent" "SaveAgentProjectSnapshot now (ag_ID agent) raw d1 = (Inr (), d2)"
        "TouchAgent now (ag_ID agent) d2 = (Inr (), d3)" "i = ag_ID agent"
        "ClaimPendingCommands now i d3 = (Inr commands, d')"
      using assms ok by (auto simp: CheckinProjects_def Let_def g split: if_splits sum.splits prod.splits)
    have "db_commands d3 = db_commands d"
      using snapshot_touch_commands(1) [of now "ag_ID agent" raw d1]
        snapshot_touch_commands(2) [of now "ag_ID agent" d2] s(2,3) same_data_tables(1) [OF ga(1)] by simp
    with claim_commands [OF s(5)] ga(2) s(1,4) show ?thesis by simp
  qed
  with refused show ?thesis by blast
qed

theorem checkin_needs_token_witness:
  "\<exists>d'. CheckinProjects 30 ''Bearer guess'' [] (Some ('' edge'', 0, Inr ''[]'')) queued_db =
      ((401, Inl ''unauthorized''), d') \<and> same_data queued_db d'"
proof -
  have f: "fst (CheckinProjects 30 ''Bearer guess'' [] (Some ('' edge'', 0, Inr ''[]'')) queued_db) =
      (401, Inl ''unauthorized'')" by code_simp
  then obtain d' where d': "CheckinProjects 30 ''Bearer guess'' [] (Some ('' edge'', 0, Inr ''[]'')) queued_db =
      ((401, Inl ''unauthorized''), d')" by (metis prod.collapse)
  have "\<forall>a \<in> set (db_agents queued_db). ag_Token a \<noteq> bearer_token ''Bearer guess'' []" by code_simp
  then have "\<nexists>i. authorized queued_db (trim_space '' edge'') (bearer_token ''Bearer guess'' []) i"
    by (auto simp: authorized_def)
  with checkin_needs_token [OF d'] d' show ?thesis by blast
qed

subsection \<open>Saving schedules\<close>

lemma overwrite_row_idem [simp]: "overwrite_row r (overwrite_row r u) = overwrite_row r u"
  by (simp add: overwrite_row_def)

lemma overwrite_row_own [simp]: "overwrite_row r (r \<lparr> us_ID := i \<rparr>) = r \<lparr> us_ID := i \<rparr>"
  by (cases r) (simp add: overwrite_row_def)

lemma overwrite_row_joined: "overwrite_row r u = u \<Longrightarrow> overwrite_row r (joined d u) = joined d u"
  by (cases u; cases r) (simp add: overwrite_row_def joined_def)

lemma GetSchedule_unique:
  assumes "distinct (map us_ID (db_schedules d))" "u \<in> set (db_schedules d)" "db_faults d = []"
  shows "GetSchedule (us_ID u) d = (Inr (joined d u), d)"
proof -
  have "find (\<lambda>v. us_ID v = us_ID u) rows = Some u" if "distinct (map us_ID rows)" "u \<in> set rows" for rows
    using that by (induction rows) (auto simp: image_iff)
  from this [OF assms(1,2)] assms(3) show ?thesis by (simp add: GetSchedule_def sql_def find_row_def)
qed

lemma us_ID_joined [simp]: "us_ID (joined d u) = us_ID u"
  by (simp add: joined_def)

lemma sql_ok: "db_faults d = [] \<Longrightarrow> sql d f = f d"
  by (simp add: sql_def)

lemma and_then_Inr:
  assumes "and_then r k = (Inr b, d')"
  obtains a d where "r = (Inr a, d)" "k a d = (Inr b, d')"
  using assms by (auto simp: and_then_def split: prod.splits sum.splits)

lemma GetSchedule_Inr:
  assumes "db_faults d = []" "GetSchedule i d = (Inr u, d')"
  shows "\<exists>r. find (\<lambda>v. us_ID v = i) (db_schedules d) = Some r \<and> u = joined d r \<and> d' = d"
  using assms by (cases "find (\<lambda>v. us_ID v = i) (db_schedules d)")
    (auto simp: GetSchedule_def sql_ok find_row_def)

lemma SaveSchedule_stores:
  assumes "wf_db d" "db_faults d = []" "SaveSchedule loc now req d = (Inr u, d')"
  shows "\<exists>row \<in> set (db_schedules d'). u = joined d' row \<and> overwrite_row (request_row loc now req) row = row
      \<and> (0 < usr_ID req \<longrightarrow> us_ID row = usr_ID req)"
    "db_faults d' = []"
proof -
  define row where "row = request_row loc now req"
  define d1 where "d1 = (if 0 < usr_ID req
     then drop_schedules (d \<lparr> db_schedules :=
            update_where (\<lambda>u. us_ID u = usr_ID req) (overwrite_row row) (db_schedules d) \<rparr>)
     else drop_schedules (d \<lparr> db_next_schedule := db_next_schedule d + 1,
            db_schedules := db_schedules d @ [row \<lparr> us_ID := db_next_schedule d \<rparr>] \<rparr>))"
  define i where "i = (if 0 < usr_ID req then usr_ID req else db_next_schedule d)"
  have faults: "db_faults d1 = []" using assms(2) by (simp add: d1_def)
  have get: "GetSchedule i d1 = (Inr u, d')"
  proof (cases "0 < usr_ID req")
    case True
    have d1: "d1 = drop_schedules (d \<lparr> db_schedules :=
        update_where (\<lambda>u. us_ID u = usr_ID req) (overwrite_row row) (db_schedules d) \<rparr>)" "i = usr_ID req"
      using True by (simp_all add: d1_def i_def)
    from assms(3) obtain a e where "(if \<not> (\<exists>u \<in> set (db_schedules d). us_ID u = usr_ID req) then (Inl ErrNotFound, d)
        else if \<not> known_agent d (usr_AgentID req) then (Inl (DBError ''foreign key''), d)
        else (Inr (), d1)) = (Inr a, e)" "GetSchedule i e = (Inr u, d')"
      unfolding SaveSchedule_def Let_def row_def [symmetric] if_P [OF True] sql_ok [OF assms(2)] d1
      by (rule and_then_Inr)
    then show ?thesis by (simp only: prod.inject sum.simps simp_thms split: if_splits)
  next
    case False
    have d1: "d1 = drop_schedules (d \<lparr> db_next_schedule := db_next_schedule d + 1,
        db_schedules := db_schedules d @ [row \<lparr> us_ID := db_next_schedule d \<rparr>] \<rparr>)" "i = db_next_schedule d"
      using False by (simp_all add: d1_def i_def)
    from assms(3) obtain a e where "(if \<not> known_agent d (usr_AgentID req) then (Inl (DBError ''foreign key''), d)
        else (Inr i, d1)) = (Inr a, e)" "GetSchedule a e = (Inr u, d')"
      unfolding SaveSchedule_def Let_def row_def [symmetric] if_not_P [OF False] sql_ok [OF assms(2)] d1
      by (rule and_then_Inr)
    then show ?thesis by (simp only: prod.inject sum.simps simp_thms split: if_splits)
  qed
  obtain r where r: "find (\<lambda>v. us_ID v = i) (db_schedules d1) = Some r" "u = joined d1 r" "d' = d1"
    using GetSchedule_Inr [OF faults get] by blast
  have k: "\<forall>v \<in> set (db_schedules d). us_ID v < db_next_schedule d"
    using ids_ofD(4) [OF assms(1)] by (auto simp: keyed_def)
  note in1 = find_Some_in [OF r(1)]
  have "overwrite_row row r = r"
  proof (cases "0 < usr_ID req")
    case True
    then show ?thesis using in1 by (auto simp: d1_def i_def set_update_where split: if_splits)
  next
    case False
    then show ?thesis using in1 k by (auto simp: d1_def i_def)
  qed
  with in1 r(2,3) show "\<exists>row \<in> set (db_schedules d'). u = joined d' row \<and>
      overwrite_row (request_row loc now req) row = row \<and> (0 < usr_ID req \<longrightarrow> us_ID row = usr_ID req)"
    by (auto simp: row_def i_def)
  show "db_faults d' = []" using faults r(3) by simp
qed

lemma request_row_later:
  assumes "validateSchedule req = None" "usr_NextRunAt req = None"
    "usr_Cadence req = ''interval'' \<or> calm loc off now"
  shows "now < us_NextRunAt (request_row loc now req)"
proof -
  define u where "u = (request_row loc now req) \<lparr> us_NextRunAt := now \<rparr>"
  have nxt: "us_NextRunAt (request_row loc now req) = nextScheduleRun loc u now"
    by (simp add: u_def request_row_def Let_def assms(2))
  have u: "us_Cadence u = (if usr_Cadence req = [] then ''interval'' else usr_Cadence req)"
      "us_DayOfWeek u = usr_DayOfWeek req" "us_DayOfMonth u = usr_DayOfMonth req"
    by (simp_all add: u_def request_row_def Let_def)
  show ?thesis
  proof (cases "usr_Cadence req = ''interval''")
    case True
    then show ?thesis
      using nextInterval_eq(1) [of "us_IntervalMinutes u" "us_NextRunAt u" now]
        nextInterval_eq(2) [of "us_IntervalMinutes u"]
      by (simp add: nxt nextScheduleRun_def u split: if_splits)
  next
    case False
    then have "calendar_schedule u"
      using assms(1) by (auto simp: validateSchedule_def calendar_schedule_def u Let_def
          split: if_splits option.splits)
    then show ?thesis
      using nextScheduleRun_first_due [of loc off now u] assms(3) False
      by (simp add: nxt first_after_def)
  qed
qed


definition daily_pull :: "int option \<Rightarrow> UpdateScheduleRequest" where
  "daily_pull agentID = \<lparr> usr_ID = 0, usr_AgentID = agentID, usr_Project = ''web'', usr_Action = ''Pull '',
     usr_Enabled = None, usr_Cadence = ''daily'', usr_TimeOfDay = ''03:00'', usr_DayOfWeek = 0,
     usr_DayOfMonth = 1, usr_IntervalMinutes = 0, usr_TimeoutSeconds = 600, usr_NextRunAt = None,
     usr_ConfirmDestructive = False \<rparr>"

definition scheduled_db :: db where
  "scheduled_db = snd (SaveScheduleHandler utc 100 (Some (daily_pull (Some 1))) queued_db)"


subsection \<open>Completing runs\<close>

lemma update_where_twice:
  assumes "\<And>r. P r \<Longrightarrow> \<not> P (f r)"
  shows "\<forall>r \<in> set (update_where P f rows). \<not> P r"
  using assms by (auto simp: set_update_where)

lemma filter_update_where:
  assumes "\<And>r. P r \<Longrightarrow> \<not> Q r \<and> \<not> Q (f r)"
  shows "filter Q (update_where P f rows) = filter Q rows"
  using assms by (induction rows) auto

lemma completion_audit_runs:
  "db_runs (insertScheduleCompletionAuditTx node jobID status errText t d) = db_runs d"
  by (auto simp: insertScheduleCompletionAuditTx_def schedule_audit_def split: list.splits)

lemma CompleteScheduleRun_runs:
  assumes "db_faults d = []" "jobID \<noteq> []"
  shows "fst (CompleteScheduleRun node now jobID status output errText endedAt duration d) = Inr ()"
    "db_runs (snd (CompleteScheduleRun node now jobID status output errText endedAt duration d)) =
       update_where (completes jobID status)
         (completed_row status output errText (if is_zero endedAt then now else endedAt) duration) (db_runs d)"
    "db_faults (snd (CompleteScheduleRun node now jobID status output errText endedAt duration d)) = []"
proof -
  have aud: "db_faults (insertScheduleCompletionAuditTx node jobID status errText t x) = db_faults x" for t x
    by (auto simp: insertScheduleCompletionAuditTx_def schedule_audit_def split: list.splits)
  show "fst (CompleteScheduleRun node now jobID status output errText endedAt duration d) = Inr ()"
    "db_faults (snd (CompleteScheduleRun node now jobID status output errText endedAt duration d)) = []"
    using assms by (simp_all add: CompleteScheduleRun_def sql_ok Let_def aud)
  show "db_runs (snd (CompleteScheduleRun node now jobID status output errText endedAt duration d)) =
       update_where (completes jobID status)
         (completed_row status output errText (if is_zero endedAt then now else endedAt) duration) (db_runs d)"
    using assms update_where_no_match [of "db_runs d" "completes jobID status"]
    by (simp add: CompleteScheduleRun_def sql_ok Let_def completion_audit_runs)
qed

text \<open>
  Completing a scheduled run settles exactly the history rows of its job: all of
  them get the final status, no row of another job changes, a job without a row (a manual one)
  changes nothing, and reporting the same outcome a second time changes nothing.
\<close>

theorem complete_run_settles_job:
  assumes "db_faults d = []" "jobID \<noteq> []"
    and "CompleteScheduleRun node now jobID status output errText endedAt duration d = (r, d')"
  shows "r = Inr () \<and> (\<forall>x \<in> set (db_runs d'). run_JobID x = jobID \<longrightarrow> run_Status x = status) \<and>
    filter (\<lambda>x. run_JobID x \<noteq> jobID) (db_runs d') = filter (\<lambda>x. run_JobID x \<noteq> jobID) (db_runs d) \<and>
    ((\<forall>x \<in> set (db_runs d). run_JobID x \<noteq> jobID) \<longrightarrow> d' = d) \<and>
    CompleteScheduleRun node now jobID status output errText endedAt duration d' = (Inr (), d')"
proof (intro conjI)
  let ?e = "if is_zero endedAt then now else endedAt"
  note c = CompleteScheduleRun_runs [OF assms(1,2), of node now status "output" errText endedAt duration,
      unfolded assms(3) fst_conv snd_conv]
  have row: "\<not> completes jobID status (completed_row status output errText ?e duration x)" for x
    by (simp add: completes_def completed_row_def)
  have none: "\<forall>x \<in> set (db_runs d'). \<not> completes jobID status x"
    unfolding c(2) by (rule update_where_twice) (rule row)
  show "r = Inr ()" by (rule c(1))
  show "\<forall>x \<in> set (db_runs d'). run_JobID x = jobID \<longrightarrow> run_Status x = status"
    using none by (auto simp: completes_def)
  show "filter (\<lambda>x. run_JobID x \<noteq> jobID) (db_runs d') = filter (\<lambda>x. run_JobID x \<noteq> jobID) (db_runs d)"
    unfolding c(2) by (rule filter_update_where) (simp add: completes_def completed_row_def)
  show "(\<forall>x \<in> set (db_runs d). run_JobID x \<noteq> jobID) \<longrightarrow> d' = d"
    using assms by (auto simp: CompleteScheduleRun_def sql_ok Let_def completes_def)
  show "CompleteScheduleRun node now jobID status output errText endedAt duration d' = (Inr (), d')"
    using none assms(2) c(3) by (simp add: CompleteScheduleRun_def sql_ok)
qed

definition started_db :: db where
  "started_db = snd (MarkScheduleDispatched ''n1'' 200 1 300 ''agent-cmd-1'' ''started'' [] scheduled_db)"

theorem complete_run_settles_job_witness:
  "\<exists>d'. CompleteScheduleRun ''n1'' 400 ''agent-cmd-1'' ''completed'' ''ok'' [] 400 [] started_db = (Inr (), d') \<and>
     (\<forall>x \<in> set (db_runs d'). run_JobID x = ''agent-cmd-1'' \<longrightarrow> run_Status x = ''completed'')"
proof -
  obtain r d' where c: "CompleteScheduleRun ''n1'' 400 ''agent-cmd-1'' ''completed'' ''ok'' [] 400 [] started_db = (r, d')"
    by fastforce
  have "db_faults started_db = []" by code_simp
  from complete_run_settles_job [OF this _ c] c show ?thesis by auto
qed

text \<open>
  The result endpoint lets one agent settle the scheduled run of another: a second
  agent that reports success for command 1, which belongs to the first agent, leaves the command
  itself untouched but marks the scheduled run behind it as completed.
\<close>

theorem foreign_result_completes_run:
  "let d = snd (SaveAgent 250 (edge_agent \<lparr> agr_Name := ''other'', agr_Token := ''mine'' \<rparr>) started_db);
       (r, d') = CheckinResults ''n1'' 400 ''Bearer mine'' []
         (Some (''other'', [\<lparr> ar_ID = 1, ar_Success = True, ar_Output = ''forged'' \<rparr>])) d
   in r = (200, Inr 1) \<and> map ac_AgentID (db_commands d) = [1] \<and> db_commands d' = db_commands d \<and>
      map run_Status (db_runs d) = [''started''] \<and> map run_Status (db_runs d') = [''completed''] \<and>
      map run_Output (db_runs d') = [''forged'']"
  by code_simp

end
