(* ===== verification/Engine.thy ===== *)
theory Engine
  imports EnvFile Types
begin

text \<open>
  The compose engine: \<^verbatim>\<open>server/internal/core/engine.go\<close>, \<^verbatim>\<open>compose.go\<close>, \<^verbatim>\<open>hooks.go\<close>,
  \<^verbatim>\<open>controller.go\<close>, \<^verbatim>\<open>update_verify.go\<close> and the naming part of \<^verbatim>\<open>discover.go\<close>. The machine the server
  runs on is an argument of every operation: a record of functions on an abstract state \<open>'w\<close>
  that runs a command, sleeps, tells the time and looks at files. The lemmas hold for every
  such machine, so for every behaviour of Docker; running a command may change everything.
  The environment handed to a command (\<open>projectComposeEnv\<close>) is the subject of theory \<open>EnvFile\<close>.
\<close>

section \<open>Definitions\<close>

subsection \<open>Running commands\<close>

text \<open>An \<^verbatim>\<open>*exec.ExitError\<close> has an exit code; any other error of \<^verbatim>\<open>cmd.Run\<close> has only a text.\<close>

datatype exec_error = ExitError int string | ExecFailure string

fun exec_text :: "exec_error \<Rightarrow> string" where
  "exec_text (ExitError n s) = s"
| "exec_text (ExecFailure s) = s"

text \<open>
  What running a command gives: its two outputs and their interleaving, the error, whether its
  deadline had passed at the end, and whether it could be started at all.
\<close>

record cmd_result =
  cm_stdout :: string
  cm_stderr :: string
  cm_combined :: string
  cm_error :: "exec_error option"
  cm_deadline :: bool
  cm_started :: bool

text \<open>
  \<open>ho_exec\<close> runs a command in the directory the engine always uses for it; \<open>ho_exec_in\<close> takes the
  directory and additional environment entries. \<open>ho_auths\<close> is the \<^verbatim>\<open>auths\<close> object of Docker's
  \<^verbatim>\<open>config.json\<close> (no entries when the file does not exist), and \<open>ho_tempconfig\<close> makes a temporary
  directory with an empty one.
\<close>

record 'w host =
  ho_exec :: "string \<Rightarrow> string list \<Rightarrow> 'w \<Rightarrow> cmd_result \<times> 'w"
  ho_exec_in :: "string \<Rightarrow> string list \<Rightarrow> string \<Rightarrow> string list \<Rightarrow> 'w \<Rightarrow> cmd_result \<times> 'w"
  ho_tempconfig :: "'w \<Rightarrow> string result \<times> 'w"
  ho_auths :: "'w \<Rightarrow> (string \<times> string) list result"
  ho_sleep :: "duration \<Rightarrow> 'w \<Rightarrow> 'w"
  ho_now :: "'w \<Rightarrow> instant"
  ho_file :: "string \<Rightarrow> 'w \<Rightarrow> bool"
  ho_executable :: "string \<Rightarrow> 'w \<Rightarrow> bool"
  ho_getenv :: "string \<Rightarrow> string"
  ho_hostname :: string

record Engine =
  en_RootDir :: string
  en_ExtraRoots :: "string list"
  en_HooksDir :: string

text \<open>\<^verbatim>\<open>filepath.Join\<close> of a cleaned directory and a plain name.\<close>

definition path_join :: "string \<Rightarrow> string \<Rightarrow> string" where
  "path_join dir name = dir @ ''/'' @ name"

text \<open>The elapsed time as the results print it.\<close>

definition elapsed :: "'w host \<Rightarrow> 'w \<Rightarrow> 'w \<Rightarrow> string" where
  "elapsed H w w' = duration_string (round_ms (ho_now H w' - ho_now H w))"

definition commandExitCode :: "exec_error \<Rightarrow> int" where
  "commandExitCode e = (case e of ExitError n _ \<Rightarrow> n | ExecFailure _ \<Rightarrow> 1)"

definition DockerExecWithTimeout ::
  "'w host \<Rightarrow> duration \<Rightarrow> string list \<Rightarrow> 'w \<Rightarrow> (ExecResult \<times> exec_error option) \<times> 'w" where
  "DockerExecWithTimeout H timeout args w =
     (let (r, w') = ho_exec H ''docker'' args w in
      case cm_error r of
        None \<Rightarrow> ((\<lparr> ex_Stdout = cm_stdout r, ex_Stderr = cm_stderr r, ex_ExitCode = 0 \<rparr>, None), w')
      | Some e \<Rightarrow>
          if cm_deadline r then
            ((\<lparr> ex_Stdout = cm_stdout r,
                ex_Stderr = cm_stderr r @ ''docker command timed out after '' @ duration_string timeout @ [newline],
                ex_ExitCode = 124 \<rparr>, Some e), w')
          else
            ((\<lparr> ex_Stdout = cm_stdout r, ex_Stderr = cm_stderr r, ex_ExitCode = commandExitCode e \<rparr>, Some e), w'))"

subsection \<open>Names\<close>

definition name_char :: "char \<Rightarrow> bool" where
  "name_char c \<longleftrightarrow> (CHR ''a'' \<le> c \<and> c \<le> CHR ''z'') \<or> is_digit c \<or> c = CHR ''_'' \<or> c = CHR ''-''"

definition alnum_char :: "char \<Rightarrow> bool" where
  "alnum_char c \<longleftrightarrow> (CHR ''a'' \<le> c \<and> c \<le> CHR ''z'') \<or> is_digit c"

text \<open>Each maximal run of other characters becomes one dash.\<close>

fun squeeze :: "bool \<Rightarrow> string \<Rightarrow> string" where
  "squeeze in_run [] = []"
| "squeeze in_run (c # cs) =
     (if name_char c then c # squeeze False cs
      else if in_run then squeeze True cs else CHR ''-'' # squeeze True cs)"

definition sanitizeProjectName :: "string \<Rightarrow> string" where
  "sanitizeProjectName name =
     (let s = squeeze False (to_lower name);
          s = trim_right (trim_left s ''-'') ''-'';
          s = dropWhile (\<lambda>c. \<not> alnum_char c) s
      in if s = [] then ''p'' else s)"

definition project_filter :: "string \<Rightarrow> string list" where
  "project_filter pname = [''ps'', ''-a'', ''--filter'', ''label=com.docker.compose.project='' @ pname]"

fun first_label :: "'w host \<Rightarrow> string list \<Rightarrow> 'w \<Rightarrow> string \<times> 'w" where
  "first_label H [] w = ([], w)"
| "first_label H (cand # cands) w =
     (let (r, w') = ho_exec H ''docker''
            (project_filter cand @ [''--format'', ''{{.Label \"com.docker.compose.project\"}}'']) w;
          label = trim_space (hd (split_on newline (cm_stdout r)))
      in if cm_error r = None \<and> label \<noteq> [] then (label, w') else first_label H cands w')"

definition detectRunningLabel :: "'w host \<Rightarrow> string \<Rightarrow> 'w \<Rightarrow> string \<times> 'w" where
  "detectRunningLabel H name w = first_label H [sanitizeProjectName name, to_lower name] w"

definition getProjectName :: "'w host \<Rightarrow> string \<Rightarrow> 'w \<Rightarrow> string \<times> 'w" where
  "getProjectName H name w =
     (let (label, w') = detectRunningLabel H name w
      in (if label \<noteq> [] then label else sanitizeProjectName name, w'))"

definition aggregateProjectState :: "Container list \<Rightarrow> string" where
  "aggregateProjectState containers =
     (if containers = [] then ''stopped''
      else
        (let present = map (\<lambda>c. to_lower (trim_space (ct_State c))) containers in
         case find (\<lambda>s. s \<in> set present)
                [''restarting'', ''dead'', ''removing'', ''paused'', ''running'', ''created'', ''exited''] of
           Some s \<Rightarrow> s
         | None \<Rightarrow> ''unknown''))"

text \<open>
  \<open>getContainers\<close>: \<open>parse\<close> stands for \<^verbatim>\<open>json.Unmarshal\<close> of one line of \<^verbatim>\<open>docker ps\<close> into its id, names,
  image, state, ports and networks; lines it rejects are skipped.
\<close>

definition getContainers ::
  "'w host \<Rightarrow> (string \<Rightarrow> (string \<times> string \<times> string \<times> string \<times> string \<times> string) option) \<Rightarrow>
   string \<Rightarrow> 'w \<Rightarrow> (Container list \<times> string) \<times> 'w" where
  "getContainers H parse name w =
     (let (pname, w1) = getProjectName H name w;
          (r, w2) = ho_exec H ''docker'' (project_filter pname @ [''--format'', ''{{json .}}'']) w1
      in if cm_error r \<noteq> None then (([], ''unknown''), w2)
         else
           (let cs = List.map_filter (\<lambda>line. if line = [] then None else
                  map_option (\<lambda>(i, names, image, state, ports, networks).
                    \<lparr> ct_ID = i, ct_Name = names, ct_Image = image, ct_State = state, ct_Ports = ports,
                      ct_HostNetwork = (trim_space networks = ''host''), ct_HostPorts = [] \<rparr>) (parse line))
                  (split_on newline (trim_space (cm_stdout r)))
            in ((cs, aggregateProjectState cs), w2)))"

subsection \<open>The controller's own project\<close>

definition is_hex_char :: "char \<Rightarrow> bool" where
  "is_hex_char c \<longleftrightarrow> is_digit c \<or> (CHR ''a'' \<le> c \<and> c \<le> CHR ''f'')"

definition isHex :: "string \<Rightarrow> bool" where
  "isHex v \<longleftrightarrow> (\<forall>c \<in> set v. is_hex_char c) \<and> v \<noteq> []"

definition projectContainsContainerID :: "Project \<Rightarrow> string \<Rightarrow> bool" where
  "projectContainsContainerID project candidate0 =
     (let candidate = to_lower (trim_space candidate0) in
      if length candidate < 12 \<or> \<not> isHex candidate then False
      else \<exists>c \<in> set (pr_Containers project).
        (let i = to_lower (trim_space (ct_ID c))
         in 12 \<le> length i \<and> isHex i \<and> (has_prefix i candidate \<or> has_prefix candidate i)))"

definition IsControllerProject :: "'w host \<Rightarrow> Project \<Rightarrow> bool" where
  "IsControllerProject H project =
     (let configured = trim_space (ho_getenv H ''STACK_MANAGER_PROJECT_NAME'') in
      if configured \<noteq> [] \<and> pr_Name project = configured then True
      else if projectContainsContainerID project (ho_hostname H) then True
      else pr_Name project = ''stack-manager'')"

definition ControllerImageActionMessage :: string where
  "ControllerImageActionMessage = ''Stack Manager cannot update its own Compose project through stack actions; use Settings > Update''"

definition controllerImageActionResult :: "Project \<Rightarrow> string \<Rightarrow> OpResult" where
  "controllerImageActionResult project act =
     \<lparr> op_Project = pr_Name project, op_Action = act, op_Success = False,
       op_Output = ControllerImageActionMessage @ [newline], op_ExitCode = - 1, op_Duration = [] \<rparr>"

subsection \<open>Compose commands\<close>

definition composeFileArgs :: "'w host \<Rightarrow> Project \<Rightarrow> 'w \<Rightarrow> string list" where
  "composeFileArgs H project w =
     (let override = path_join (pr_Dir project) ''compose.override.yml''
      in [''-f'', pr_ComposeFile project] @ (if ho_file H override w then [''-f'', override] else []))"

definition composePullArgs :: "Project \<Rightarrow> string list" where
  "composePullArgs project =
     (if \<exists>s \<in> set (pr_ImageSources project). is_Build s then [''pull'', ''--ignore-buildable''] else [''pull''])"

definition compose_args :: "'w host \<Rightarrow> Project \<Rightarrow> string \<Rightarrow> string list \<Rightarrow> 'w \<Rightarrow> string list" where
  "compose_args H project pname args w =
     [''compose''] @ composeFileArgs H project w @ [''-p'', pname] @ args"

text \<open>
  \<open>ExecComposeWithTimeout\<close>; its timeout bounds how long the command may run, and a command that
  is killed for it reports an error like any other.
\<close>

definition ExecCompose :: "'w host \<Rightarrow> Project \<Rightarrow> string list \<Rightarrow> 'w \<Rightarrow> OpResult \<times> 'w" where
  "ExecCompose H project args w =
     (let (pname, w1) = getProjectName H (pr_Name project) w;
          (r, w2) = ho_exec H ''docker'' (compose_args H project pname args w1) w1
      in (\<lparr> op_Project = pr_Name project, op_Action = join '' '' args, op_Success = (cm_error r = None),
            op_Output = cm_stdout r @ cm_stderr r,
            op_ExitCode = (case cm_error r of None \<Rightarrow> 0 | Some e \<Rightarrow> commandExitCode e),
            op_Duration = elapsed H w1 w2 \<rparr>, w2))"

subsection \<open>The service identity preflight\<close>

text \<open>\<^verbatim>\<open>strings.Fields\<close>: the maximal parts of a text without white space.\<close>

function split_fields :: "string \<Rightarrow> string \<Rightarrow> string list" where
  "split_fields acc [] = (if acc = [] then [] else [acc])"
| "split_fields acc (c # cs) =
     (if 0 < lead_space (c # cs)
      then (if acc = [] then [] else [acc]) @ split_fields [] (drop (lead_space (c # cs)) (c # cs))
      else split_fields (acc @ [c]) cs)"
  by pat_completeness auto
termination by (relation "measure (\<lambda>(acc, s). length s)") auto

definition str_fields :: "string \<Rightarrow> string list" where
  "str_fields s = split_fields [] s"

text \<open>
  The \<^verbatim>\<open>%q\<close> verb: a double-quoted Go literal. Quotes, backslashes and control characters are
  escaped; bytes above 127 are taken to belong to printable runes and kept.
\<close>

definition hex_digit :: "nat \<Rightarrow> char" where
  "hex_digit d = (if d < 10 then char_of (48 + d) else char_of (87 + d))"

definition quote_char :: "char \<Rightarrow> string" where
  "quote_char c =
     (let n = (of_char c :: nat) in
      if c = CHR 0x22 then [CHR 0x5C, CHR 0x22]
      else if c = CHR 0x5C then [CHR 0x5C, CHR 0x5C]
      else if n = 7 then [CHR 0x5C, CHR ''a''] else if n = 8 then [CHR 0x5C, CHR ''b'']
      else if n = 9 then [CHR 0x5C, CHR ''t''] else if n = 10 then [CHR 0x5C, CHR ''n'']
      else if n = 11 then [CHR 0x5C, CHR ''v''] else if n = 12 then [CHR 0x5C, CHR ''f'']
      else if n = 13 then [CHR 0x5C, CHR ''r'']
      else if n < 32 \<or> n = 127 then [CHR 0x5C, CHR ''x'', hex_digit (n div 16), hex_digit (n mod 16)]
      else [c])"

definition quoted :: "string \<Rightarrow> string" where
  "quoted s = CHR 0x22 # concat (map quote_char s) @ [CHR 0x22]"

definition orphan_item :: "string \<Rightarrow> string \<Rightarrow> string" where
  "orphan_item service container =
     ''- service '' @ quoted service @ '' (container '' @ quoted container @ '')''"

definition orphan_of :: "string list \<Rightarrow> string \<Rightarrow> string option" where
  "orphan_of allowed line =
     (let (s0, c0) = (case cut_at (CHR ''|'') line of None \<Rightarrow> (line, None) | Some (a, b) \<Rightarrow> (a, Some b));
          service = trim_space s0;
          container = (case c0 of Some b \<Rightarrow> if trim_space b \<noteq> [] then trim_space b else ''unknown container''
                       | None \<Rightarrow> ''unknown container'')
      in if service = [] \<or> service \<in> set allowed then None else Some (orphan_item service container))"

definition findOrphanComposeServices :: "string list \<Rightarrow> string \<Rightarrow> string list" where
  "findOrphanComposeServices configured containerRecords =
     (let allowed = filter (\<lambda>s. s \<noteq> []) (map trim_space configured)
      in sort (remdups (List.map_filter (orphan_of allowed)
           (split_on newline (trim_space containerRecords)))))"

definition CheckComposeServiceIdentity :: "'w host \<Rightarrow> Project \<Rightarrow> 'w \<Rightarrow> OpResult \<times> 'w" where
  "CheckComposeServiceIdentity H project w =
     (let res = (\<lambda>ok code out w'. \<lparr> op_Project = pr_Name project,
             op_Action = ''compose service identity preflight'', op_Success = ok, op_Output = out,
             op_ExitCode = code, op_Duration = elapsed H w w' \<rparr>);
          (pname, w1) = getProjectName H (pr_Name project) w;
          (r, w2) = ho_exec H ''docker'' (compose_args H project pname [''config'', ''--services''] w1) w1
      in case cm_error r of
           Some e \<Rightarrow> (res False (commandExitCode e)
               (''unable to resolve current Compose services: '' @ exec_text e @ [newline] @ cm_combined r) w2, w2)
         | None \<Rightarrow>
             (let (r2, w3) = ho_exec H ''docker'' (project_filter pname @
                    [''--format'', ''{{.Label \"com.docker.compose.service\"}}|{{.Names}}'']) w2
              in case cm_error r2 of
                   Some e \<Rightarrow> (res False (commandExitCode e)
                     (''unable to inspect existing Compose service labels: '' @ exec_text e @ [newline]
                        @ cm_combined r2) w3, w3)
                 | None \<Rightarrow>
                     (let orphans = findOrphanComposeServices (str_fields (cm_combined r)) (cm_combined r2)
                      in if orphans = [] then (res True 0 [] w3, w3)
                         else (res False 1
                           (''refusing to update because existing containers use Compose service identities that are absent from the current compose file:'' @ [newline]
                            @ join [newline] orphans @ [newline]
                            @ ''Review the compose change and explicitly migrate, remove, or restore these services before retrying. Stack Manager will not remove orphans automatically.''
                            @ [newline]) w3, w3))))"

subsection \<open>Hooks\<close>

definition hookPath :: "Engine \<Rightarrow> string \<Rightarrow> string \<Rightarrow> string \<Rightarrow> string" where
  "hookPath e phase command project =
     path_join (en_HooksDir e) (phase @ ''-'' @ command @ ''_'' @ project @ ''.sh'')"

definition HasHook :: "'w host \<Rightarrow> Engine \<Rightarrow> string \<Rightarrow> string \<Rightarrow> string \<Rightarrow> 'w \<Rightarrow> bool" where
  "HasHook H e phase command project w = ho_executable H (hookPath e phase command project) w"

definition RunHook :: "'w host \<Rightarrow> Engine \<Rightarrow> string \<Rightarrow> string \<Rightarrow> Project \<Rightarrow> 'w \<Rightarrow> OpResult \<times> 'w" where
  "RunHook H e phase command project w =
     (let path = hookPath e phase command (pr_Name project); act = ''hook:'' @ phase @ ''-'' @ command in
      if \<not> ho_executable H path w then
        (\<lparr> op_Project = pr_Name project, op_Action = act, op_Success = False,
           op_Output = ''hook not found or not executable'', op_ExitCode = 1, op_Duration = [] \<rparr>, w)
      else
        (let (r, w') = ho_exec H path [pr_Name project, pr_Dir project] w
         in (\<lparr> op_Project = pr_Name project, op_Action = act, op_Success = (cm_error r = None),
               op_Output = cm_stdout r @ cm_stderr r,
               op_ExitCode = (case cm_error r of None \<Rightarrow> 0 | Some e \<Rightarrow> commandExitCode e),
               op_Duration = elapsed H w w' \<rparr>, w')))"

subsection \<open>Verifying an update\<close>

record updateServiceState =
  ss_state :: string
  ss_health :: string
  ss_exitCode :: int
  ss_restarts :: int
  ss_restartPolicy :: string

type_synonym states = "(string \<times> updateServiceState) list"

fun parse_states :: "string list \<Rightarrow> states \<Rightarrow> states result" where
  "parse_states [] m = Inr m"
| "parse_states (line # lines) m =
     (case split_on (CHR ''|'') line of
        [n, st, ec, rc, hl, rp] \<Rightarrow>
          (let (exitCode, ok1) = atoi ec; (restarts, ok2) = atoi rc in
           if \<not> ok1 \<or> \<not> ok2 then Inl ''invalid Docker container state response''
           else parse_states lines (AList.update (trim_prefix n ''/'')
             \<lparr> ss_state = st, ss_health = hl, ss_exitCode = exitCode, ss_restarts = restarts,
               ss_restartPolicy = rp \<rparr> m))
      | _ \<Rightarrow> Inl ''unexpected Docker container state response'')"

definition state_format :: string where
  "state_format = ''{{.Name}}|{{.State.Status}}|{{.State.ExitCode}}|{{.RestartCount}}|{{if .State.Health}}{{.State.Health.Status}}{{else}}none{{end}}|{{.HostConfig.RestartPolicy.Name}}''"

definition updateServiceStates :: "'w host \<Rightarrow> Project \<Rightarrow> 'w \<Rightarrow> states result \<times> 'w" where
  "updateServiceStates H project w =
     (let (pname, w1) = getProjectName H (pr_Name project) w;
          (r, w2) = ho_exec H ''docker'' (project_filter pname @ [''--format'', ''{{.ID}}'']) w1
      in case cm_error r of
           Some e \<Rightarrow> (Inl (''unable to list project containers: '' @ exec_text e), w2)
         | None \<Rightarrow>
             (let ids = str_fields (cm_stdout r) in
              if ids = [] then (Inl ''no project containers exist after Compose up'', w2)
              else
                (let (r2, w3) = ho_exec H ''docker'' ([''inspect'', ''--format'', state_format] @ ids) w2
                 in case cm_error r2 of
                      Some e \<Rightarrow> (Inl (''unable to inspect project container state: '' @ exec_text e), w3)
                    | None \<Rightarrow>
                        (case parse_states (split_on newline (trim_space (cm_stdout r2))) [] of
                           Inl e \<Rightarrow> (Inl e, w3)
                         | Inr m \<Rightarrow>
                             if length m \<noteq> length ids then (Inl ''incomplete Docker container state response'', w3)
                             else (Inr m, w3)))))"

definition service_failure :: "states \<Rightarrow> string \<times> updateServiceState \<Rightarrow> string option" where
  "service_failure first cur =
     (let (name, s) = cur in
      case map_of first name of
        None \<Rightarrow> Some (name @ '': container changed during verification'')
      | Some s0 \<Rightarrow>
          if ss_restarts s0 < ss_restarts s
          then Some (name @ '': restarted '' @ itoa (ss_restarts s - ss_restarts s0) @ '' time(s) after Compose up'')
          else if ss_state s = ''exited'' \<and> ss_exitCode s = 0 \<and> ss_restartPolicy s = ''no'' then None
          else if ss_state s \<noteq> ''running'' then Some (name @ '': '' @ ss_state s)
          else if ss_health s = ''unhealthy'' \<or> ss_health s = ''starting''
          then Some (name @ '': '' @ ss_health s) else None)"

definition unstableUpdateServices :: "states \<Rightarrow> states \<Rightarrow> string list" where
  "unstableUpdateServices first latest =
     sort (List.map_filter (service_failure first) latest
       @ map (\<lambda>n. n @ '': disappeared during verification'')
           (filter (\<lambda>n. map_of latest n = None) (map fst first)))"

definition onlyHealthStarting :: "string list \<Rightarrow> bool" where
  "onlyHealthStarting failures \<longleftrightarrow> failures \<noteq> [] \<and> (\<forall>f \<in> set failures. has_suffix f '': starting'')"

definition updateVerifySettle :: duration where "updateVerifySettle = 30 * second"
definition updateVerifyHealthPoll :: duration where "updateVerifyHealthPoll = 10 * second"
definition updateVerifyHealthWait :: duration where "updateVerifyHealthWait = 5 * minute"

text \<open>The polling loop: it returns the latest sample (or the error of taking it) and the time waited.\<close>

function verify_poll ::
  "'w host \<Rightarrow> Project \<Rightarrow> states \<Rightarrow> duration \<Rightarrow> states result \<Rightarrow> 'w \<Rightarrow> (states result \<times> duration) \<times> 'w" where
  "verify_poll H project first waited sample w =
     (case sample of
        Inl e \<Rightarrow> ((sample, waited), w)
      | Inr latest \<Rightarrow>
          if waited < updateVerifyHealthWait \<and> onlyHealthStarting (unstableUpdateServices first latest)
          then
            (let w1 = ho_sleep H updateVerifyHealthPoll w;
                 (sample', w2) = updateServiceStates H project w1
             in verify_poll H project first (waited + updateVerifyHealthPoll) sample' w2)
          else ((sample, waited), w))"
  by pat_completeness auto
termination
  by (relation "measure (\<lambda>(H, p, f, waited, s, w). nat (updateVerifyHealthWait - waited))")
    (auto simp: updateVerifyHealthPoll_def updateVerifyHealthWait_def)

declare verify_poll.simps [simp del]

definition conclusive :: "updateServiceState \<Rightarrow> bool" where
  "conclusive s \<longleftrightarrow> ss_state s = ''restarting'' \<or> ss_state s = ''dead'' \<or> ss_state s = ''paused'' \<or>
     (ss_state s = ''exited'' \<and> ss_exitCode s \<noteq> 0)"

definition failure_report :: "string list \<Rightarrow> string" where
  "failure_report failures =
     ''Post-update container verification failed:'' @ [newline] @ join [newline] failures @ [newline]"

definition verifyUpdateServices :: "'w host \<Rightarrow> Project \<Rightarrow> 'w \<Rightarrow> OpResult \<times> 'w" where
  "verifyUpdateServices H project w =
     (let res = (\<lambda>ok code out w'. \<lparr> op_Project = pr_Name project, op_Action = ''verify update'',
             op_Success = ok, op_Output = out, op_ExitCode = code, op_Duration = elapsed H w w' \<rparr>);
          failed = (\<lambda>e w'. (res False 1
             (''Post-update container verification could not complete: '' @ e @ [newline]) w', w'));
          (sample, w1) = updateServiceStates H project w
      in case sample of
           Inl e \<Rightarrow> failed e w1
         | Inr first \<Rightarrow>
             if \<exists>(n, s) \<in> set first. conclusive s
             then (res False 1 (failure_report (unstableUpdateServices first first)) w1, w1)
             else
               (let w2 = ho_sleep H updateVerifySettle w1;
                    (sample2, w3) = updateServiceStates H project w2;
                    ((sample3, waited), w4) = verify_poll H project first updateVerifySettle sample2 w3
                in case sample3 of
                     Inl e \<Rightarrow> failed e w4
                   | Inr latest \<Rightarrow>
                       (let failures = unstableUpdateServices first latest in
                        if failures \<noteq> []
                        then (res False 1 (failure_report (failures @
                               (if onlyHealthStarting failures
                                then [''healthcheck still starting after '' @ duration_string waited] else []))) w4, w4)
                        else (res True 0 (''Post-update containers stayed running or completed as one-shot services; application readiness still requires a service smoke test.'' @ [newline]) w4, w4))))"

subsection \<open>Operations\<close>

definition AllRoots :: "Engine \<Rightarrow> string list" where
  "AllRoots e = en_RootDir e #
     filter (\<lambda>r. r \<noteq> [] \<and> r \<noteq> en_RootDir e) (map trim_space (en_ExtraRoots e))"

definition Pull :: "'w host \<Rightarrow> Project \<Rightarrow> 'w \<Rightarrow> OpResult \<times> 'w" where
  "Pull H project w =
     (if IsControllerProject H project then (controllerImageActionResult project ''pull'', w)
      else ExecCompose H project (composePullArgs project) w)"

definition Up :: "'w host \<Rightarrow> Project \<Rightarrow> 'w \<Rightarrow> OpResult \<times> 'w" where
  "Up H project w =
     (let (preflight, w1) = CheckComposeServiceIdentity H project w
      in if \<not> op_Success preflight then (preflight, w1) else ExecCompose H project [''up'', ''-d''] w1)"

definition Down :: "'w host \<Rightarrow> Project \<Rightarrow> 'w \<Rightarrow> OpResult \<times> 'w" where
  "Down H project w = ExecCompose H project [''down''] w"

definition Restart :: "'w host \<Rightarrow> Project \<Rightarrow> 'w \<Rightarrow> OpResult \<times> 'w" where
  "Restart H project w = ExecCompose H project [''restart''] w"

definition Status :: "'w host \<Rightarrow> Project \<Rightarrow> 'w \<Rightarrow> OpResult \<times> 'w" where
  "Status H project w = ExecCompose H project [''ps''] w"

definition Update :: "'w host \<Rightarrow> Engine \<Rightarrow> Project \<Rightarrow> 'w \<Rightarrow> OpResult list \<times> 'w" where
  "Update H e project w =
     (if IsControllerProject H project then ([controllerImageActionResult project ''update''], w)
      else if HasHook H e ''post'' ''update'' (pr_Name project) w then
        (let (r, w1) = RunHook H e ''post'' ''update'' project w
         in ([r \<lparr> op_Action := ''update (hook)'' \<rparr>], w1))
      else
        (let (preflight, w1) = CheckComposeServiceIdentity H project w
         in if \<not> op_Success preflight then ([preflight], w1)
            else
              (let (pull, w2) = Pull H project w1; pull = pull \<lparr> op_Action := ''pull'' \<rparr>
               in if \<not> op_Success pull then ([pull], w2)
                  else
                    (let (up, w3) = Up H project w2; up = up \<lparr> op_Action := ''up'' \<rparr>
                     in if \<not> op_Success up then ([pull, up], w3)
                        else
                          (let (v, w4) = verifyUpdateServices H project w3
                           in ([pull, up \<lparr> op_Output := op_Output up @ [newline] @ ''=== verify update ==='' @ [newline] @ op_Output v,
                                           op_Success := op_Success v, op_ExitCode := op_ExitCode v,
                                           op_Duration := elapsed H w2 w4 \<rparr>], w4))))))"

subsection \<open>Pruning\<close>

definition prune_steps :: "string \<Rightarrow> (string \<times> duration \<times> string list) list option" where
  "prune_steps mode =
     (let images = (''Image Prune'', 2 * minute, [''image'', ''prune'', ''-f'']);
          networks = (''Network Prune'', 2 * minute, [''network'', ''prune'', ''-f'']);
          volumes = (''Volume Prune'', 2 * minute, [''volume'', ''prune'', ''-f''])
      in if mode = ''safe'' then Some [images, networks, volumes]
         else if mode = ''system'' then Some [(''System Prune'', 2 * minute, [''system'', ''prune'', ''-f''])]
         else if mode = ''system-all'' then
           Some [(''System Prune All'', 30 * minute, [''system'', ''prune'', ''--all'', ''--volumes'', ''-f''])]
         else if mode = ''images'' then Some [(''Image Prune All'', 2 * minute, [''image'', ''prune'', ''--all'', ''-f''])]
         else if mode = ''volumes'' then Some [volumes]
         else if mode = ''networks'' then Some [networks]
         else if mode = ''builder'' then Some [(''Builder Prune'', 2 * minute, [''builder'', ''prune'', ''--all'', ''-f''])]
         else None)"

text \<open>The steps one after the other: whether all succeeded, the last failing exit code, the outputs.\<close>

fun run_prune :: "'w host \<Rightarrow> (string \<times> duration \<times> string list) list \<Rightarrow> 'w \<Rightarrow> (bool \<times> int option \<times> string list) \<times> 'w" where
  "run_prune H [] w = ((True, None, []), w)"
| "run_prune H ((label, timeout, args) # steps) w =
     (let ((r, _), w1) = DockerExecWithTimeout H timeout args w;
          ((ok, code, outs), w2) = run_prune H steps w1;
          out = ''=== '' @ label @ '' ==='' @ [newline] @ ex_Stdout r @ ex_Stderr r
      in ((ex_ExitCode r = 0 \<and> ok,
           (case code of Some c \<Rightarrow> Some c | None \<Rightarrow> if ex_ExitCode r \<noteq> 0 then Some (ex_ExitCode r) else None),
           out # outs), w2))"

definition prune_mode :: "string \<Rightarrow> string" where
  "prune_mode mode = (if trim_space (to_lower mode) = [] then ''safe'' else trim_space (to_lower mode))"

definition Prune :: "'w host \<Rightarrow> string \<Rightarrow> 'w \<Rightarrow> OpResult \<times> 'w" where
  "Prune H mode0 w =
     (let mode = prune_mode mode0;
          res = (\<lambda>ok code out. \<lparr> op_Project = ''(system)'', op_Action = ''prune:'' @ mode, op_Success = ok,
                  op_Output = out, op_ExitCode = code, op_Duration = [] \<rparr>)
      in case prune_steps mode of
           None \<Rightarrow> (res False 1 (''unsupported prune mode: '' @ mode @ [newline]), w)
         | Some steps \<Rightarrow>
             (let ((ok, code, outs), w1) = run_prune H steps w
              in (res ok (case code of Some c \<Rightarrow> c | None \<Rightarrow> 0) (concat (map (\<lambda>p. p @ [newline]) outs)), w1)))"

section \<open>Project names\<close>

lemma squeeze_chars: "set (squeeze b s) \<subseteq> {c. name_char c}"
  by (induction b s rule: squeeze.induct) (auto simp: name_char_def)

lemma squeeze_id: "\<forall>c \<in> set s. name_char c \<Longrightarrow> squeeze b s = s"
  by (induction s arbitrary: b) auto

lemma lower_name_char: "name_char c \<Longrightarrow> lower_char c = c"
proof -
  have "\<not> (CHR ''A'' \<le> c \<and> c \<le> CHR ''Z'')" if "name_char c"
    using that by (auto simp: name_char_def is_digit_def less_eq_char_def)
  then show "name_char c \<Longrightarrow> lower_char c = c" by (auto simp: lower_char_def)
qed

lemma alnum_name_char: "alnum_char c \<Longrightarrow> name_char c \<and> c \<noteq> CHR ''-''"
  by (auto simp: alnum_char_def name_char_def is_digit_def less_eq_char_def)

text \<open>The names that Docker Compose accepts and that do not end in a dash.\<close>

definition project_name :: "string \<Rightarrow> bool" where
  "project_name s \<longleftrightarrow> s \<noteq> [] \<and> (\<forall>c \<in> set s. name_char c) \<and> alnum_char (hd s) \<and> last s \<noteq> CHR ''-''"

lemma trim_right_last: "trim_right s cs \<noteq> [] \<Longrightarrow> last (trim_right s cs) \<notin> set cs"
  unfolding trim_right_def by (metis hd_dropWhile last_rev rev_is_Nil_conv)

lemma sanitize_shape:
  fixes name
  defines "s \<equiv> dropWhile (\<lambda>c. \<not> alnum_char c) (trim_right (trim_left (squeeze False (to_lower name)) ''-'') ''-'')"
  shows "s = [] \<or> project_name s"
proof (cases "s = []")
  case False
  let ?t = "trim_right (trim_left (squeeze False (to_lower name)) ''-'') ''-''"
  have sub: "set s \<subseteq> set (squeeze False (to_lower name))"
    by (auto simp: s_def trim_right_def trim_left_def dest!: set_dropWhileD)
  have "?t \<noteq> []" using False by (auto simp: s_def)
  then have "last ?t \<noteq> CHR ''-''" using trim_right_last by fastforce
  moreover have "last s = last ?t"
    using False unfolding s_def by (metis last_appendR takeWhile_dropWhile_id)
  moreover have "alnum_char (hd s)" using False hd_dropWhile unfolding s_def by metis
  ultimately show ?thesis
    using False sub squeeze_chars by (fastforce simp: project_name_def)
qed simp

lemma sanitize_id: assumes "project_name s" shows "sanitizeProjectName s = s"
proof -
  have ne: "s \<noteq> []" and ch: "\<forall>c \<in> set s. name_char c" and h: "alnum_char (hd s)" and l: "last s \<noteq> CHR ''-''"
    using assms by (auto simp: project_name_def)
  have low: "to_lower s = s" using ch lower_name_char by (simp add: to_lower_def map_idI)
  have left: "trim_left s ''-'' = s"
    using ne alnum_name_char[OF h] unfolding trim_left_def by (cases s) auto
  have right: "trim_right s ''-'' = s"
    using ne l unfolding trim_right_def
    by (metis (no_types, lifting) dropWhile_eq_self_iff empty_set hd_rev insert_iff empty_iff list.simps(15) rev_rev_ident)
  have "dropWhile (\<lambda>c. \<not> alnum_char c) s = s" using ne h by (cases s) auto
  then show ?thesis using low left right squeeze_id[OF ch] ne
    unfolding sanitizeProjectName_def Let_def by presburger
qed


section \<open>The identity preflight\<close>

text \<open>The service and the container of one line of the container listing.\<close>

definition record_service :: "string \<Rightarrow> string" where
  "record_service line = trim_space (takeWhile (\<lambda>c. c \<noteq> CHR ''|'') line)"

definition record_container :: "string \<Rightarrow> string" where
  "record_container line =
     (let c = trim_space (drop (Suc (length (takeWhile (\<lambda>c. c \<noteq> CHR ''|'') line))) line)
      in if c = [] then ''unknown container'' else c)"

lemma in_map_filter: "y \<in> set (List.map_filter f xs) \<longleftrightarrow> (\<exists>x \<in> set xs. f x = Some y)"
  by (induction xs) (auto simp: map_filter_simps split: option.splits)

lemma takeWhile_absent: "c \<notin> set s \<Longrightarrow> takeWhile (\<lambda>x. x \<noteq> c) s = s"
  by (induction s) auto

lemma orphan_of_record:
  "orphan_of allowed line =
     (if record_service line = [] \<or> record_service line \<in> set allowed then None
      else Some (orphan_item (record_service line) (record_container line)))"
proof (cases "cut_at (CHR ''|'') line")
  case None
  then have tw: "takeWhile (\<lambda>c. c \<noteq> CHR ''|'') line = line" using takeWhile_absent by simp
  have "record_service line = trim_space line" unfolding record_service_def tw ..
  moreover have "record_container line = ''unknown container''"
    unfolding record_container_def tw by (simp add: trim_space_def)
  ultimately show ?thesis using None by (simp add: orphan_of_def Let_def)
next
  case (Some ab)
  obtain a b where ab: "ab = (a, b)" by force
  then have line: "line = a @ CHR ''|'' # b" "CHR ''|'' \<notin> set a" using cut_at_Some Some by metis+
  have tw: "takeWhile (\<lambda>c. c \<noteq> CHR ''|'') line = a" using line by (auto simp: takeWhile_append takeWhile_absent)
  have "record_service line = trim_space a" unfolding record_service_def tw ..
  moreover have "record_container line = (if trim_space b = [] then ''unknown container'' else trim_space b)"
    unfolding record_container_def tw using line by (simp add: Let_def)
  ultimately show ?thesis using Some ab by (simp add: orphan_of_def Let_def)
qed

text \<open>
  The preflight reports exactly the containers whose service label is not a service of the
  current compose file, each once and in sorted order; in particular it passes exactly when every
  labelled container belongs to a configured service.
\<close>

theorem findOrphanComposeServices_exact:
  "set (findOrphanComposeServices configured records) =
     (\<lambda>line. orphan_item (record_service line) (record_container line)) `
       {line \<in> set (split_on newline (trim_space records)).
          record_service line \<noteq> [] \<and> record_service line \<notin> trim_space ` set configured}
   \<and> sorted (findOrphanComposeServices configured records)
   \<and> distinct (findOrphanComposeServices configured records)"
  unfolding findOrphanComposeServices_def Let_def
  by (auto simp: in_map_filter orphan_of_record split: if_splits)

section \<open>What the operations may run\<close>

text \<open>A machine that keeps the events of an operation in a list beside its state.\<close>

datatype event = Ran string "string list" | Slept duration

definition logged :: "'w host \<Rightarrow> ('w \<times> event list) host" where
  "logged H = \<lparr>
     ho_exec = (\<lambda>cmd args (w, l). (let (r, w') = ho_exec H cmd args w in (r, (w', l @ [Ran cmd args])))),
     ho_exec_in = (\<lambda>dir env cmd args (w, l).
       (let (r, w') = ho_exec_in H dir env cmd args w in (r, (w', l @ [Ran cmd args])))),
     ho_tempconfig = (\<lambda>(w, l). (let (r, w') = ho_tempconfig H w in (r, (w', l)))),
     ho_auths = (\<lambda>(w, l). ho_auths H w),
     ho_sleep = (\<lambda>d (w, l). (ho_sleep H d w, l @ [Slept d])),
     ho_now = (\<lambda>(w, l). ho_now H w),
     ho_file = (\<lambda>p (w, l). ho_file H p w),
     ho_executable = (\<lambda>p (w, l). ho_executable H p w),
     ho_getenv = ho_getenv H,
     ho_hostname = ho_hostname H \<rparr>"

text \<open>
  An interface of the machine: a property \<open>I\<close> of its state that listing and inspecting containers
  keep. The engine's observations then keep it, however often they look.
\<close>

locale observed =
  fixes H :: "'w host" and I :: "'w \<Rightarrow> bool"
  assumes ps: "I w \<Longrightarrow> I (snd (ho_exec H ''docker'' (''ps'' # args) w))"
    and inspect: "I w \<Longrightarrow> I (snd (ho_exec H ''docker'' (''inspect'' # args) w))"
begin

lemma first_label_keeps: "I w \<Longrightarrow> I (snd (first_label H cands w))"
proof (induction cands arbitrary: w)
  case (Cons cand cands)
  obtain r w' where e: "ho_exec H ''docker''
      (project_filter cand @ [''--format'', ''{{.Label \"com.docker.compose.project\"}}'']) w = (r, w')" by force
  have "I w'" using ps[OF Cons.prems, of "tl (project_filter cand) @ [''--format'', ''{{.Label \"com.docker.compose.project\"}}'']"] e
    by (simp add: project_filter_def)
  then show ?case using Cons.IH e by (simp add: Let_def)
qed simp

lemma getProjectName_keeps: "I w \<Longrightarrow> I (snd (getProjectName H name w))"
  using first_label_keeps[of w "[sanitizeProjectName name, to_lower name]"]
  unfolding getProjectName_def detectRunningLabel_def Let_def by (simp only: split_beta snd_conv)

lemma updateServiceStates_keeps:
  assumes "I w" shows "I (snd (updateServiceStates H project w))"
proof -
  obtain pname w1 where g: "getProjectName H (pr_Name project) w = (pname, w1)" by force
  obtain r w2 where e: "ho_exec H ''docker'' (project_filter pname @ [''--format'', ''{{.ID}}'']) w1 = (r, w2)" by force
  have w2: "I w2" using ps[of w1] getProjectName_keeps[OF assms, of "pr_Name project"] g e
    by (auto simp: project_filter_def) (metis snd_conv)
  obtain r2 w3 where i: "ho_exec H ''docker'' ([''inspect'', ''--format'', state_format] @ str_fields (cm_stdout r)) w2 = (r2, w3)" by force
  have "I w3" using inspect[OF w2] i by (metis append_Cons snd_conv)
  then show ?thesis using w2 g e i
    by (auto simp: updateServiceStates_def Let_def split: option.splits sum.splits)
qed

end

text \<open>The same interface with a clock: sleeping advances it, observing does not.\<close>

locale clocked =
  fixes H :: "'w host" and J :: "duration \<Rightarrow> 'w \<Rightarrow> bool"
  assumes ps: "J t w \<Longrightarrow> J t (snd (ho_exec H ''docker'' (''ps'' # args) w))"
    and inspect: "J t w \<Longrightarrow> J t (snd (ho_exec H ''docker'' (''inspect'' # args) w))"
    and sleep: "J t w \<Longrightarrow> J (t + d) (ho_sleep H d w)"

sublocale clocked \<subseteq> at: observed H "J t" for t
  by unfold_locales (auto intro: ps inspect)

context clocked
begin

lemma verify_poll_keeps:
  assumes "J (t + waited) w" and "waited \<le> updateVerifyHealthWait" and "updateVerifyHealthPoll dvd updateVerifyHealthWait - waited"
  shows "case verify_poll H project first waited sample w of ((_, waited'), w') \<Rightarrow>
    J (t + waited') w' \<and> waited \<le> waited' \<and> waited' \<le> updateVerifyHealthWait"
  using assms
proof (induction "nat (updateVerifyHealthWait - waited)" arbitrary: waited sample w rule: less_induct)
  case less
  show ?case
  proof (cases "\<exists>latest. sample = Inr latest \<and> waited < updateVerifyHealthWait
      \<and> onlyHealthStarting (unstableUpdateServices first latest)")
    case False
    then have "verify_poll H project first waited sample w = ((sample, waited), w)"
      by (subst verify_poll.simps) (auto split: sum.splits)
    then show ?thesis using less.prems by simp
  next
    case True
    obtain sample' w2 where st: "updateServiceStates H project (ho_sleep H updateVerifyHealthPoll w) = (sample', w2)" by force
    let ?t = "waited + updateVerifyHealthPoll"
    have eq: "verify_poll H project first waited sample w = verify_poll H project first ?t sample' w2"
      using True st by (subst verify_poll.simps) auto
    have "J (t + ?t) w2"
      using at.updateServiceStates_keeps[OF sleep[OF less.prems(1)], of updateVerifyHealthPoll project] st
      by (simp add: add.assoc)
    moreover have pos: "0 < updateVerifyHealthPoll" by (simp add: updateVerifyHealthPoll_def)
    moreover have "updateVerifyHealthPoll dvd updateVerifyHealthWait - ?t"
      using less.prems(3) by (metis diff_diff_eq dvd_diff dvd_refl)
    moreover have "?t \<le> updateVerifyHealthWait"
      using less.prems(3) True pos zdvd_imp_le[of updateVerifyHealthPoll "updateVerifyHealthWait - waited"] by linarith
    ultimately show ?thesis using less.hyps[of ?t w2 sample'] True eq by (auto split: prod.splits)
  qed
qed

text \<open>A verification ends with the clock at most five minutes ahead.\<close>

lemma verifyUpdateServices_keeps:
  assumes "J t w"
  shows "\<exists>waited. 0 \<le> waited \<and> waited \<le> updateVerifyHealthWait \<and> J (t + waited) (snd (verifyUpdateServices H project w))"
proof -
  obtain s1 w1 where s1: "updateServiceStates H project w = (s1, w1)" by force
  have w1: "J (t + 0) w1" using at.updateServiceStates_keeps[OF assms, of project] s1 by simp
  have zero: "0 \<le> updateVerifyHealthWait" by (simp add: updateVerifyHealthWait_def)
  have "snd (verifyUpdateServices H project w) = w1" if "\<not> (\<exists>first. s1 = Inr first \<and> \<not> (\<exists>(n, s) \<in> set first. conclusive s))"
    using that s1 by (cases s1) (simp_all add: verifyUpdateServices_def Let_def)
  then consider (early) "snd (verifyUpdateServices H project w) = w1"
    | (late) first where "s1 = Inr first" "\<not> (\<exists>(n, s) \<in> set first. conclusive s)" by blast
  then show ?thesis
  proof cases
    case early
    then show ?thesis using w1 zero by auto
  next
    case late
    obtain s2 w3 where s2: "updateServiceStates H project (ho_sleep H updateVerifySettle w1) = (s2, w3)" by force
    obtain s3 waited w4 where p: "verify_poll H project first updateVerifySettle s2 w3 = ((s3, waited), w4)"
      by (metis surj_pair)
    have "J (t + updateVerifySettle) w3"
      using at.updateServiceStates_keeps[OF sleep[OF w1], of updateVerifySettle project] s2 by simp
    then have "J (t + waited) w4 \<and> updateVerifySettle \<le> waited \<and> waited \<le> updateVerifyHealthWait"
      using verify_poll_keeps[of t updateVerifySettle w3 project first s2] p
      by (simp add: updateVerifySettle_def updateVerifyHealthWait_def updateVerifyHealthPoll_def)
    moreover have "snd (verifyUpdateServices H project w) = w4"
      using s1 late s2 p unfolding verifyUpdateServices_def Let_def
      by (auto split: sum.splits)
    moreover have "0 \<le> updateVerifySettle" by (simp add: updateVerifySettle_def)
    ultimately show ?thesis by (intro exI[of _ waited]) auto
  qed
qed

end

context clocked
begin

lemma ExecCompose_keeps:
  assumes "J t w" and run: "\<And>pname w. J t w \<Longrightarrow> J t (snd (ho_exec H ''docker'' (compose_args H project pname args w) w))"
  shows "J t (snd (ExecCompose H project args w))"
  using run[OF at.getProjectName_keeps[OF assms(1), of "pr_Name project"], of "fst (getProjectName H (pr_Name project) w)"]
  by (simp add: ExecCompose_def Let_def split_beta)

lemma preflight_keeps:
  assumes "J t w"
    and config: "\<And>pname w. J t w \<Longrightarrow> J t (snd (ho_exec H ''docker'' (compose_args H project pname [''config'', ''--services''] w) w))"
  shows "J t (snd (CheckComposeServiceIdentity H project w))"
proof -
  obtain pname w1 where g: "getProjectName H (pr_Name project) w = (pname, w1)" by force
  obtain r w2 where e: "ho_exec H ''docker'' (compose_args H project pname [''config'', ''--services''] w1) w1 = (r, w2)" by force
  have w2: "J t w2" using config[of w1 pname] at.getProjectName_keeps[OF assms(1), of "pr_Name project"] g e by simp
  let ?args = "project_filter pname @ [''--format'', ''{{.Label \"com.docker.compose.service\"}}|{{.Names}}'']"
  obtain r2 w3 where i: "ho_exec H ''docker'' ?args w2 = (r2, w3)" by force
  have "J t w3" using ps[OF w2, of "tl ?args"] i by (simp add: project_filter_def)
  then show ?thesis using w2 g e i
    by (simp add: CheckComposeServiceIdentity_def Let_def split: option.splits)
qed

end

text \<open>
  A machine on which resolving the services of a project and pulling its images keep the property
  as well: what an update does before it starts anything.
\<close>

locale pullable = clocked +
  fixes project :: Project
  assumes config: "J t w \<Longrightarrow> J t (snd (ho_exec H ''docker'' (compose_args H project pname [''config'', ''--services''] w) w))"
    and pull: "J t w \<Longrightarrow> J t (snd (ho_exec H ''docker'' (compose_args H project pname (composePullArgs project) w) w))"
begin

lemma Pull_keeps: "J t w \<Longrightarrow> J t (snd (Pull H project w))"
  using ExecCompose_keeps pull by (simp add: Pull_def)

text \<open>An update that ends with one result has not started anything.\<close>

lemma Update_prefix_keeps:
  assumes "J t w" and "\<not> HasHook H e ''post'' ''update'' (pr_Name project) w"
    and "length (fst (Update H e project w)) = 1"
  shows "J t (snd (Update H e project w))"
proof -
  have w1: "J t (snd (CheckComposeServiceIdentity H project w))" using preflight_keeps config assms(1) by blast
  then have "J t (snd (Pull H project (snd (CheckComposeServiceIdentity H project w))))" by (rule Pull_keeps)
  then show ?thesis using w1 assms
    by (simp add: Update_def Let_def split_beta split: if_splits)
qed

lemma Update_keeps:
  assumes J: "J t w"
    and up: "\<And>pname w. J t w \<Longrightarrow> J t (snd (ho_exec H ''docker'' (compose_args H project pname [''up'', ''-d''] w) w))"
    and hook: "\<And>w. J t w \<Longrightarrow> J t (snd (ho_exec H (hookPath e ''post'' ''update'' (pr_Name project)) [pr_Name project, pr_Dir project] w))"
  shows "\<exists>waited. 0 \<le> waited \<and> waited \<le> updateVerifyHealthWait \<and> J (t + waited) (snd (Update H e project w))"
proof -
  let ?w1 = "snd (CheckComposeServiceIdentity H project w)"
  let ?w2 = "snd (Pull H project ?w1)"
  let ?w3 = "snd (Up H project ?w2)"
  have keep: "\<exists>waited. 0 \<le> waited \<and> waited \<le> updateVerifyHealthWait \<and> J (t + waited) v" if "J t v" for v
    using that by (intro exI[of _ 0]) (simp add: updateVerifyHealthWait_def)
  have w1: "J t ?w1" using preflight_keeps config J by blast
  then have w2: "J t ?w2" by (rule Pull_keeps)
  then have w3: "J t ?w3" using preflight_keeps[OF w2 config] ExecCompose_keeps[of t _ project "[''up'', ''-d'']"] up
    by (simp add: Up_def Let_def split_beta)
  have h: "J t (snd (RunHook H e ''post'' ''update'' project w))"
    using hook[OF J] J by (simp add: RunHook_def Let_def split_beta)
  have "snd (Update H e project w) \<in> {w, snd (RunHook H e ''post'' ''update'' project w), ?w1, ?w2, ?w3,
      snd (verifyUpdateServices H project ?w3)}"
    by (simp add: Update_def Let_def split_beta)
  then show ?thesis using keep[OF J] keep[OF h] keep[OF w1] keep[OF w2] keep[OF w3]
      verifyUpdateServices_keeps[OF w3, of project] by fastforce
qed

end

subsection \<open>The events of an update\<close>

definition slept :: "event list \<Rightarrow> duration" where
  "slept l = sum_list (map (\<lambda>ev. case ev of Slept d \<Rightarrow> d | Ran _ _ \<Rightarrow> 0) l)"

definition compose_event :: "Project \<Rightarrow> string list \<Rightarrow> event \<Rightarrow> bool" where
  "compose_event project action ev \<longleftrightarrow>
     (\<exists>pname files. ev = Ran ''docker'' ([''compose'', ''-f'', pr_ComposeFile project] @ files @ [''-p'', pname] @ action)
        \<and> files \<in> {[], [''-f'', path_join (pr_Dir project) ''compose.override.yml'']})"

definition observation :: "event \<Rightarrow> bool" where
  "observation ev = (case ev of Slept _ \<Rightarrow> True
     | Ran cmd args \<Rightarrow> cmd = ''docker'' \<and> args \<noteq> [] \<and> hd args \<in> {''ps'', ''inspect''})"

definition preparing :: "Project \<Rightarrow> event \<Rightarrow> bool" where
  "preparing project ev \<longleftrightarrow> observation ev \<or> compose_event project [''config'', ''--services''] ev
     \<or> compose_event project (composePullArgs project) ev"

lemma logged_compose:
  "compose_event project action (Ran ''docker'' (compose_args (logged H) project pname action w))"
  by (cases w) (auto simp: compose_event_def compose_args_def composeFileArgs_def Let_def)

lemma logged_exec: "snd (ho_exec (logged H) cmd args (w, l)) = (snd (ho_exec H cmd args w), l @ [Ran cmd args])"
  by (simp add: logged_def split_beta Let_def)

definition log_holds :: "(event \<Rightarrow> bool) \<Rightarrow> duration \<Rightarrow> 'w \<times> event list \<Rightarrow> bool" where
  "log_holds P t s \<longleftrightarrow> (\<forall>ev \<in> set (snd s). P ev) \<and> slept (snd s) = t"

lemma log_holds_exec:
  "log_holds P t s \<Longrightarrow> P (Ran cmd args) \<Longrightarrow> log_holds P t (snd (ho_exec (logged H) cmd args s))"
  by (cases s) (auto simp: log_holds_def logged_exec slept_def)

interpretation trace: pullable "logged H" "log_holds (\<lambda>ev. preparing project ev \<or> P ev)" project for H P project
proof unfold_locales
  fix t d and s :: "'a \<times> event list"
  assume "log_holds (\<lambda>ev. preparing project ev \<or> P ev) t s"
  then show "log_holds (\<lambda>ev. preparing project ev \<or> P ev) (t + d) (ho_sleep (logged H) d s)"
    by (cases s) (auto simp: log_holds_def logged_def slept_def preparing_def observation_def)
qed (auto intro!: log_holds_exec logged_compose simp: preparing_def observation_def)

lemma logged_env [simp]:
  "IsControllerProject (logged H) p = IsControllerProject H p"
  "HasHook (logged H) e phase c n (w, l) = HasHook H e phase c n w"
  by (simp_all add: IsControllerProject_def HasHook_def logged_def)

lemma composePullArgs_up: "composePullArgs project \<noteq> [''up'', ''-d'']"
  by (simp add: composePullArgs_def)

lemma compose_event_same:
  "compose_event project a ev \<Longrightarrow> compose_event project b ev \<Longrightarrow> last a = last b"
  by (cases "a = []"; cases "b = []") (auto simp: compose_event_def last_append)

lemma preparing_not_up: "preparing project ev \<Longrightarrow> \<not> compose_event project [''up'', ''-d''] ev"
  using compose_event_same[of project "[''up'', ''-d'']" ev]
  by (auto simp: preparing_def observation_def composePullArgs_def compose_event_def split: event.splits if_splits)

lemma Update_lengths: "length (fst (Update H e project w)) = 1 \<or>
   (\<exists>pull up. fst (Update H e project w) = [pull, up] \<and> op_Success pull)"
  by (simp add: Update_def Let_def split_beta)



section \<open>What a verified update has shown\<close>

lemma verify_poll_latest:
  "updateServiceStates H project v = (sample, w) \<Longrightarrow>
   verify_poll H project first waited sample w = ((sample', waited'), w') \<Longrightarrow>
   \<exists>v'. updateServiceStates H project v' = (sample', w')"
proof (induction "nat (updateVerifyHealthWait - waited)" arbitrary: waited sample w v rule: less_induct)
  case less
  show ?case
  proof (cases "\<exists>latest. sample = Inr latest \<and> waited < updateVerifyHealthWait
      \<and> onlyHealthStarting (unstableUpdateServices first latest)")
    case False
    then have "verify_poll H project first waited sample w = ((sample, waited), w)"
      by (subst verify_poll.simps) (auto split: sum.splits)
    then show ?thesis using less.prems by auto
  next
    case True
    obtain s2 w2 where st: "updateServiceStates H project (ho_sleep H updateVerifyHealthPoll w) = (s2, w2)" by force
    have "verify_poll H project first waited sample w = verify_poll H project first (waited + updateVerifyHealthPoll) s2 w2"
      using True st by (subst verify_poll.simps) auto
    moreover have "0 < updateVerifyHealthPoll" by (simp add: updateVerifyHealthPoll_def)
    ultimately show ?thesis
      using less.hyps[OF _ st, of "waited + updateVerifyHealthPoll"] less.prems(2) True by auto
  qed
qed

text \<open>The condition under which a service counts as stable between two samples.\<close>

definition stable_service :: "states \<Rightarrow> string \<Rightarrow> updateServiceState \<Rightarrow> bool" where
  "stable_service first name s \<longleftrightarrow>
     (\<exists>s0. map_of first name = Some s0 \<and> ss_restarts s \<le> ss_restarts s0)
     \<and> (ss_state s = ''running'' \<and> ss_health s \<notin> {''unhealthy'', ''starting''}
        \<or> ss_state s = ''exited'' \<and> ss_exitCode s = 0 \<and> ss_restartPolicy s = ''no'')"

lemma service_failure_None: "service_failure first (n, s) = None \<longleftrightarrow> stable_service first n s"
  by (auto simp: service_failure_def stable_service_def split: option.splits)

lemma map_filter_Nil: "List.map_filter f xs = [] \<longleftrightarrow> (\<forall>x \<in> set xs. f x = None)"
  by (induction xs) (auto simp: map_filter_simps split: option.splits)

lemma unstable_none:
  "unstableUpdateServices first latest = [] \<longleftrightarrow>
     (\<forall>(n, s) \<in> set latest. stable_service first n s) \<and> fst ` set first = fst ` set latest"
proof -
  have "fst ` set latest \<subseteq> fst ` set first" if "\<forall>(n, s) \<in> set latest. stable_service first n s"
    using that by (force simp: stable_service_def dest!: map_of_SomeD)
  moreover have "(filter (\<lambda>n. map_of latest n = None) (map fst first) = []) = (fst ` set first \<subseteq> fst ` set latest)"
    by (auto simp: filter_empty_conv map_of_eq_None_iff)
  moreover have "(List.map_filter (service_failure first) latest = []) = (\<forall>(n, s) \<in> set latest. stable_service first n s)"
    by (auto simp: map_filter_Nil service_failure_None)
  ultimately show ?thesis
    unfolding unstableUpdateServices_def by (metis (no_types, lifting) append_is_Nil_conv map_is_Nil_conv set_eq_subset set_empty set_sort)
qed

lemma verified_states:
  assumes "op_Success (fst (verifyUpdateServices H project w))"
  shows "\<exists>first latest w1 w2. updateServiceStates H project w = (Inr first, w1)
    \<and> updateServiceStates H project w2 = (Inr latest, snd (verifyUpdateServices H project w))
    \<and> unstableUpdateServices first latest = []"
proof -
  obtain s1 w1 where s1: "updateServiceStates H project w = (s1, w1)" by force
  obtain first where first: "s1 = Inr first" "\<not> (\<exists>(n, s) \<in> set first. conclusive s)"
    using assms s1 by (cases s1) (auto simp: verifyUpdateServices_def Let_def split: if_splits)
  obtain s2 w3 where s2: "updateServiceStates H project (ho_sleep H updateVerifySettle w1) = (s2, w3)" by force
  obtain s3 waited w4 where p: "verify_poll H project first updateVerifySettle s2 w3 = ((s3, waited), w4)"
    by (metis surj_pair)
  obtain latest where l: "s3 = Inr latest" "unstableUpdateServices first latest = []"
    "snd (verifyUpdateServices H project w) = w4"
    using assms s1 first s2 p by (cases s3) (simp_all add: verifyUpdateServices_def Let_def split: if_splits)
  then show ?thesis using s1 first verify_poll_latest[OF s2 p] by blast
qed


section \<open>Pruning\<close>

lemma run_prune_code:
  "run_prune H steps w = ((ok, code, outs), w') \<Longrightarrow> (ok \<longleftrightarrow> code = None) \<and> code \<noteq> Some 0"
proof (induction steps arbitrary: w ok code outs w')
  case (Cons step steps)
  obtain lab timeout args where s: "step = (lab, timeout, args)" by (metis surj_pair)
  obtain r x w1 where d: "DockerExecWithTimeout H timeout args w = ((r, x), w1)" by (metis surj_pair)
  obtain ok2 code2 outs2 w2 where n: "run_prune H steps w1 = ((ok2, code2, outs2), w2)" by (metis surj_pair)
  show ?case using Cons.IH[OF n] Cons.prems d n s
    by (auto simp: Let_def split: option.splits if_splits)
qed simp

lemma DockerExec_logged:
  "snd (DockerExecWithTimeout (logged H) timeout args (w, l)) =
     (snd (ho_exec H ''docker'' args w), l @ [Ran ''docker'' args])"
  by (simp add: DockerExecWithTimeout_def logged_def Let_def split_beta split: option.splits)

lemma run_prune_log:
  "snd (snd (run_prune (logged H) steps (w, l))) = l @ map (\<lambda>(_, _, args). Ran ''docker'' args) steps"
proof (induction steps arbitrary: w l)
  case (Cons step steps)
  obtain lab timeout args where s: "step = (lab, timeout, args)" by (metis surj_pair)
  obtain r x where d: "DockerExecWithTimeout (logged H) timeout args (w, l) =
      ((r, x), (snd (ho_exec H ''docker'' args w), l @ [Ran ''docker'' args]))"
    using DockerExec_logged[of H timeout args w l] by (metis prod.collapse)
  show ?case using Cons.IH[of "snd (ho_exec H ''docker'' args w)" "l @ [Ran ''docker'' args]"] s d
    by (simp add: Let_def split_beta)
qed simp

lemma Prune_mode:
  "Prune H mode w =
     (case prune_steps (prune_mode mode) of
        None \<Rightarrow> (\<lparr> op_Project = ''(system)'', op_Action = ''prune:'' @ prune_mode mode, op_Success = False,
             op_Output = ''unsupported prune mode: '' @ prune_mode mode @ [newline], op_ExitCode = 1, op_Duration = [] \<rparr>, w)
      | Some steps \<Rightarrow> (case run_prune H steps w of ((ok, code, outs), w1) \<Rightarrow>
          (\<lparr> op_Project = ''(system)'', op_Action = ''prune:'' @ prune_mode mode, op_Success = ok,
             op_Output = concat (map (\<lambda>p. p @ [newline]) outs),
             op_ExitCode = (case code of Some c \<Rightarrow> c | None \<Rightarrow> 0), op_Duration = [] \<rparr>, w1)))"
  by (cases "prune_steps (prune_mode mode)") (simp_all add: Prune_def Let_def split_beta)

lemma prune_volumes:
  "(\<exists>steps. prune_steps m = Some steps \<and> (\<exists>(lab, t, args) \<in> set steps. ''volume'' \<in> set args \<or> ''--volumes'' \<in> set args))
   \<longleftrightarrow> m = ''safe'' \<or> m = ''volumes'' \<or> m = ''system-all''"
  unfolding prune_steps_def Let_def
  apply (cases "m = ''safe''", simp)
  apply (cases "m = ''system''", simp)
  apply (cases "m = ''system-all''", simp)
  apply (cases "m = ''images''", simp)
  apply (cases "m = ''volumes''", simp)
  apply (cases "m = ''networks''", simp)
  apply (cases "m = ''builder''", simp)
  apply simp
  done

text \<open>
  A prune runs exactly the commands of its mode, each of them even when an earlier one fails,
  and none for an unknown mode; it reports success exactly when its exit code is zero; and no mode
  but \<^verbatim>\<open>safe\<close>, \<^verbatim>\<open>volumes\<close> and \<^verbatim>\<open>system-all\<close> touches volumes.
\<close>

theorem prune_runs_its_mode:
  assumes "Prune (logged H) mode (w, []) = (r, (w', log))"
  shows "log = (case prune_steps (prune_mode mode) of None \<Rightarrow> []
                | Some steps \<Rightarrow> map (\<lambda>(_, _, args). Ran ''docker'' args) steps)
    \<and> (op_Success r \<longleftrightarrow> op_ExitCode r = 0)
    \<and> ((\<exists>args. Ran ''docker'' args \<in> set log \<and> (''volume'' \<in> set args \<or> ''--volumes'' \<in> set args)) \<longleftrightarrow>
         prune_mode mode \<in> {''safe'', ''volumes'', ''system-all''})"
proof -
  have log: "log = (case prune_steps (prune_mode mode) of None \<Rightarrow> []
                | Some steps \<Rightarrow> map (\<lambda>(_, _, args). Ran ''docker'' args) steps)"
    using assms run_prune_log[of H _ w "[]"]
    by (cases "prune_steps (prune_mode mode)") (auto simp: Prune_mode split: prod.splits, metis snd_conv)
  moreover have "op_Success r \<longleftrightarrow> op_ExitCode r = 0"
    using assms run_prune_code[of "logged H" _ "(w, [])"]
    by (auto simp: Prune_mode split: option.splits prod.splits) blast+
  moreover have "((\<exists>args. Ran ''docker'' args \<in> set log \<and> (''volume'' \<in> set args \<or> ''--volumes'' \<in> set args)) \<longleftrightarrow>
         prune_mode mode \<in> {''safe'', ''volumes'', ''system-all''})"
    unfolding log insert_iff empty_iff simp_thms prune_volumes[symmetric]
    by (cases "prune_steps (prune_mode mode)") (force split: prod.splits)+
  ultimately show ?thesis by blast
qed

section \<open>A concrete machine\<close>

text \<open>
  A machine with one running project \<open>web\<close>: it answers every command the engine runs for it and
  keeps no state. The witnesses of this theory run on it.
\<close>

definition answer :: "string \<Rightarrow> cmd_result" where
  "answer out = \<lparr> cm_stdout = out, cm_stderr = [], cm_combined = out, cm_error = None,
     cm_deadline = False, cm_started = True \<rparr>"

definition demo_host :: "unit host" where
  "demo_host = \<lparr>
     ho_exec = (\<lambda>cmd args w.
       (answer (if ''{{.ID}}'' \<in> set args then ''0123456789ab''
                else if state_format \<in> set args then ''/web-1|running|0|0|none|always''
                else if ''--services'' \<in> set args then ''web''
                else if ''{{.Label \"com.docker.compose.service\"}}|{{.Names}}'' \<in> set args then ''web|web-1''
                else []), w)),
     ho_exec_in = (\<lambda>_ _ _ _ w. (answer [], w)), ho_tempconfig = (\<lambda>w. (Inr ''/tmp/config'', w)),
     ho_auths = (\<lambda>_. Inr []), ho_sleep = (\<lambda>_ w. w), ho_now = (\<lambda>_. 0), ho_file = (\<lambda>_ _. False), ho_executable = (\<lambda>_ _. False),
     ho_getenv = (\<lambda>_. []), ho_hostname = ''manager'' \<rparr>"

definition demo_engine :: Engine where
  "demo_engine = \<lparr> en_RootDir = ''/docker'', en_ExtraRoots = [], en_HooksDir = ''/hooks'' \<rparr>"

definition blank_project :: Project where
  "blank_project = \<lparr> pr_Name = [], pr_Dir = [], pr_ComposeFile = [], pr_SourceHost = [], pr_Inactive = False,
     pr_Running = False, pr_State = [], pr_IsGit = False, pr_Containers = [], pr_HasHook = [], pr_ImageSources = [],
     pr_Documentation = [],
     pr_UpdatePolicy = \<lparr> pp_Mode = [], pp_EffectivePolicy = [], pp_SourceType = [], pp_SourceURL = [],
       pp_NoUpdatesReason = [], pp_Notes = [], pp_AutoDetected = False, pp_DetectedPolicy = [],
       pp_DetectedSourceType = [], pp_DetectedSourceURL = [], pp_DetectedReason = [] \<rparr>,
     pr_UpdateStatus = \<lparr> ps_Checked = False, ps_Available = False, ps_Count = 0, ps_CheckedAt = None,
       ps_NextCheckAt = None, ps_RefreshAllowedAt = None, ps_Cached = False, ps_RetryAfterSeconds = 0,
       ps_Message = [], ps_Error = [], ps_Images = [], ps_RegistryImages = 0, ps_SkippedServices = 0 \<rparr>,
     pr_Controller = False, pr_TemplateUpdateAvailable = False \<rparr>"

definition web_project :: Project where
  "web_project = blank_project \<lparr> pr_Name := ''web'', pr_Dir := ''/docker/web'',
     pr_ComposeFile := ''/docker/web/compose.yml'' \<rparr>"


theorem prune_runs_its_mode_witness:
  "Prune (logged demo_host) ''Images'' ((), []) =
     (fst (Prune (logged demo_host) ''Images'' ((), [])), ((), [Ran ''docker'' [''image'', ''prune'', ''--all'', ''-f'']]))
   \<and> op_Success (fst (Prune (logged demo_host) ''Images'' ((), [])))"
proof -
  obtain r w log where u: "Prune (logged demo_host) ''Images'' ((), []) = (r, (w, log))"
    by (metis surj_pair)
  have "op_ExitCode (fst (Prune (logged demo_host) ''Images'' ((), []))) = 0" by code_simp
  moreover have "prune_steps (prune_mode ''Images'') = Some [(''Image Prune All'', 2 * minute, [''image'', ''prune'', ''--all'', ''-f''])]"
    by code_simp
  ultimately show ?thesis using prune_runs_its_mode[OF u] u by simp
qed


end
