(* ===== verification/UpdateChecks.thy ===== *)
theory UpdateChecks
  imports Engine
begin

text \<open>
  Image update checks and update policies: \<^verbatim>\<open>server/internal/core/update_checks.go\<close>, \<^verbatim>\<open>images.go\<close>,
  \<^verbatim>\<open>update_policy.go\<close>, the login lookup of \<^verbatim>\<open>registry.go\<close>, and the part of the store that keeps check
  results and policies. The decoders of \<^verbatim>\<open>encoding/json\<close> and \<^verbatim>\<open>base64\<close> are arguments. The in-process
  caches of manifest and local-image probes are part of the state of a probe.
\<close>

section \<open>Definitions\<close>

subsection \<open>Image references\<close>

text \<open>The parts of a text around the last occurrence of a character.\<close>

fun cut_last :: "char \<Rightarrow> string \<Rightarrow> (string \<times> string) option" where
  "cut_last c [] = None"
| "cut_last c (x # xs) =
     (case cut_last c xs of
        Some (a, b) \<Rightarrow> Some (x # a, b)
      | None \<Rightarrow> if x = c then Some ([], xs) else None)"

definition isRegistryHost :: "string \<Rightarrow> bool" where
  "isRegistryHost part \<longleftrightarrow> part = ''localhost'' \<or> contains part ''.'' \<or> contains part '':''"

definition parseImageReference :: "string \<Rightarrow> string \<times> string \<times> string" where
  "parseImageReference img =
     (let ref = (case cut_at (CHR ''@'') img of Some (a, _) \<Rightarrow> a | None \<Rightarrow> img);
          parts = split_on (CHR ''/'') ref;
          (registry, repository) =
            (if 1 < length parts \<and> isRegistryHost (hd parts)
             then (hd parts, join ''/'' (tl parts)) else (''docker.io'', ref));
          (repository, tag) =
            (case cut_last (CHR '':'') repository of
               Some (a, b) \<Rightarrow> if CHR ''/'' \<in> set b then (repository, ''latest'') else (a, b)
             | None \<Rightarrow> (repository, ''latest''));
          repository = (if registry = ''docker.io'' \<and> \<not> contains repository ''/''
                        then ''library/'' @ repository else repository)
      in (registry, repository, tag))"

text \<open>The \<^verbatim>\<open>build\<close> entry of a service: a string, an object that may have a context, or another value.\<close>

datatype build = BuildString string | BuildObject "string option" | BuildOther

definition buildContext :: "build \<Rightarrow> string" where
  "buildContext b = (case b of BuildString s \<Rightarrow> s | BuildObject (Some c) \<Rightarrow> c | _ \<Rightarrow> [])"

record manifestInspectResult =
  mr_DescriptorDigest :: string
  mr_DescriptorDigestAlt :: string
  mr_Digest :: string
  mr_DigestAlt :: string

record decoders =
  de_strings :: "string \<Rightarrow> string list result"
  de_services :: "string \<Rightarrow> (string \<times> string \<times> build option) list result"
  de_manifests :: "string \<Rightarrow> manifestInspectResult list option"
  de_manifest :: "string \<Rightarrow> manifestInspectResult option"

definition image_source :: "string \<times> string \<times> build option \<Rightarrow> ImageSource" where
  "image_source svc =
     (let (service, img, b) = svc;
          (registry, repository, tag) = (if img \<noteq> [] then parseImageReference img else ([], [], []))
      in \<lparr> is_Service = service, is_Image = img, is_Build = (b \<noteq> None),
           is_BuildContext = (case b of Some v \<Rightarrow> buildContext v | None \<Rightarrow> []),
           is_SourceType = (if b \<noteq> None then ''custom'' else if img \<noteq> [] then ''registry'' else ''unknown''),
           is_Registry = registry, is_Repository = repository, is_Tag = tag, is_Access = [], is_Message = [] \<rparr>)"

definition readComposeImageSources ::
  "'w host \<Rightarrow> decoders \<Rightarrow> Project \<Rightarrow> 'w \<Rightarrow> ImageSource list result \<times> 'w" where
  "readComposeImageSources H J project w =
     (let (r, w1) = ho_exec H ''docker''
            ([''compose''] @ composeFileArgs H project w @ [''config'', ''--format'', ''json'']) w
      in (case cm_error r of
            Some e \<Rightarrow> Inl (''compose config failed: '' @ exec_text e @ '': '' @ trim_space (cm_stderr r))
          | None \<Rightarrow> map_sum id (map image_source) (de_services J (cm_stdout r)), w1))"

definition ImageSources :: "'w host \<Rightarrow> decoders \<Rightarrow> Project \<Rightarrow> 'w \<Rightarrow> ImageSource list \<times> 'w" where
  "ImageSources H J project w =
     (case readComposeImageSources H J project w of (Inl _, w1) \<Rightarrow> ([], w1) | (Inr s, w1) \<Rightarrow> (s, w1))"

subsection \<open>Saved registry logins\<close>

record RegistryLogin =
  rl_Registry :: string
  rl_Display :: string
  rl_Username :: string
  rl_MaskedUser :: string
  rl_HasPassword :: bool

definition displayNameForRegistry :: "string \<Rightarrow> string" where
  "displayNameForRegistry registry =
     (if registry = [] \<or> registry = ''https://index.docker.io/v1/'' then ''Docker Hub'' else registry)"

text \<open>\<open>maskUsername\<close> counts runes; here a user name is ASCII.\<close>

definition maskUsername :: "string \<Rightarrow> string" where
  "maskUsername user =
     (if user = [] then []
      else if length user \<le> 3 then take 1 user @ replicate (length user - 1) (CHR ''*'')
      else take 2 user @ replicate (length user - 3) (CHR ''*'') @ drop (length user - 1) user)"

definition login_of :: "(string \<Rightarrow> string option) \<Rightarrow> string \<times> string \<Rightarrow> RegistryLogin" where
  "login_of b64 e =
     (let (registry, auth) = e;
          user = (case (if auth \<noteq> [] then b64 auth else None) of
                    Some decoded \<Rightarrow> (case cut_at (CHR '':'') decoded of Some (u, _) \<Rightarrow> u | None \<Rightarrow> [])
                  | None \<Rightarrow> [])
      in \<lparr> rl_Registry = registry, rl_Display = displayNameForRegistry registry, rl_Username = user,
           rl_MaskedUser = maskUsername user, rl_HasPassword = (auth \<noteq> []) \<rparr>)"

definition ListSavedRegistryLogins :: "'w host \<Rightarrow> (string \<Rightarrow> string option) \<Rightarrow> 'w \<Rightarrow> RegistryLogin list result" where
  "ListSavedRegistryLogins H b64 w =
     map_sum id (\<lambda>auths. sort_key rl_Display (map (login_of b64) auths)) (ho_auths H w)"

definition registry_host :: "string \<Rightarrow> string" where
  "registry_host s =
     (let t = trim_prefix (trim_prefix s ''https://'') ''http://''
      in case cut_at (CHR ''/'') t of Some (a, _) \<Rightarrow> a | None \<Rightarrow> t)"

definition registryMatchesLogin :: "string \<Rightarrow> string \<Rightarrow> bool" where
  "registryMatchesLogin imageRegistry loginRegistry =
     (if imageRegistry = [] \<or> loginRegistry = [] then False
      else if imageRegistry = ''docker.io'' \<and>
        loginRegistry \<in> {''https://index.docker.io/v1/'', ''https://index.docker.io/v2/'', ''index.docker.io'', ''docker.io''}
      then True
      else registry_host imageRegistry = registry_host loginRegistry)"

definition HasStoredAuthForRegistry :: "'w host \<Rightarrow> string \<Rightarrow> 'w \<Rightarrow> bool" where
  "HasStoredAuthForRegistry H registry0 w =
     (let registry = trim_space registry0 in
      if registry = [] then False
      else case ListSavedRegistryLogins H (\<lambda>_. None) w of
        Inl _ \<Rightarrow> False
      | Inr logins \<Rightarrow> \<exists>l \<in> set logins. registryMatchesLogin registry (rl_Registry l))"

subsection \<open>Comparing digests\<close>

text \<open>A check that found no local image is told apart from other failures.\<close>

datatype check_error = LocalImageNotFound string | CheckError string

fun check_text :: "check_error \<Rightarrow> string" where
  "check_text (LocalImageNotFound s) = ''local image not found: '' @ s"
| "check_text (CheckError s) = s"

definition localImageRepoDigest :: "'w host \<Rightarrow> decoders \<Rightarrow> string \<Rightarrow> 'w \<Rightarrow> (check_error + string) \<times> 'w" where
  "localImageRepoDigest H J img w =
     (let (r, w1) = ho_exec H ''docker'' [''image'', ''inspect'', ''--format'', ''{{json .RepoDigests}}'', img] w
      in (case cm_error r of
            Some e \<Rightarrow>
              (let m = trim_space (cm_stderr r); msg = (if m = [] then exec_text e else m)
               in if contains (to_lower msg) ''no such image'' then Inl (LocalImageNotFound msg)
                  else Inl (CheckError (''local image inspect failed: '' @ msg)))
          | None \<Rightarrow>
              (case de_strings J (trim_space (cm_stdout r)) of
                 Inl e \<Rightarrow> Inl (CheckError e)
               | Inr [] \<Rightarrow> Inl (CheckError ''local image has no repo digest'')
               | Inr (d # ds) \<Rightarrow>
                   (case find (\<lambda>x. contains x ''@sha256:'') (d # ds) of Some x \<Rightarrow> Inr x | None \<Rightarrow> Inr d)), w1))"

definition manifest_digest :: "manifestInspectResult \<Rightarrow> string" where
  "manifest_digest r =
     (case find (\<lambda>d. has_prefix d ''sha256:'')
        [mr_DescriptorDigest r, mr_DescriptorDigestAlt r, mr_Digest r, mr_DigestAlt r] of
        Some d \<Rightarrow> d | None \<Rightarrow> [])"

definition digestFromManifest :: "decoders \<Rightarrow> string \<Rightarrow> string" where
  "digestFromManifest J raw =
     (case find (\<lambda>d. d \<noteq> []) (case de_manifests J raw of Some l \<Rightarrow> map manifest_digest l | None \<Rightarrow> []) of
        Some d \<Rightarrow> d
      | None \<Rightarrow> (case de_manifest J raw of None \<Rightarrow> [] | Some r \<Rightarrow> manifest_digest r))"

text \<open>Without saved credentials the command runs with an empty Docker configuration, if one can be made.\<close>

definition remoteImageDigest :: "'w host \<Rightarrow> decoders \<Rightarrow> string \<Rightarrow> bool \<Rightarrow> 'w \<Rightarrow> string result \<times> 'w" where
  "remoteImageDigest H J img authenticated w =
     (let (env, w1) = (if authenticated then ([], w)
            else case ho_tempconfig H w of (Inr dir, w1) \<Rightarrow> ([''DOCKER_CONFIG='' @ dir], w1) | (Inl _, w1) \<Rightarrow> ([], w1));
          (r, w2) = ho_exec_in H [] env ''docker'' [''manifest'', ''inspect'', ''--verbose'', img] w1
      in (case cm_error r of
            Some e \<Rightarrow>
              (let m = trim_space (cm_stderr r); m2 = (if m = [] then trim_space (cm_stdout r) else m)
               in Inl (''remote manifest unavailable: '' @ (if m2 = [] then exec_text e else m2)))
          | None \<Rightarrow>
              (let digest = digestFromManifest J (cm_stdout r)
               in if digest = [] then Inl ''remote manifest digest unavailable'' else Inr digest), w2))"

definition digestMatches :: "string \<Rightarrow> string \<Rightarrow> bool" where
  "digestMatches local remote =
     (if local = [] \<or> remote = [] then False
      else (case cut_last (CHR ''@'') local of Some (_, d) \<Rightarrow> d = remote | None \<Rightarrow> local = remote))"

text \<open>
  \<open>classifyImageUpdateCheck\<close>: a local result is a digest or an error, and an error leaves the digest empty.
\<close>

definition classifyImageUpdateCheck ::
  "ImageUpdateCheck \<Rightarrow> check_error + string \<Rightarrow> string result \<Rightarrow> ImageUpdateCheck" where
  "classifyImageUpdateCheck check0 local0 remote0 =
     (let local = (case local0 of Inr d \<Rightarrow> d | Inl _ \<Rightarrow> []);
          localMissing = (case local0 of Inl (LocalImageNotFound _) \<Rightarrow> True | _ \<Rightarrow> False);
          check = (case local0 of
                     Inl (LocalImageNotFound s) \<Rightarrow> check0 \<lparr> iu_Status := ''missing_local'' \<rparr>
                   | Inl (CheckError s) \<Rightarrow> check0 \<lparr> iu_Error := s \<rparr>
                   | Inr _ \<Rightarrow> check0)
      in case remote0 of
           Inl e \<Rightarrow>
             check \<lparr> iu_Error := (if iu_Error check = [] then e else iu_Error check),
                     iu_LocalDigest := (if local \<noteq> [] then local else iu_LocalDigest check) \<rparr>
         | Inr remote \<Rightarrow>
             (let check = check \<lparr> iu_RemoteDigest := remote \<rparr> in
              if isl local0 \<and> \<not> localMissing then check
              else if local = [] then check \<lparr> iu_Status := ''missing_local'' \<rparr>
              else
                (let check = check \<lparr> iu_LocalDigest := local \<rparr> in
                 if digestMatches local remote then check \<lparr> iu_Status := ''current'' \<rparr>
                 else check \<lparr> iu_Status := ''update_available'', iu_UpdateAvailable := True \<rparr>)))"

definition CheckImageUpdate ::
  "'w host \<Rightarrow> decoders \<Rightarrow> string \<Rightarrow> string \<Rightarrow> string \<Rightarrow> string \<Rightarrow> instant \<Rightarrow> 'w \<Rightarrow> ImageUpdateCheck \<times> 'w" where
  "CheckImageUpdate H J project service img registry checkedAt w =
     (let check = \<lparr> iu_Project = project, iu_Service = service, iu_Image = img, iu_LocalDigest = [],
             iu_RemoteDigest = [], iu_Status = ''unknown'', iu_UpdateAvailable = False, iu_Error = [],
             iu_CheckedAt = checkedAt \<rparr>;
          (local, w1) = localImageRepoDigest H J img w;
          (remote, w2) = remoteImageDigest H J img (HasStoredAuthForRegistry H registry w1) w1
      in (classifyImageUpdateCheck check local remote, w2))"

definition IsRegistryRateLimitError :: "string \<Rightarrow> bool" where
  "IsRegistryRateLimitError message =
     (let m = to_lower message in
      \<exists>marker \<in> set [''toomanyrequests'', ''too many requests'', ''rate limit'', ''retry-after'',
        ''status code: 429'', ''status 429'']. contains m marker)"

subsection \<open>Checking a project\<close>

definition no_status :: ProjectUpdateStatus where
  "no_status = \<lparr> ps_Checked = False, ps_Available = False, ps_Count = 0, ps_CheckedAt = None,
       ps_NextCheckAt = None, ps_RefreshAllowedAt = None, ps_Cached = False, ps_RetryAfterSeconds = 0,
       ps_Message = [], ps_Error = [], ps_Images = [], ps_RegistryImages = 0, ps_SkippedServices = 0 \<rparr>"

definition checkGitUpdates :: "'w host \<Rightarrow> Project \<Rightarrow> 'w \<Rightarrow> ProjectUpdateStatus \<times> 'w" where
  "checkGitUpdates H project w =
     (let now = ho_now H w;
          status = no_status \<lparr> ps_Checked := True, ps_CheckedAt := Some now \<rparr>;
          (r, w1) = ho_exec_in H (pr_Dir project) [] ''git'' [''fetch'', ''--all'', ''--prune''] w
      in if cm_error r \<noteq> None
         then (status \<lparr> ps_Error := ''git fetch failed: '' @ trim_space (cm_combined r) \<rparr>, w1)
         else
           (let (r2, w2) = ho_exec_in H (pr_Dir project) [] ''git'' [''rev-list'', ''--count'', ''HEAD..@'' @ ''{upstream}''] w1
            in if cm_error r2 \<noteq> None then (status \<lparr> ps_Checked := False \<rparr>, w2)
               else
                 (let behind = trim_space (cm_stdout r2) in
                  if behind \<noteq> ''0'' \<and> behind \<noteq> [] then
                    (status \<lparr> ps_Available := True, ps_Count := fst (atoi behind),
                       ps_Images := [\<lparr> iu_Project = pr_Name project, iu_Service = ''git'', iu_Image = ''git repository'',
                         iu_LocalDigest = [], iu_RemoteDigest = [], iu_Status = behind @ '' commits behind'',
                         iu_UpdateAvailable = True, iu_Error = [], iu_CheckedAt = now \<rparr>] \<rparr>, w2)
                  else (status, w2))))"

text \<open>The loop over the services; it stops after a check that hit a registry's rate limit.\<close>

fun check_sources ::
  "'w host \<Rightarrow> decoders \<Rightarrow> string \<Rightarrow> instant \<Rightarrow> ImageSource list \<Rightarrow> ProjectUpdateStatus \<Rightarrow> 'w \<Rightarrow> ProjectUpdateStatus \<times> 'w" where
  "check_sources H J name now [] status w = (status, w)"
| "check_sources H J name now (s # ss) status w =
     (if is_SourceType s \<noteq> ''registry'' \<or> is_Image s = []
      then check_sources H J name now ss (status \<lparr> ps_SkippedServices := ps_SkippedServices status + 1 \<rparr>) w
      else
        (let (check, w1) = CheckImageUpdate H J name (is_Service s) (is_Image s) (is_Registry s) now w;
             status = status \<lparr> ps_RegistryImages := ps_RegistryImages status + 1,
               ps_Images := ps_Images status @ [check],
               ps_Available := (iu_UpdateAvailable check \<or> ps_Available status),
               ps_Count := ps_Count status + (if iu_UpdateAvailable check then 1 else 0),
               ps_Error := (if iu_Error check \<noteq> [] \<and> ps_Error status = [] then iu_Error check else ps_Error status) \<rparr>
         in if IsRegistryRateLimitError (iu_Error check) then (status, w1)
            else check_sources H J name now ss status w1))"

definition CheckProjectUpdates :: "'w host \<Rightarrow> decoders \<Rightarrow> Project \<Rightarrow> 'w \<Rightarrow> ProjectUpdateStatus \<times> 'w" where
  "CheckProjectUpdates H J project w =
     (let (git, w1) = (if pr_IsGit project then checkGitUpdates H project w else (no_status, w)) in
      if pr_IsGit project \<and> ps_Checked git then (git, w1)
      else
        (let (sources, w2) = (if pr_ImageSources project = [] then ImageSources H J project w1
               else (pr_ImageSources project, w1));
             now = ho_now H w2;
             (status, w3) = check_sources H J (pr_Name project) now sources (no_status \<lparr> ps_Checked := True \<rparr>) w2
         in (if ps_Images status \<noteq> [] then status \<lparr> ps_CheckedAt := Some now \<rparr> else status, w3)))"

subsection \<open>Registry access\<close>

text \<open>
  The probes of \<^verbatim>\<open>images.go\<close> keep their answers in two process-wide maps: manifests for a day,
  local images for five minutes. A key is the image with the kind of access.
\<close>

record 'w prober =
  pb_world :: 'w
  pb_manifests :: "((string \<times> bool) \<times> (bool \<times> string \<times> instant)) list"
  pb_locals :: "(string \<times> (bool \<times> instant)) list"

definition manifestCacheTTL :: duration where "manifestCacheTTL = 24 * hour"
definition localImageCacheTTL :: duration where "localImageCacheTTL = 5 * minute"

definition manifestCacheGet :: "'w host \<Rightarrow> string \<Rightarrow> bool \<Rightarrow> 'w prober \<Rightarrow> (bool \<times> string) option" where
  "manifestCacheGet H img anonymous p =
     (case map_of (pb_manifests p) (img, anonymous) of
        None \<Rightarrow> None
      | Some (ok, message, expires) \<Rightarrow> if expires < ho_now H (pb_world p) then None else Some (ok, message))"

definition manifestCacheSet :: "'w host \<Rightarrow> string \<Rightarrow> bool \<Rightarrow> bool \<Rightarrow> string \<Rightarrow> 'w prober \<Rightarrow> 'w prober" where
  "manifestCacheSet H img anonymous ok message p =
     p \<lparr> pb_manifests := AList.update (img, anonymous)
           (ok, message, ho_now H (pb_world p) + manifestCacheTTL) (pb_manifests p) \<rparr>"

definition localImageCacheGet :: "'w host \<Rightarrow> string \<Rightarrow> 'w prober \<Rightarrow> bool option" where
  "localImageCacheGet H img p =
     (case map_of (pb_locals p) img of
        None \<Rightarrow> None
      | Some (present, expires) \<Rightarrow> if expires < ho_now H (pb_world p) then None else Some present)"

definition localImageCacheSet :: "'w host \<Rightarrow> string \<Rightarrow> bool \<Rightarrow> 'w prober \<Rightarrow> 'w prober" where
  "localImageCacheSet H img present p =
     p \<lparr> pb_locals := AList.update img (present, ho_now H (pb_world p) + localImageCacheTTL) (pb_locals p) \<rparr>"

definition imagePresentLocally :: "'w host \<Rightarrow> string \<Rightarrow> 'w prober \<Rightarrow> bool \<times> 'w prober" where
  "imagePresentLocally H img p =
     (if img = [] then (False, p)
      else case localImageCacheGet H img p of
        Some entry \<Rightarrow> (entry, p)
      | None \<Rightarrow>
          (let (r, w1) = ho_exec H ''docker'' [''image'', ''inspect'', ''--format'', ''ok'', img] (pb_world p);
               present = (cm_error r = None)
           in (present, localImageCacheSet H img present (p \<lparr> pb_world := w1 \<rparr>))))"

definition manifestInspect :: "'w host \<Rightarrow> string \<Rightarrow> bool \<Rightarrow> 'w prober \<Rightarrow> (bool \<times> string) \<times> 'w prober" where
  "manifestInspect H img anonymous p =
     (case manifestCacheGet H img anonymous p of
        Some entry \<Rightarrow> (entry, p)
      | None \<Rightarrow>
          (let (config, w1) = (if anonymous then map_prod (map_sum id (\<lambda>dir. [''DOCKER_CONFIG='' @ dir])) id (ho_tempconfig H (pb_world p))
                               else (Inr [], pb_world p))
           in case config of
                Inl e \<Rightarrow> ((False, e), p \<lparr> pb_world := w1 \<rparr>)
              | Inr env \<Rightarrow>
                  (let (r, w2) = ho_exec_in H [] env ''docker'' [''manifest'', ''inspect'', img] w1;
                       p2 = p \<lparr> pb_world := w2 \<rparr>
                   in case cm_error r of
                        None \<Rightarrow> ((True, []), manifestCacheSet H img anonymous True [] p2)
                      | Some e \<Rightarrow>
                          (let m = trim_space (cm_stderr r); m2 = (if m = [] then trim_space (cm_stdout r) else m);
                               msg = (if m2 = [] then exec_text e else m2)
                           in ((False, msg), manifestCacheSet H img anonymous False msg p2)))))"

definition classifyRegistryFailure :: "string \<Rightarrow> string" where
  "classifyRegistryFailure message =
     (let c = to_lower message in
      if contains c ''unauthorized'' \<or> contains c ''authentication required'' \<or> contains c ''denied''
         \<or> contains c ''insufficient_scope'' then ''private-login-required''
      else if contains c ''no such manifest'' \<or> contains c ''manifest unknown'' \<or> contains c ''not found''
      then ''not-found'' else ''inaccessible'')"

text \<open>One service of \<open>checkImageSourceAccess\<close>, with the probes that \<open>CheckImageSources\<close> passes.\<close>

definition source_access :: "'w host \<Rightarrow> ImageSource \<Rightarrow> 'w prober \<Rightarrow> ImageSource \<times> 'w prober" where
  "source_access H s p =
     (let mark = (\<lambda>access message. s \<lparr> is_Access := access, is_Message := message \<rparr>) in
      if is_SourceType s = ''custom'' then (mark ''local-build'' ''service is built from the compose project'', p)
      else if is_Image s = [] then (mark ''unknown'' ''service has no image reference'', p)
      else
        (let (present, p1) = imagePresentLocally H (is_Image s) p in
         if present then (mark ''local'' ''image is already present on this host; no registry call needed'', p1)
         else if HasStoredAuthForRegistry H (is_Registry s) (pb_world p1) then
           (let ((ok, msg), p2) = manifestInspect H (is_Image s) False p1
            in (if ok then mark ''authenticated'' ''registry manifest is reachable with saved credentials''
                else mark (classifyRegistryFailure msg) (trim_space msg), p2))
         else
           (let ((ok, msg), p2) = manifestInspect H (is_Image s) True p1
            in (if ok then mark ''public'' ''registry manifest is reachable without credentials''
                else mark (classifyRegistryFailure msg) (trim_space msg), p2))))"

fun checkImageSourceAccess :: "'w host \<Rightarrow> ImageSource list \<Rightarrow> 'w prober \<Rightarrow> ImageSource list \<times> 'w prober" where
  "checkImageSourceAccess H [] p = ([], p)"
| "checkImageSourceAccess H (s # ss) p =
     (let (s', p1) = source_access H s p; (ss', p2) = checkImageSourceAccess H ss p1 in (s' # ss', p2))"

definition CheckImageSources :: "'w host \<Rightarrow> decoders \<Rightarrow> Project \<Rightarrow> 'w prober \<Rightarrow> ImageSource list \<times> 'w prober" where
  "CheckImageSources H J project p =
     (let (sources, w1) = ImageSources H J project (pb_world p)
      in checkImageSourceAccess H sources (p \<lparr> pb_world := w1 \<rparr>))"

subsection \<open>Update policies\<close>

definition ValidProjectUpdatePolicyMode :: "string \<Rightarrow> bool" where
  "ValidProjectUpdatePolicyMode mode \<longleftrightarrow> mode = ''auto'' \<or> mode = ''allow'' \<or> mode = ''no_updates''"

definition gitRemoteURL :: "'w host \<Rightarrow> string \<Rightarrow> 'w \<Rightarrow> string \<times> 'w" where
  "gitRemoteURL H dir w =
     (let (r, w1) = ho_exec_in H dir [] ''git'' [''config'', ''--get'', ''remote.origin.url''] w
      in (if cm_error r \<noteq> None then [] else trim_space (cm_stdout r), w1))"

definition gitSourceType :: "string \<Rightarrow> string" where
  "gitSourceType url =
     (if contains (to_lower url) ''github.com'' then ''github''
      else if contains (to_lower url) ''gitlab.com'' \<or> contains (to_lower url) ''gitlab'' then ''gitlab''
      else [])"

definition detected_policy :: "string \<Rightarrow> ImageSource list \<Rightarrow> ProjectUpdatePolicy" where
  "detected_policy sourceURL sources =
     (let sourceType = gitSourceType sourceURL;
          hasRegistryImage = (\<exists>s \<in> set sources. is_SourceType s = ''registry'' \<and> is_Image s \<noteq> []);
          hasBuildOnly = (\<exists>s \<in> set sources. is_Build s \<and> is_Image s = []);
          policy = \<lparr> pp_Mode = ''auto'', pp_EffectivePolicy = ''allow'', pp_SourceType = sourceType,
            pp_SourceURL = sourceURL, pp_NoUpdatesReason = [], pp_Notes = [], pp_AutoDetected = False,
            pp_DetectedPolicy = ''allow'', pp_DetectedSourceType = sourceType, pp_DetectedSourceURL = sourceURL,
            pp_DetectedReason = [] \<rparr>;
          reason = ''build-only project from '' @ sourceType @ '' has no registry image to pull''
      in if sourceType \<noteq> [] \<and> hasBuildOnly \<and> \<not> hasRegistryImage
         then policy \<lparr> pp_EffectivePolicy := ''no_updates'', pp_NoUpdatesReason := reason, pp_AutoDetected := True,
                       pp_DetectedPolicy := ''no_updates'', pp_DetectedReason := reason \<rparr>
         else policy)"

definition DetectProjectUpdatePolicy :: "'w host \<Rightarrow> Project \<Rightarrow> 'w \<Rightarrow> ProjectUpdatePolicy \<times> 'w" where
  "DetectProjectUpdatePolicy H project w =
     (let (sourceURL, w1) = gitRemoteURL H (pr_Dir project) w
      in (detected_policy sourceURL (pr_ImageSources project), w1))"

definition ResolveProjectUpdatePolicy :: "string \<Rightarrow> ProjectUpdatePolicy \<Rightarrow> ProjectUpdatePolicy" where
  "ResolveProjectUpdatePolicy mode0 detected =
     (let mode = (if mode0 = [] then ''auto'' else mode0);
          resolved = detected \<lparr> pp_Mode := mode \<rparr>
      in if mode = ''allow''
         then resolved \<lparr> pp_EffectivePolicy := ''allow'', pp_NoUpdatesReason := [], pp_AutoDetected := False \<rparr>
         else if mode = ''no_updates''
         then resolved \<lparr> pp_EffectivePolicy := ''no_updates'',
                pp_NoUpdatesReason := (if pp_NoUpdatesReason resolved = [] then ''updates disabled manually''
                                       else pp_NoUpdatesReason resolved),
                pp_AutoDetected := False \<rparr>
         else resolved \<lparr> pp_Mode := ''auto'' \<rparr>)"

subsection \<open>The store's tables for projects\<close>

text \<open>
  The tables \<^verbatim>\<open>image_update_checks\<close> (one row per project and service) and \<^verbatim>\<open>project_settings\<close>, with the
  cache entries derived from them. Statements may fail as in theory \<open>Storage\<close>.
\<close>

record project_settings =
  st_update_policy :: string
  st_source_type :: string
  st_source_url :: "string option"
  st_no_updates_reason :: "string option"
  st_notes :: "string option"
  st_auto_detected :: bool

record project_db =
  pj_checks :: "(string \<times> ImageUpdateCheck) list"
  pj_settings :: "(string \<times> project_settings) list"
  pj_redis :: bool
  pj_cache_status :: "string \<Rightarrow> ProjectUpdateStatus option"
  pj_cache_policy :: "string \<Rightarrow> ProjectUpdatePolicy option"
  pj_faults :: "string option list"

definition nullableString :: "string \<Rightarrow> string option" where
  "nullableString s = (if s = [] then None else Some s)"

definition statement :: "project_db \<Rightarrow> (project_db \<Rightarrow> 'a result \<times> project_db) \<Rightarrow> 'a result \<times> project_db" where
  "statement d f =
     (case pj_faults d of
        [] \<Rightarrow> f d
      | None # fs \<Rightarrow> f (d \<lparr> pj_faults := fs \<rparr>)
      | Some e # fs \<Rightarrow> (Inl e, d \<lparr> pj_faults := fs \<rparr>))"

text \<open>
  The transaction deletes the project's rows and inserts the new ones; two checks of one service
  violate the primary key and roll it back.
\<close>

definition SaveProjectUpdateStatus :: "string \<Rightarrow> ProjectUpdateStatus \<Rightarrow> project_db \<Rightarrow> unit result \<times> project_db" where
  "SaveProjectUpdateStatus projectName status d = statement d (\<lambda>d.
     if \<not> distinct (map iu_Service (ps_Images status)) then (Inl ''Duplicate entry for key PRIMARY'', d)
     else (Inr (), d \<lparr>
       pj_checks := filter (\<lambda>(n, _). n \<noteq> projectName) (pj_checks d) @
         map (\<lambda>c. (projectName, c \<lparr> iu_Project := projectName \<rparr>)) (ps_Images status),
       pj_cache_status := (if pj_redis d then (pj_cache_status d)(projectName := None) else pj_cache_status d) \<rparr>))"

definition add_check :: "ImageUpdateCheck \<Rightarrow> ProjectUpdateStatus \<Rightarrow> ProjectUpdateStatus" where
  "add_check check status =
     status \<lparr> ps_Checked := True, ps_RegistryImages := ps_RegistryImages status + 1,
       ps_Images := ps_Images status @ [check],
       ps_Available := (iu_UpdateAvailable check \<or> ps_Available status),
       ps_Count := ps_Count status + (if iu_UpdateAvailable check then 1 else 0),
       ps_Error := (if iu_Error check \<noteq> [] \<and> ps_Error status = [] then iu_Error check else ps_Error status),
       ps_CheckedAt := Some (case ps_CheckedAt status of None \<Rightarrow> iu_CheckedAt check
         | Some t \<Rightarrow> if t < iu_CheckedAt check then iu_CheckedAt check else t) \<rparr>"

definition stored_status :: "string \<Rightarrow> project_db \<Rightarrow> ProjectUpdateStatus" where
  "stored_status projectName d =
     (let rows = sort_key iu_Service (map snd (filter (\<lambda>(n, _). n = projectName) (pj_checks d)));
          status = fold add_check rows no_status
      in status \<lparr> ps_NextCheckAt := map_option (\<lambda>t. t + 24 * hour) (ps_CheckedAt status) \<rparr>)"

definition ProjectUpdateStatusOf :: "string \<Rightarrow> project_db \<Rightarrow> ProjectUpdateStatus result \<times> project_db" where
  "ProjectUpdateStatusOf projectName d =
     (case (if pj_redis d then pj_cache_status d projectName else None) of
        Some cached \<Rightarrow> (Inr cached, d)
      | None \<Rightarrow> statement d (\<lambda>d.
          let status = stored_status projectName d in
          (Inr status, if pj_redis d then d \<lparr> pj_cache_status := (pj_cache_status d)(projectName \<mapsto> status) \<rparr> else d)))"

definition loadProjectPolicy :: "string \<Rightarrow> ProjectUpdatePolicy \<Rightarrow> project_db \<Rightarrow> ProjectUpdatePolicy result \<times> project_db" where
  "loadProjectPolicy projectName detected d = statement d (\<lambda>d.
     case map_of (pj_settings d) projectName of
       None \<Rightarrow> (Inr detected, d)
     | Some row \<Rightarrow>
         (let r = ResolveProjectUpdatePolicy (st_update_policy row) detected;
              r = (if st_source_type row \<noteq> [] then r \<lparr> pp_SourceType := st_source_type row \<rparr> else r);
              r = (case st_source_url row of Some u \<Rightarrow> r \<lparr> pp_SourceURL := u \<rparr> | None \<Rightarrow> r);
              r = (case st_no_updates_reason row of Some x \<Rightarrow> r \<lparr> pp_NoUpdatesReason := x \<rparr> | None \<Rightarrow> r);
              r = (case st_notes row of Some x \<Rightarrow> r \<lparr> pp_Notes := x \<rparr> | None \<Rightarrow> r);
              r = (if st_update_policy row \<noteq> ''auto'' then r \<lparr> pp_AutoDetected := st_auto_detected row \<rparr> else r)
          in (Inr r, d)))"

definition cache_policy :: "string \<Rightarrow> ProjectUpdatePolicy \<Rightarrow> project_db \<Rightarrow> project_db" where
  "cache_policy projectName policy d =
     (if pj_redis d then d \<lparr> pj_cache_policy := (pj_cache_policy d)(projectName \<mapsto> policy) \<rparr> else d)"

definition ResolveUpdatePolicy :: "string \<Rightarrow> ProjectUpdatePolicy \<Rightarrow> project_db \<Rightarrow> ProjectUpdatePolicy \<times> project_db" where
  "ResolveUpdatePolicy projectName detected d =
     (case (if pj_redis d then pj_cache_policy d projectName else None) of
        Some cached \<Rightarrow>
          (let c = cached \<lparr> pp_DetectedPolicy := pp_DetectedPolicy detected,
                 pp_DetectedSourceType := pp_DetectedSourceType detected,
                 pp_DetectedSourceURL := pp_DetectedSourceURL detected,
                 pp_DetectedReason := pp_DetectedReason detected \<rparr>
           in (if pp_Mode c = ''auto''
               then c \<lparr> pp_EffectivePolicy := pp_EffectivePolicy detected, pp_SourceType := pp_SourceType detected,
                 pp_SourceURL := pp_SourceURL detected, pp_NoUpdatesReason := pp_NoUpdatesReason detected,
                 pp_AutoDetected := pp_AutoDetected detected \<rparr>
               else c, d))
      | None \<Rightarrow>
          (case loadProjectPolicy projectName detected d of
             (Inl _, d1) \<Rightarrow> (detected, d1)
           | (Inr policy, d1) \<Rightarrow> (policy, cache_policy projectName policy d1)))"

definition SetProjectPolicy ::
  "string \<Rightarrow> ProjectUpdatePolicy \<Rightarrow> string \<Rightarrow> string \<Rightarrow> project_db \<Rightarrow> ProjectUpdatePolicy result \<times> project_db" where
  "SetProjectPolicy projectName detected mode0 notes d =
     (let mode = (if mode0 = [] then ''auto'' else mode0) in
      if \<not> ValidProjectUpdatePolicyMode mode then (Inl (''invalid update policy: '' @ mode), d)
      else statement d (\<lambda>d.
        let resolved = (ResolveProjectUpdatePolicy mode detected) \<lparr> pp_Notes := notes \<rparr>;
            row = \<lparr> st_update_policy = mode, st_source_type = pp_SourceType resolved,
              st_source_url = nullableString (pp_SourceURL resolved),
              st_no_updates_reason = nullableString (pp_NoUpdatesReason resolved),
              st_notes = nullableString notes, st_auto_detected = pp_AutoDetected resolved \<rparr>
        in (Inr resolved, cache_policy projectName resolved
              (d \<lparr> pj_settings := AList.update projectName row (pj_settings d) \<rparr>))))"

section \<open>Image references\<close>

lemma cut_last_None: "cut_last c s = None \<longleftrightarrow> c \<notin> set s"
  by (induction s) (auto split: option.splits)

lemma cut_last_append: "c \<notin> set b \<Longrightarrow> cut_last c (a @ c # b) = Some (a, b)"
proof (induction a)
  case Nil
  then have "cut_last c b = None" by (simp add: cut_last_None)
  then show ?case by simp
qed simp

lemma contains_char: "contains s [c] \<longleftrightarrow> c \<in> set s"
  by (induction s) auto

text \<open>
  Parsing an image reference inverts writing one: for a registry host, a repository path and a
  tag without separators, with or without a digest behind them, the parts come back as written. A
  reference without a registry host belongs to Docker Hub, where a name without a path is in
  \<^verbatim>\<open>library\<close>, and without a tag it means \<^verbatim>\<open>latest\<close>.
\<close>

theorem parseImageReference_round_trip:
  assumes host: "isRegistryHost reg" "CHR ''/'' \<notin> set reg"
    and tag: "CHR '':'' \<notin> set tag" "CHR ''/'' \<notin> set tag"
    and plain: "CHR ''@'' \<notin> set (reg @ repo @ tag)"
    and hub: "reg = ''docker.io'' \<longrightarrow> CHR ''/'' \<in> set repo"
    and digest: "digest = [] \<or> (\<exists>d. digest = ''@'' @ d)"
  shows "parseImageReference (reg @ ''/'' @ repo @ '':'' @ tag @ digest) = (reg, repo, tag)
    \<and> (CHR '':'' \<notin> set repo \<longrightarrow>
         parseImageReference (reg @ ''/'' @ repo @ digest) = (reg, repo, ''latest''))"
proof -
  have ref: "(case cut_at (CHR ''@'') (s @ digest) of None \<Rightarrow> s @ digest | Some (a, _) \<Rightarrow> a) = s" if "CHR ''@'' \<notin> set s" for s
    using digest that by auto
  have split: "split_on (CHR ''/'') (reg @ ''/'' @ s) = reg # split_on (CHR ''/'') s" for s
    using host(2) by (induction reg) auto
  have lib: "(if reg = ''docker.io'' \<and> \<not> contains repo ''/'' then ''library/'' @ repo else repo) = repo"
    using hub by (simp add: contains_char)
  have body: "parseImageReference ((reg @ ''/'' @ s) @ digest) =
      (let (repository, tag) = (case cut_last (CHR '':'') s of
               Some (a, b) \<Rightarrow> if CHR ''/'' \<in> set b then (s, ''latest'') else (a, b) | None \<Rightarrow> (s, ''latest''))
       in (reg, if reg = ''docker.io'' \<and> \<not> contains repository ''/'' then ''library/'' @ repository else repository, tag))"
    if "CHR ''@'' \<notin> set s" for s
  proof -
    have at: "CHR ''@'' \<notin> set (reg @ ''/'' @ s)" using plain that by simp
    have len: "1 < length (reg # split_on (CHR ''/'') s)" by (cases "split_on (CHR ''/'') s") auto
    show ?thesis
      unfolding parseImageReference_def ref[OF at] Let_def split
      by (simp only: len host(1) list.sel join_split_on simp_thms if_True prod.case)
  qed
  have "parseImageReference ((reg @ ''/'' @ repo @ '':'' @ tag) @ digest) = (reg, repo, tag)"
    using body[of "repo @ '':'' @ tag"] plain tag lib by (simp add: cut_last_append)
  moreover have "parseImageReference ((reg @ ''/'' @ repo) @ digest) = (reg, repo, ''latest'')" if "CHR '':'' \<notin> set repo"
    using body[of repo] plain lib that cut_last_None[of "CHR '':''" repo] by simp
  ultimately show ?thesis by simp
qed

theorem parseImageReference_round_trip_witness:
  "parseImageReference ''ghcr.io:443/a/b:1.2@sha256:00'' = (''ghcr.io:443'', ''a/b'', ''1.2'')"
  using parseImageReference_round_trip[of "''ghcr.io:443''" "''1.2''" "''a/b''" "''@sha256:00''"]
  by (simp add: isRegistryHost_def contains_char)

section \<open>Results of a check\<close>

text \<open>What a check claims about the digests it compared.\<close>

definition honest_check :: "ImageUpdateCheck \<Rightarrow> bool" where
  "honest_check c \<longleftrightarrow>
     (iu_UpdateAvailable c \<longleftrightarrow> iu_Status c = ''update_available'')
     \<and> (iu_UpdateAvailable c \<longrightarrow> iu_LocalDigest c \<noteq> [] \<and> iu_RemoteDigest c \<noteq> [] \<and> iu_Error c = []
          \<and> \<not> digestMatches (iu_LocalDigest c) (iu_RemoteDigest c))
     \<and> (iu_Status c = ''current'' \<longrightarrow> digestMatches (iu_LocalDigest c) (iu_RemoteDigest c))"

lemma remote_digest_nonempty: "remoteImageDigest H J img b w = (Inr d, w') \<Longrightarrow> d \<noteq> []"
  by (auto simp: remoteImageDigest_def Let_def split: prod.splits option.splits if_splits sum.splits)

lemma CheckImageUpdate_honest: "honest_check (fst (CheckImageUpdate H J p s img reg t w))"
proof -
  obtain local0 w1 where l: "localImageRepoDigest H J img w = (local0, w1)" by force
  obtain remote0 w2 where r: "remoteImageDigest H J img (HasStoredAuthForRegistry H reg w1) w1 = (remote0, w2)" by force
  show ?thesis using remote_digest_nonempty[of H J img _ w1 _ w2] l r
    by (cases local0; cases remote0)
      (auto simp: CheckImageUpdate_def classifyImageUpdateCheck_def honest_check_def Let_def split: check_error.splits)
qed

text \<open>The invariant of the loop over the services.\<close>

definition tallied :: "ProjectUpdateStatus \<Rightarrow> bool" where
  "tallied st \<longleftrightarrow>
     ps_Count st = int (length (filter iu_UpdateAvailable (ps_Images st)))
     \<and> (ps_Available st \<longleftrightarrow> 0 < ps_Count st)
     \<and> ps_RegistryImages st = int (length (ps_Images st))
     \<and> (\<forall>c \<in> set (ps_Images st). honest_check c)
     \<and> (ps_Error st = [] \<longleftrightarrow> (\<forall>c \<in> set (ps_Images st). iu_Error c = []))"

lemma check_sources_tallied:
  assumes "tallied st" and "\<forall>c \<in> set (ps_Images st). \<not> IsRegistryRateLimitError (iu_Error c)"
  shows "tallied (fst (check_sources H J name now ss st w))
    \<and> (\<forall>c \<in> set (butlast (ps_Images (fst (check_sources H J name now ss st w)))). \<not> IsRegistryRateLimitError (iu_Error c))
    \<and> ps_Checked (fst (check_sources H J name now ss st w)) = ps_Checked st"
  using assms
proof (induction ss arbitrary: st w)
  case Nil
  then show ?case by (auto dest: in_set_butlastD)
next
  case (Cons s ss)
  show ?case
  proof (cases "is_SourceType s \<noteq> ''registry'' \<or> is_Image s = []")
    case True
    have "tallied (st \<lparr> ps_SkippedServices := ps_SkippedServices st + 1 \<rparr>)"
      using Cons.prems(1) by (simp add: tallied_def)
    then show ?thesis using Cons.IH[of "st \<lparr> ps_SkippedServices := ps_SkippedServices st + 1 \<rparr>" w] Cons.prems(2) True by simp
  next
    case False
    obtain check w1 where c: "CheckImageUpdate H J name (is_Service s) (is_Image s) (is_Registry s) now w = (check, w1)" by force
    have honest: "honest_check check" using CheckImageUpdate_honest[of H J name "is_Service s" "is_Image s" "is_Registry s" now w] c by simp
    define st' where "st' = st \<lparr> ps_RegistryImages := ps_RegistryImages st + 1,
               ps_Images := ps_Images st @ [check],
               ps_Available := (iu_UpdateAvailable check \<or> ps_Available st),
               ps_Count := ps_Count st + (if iu_UpdateAvailable check then 1 else 0),
               ps_Error := (if iu_Error check \<noteq> [] \<and> ps_Error st = [] then iu_Error check else ps_Error st) \<rparr>"
    have t: "tallied st'" using Cons.prems(1) honest by (auto simp: tallied_def st'_def)
    have step: "check_sources H J name now (s # ss) st w =
        (if IsRegistryRateLimitError (iu_Error check) then (st', w1) else check_sources H J name now ss st' w1)"
      using False c by (simp add: st'_def)
    show ?thesis
    proof (cases "IsRegistryRateLimitError (iu_Error check)")
      case True
      then show ?thesis using step t Cons.prems(2) by (simp add: st'_def)
    next
      case limit: False
      then have "\<forall>c \<in> set (ps_Images st'). \<not> IsRegistryRateLimitError (iu_Error c)"
        using Cons.prems(2) by (simp add: st'_def)
      moreover have "ps_Checked st' = ps_Checked st" by (simp add: st'_def)
      ultimately show ?thesis using Cons.IH[OF t, of w1] unfolding step if_not_P[OF limit] by simp
    qed
  qed
qed

text \<open>
  Property C28. A registry check of a project reports consistent numbers: the count is the number of images
  with an update, an update is announced exactly when the count is positive, every image announced
  has a local and a remote digest that differ and no error, \<^verbatim>\<open>current\<close> images have matching digests,
  an error is reported exactly when some image has one, and nothing is checked after an image that
  hit a registry's rate limit.
\<close>

theorem CheckProjectUpdates_consistent:
  assumes "\<not> pr_IsGit project" and "CheckProjectUpdates H J project w = (st, w')"
  shows "ps_Checked st
    \<and> ps_Count st = int (length (filter iu_UpdateAvailable (ps_Images st)))
    \<and> (ps_Available st \<longleftrightarrow> 0 < ps_Count st)
    \<and> (\<forall>c \<in> set (ps_Images st). honest_check c)
    \<and> (ps_Error st = [] \<longleftrightarrow> (\<forall>c \<in> set (ps_Images st). iu_Error c = []))
    \<and> (\<forall>c \<in> set (butlast (ps_Images st)). \<not> IsRegistryRateLimitError (iu_Error c))"
proof -
  obtain sources w2 where s: "(if pr_ImageSources project = [] then ImageSources H J project w
               else (pr_ImageSources project, w)) = (sources, w2)" by force
  obtain st0 w3 where c: "check_sources H J (pr_Name project) (ho_now H w2) sources (no_status \<lparr> ps_Checked := True \<rparr>) w2 = (st0, w3)" by force
  have "tallied (no_status \<lparr> ps_Checked := True \<rparr>)" by (simp add: tallied_def no_status_def)
  then have "tallied st0 \<and> (\<forall>c \<in> set (butlast (ps_Images st0)). \<not> IsRegistryRateLimitError (iu_Error c)) \<and> ps_Checked st0"
    using check_sources_tallied[of "no_status \<lparr> ps_Checked := True \<rparr>" H J "pr_Name project" "ho_now H w2" sources w2] c
    by (simp add: no_status_def)
  moreover have "st = (if ps_Images st0 \<noteq> [] then st0 \<lparr> ps_CheckedAt := Some (ho_now H w2) \<rparr> else st0)"
    using assms s c by (simp add: CheckProjectUpdates_def Let_def)
  ultimately show ?thesis by (simp add: tallied_def)
qed

definition demo_decoders :: decoders where
  "demo_decoders = \<lparr> de_strings = (\<lambda>_. Inr [''web@sha256:11'']), de_services = (\<lambda>_. Inr [(''web'', ''nginx'', None)]),
     de_manifests = (\<lambda>_. None),
     de_manifest = (\<lambda>_. Some \<lparr> mr_DescriptorDigest = ''sha256:22'', mr_DescriptorDigestAlt = [], mr_Digest = [], mr_DigestAlt = [] \<rparr>) \<rparr>"

theorem CheckProjectUpdates_consistent_witness:
  "ps_Count (fst (CheckProjectUpdates demo_host demo_decoders web_project ())) = 1
   \<and> ps_Available (fst (CheckProjectUpdates demo_host demo_decoders web_project ()))"
proof -
  have "\<not> pr_IsGit web_project" by code_simp
  moreover have "ps_Count (fst (CheckProjectUpdates demo_host demo_decoders web_project ())) = 1" by code_simp
  ultimately show ?thesis using CheckProjectUpdates_consistent[of web_project demo_host demo_decoders "()", OF _ prod.collapse[symmetric]] by simp
qed

section \<open>Stored results\<close>

text \<open>The part of a status that the table of checks determines.\<close>

lemma fold_add_check:
  "ps_Images (fold add_check cs st) = ps_Images st @ cs"
  "ps_Count (fold add_check cs st) = ps_Count st + int (length (filter iu_UpdateAvailable cs))"
  "ps_Available (fold add_check cs st) = (ps_Available st \<or> (\<exists>c \<in> set cs. iu_UpdateAvailable c))"
  "ps_Checked (fold add_check cs st) = (ps_Checked st \<or> cs \<noteq> [])"
  "ps_RegistryImages (fold add_check cs st) = ps_RegistryImages st + int (length cs)"
  "(ps_Error (fold add_check cs st) = []) = (ps_Error st = [] \<and> (\<forall>c \<in> set cs. iu_Error c = []))"
proof (induction cs arbitrary: st)
  case (Cons c cs)
  { case 1 show ?case using Cons(1)[of "add_check c st"] by (simp add: add_check_def) }
  { case 2 show ?case using Cons(2)[of "add_check c st"] by (simp add: add_check_def) }
  { case 3 show ?case using Cons(3)[of "add_check c st"] by (auto simp: add_check_def) }
  { case 4 show ?case using Cons(4)[of "add_check c st"] by (simp add: add_check_def) }
  { case 5 show ?case using Cons(5)[of "add_check c st"] by (simp add: add_check_def) }
  { case 6 show ?case using Cons(6)[of "add_check c st"] by (auto simp: add_check_def) }
qed simp_all

lemma rows_after_save:
  "map snd (filter (\<lambda>(n, _). n = name) (filter (\<lambda>(n, _). n \<noteq> name) rows @ map (\<lambda>c. (name, g c)) cs)) = map g cs"
proof -
  have "filter (\<lambda>(n, _). n = name) (map (\<lambda>c. (name, g c)) cs) = map (\<lambda>c. (name, g c)) cs"
    by (induction cs) auto
  moreover have "filter (\<lambda>x. (case x of (n, _) \<Rightarrow> n \<noteq> name) \<and> (case x of (n, _) \<Rightarrow> n = name)) rows = []"
    by (auto simp: filter_empty_conv)
  ultimately show ?thesis by (simp add: comp_def)
qed

text \<open>
  A check result that names each service once reads back as it was saved: the same images of
  this project ordered by service, and a count, an availability and an error that agree with them.
  A result that names a service twice is not saved at all, and the rows of other projects are never
  touched.
\<close>

theorem update_status_round_trip:
  assumes "pj_faults d = []" and "SaveProjectUpdateStatus name st d = (res, d')"
    and "ProjectUpdateStatusOf name d' = (Inr st', d'')"
  shows "(distinct (map iu_Service (ps_Images st)) \<longrightarrow>
       res = Inr ()
       \<and> ps_Images st' = sort_key iu_Service (map (iu_Project_update (\<lambda>_. name)) (ps_Images st))
       \<and> (ps_Checked st' \<longleftrightarrow> ps_Images st \<noteq> [])
       \<and> ps_Count st' = int (length (filter iu_UpdateAvailable (ps_Images st)))
       \<and> (ps_Available st' \<longleftrightarrow> (\<exists>c \<in> set (ps_Images st). iu_UpdateAvailable c))
       \<and> (ps_Error st' = [] \<longleftrightarrow> (\<forall>c \<in> set (ps_Images st). iu_Error c = [])))
    \<and> (\<not> distinct (map iu_Service (ps_Images st)) \<longrightarrow> res \<noteq> Inr () \<and> d' = d)
    \<and> (other \<noteq> name \<longrightarrow> filter (\<lambda>(n, _). n = other) (pj_checks d') = filter (\<lambda>(n, _). n = other) (pj_checks d))"
proof (cases "distinct (map iu_Service (ps_Images st))")
  case False
  then have "res = Inl ''Duplicate entry for key PRIMARY'' \<and> d' = d"
    using assms(1,2) by (auto simp: SaveProjectUpdateStatus_def statement_def)
  then show ?thesis using False by simp
next
  case True
  let ?g = "iu_Project_update (\<lambda>_. name)"
  let ?rows = "filter (\<lambda>(n, _). n \<noteq> name) (pj_checks d) @ map (\<lambda>c. (name, ?g c)) (ps_Images st)"
  have d': "res = Inr ()" "pj_checks d' = ?rows" "pj_faults d' = []"
      "pj_redis d' \<longrightarrow> pj_cache_status d' name = None"
    using assms(1,2) True by (auto simp: SaveProjectUpdateStatus_def statement_def split: if_splits)
  have st': "st' = stored_status name d'"
    using assms(3) d'(3,4) by (auto simp: ProjectUpdateStatusOf_def statement_def Let_def split: if_splits)
  have rows: "map snd (filter (\<lambda>(n, _). n = name) (pj_checks d')) = map ?g (ps_Images st)"
    unfolding d'(2) by (rule rows_after_save)
  let ?s = "fold add_check (sort_key iu_Service (map ?g (ps_Images st))) no_status"
  have g: "iu_UpdateAvailable (?g c) = iu_UpdateAvailable c" "iu_Error (?g c) = iu_Error c" for c by simp_all
  have same: "ps_Images st' = ps_Images ?s" "ps_Count st' = ps_Count ?s" "ps_Available st' = ps_Available ?s"
      "ps_Checked st' = ps_Checked ?s" "ps_Error st' = ps_Error ?s"
    unfolding st' stored_status_def rows Let_def by simp_all
  have len: "length (filter iu_UpdateAvailable (sort_key iu_Service (map ?g (ps_Images st))))
      = length (filter iu_UpdateAvailable (ps_Images st))"
    by (simp add: filter_sort filter_map comp_def)
  have ne: "sort_key iu_Service (map ?g (ps_Images st)) \<noteq> [] \<longleftrightarrow> ps_Images st \<noteq> []"
    by (metis length_0_conv length_map length_sort)
  have others: "filter (\<lambda>(n, _). n = other) (pj_checks d') = filter (\<lambda>(n, _). n = other) (pj_checks d)" if "other \<noteq> name"
  proof -
    have "filter (\<lambda>(n, _). n = other) (map (\<lambda>c. (name, ?g c)) (ps_Images st)) = []"
      using that by (auto simp: filter_empty_conv)
    moreover have "filter (\<lambda>(n, _). n = other) (filter (\<lambda>(n, _). n \<noteq> name) rows) = filter (\<lambda>(n, _). n = other) rows"
      for rows :: "(string \<times> ImageUpdateCheck) list"
      using that by (induction rows) auto
    ultimately show ?thesis unfolding d'(2) by simp
  qed
  show ?thesis unfolding same fold_add_check using d'(1) len ne others True by (simp add: no_status_def)
qed

definition empty_project_db :: project_db where
  "empty_project_db = \<lparr> pj_checks = [], pj_settings = [], pj_redis = True, pj_cache_status = (\<lambda>_. None),
     pj_cache_policy = (\<lambda>_. None), pj_faults = [] \<rparr>"

definition sample_check :: "string \<Rightarrow> string \<Rightarrow> bool \<Rightarrow> string \<Rightarrow> ImageUpdateCheck" where
  "sample_check service img available err = \<lparr> iu_Project = ''web'', iu_Service = service, iu_Image = img,
     iu_LocalDigest = [], iu_RemoteDigest = [], iu_Status = ''unknown'', iu_UpdateAvailable = available,
     iu_Error = err, iu_CheckedAt = 0 \<rparr>"

theorem update_status_round_trip_witness:
  "let st = no_status \<lparr> ps_Images := [sample_check ''web'' ''nginx'' True [], sample_check ''db'' ''mysql'' False []] \<rparr>;
       st' = stored_status ''web'' (snd (SaveProjectUpdateStatus ''web'' st empty_project_db))
   in ps_Count st' = 1 \<and> map iu_Service (ps_Images st') = [''db'', ''web'']"
proof -
  let ?st = "no_status \<lparr> ps_Images := [sample_check ''web'' ''nginx'' True [], sample_check ''db'' ''mysql'' False []] \<rparr>"
  let ?d = "snd (SaveProjectUpdateStatus ''web'' ?st empty_project_db)"
  have read: "ProjectUpdateStatusOf ''web'' ?d = (Inr (stored_status ''web'' ?d), snd (ProjectUpdateStatusOf ''web'' ?d))"
    by (simp add: ProjectUpdateStatusOf_def SaveProjectUpdateStatus_def statement_def empty_project_db_def Let_def
        no_status_def sample_check_def)
  have "pj_faults empty_project_db = []" by (simp add: empty_project_db_def)
  from update_status_round_trip[OF this prod.collapse[symmetric] read, of "[]"]
  show ?thesis unfolding Let_def by (simp add: no_status_def sample_check_def insort_key_def)
qed

text \<open>
  The number of commits a git project is behind does not survive the store: a check that
  found twelve new commits is read back as one update of one registry image.
\<close>

theorem git_count_is_lost:
  "let git = no_status \<lparr> ps_Checked := True, ps_Available := True, ps_Count := fst (atoi ''12''),
         ps_Images := [sample_check ''git'' ''git repository'' True []] \<rparr>;
       read = stored_status ''web'' (snd (SaveProjectUpdateStatus ''web'' git empty_project_db))
   in ps_Count git = 12 \<and> ps_Count read = 1 \<and> ps_RegistryImages git = 0 \<and> ps_RegistryImages read = 1"
  by code_simp

section \<open>Policies\<close>

lemma Resolve_effective:
  "pp_EffectivePolicy (ResolveProjectUpdatePolicy mode detected) =
     (if mode = ''allow'' then ''allow'' else if mode = ''no_updates'' then ''no_updates'' else pp_EffectivePolicy detected)"
  "pp_Mode (ResolveProjectUpdatePolicy mode detected) =
     (if mode = ''allow'' then ''allow'' else if mode = ''no_updates'' then ''no_updates'' else ''auto'')"
  by (auto simp: ResolveProjectUpdatePolicy_def Let_def)

lemma loadProjectPolicy_row:
  assumes "pj_faults d = []" and "map_of (pj_settings d) name = Some row"
  shows "\<exists>p. loadProjectPolicy name detected d = (Inr p, d)
    \<and> pp_EffectivePolicy p = pp_EffectivePolicy (ResolveProjectUpdatePolicy (st_update_policy row) detected)"
  using assms by (auto simp: loadProjectPolicy_def statement_def Let_def split: option.splits)

lemma SetProjectPolicy_result:
  assumes "pj_faults d = []" and "SetProjectPolicy name detected mode notes d = (Inr p, d')"
  defines "m \<equiv> if mode = [] then ''auto'' else mode"
  shows "ValidProjectUpdatePolicyMode m \<and> p = (ResolveProjectUpdatePolicy m detected) \<lparr> pp_Notes := notes \<rparr>
    \<and> (\<exists>row. st_update_policy row = m \<and>
         d' = cache_policy name p (d \<lparr> pj_settings := AList.update name row (pj_settings d) \<rparr>))"
proof (cases "ValidProjectUpdatePolicyMode m")
  case True
  define r where "r = (ResolveProjectUpdatePolicy m detected) \<lparr> pp_Notes := notes \<rparr>"
  define row where "row = \<lparr> st_update_policy = m, st_source_type = pp_SourceType r,
              st_source_url = nullableString (pp_SourceURL r),
              st_no_updates_reason = nullableString (pp_NoUpdatesReason r),
              st_notes = nullableString notes, st_auto_detected = pp_AutoDetected r \<rparr>"
  have "SetProjectPolicy name detected mode notes d =
      (Inr r, cache_policy name r (d \<lparr> pj_settings := AList.update name row (pj_settings d) \<rparr>))"
    unfolding SetProjectPolicy_def m_def[symmetric] Let_def statement_def assms(1) row_def r_def
    by (simp only: True simp_thms if_False list.case)
  moreover have "st_update_policy row = m" by (simp add: row_def)
  ultimately show ?thesis using True assms(2) unfolding r_def by auto
next
  case False
  then show ?thesis using assms(2) unfolding SetProjectPolicy_def m_def Let_def by simp
qed

lemma cache_policy_sel [simp]:
  "pj_settings (cache_policy n p d) = pj_settings d" "pj_faults (cache_policy n p d) = pj_faults d"
  "pj_redis (cache_policy n p d) = pj_redis d"
  by (simp_all add: cache_policy_def)


definition allow_policy :: ProjectUpdatePolicy where
  "allow_policy = detected_policy [] []"


text \<open>
  The policy fails open: when the statement that reads it fails, a project whose updates were
  switched off is resolved with the detected policy, which allows them.
\<close>

theorem project_policy_fails_open:
  "let d = snd (SetProjectPolicy ''web'' allow_policy ''no_updates'' [] (empty_project_db \<lparr> pj_redis := False \<rparr>));
       broken = d \<lparr> pj_faults := [Some ''connection lost''] \<rparr>
   in pp_EffectivePolicy (fst (ResolveUpdatePolicy ''web'' allow_policy d)) = ''no_updates''
      \<and> pp_EffectivePolicy (fst (ResolveUpdatePolicy ''web'' allow_policy broken)) = ''allow''"
  by code_simp

end
