(* ===== verification/UpdateManager.thy ===== *)
theory UpdateManager
  imports UpdateChecks Storage
begin

text \<open>
  The fleet-wide update check: \<^verbatim>\<open>server/internal/core/update_manager.go\<close>. One run walks over the
  discovered projects, checks those whose check-only schedule allows it, keeps the previous
  results of images whose check failed, and stops at a registry's rate limit; another run within
  five minutes answers from memory. Discovering the projects is an argument.
\<close>

section \<open>Definitions\<close>

record 'w fleet =
  fl_world :: 'w
  fl_db :: db
  fl_projects :: project_db
  fl_lastRunAt :: instant
  fl_lastSummary :: ProjectUpdateStatus

definition updateCheckCooldown :: duration where "updateCheckCooldown = 5 * minute"

definition eligibleForScheduledUpdateCheck :: "Project \<Rightarrow> bool \<Rightarrow> bool \<Rightarrow> ProjectUpdatePolicy \<Rightarrow> bool" where
  "eligibleForScheduledUpdateCheck project controller scheduled policy \<longleftrightarrow>
     \<not> pr_Inactive project \<and> \<not> controller \<and> scheduled \<and> pp_EffectivePolicy policy \<noteq> ''no_updates''"

text \<open>\<^verbatim>\<open>Duration.Round(time.Second)\<close> of a duration that is not negative.\<close>

definition round_second :: "duration \<Rightarrow> duration" where
  "round_second d = (let r = d mod second in if r + r < second then d - r else d + second - r)"

definition friendlyCooldown :: "duration \<Rightarrow> string" where
  "friendlyCooldown remaining =
     (let r = round_second remaining in if r < second then ''a moment'' else duration_string r)"

definition cooldownResult :: "instant \<Rightarrow> 'w fleet \<Rightarrow> ProjectUpdateStatus option" where
  "cooldownResult now fl =
     (let lastRun = fl_lastRunAt fl in
      if is_zero lastRun \<or> now < lastRun \<or> updateCheckCooldown \<le> now - lastRun then None
      else
        (let remaining = updateCheckCooldown - (now - lastRun)
         in Some ((fl_lastSummary fl) \<lparr> ps_Cached := True,
              ps_RetryAfterSeconds := - ((- remaining) div second),
              ps_RefreshAllowedAt := Some (lastRun + updateCheckCooldown),
              ps_Message := ''Updates were checked recently. Showing cached results; another registry refresh is available in ''
                @ friendlyCooldown remaining @ ''.'' \<rparr>)))"

definition rememberResult :: "instant \<Rightarrow> ProjectUpdateStatus \<Rightarrow> 'w fleet \<Rightarrow> 'w fleet" where
  "rememberResult now status fl = fl \<lparr> fl_lastRunAt := now, fl_lastSummary := status \<rparr>"

definition appendUpdateSummary :: "ProjectUpdateStatus \<Rightarrow> ProjectUpdateStatus \<Rightarrow> ProjectUpdateStatus" where
  "appendUpdateSummary summary status =
     (if \<not> ps_Checked status then summary
      else summary \<lparr>
        ps_RegistryImages := ps_RegistryImages summary + ps_RegistryImages status,
        ps_SkippedServices := ps_SkippedServices summary + ps_SkippedServices status,
        ps_Available := (ps_Available status \<or> ps_Available summary),
        ps_Count := (if ps_Available status then ps_Count summary + ps_Count status else ps_Count summary),
        ps_Error := (if ps_Error status \<noteq> [] \<and> ps_Error summary = [] then ps_Error status else ps_Error summary),
        ps_CheckedAt := (case ps_CheckedAt status of
            None \<Rightarrow> ps_CheckedAt summary
          | Some t \<Rightarrow> (case ps_CheckedAt summary of None \<Rightarrow> Some t | Some u \<Rightarrow> Some (if u < t then t else u))),
        ps_Images := ps_Images summary @ ps_Images status \<rparr>)"

text \<open>
  \<open>preservePreviousUpdateResults\<close>. An image is identified by its service and its reference; among
  equal keys the last entry of the previous result counts.
\<close>

definition image_key :: "ImageUpdateCheck \<Rightarrow> string \<times> string" where
  "image_key c = (iu_Service c, iu_Image c)"

definition keep_failed :: "ImageUpdateCheck list \<Rightarrow> ImageUpdateCheck \<Rightarrow> ImageUpdateCheck" where
  "keep_failed previous failed =
     (if iu_Error failed = [] then failed
      else case map_of (rev (map (\<lambda>c. (image_key c, c)) previous)) (image_key failed) of
        None \<Rightarrow> failed
      | Some cached \<Rightarrow> cached \<lparr> iu_Project := iu_Project failed, iu_Service := iu_Service failed,
          iu_Image := iu_Image failed, iu_Error := iu_Error failed \<rparr>)"

definition clear_error :: "ImageUpdateCheck \<Rightarrow> ImageUpdateCheck" where
  "clear_error c = c \<lparr> iu_Error := [] \<rparr>"

definition preservePreviousUpdateResults :: "ProjectUpdateStatus \<Rightarrow> ProjectUpdateStatus \<Rightarrow> ProjectUpdateStatus" where
  "preservePreviousUpdateResults previous current =
     (if ps_Error current = [] \<or> \<not> ps_Checked previous \<or> ps_Images previous = [] then current
      else
        (let merged =
           (if ps_Images current = [] then
              (case map clear_error (ps_Images previous) of
                 [] \<Rightarrow> current
               | c # cs \<Rightarrow> current \<lparr> ps_Images := c \<lparr> iu_Error := ps_Error current \<rparr> # cs,
                   ps_RegistryImages := ps_RegistryImages previous, ps_SkippedServices := ps_SkippedServices previous \<rparr>)
            else
              (let kept = map (keep_failed (ps_Images previous)) (ps_Images current);
                   seen = map image_key (ps_Images current)
               in if IsRegistryRateLimitError (ps_Error current)
                  then current \<lparr> ps_Images := kept @ map clear_error (filter (\<lambda>c. image_key c \<notin> set seen) (ps_Images previous)),
                    ps_RegistryImages := ps_RegistryImages previous, ps_SkippedServices := ps_SkippedServices previous \<rparr>
                  else current \<lparr> ps_Images := kept \<rparr>));
             n = length (filter iu_UpdateAvailable (ps_Images merged))
         in merged \<lparr> ps_Checked := True, ps_Cached := True, ps_Available := (0 < n), ps_Count := int n \<rparr>))"

text \<open>\<open>store.ResolveUpdatePolicy\<close> with the policy detected from the project's directory.\<close>

definition resolve_policy :: "'w host \<Rightarrow> Project \<Rightarrow> 'w fleet \<Rightarrow> ProjectUpdatePolicy \<times> 'w fleet" where
  "resolve_policy H project fl =
     (let (detected, w1) = DetectProjectUpdatePolicy H project (fl_world fl);
          (policy, d1) = ResolveUpdatePolicy (pr_Name project) detected (fl_projects fl)
      in (policy, fl \<lparr> fl_world := w1, fl_projects := d1 \<rparr>))"

definition saved :: "string \<Rightarrow> ProjectUpdateStatus \<Rightarrow> 'w fleet \<Rightarrow> 'w fleet" where
  "saved name status fl = fl \<lparr> fl_projects := snd (SaveProjectUpdateStatus name status (fl_projects fl)) \<rparr>"

definition previous_status :: "string \<Rightarrow> 'w fleet \<Rightarrow> ProjectUpdateStatus result \<times> 'w fleet" where
  "previous_status name fl =
     (let (r, d) = ProjectUpdateStatusOf name (fl_projects fl) in (r, fl \<lparr> fl_projects := d \<rparr>))"

definition with_previous :: "string \<Rightarrow> ProjectUpdateStatus \<Rightarrow> 'w fleet \<Rightarrow> ProjectUpdateStatus \<times> 'w fleet" where
  "with_previous name status fl =
     (if ps_Error status = [] then (status, fl)
      else case previous_status name fl of
        (Inr previous, fl') \<Rightarrow> (preservePreviousUpdateResults previous status, fl')
      | (Inl _, fl') \<Rightarrow> (status, fl'))"

text \<open>After a rate limit: the remaining scheduled projects contribute their last known results.\<close>

fun append_cached :: "'w host \<Rightarrow> string list \<Rightarrow> Project list \<Rightarrow> ProjectUpdateStatus \<Rightarrow> 'w fleet \<Rightarrow> ProjectUpdateStatus \<times> 'w fleet" where
  "append_cached H scheduled [] summary fl = (summary, fl)"
| "append_cached H scheduled (p # ps) summary fl =
     (if pr_Inactive p \<or> IsControllerProject H p \<or> pr_Name p \<notin> set scheduled
      then append_cached H scheduled ps summary fl
      else
        (let (policy, fl1) = resolve_policy H p fl in
         if pp_EffectivePolicy policy = ''no_updates'' then append_cached H scheduled ps summary fl1
         else
           (case previous_status (pr_Name p) fl1 of
              (Inl _, fl2) \<Rightarrow> append_cached H scheduled ps summary fl2
            | (Inr previous, fl2) \<Rightarrow> append_cached H scheduled ps (appendUpdateSummary summary previous) fl2)))"

fun run_projects :: "'w host \<Rightarrow> decoders \<Rightarrow> string list \<Rightarrow> Project list \<Rightarrow> ProjectUpdateStatus \<Rightarrow> 'w fleet \<Rightarrow> ProjectUpdateStatus \<times> 'w fleet" where
  "run_projects H J scheduled [] summary fl = (summary, fl)"
| "run_projects H J scheduled (p # ps) summary fl =
     (if IsControllerProject H p
      then run_projects H J scheduled ps summary (saved (pr_Name p) no_status fl)
      else
        (let (policy, fl1) = resolve_policy H p fl in
         if \<not> eligibleForScheduledUpdateCheck p False (pr_Name p \<in> set scheduled) policy
         then run_projects H J scheduled ps summary fl1
         else
           (let (status0, w2) = CheckProjectUpdates H J p (fl_world fl1);
                fl2 = fl1 \<lparr> fl_world := w2 \<rparr>;
                (status, fl3) = with_previous (pr_Name p) status0 fl2;
                fl4 = saved (pr_Name p) status fl3;
                summary = appendUpdateSummary summary status
            in if IsRegistryRateLimitError (ps_Error status)
               then
                 (let (summary, fl5) = append_cached H scheduled ps summary fl4
                  in (summary \<lparr> ps_Message := ''Registry rate limit reached. Stack Manager stopped additional checks and kept the last known update results.'',
                        ps_Cached := True, ps_RetryAfterSeconds := updateCheckCooldown div second \<rparr>, fl5))
               else run_projects H J scheduled ps summary fl4)))"

definition Run :: "'w host \<Rightarrow> decoders \<Rightarrow> ('w \<Rightarrow> Project list result \<times> 'w) \<Rightarrow> 'w fleet \<Rightarrow> ProjectUpdateStatus \<times> 'w fleet" where
  "Run H J discover fl =
     (case cooldownResult (ho_now H (fl_world fl)) fl of
        Some cached \<Rightarrow> (cached, fl)
      | None \<Rightarrow>
          (let (projects, w1) = discover (fl_world fl);
               fl1 = fl \<lparr> fl_world := w1 \<rparr>;
               summary = no_status \<lparr> ps_Checked := True \<rparr>
           in case projects of
                Inl e \<Rightarrow>
                  (let summary = summary \<lparr> ps_Error := e \<rparr>
                   in (summary, rememberResult (ho_now H w1) summary fl1))
              | Inr ps \<Rightarrow>
                  (let (names, d1) = ScheduledCheckProjectNames (fl_db fl1);
                       scheduled = (case names of Inr l \<Rightarrow> l | Inl _ \<Rightarrow> []);
                       (summary, fl2) = run_projects H J scheduled ps summary (fl1 \<lparr> fl_db := d1 \<rparr>);
                       completedAt = ho_now H (fl_world fl2);
                       summary = (if 0 < ps_RetryAfterSeconds summary
                         then summary \<lparr> ps_RefreshAllowedAt := Some (completedAt + updateCheckCooldown) \<rparr> else summary);
                       summary = (if ps_RegistryImages summary = 0 \<and> ps_Images summary = [] \<and> ps_Error summary = []
                         then summary \<lparr> ps_Message := ''No active projects have an enabled check-only schedule.'' \<rparr> else summary)
                   in (summary, rememberResult completedAt summary fl2))))"

section \<open>Cooldown\<close>

text \<open>
  A fleet check within five minutes of the last one answers from memory: it neither runs a
  command nor touches a table, it returns the results of the last run marked as cached, and it
  announces the end of the cooldown and a wait of at least one and at most 300 seconds.
\<close>

theorem fleet_check_cooldown:
  assumes "\<not> is_zero (fl_lastRunAt fl)" and "fl_lastRunAt fl \<le> ho_now H (fl_world fl)"
    and "ho_now H (fl_world fl) < fl_lastRunAt fl + updateCheckCooldown"
  shows "snd (Run H J discover fl) = fl
    \<and> ps_Images (fst (Run H J discover fl)) = ps_Images (fl_lastSummary fl)
    \<and> ps_Count (fst (Run H J discover fl)) = ps_Count (fl_lastSummary fl)
    \<and> ps_Cached (fst (Run H J discover fl))
    \<and> ps_RefreshAllowedAt (fst (Run H J discover fl)) = Some (fl_lastRunAt fl + updateCheckCooldown)
    \<and> 1 \<le> ps_RetryAfterSeconds (fst (Run H J discover fl))
    \<and> ps_RetryAfterSeconds (fst (Run H J discover fl)) \<le> 300"
proof -
  define r where "r = updateCheckCooldown - (ho_now H (fl_world fl) - fl_lastRunAt fl)"
  have r: "0 < r" "r \<le> 300 * second" using assms by (auto simp: r_def updateCheckCooldown_def)
  have "1 \<le> - ((- r) div second)" "- ((- r) div second) \<le> 300"
    using r by linarith+
  then show ?thesis using assms by (simp add: Run_def cooldownResult_def Let_def r_def)
qed

text \<open>A fleet whose last check finished at a given time, with empty tables.\<close>

definition idle_db :: db where
  "idle_db = \<lparr> db_agents = [], db_snapshots = [], db_commands = [], db_schedules = [], db_runs = [], db_jobs = [],
     db_audit = [], db_next_agent = 1, db_next_command = 1, db_next_schedule = 1, db_next_run = 1,
     db_next_audit = 1, db_redis = False, db_cache_agents = None, db_cache_schedules = None,
     db_cache_jobs = None, db_cache_job = (\<lambda>_. None), db_faults = [] \<rparr>"

definition demo_fleet :: "instant \<Rightarrow> unit fleet" where
  "demo_fleet t = \<lparr> fl_world = (), fl_db = idle_db, fl_projects = empty_project_db, fl_lastRunAt = t,
     fl_lastSummary = no_status \<rparr>"

definition no_projects :: "unit \<Rightarrow> Project list result \<times> unit" where
  "no_projects w = (Inr [], w)"

theorem fleet_check_cooldown_witness:
  "snd (Run demo_host demo_decoders no_projects (demo_fleet (- second))) = demo_fleet (- second)
   \<and> ps_RetryAfterSeconds (fst (Run demo_host demo_decoders no_projects (demo_fleet (- second)))) \<le> 300"
proof -
  have "fl_lastRunAt (demo_fleet (- second)) = - second" "ho_now demo_host (fl_world (demo_fleet (- second))) = 0"
    by (simp_all add: demo_fleet_def demo_host_def)
  then show ?thesis using fleet_check_cooldown[of "demo_fleet (- second)" demo_host demo_decoders no_projects]
    by (simp add: is_zero_def zero_time_def updateCheckCooldown_def)
qed

section \<open>Opting in\<close>

abbreviation rows_of :: "string \<Rightarrow> 'w fleet \<Rightarrow> (string \<times> ImageUpdateCheck) list" where
  "rows_of n fl \<equiv> filter (\<lambda>(m, _). m = n) (pj_checks (fl_projects fl))"

named_theorems rows_kept

lemma statement_checks:
  assumes "\<And>d. pj_checks (snd (f d)) = pj_checks d" shows "pj_checks (snd (statement d f)) = pj_checks d"
  using assms by (auto simp: statement_def split: list.splits option.splits)

lemma ResolveUpdatePolicy_checks: "pj_checks (snd (ResolveUpdatePolicy n det d)) = pj_checks d"
proof -
  have "pj_checks (snd (loadProjectPolicy n det d)) = pj_checks d"
    unfolding loadProjectPolicy_def by (rule statement_checks) (auto simp: Let_def split: option.splits)
  then show ?thesis
    by (auto simp: ResolveUpdatePolicy_def cache_policy_def Let_def split: option.splits prod.splits sum.splits)
qed

lemma resolve_policy_rows [rows_kept]: "resolve_policy H p fl = (pol, fl') \<Longrightarrow> rows_of n fl' = rows_of n fl"
  using ResolveUpdatePolicy_checks by (auto simp: resolve_policy_def Let_def split: prod.splits) (metis snd_conv)

lemma previous_status_rows [rows_kept]: "previous_status m fl = (r, fl') \<Longrightarrow> rows_of n fl' = rows_of n fl"
proof -
  have "pj_checks (snd (ProjectUpdateStatusOf m d)) = pj_checks d" for d
    by (auto simp: ProjectUpdateStatusOf_def Let_def intro: statement_checks split: option.splits)
  then show "previous_status m fl = (r, fl') \<Longrightarrow> rows_of n fl' = rows_of n fl"
    by (auto simp: previous_status_def Let_def split: prod.splits) (metis snd_conv)
qed

lemma filter_save:
  assumes "m \<noteq> n"
  shows "filter (\<lambda>(k, _). k = n) (filter (\<lambda>(k, _). k \<noteq> m) rows @ map (\<lambda>c. (m, g c)) cs) = filter (\<lambda>(k, _). k = n) rows"
proof -
  have "filter (\<lambda>(k, _). k = n) (map (\<lambda>c. (m, g c)) cs) = []" using assms by (auto simp: filter_empty_conv)
  moreover have "filter (\<lambda>(k, _). k = n) (filter (\<lambda>(k, _). k \<noteq> m) rows) = filter (\<lambda>(k, _). k = n) rows"
    using assms by (induction rows) auto
  ultimately show ?thesis by simp
qed

lemma saved_rows: "m \<noteq> n \<Longrightarrow> rows_of n (saved m st fl) = rows_of n fl"
  by (auto simp: saved_def SaveProjectUpdateStatus_def statement_def filter_save simp del: filter_append filter_filter split: list.splits option.splits)

lemma append_cached_rows: "rows_of n (snd (append_cached H sch ps summary fl)) = rows_of n fl"
proof (induction ps arbitrary: summary fl)
  case (Cons p ps)
  obtain pol fl1 where r: "resolve_policy H p fl = (pol, fl1)" by force
  obtain prev fl2 where s: "previous_status (pr_Name p) fl1 = (prev, fl2)" by force
  show ?case using Cons r s resolve_policy_rows[OF r, of n] previous_status_rows[OF s, of n]
    by (cases prev) (simp_all add: Let_def)
qed simp

lemma run_projects_rows:
  assumes "n \<notin> set sch" and "\<forall>p \<in> set ps. IsControllerProject H p \<longrightarrow> pr_Name p \<noteq> n"
  shows "rows_of n (snd (run_projects H J sch ps summary fl)) = rows_of n fl"
  using assms(2)
proof (induction ps arbitrary: summary fl)
  case (Cons p ps)
  have tail: "rows_of n (snd (run_projects H J sch ps s f)) = rows_of n f" for s f using Cons by simp
  obtain pol fl1 where r: "resolve_policy H p fl = (pol, fl1)" by force
  have r1: "rows_of n fl1 = rows_of n fl" by (rule resolve_policy_rows[OF r])
  show ?case
  proof (cases "IsControllerProject H p \<or> \<not> eligibleForScheduledUpdateCheck p False (pr_Name p \<in> set sch) pol")
    case True
    then show ?thesis using r r1 tail saved_rows[of "pr_Name p" n no_status fl] Cons.prems by auto
  next
    case False
    then have ne: "pr_Name p \<noteq> n" using assms(1) by (auto simp: eligibleForScheduledUpdateCheck_def)
    obtain status0 w2 where c: "CheckProjectUpdates H J p (fl_world fl1) = (status0, w2)" by force
    obtain status fl3 where s: "with_previous (pr_Name p) status0 (fl1 \<lparr> fl_world := w2 \<rparr>) = (status, fl3)" by force
    have "rows_of n fl3 = rows_of n (fl1 \<lparr> fl_world := w2 \<rparr>)"
      using s previous_status_rows[of "pr_Name p" "fl1 \<lparr> fl_world := w2 \<rparr>" _ _ n]
      by (auto simp: with_previous_def split: if_splits prod.splits sum.splits)
    then have s3: "rows_of n (saved (pr_Name p) status fl3) = rows_of n fl"
      using saved_rows[OF ne, of status fl3] r1 by simp
    then show ?thesis using False r c s tail append_cached_rows[of n H sch ps _ "saved (pr_Name p) status fl3"]
      by (auto simp: Let_def split: prod.splits) (metis snd_conv)
  qed
qed simp

text \<open>
  Fleet checks are opt-in: a project without an enabled local check-only schedule keeps its
  stored results through a run, whatever else happens in it, unless it is the server's own project,
  whose results are cleared.
\<close>

theorem unscheduled_projects_untouched:
  assumes "\<forall>u \<in> set (db_schedules (fl_db fl)).
      \<not> (us_Enabled u \<and> us_AgentID u = None \<and> us_Action u = ''check'' \<and> us_Project u = n)"
    and "\<forall>ps w. discover (fl_world fl) = (Inr ps, w) \<longrightarrow> (\<forall>p \<in> set ps. IsControllerProject H p \<longrightarrow> pr_Name p \<noteq> n)"
  shows "rows_of n (snd (Run H J discover fl)) = rows_of n fl"
proof -
  obtain ps w1 where d: "discover (fl_world fl) = (ps, w1)" by force
  obtain names d1 where s: "ScheduledCheckProjectNames (fl_db fl) = (names, d1)" by force
  have "n \<notin> set l" if "names = Inr l" for l
    using s that assms(1) by (auto simp: ScheduledCheckProjectNames_def sql_def split: list.splits option.splits) (metis option.distinct(1))+
  then have names: "n \<notin> set (case names of Inr l \<Rightarrow> l | Inl _ \<Rightarrow> [])" by (auto split: sum.splits)
  have "rows_of n (snd (run_projects H J (case names of Inr l \<Rightarrow> l | Inl _ \<Rightarrow> []) l summary f)) = rows_of n f"
    if "ps = Inr l" for l summary f
    using run_projects_rows[OF names] assms(2) d that by blast
  then show ?thesis using d s
    by (cases ps) (simp_all add: Run_def rememberResult_def Let_def split_beta split: option.split)
qed

theorem unscheduled_projects_untouched_witness:
  "rows_of ''web'' (snd (Run demo_host demo_decoders no_projects (demo_fleet zero_time))) =
   rows_of ''web'' (demo_fleet zero_time)"
  using unscheduled_projects_untouched[of "demo_fleet zero_time" "''web''" no_projects demo_host demo_decoders]
  by (simp add: demo_fleet_def idle_db_def no_projects_def)

section \<open>Keeping earlier results\<close>

lemma keep_failed_key: "image_key (keep_failed prev c) = image_key c"
  by (auto simp: keep_failed_def image_key_def split: option.splits)

lemma map_of_keys:
  assumes "distinct (map image_key prev)" and "c \<in> set prev"
  shows "map_of (rev (map (\<lambda>c. (image_key c, c)) prev)) (image_key c) = Some c"
proof -
  have "distinct (map fst (rev (map (\<lambda>c. (image_key c, c)) prev)))"
    using assms(1) by (simp add: rev_map[symmetric] comp_def)
  moreover have "(image_key c, c) \<in> set (rev (map (\<lambda>c. (image_key c, c)) prev))" using assms(2) by simp
  ultimately show ?thesis by simp
qed

text \<open>The verdict of a check: everything but the project's name and the error.\<close>

definition same_verdict :: "ImageUpdateCheck \<Rightarrow> ImageUpdateCheck \<Rightarrow> bool" where
  "same_verdict a b \<longleftrightarrow> image_key a = image_key b \<and> iu_LocalDigest a = iu_LocalDigest b
     \<and> iu_RemoteDigest a = iu_RemoteDigest b \<and> iu_Status a = iu_Status b
     \<and> iu_UpdateAvailable a = iu_UpdateAvailable b \<and> iu_CheckedAt a = iu_CheckedAt b"

text \<open>
  A check that hits a rate limit loses nothing: every image of the previous result that this
  run has not checked successfully is in the merged result with its previous verdict, every image
  that was checked successfully is in it unchanged, and the counts agree with the images.
\<close>

theorem rate_limit_keeps_results:
  assumes "IsRegistryRateLimitError (ps_Error current)" and "ps_Error current \<noteq> []" and "ps_Checked previous"
    and "distinct (map image_key (ps_Images previous))"
    and "ps_Images current \<noteq> []"
  shows "(\<forall>c \<in> set (ps_Images previous).
        (\<forall>f \<in> set (ps_Images current). image_key f = image_key c \<longrightarrow> iu_Error f \<noteq> []) \<longrightarrow>
        (\<exists>r \<in> set (ps_Images (preservePreviousUpdateResults previous current)). same_verdict r c))
    \<and> (\<forall>f \<in> set (ps_Images current). iu_Error f = [] \<longrightarrow>
        f \<in> set (ps_Images (preservePreviousUpdateResults previous current)))
    \<and> (ps_Images previous \<noteq> [] \<longrightarrow>
        ps_Count (preservePreviousUpdateResults previous current) =
          int (length (filter iu_UpdateAvailable (ps_Images (preservePreviousUpdateResults previous current)))))"
proof (cases "ps_Images previous = []")
  case True
  then show ?thesis by (simp add: preservePreviousUpdateResults_def)
next
  case False
  let ?prev = "ps_Images previous" and ?cur = "ps_Images current"
  let ?r = "map (keep_failed ?prev) ?cur @ map clear_error (filter (\<lambda>c. image_key c \<notin> set (map image_key ?cur)) ?prev)"
  have imgs: "ps_Images (preservePreviousUpdateResults previous current) = ?r"
    and cnt: "ps_Count (preservePreviousUpdateResults previous current) = int (length (filter iu_UpdateAvailable ?r))"
    using assms False by (simp_all add: preservePreviousUpdateResults_def Let_def)
  have "\<exists>r \<in> set ?r. same_verdict r c"
    if c: "c \<in> set ?prev" and failed: "\<forall>f \<in> set ?cur. image_key f = image_key c \<longrightarrow> iu_Error f \<noteq> []" for c
  proof (cases "image_key c \<in> image_key ` set ?cur")
    case True
    then obtain f where f: "f \<in> set ?cur" "image_key c = image_key f" by blast
    have "map_of (rev (map (\<lambda>c. (image_key c, c)) ?prev)) (image_key f) = Some c"
      using map_of_keys[OF assms(4) c] f by simp
    then have "same_verdict (keep_failed ?prev f) c"
      using failed f by (simp add: keep_failed_def same_verdict_def image_key_def)
    then show ?thesis using f(1) by auto
  next
    case False
    have "same_verdict (clear_error c) c" by (simp add: same_verdict_def clear_error_def image_key_def)
    then show ?thesis using c False by auto
  qed
  moreover have "f \<in> set ?r" if "f \<in> set ?cur" "iu_Error f = []" for f
  proof -
    have "keep_failed ?prev f = f" using that(2) by (simp add: keep_failed_def)
    then show ?thesis using that(1) by (metis UnI1 image_eqI set_append set_map)
  qed
  ultimately show ?thesis unfolding imgs cnt by blast
qed

definition limited_status :: "string \<Rightarrow> ProjectUpdateStatus" where
  "limited_status img = no_status \<lparr> ps_Checked := True, ps_Error := ''toomanyrequests'',
     ps_Images := [sample_check ''web'' img False ''toomanyrequests''], ps_RegistryImages := 1 \<rparr>"

definition known_status :: ProjectUpdateStatus where
  "known_status = no_status \<lparr> ps_Checked := True, ps_Available := True, ps_Count := 1,
     ps_Images := [sample_check ''web'' ''nginx:1'' True []], ps_RegistryImages := 1 \<rparr>"

theorem rate_limit_keeps_results_witness:
  "\<exists>r \<in> set (ps_Images (preservePreviousUpdateResults known_status (limited_status ''nginx:1''))).
     same_verdict r (sample_check ''web'' ''nginx:1'' True [])"
proof -
  have *: "IsRegistryRateLimitError (ps_Error (limited_status ''nginx:1''))" by code_simp
  show ?thesis using rate_limit_keeps_results[OF *, of known_status]
    by (simp add: limited_status_def known_status_def no_status_def sample_check_def image_key_def)
qed

text \<open>
  When the image of a service has changed since the last result, a rate-limited check merges
  the old and the new image of that service into one result. The table keeps one row per service,
  so saving this result fails and the stored result stays that of the old image.
\<close>

theorem changed_image_is_not_saved:
  "let merged = preservePreviousUpdateResults known_status (limited_status ''nginx:2'');
       d = snd (SaveProjectUpdateStatus ''web'' known_status empty_project_db);
       (res, d') = SaveProjectUpdateStatus ''web'' merged d
   in map iu_Service (ps_Images merged) = [''web'', ''web''] \<and> \<not> (\<exists>u. res = Inr u) \<and> d' = d"
proof -
  have m: "ps_Images (preservePreviousUpdateResults known_status (limited_status ''nginx:2'')) =
      [sample_check ''web'' ''nginx:2'' False ''toomanyrequests'', sample_check ''web'' ''nginx:1'' True []]" by code_simp
  have "map iu_Service (ps_Images (preservePreviousUpdateResults known_status (limited_status ''nginx:2''))) = [''web'', ''web'']"
    unfolding m by (simp add: sample_check_def)
  moreover have "pj_faults (snd (SaveProjectUpdateStatus ''web'' known_status empty_project_db)) = []" by code_simp
  ultimately show ?thesis unfolding Let_def
    by (simp add: SaveProjectUpdateStatus_def statement_def)
qed

end
