(* ===== verification/Jobs.thy ===== *)
theory Jobs
  imports AgentApi UpdateManager
begin

text \<open>
  Background jobs: \<^verbatim>\<open>server/internal/core/jobs.go\<close>. A job is a record that its goroutine updates while
  it runs commands; the manager keeps every job of the process in memory and saves finished ones
  in the store. The goroutine is modelled by the steps it takes: the body of the action, the final
  update, the save, and the completion handler that settles scheduled runs.
\<close>

section \<open>Definitions\<close>

subsection \<open>Output\<close>

definition maxOutput :: nat where "maxOutput = 1024 * 1024"

definition appendJobOutput :: "string \<Rightarrow> ActionJob \<Rightarrow> ActionJob" where
  "appendJobOutput txt job =
     (let out = aj_Output job @ txt
      in job \<lparr> aj_Output := (if maxOutput < length out then drop (length out - maxOutput) out else out) \<rparr>)"

text \<open>A pipe is read in blocks of up to 4096 bytes.\<close>

fun blocks :: "nat \<Rightarrow> string \<Rightarrow> string list" where
  "blocks n s = (if s = [] \<or> n = 0 then [] else take n s # blocks n (drop n s))"

declare blocks.simps [simp del]

definition copyJobOutput :: "string \<Rightarrow> ActionJob \<Rightarrow> ActionJob" where
  "copyJobOutput stream job = fold appendJobOutput (blocks 4096 stream) job"

definition setJobError :: "string \<Rightarrow> ActionJob \<Rightarrow> ActionJob" where
  "setJobError msg job = job \<lparr> aj_Error := msg \<rparr>"

subsection \<open>Commands of a job\<close>

text \<open>\<^verbatim>\<open>filepath.Base\<close>.\<close>

definition path_base :: "string \<Rightarrow> string" where
  "path_base p =
     (if p = [] then ''.''
      else (let t = trim_right p ''/'' in
            if t = [] then ''/'' else (case cut_last (CHR ''/'') t of Some (_, b) \<Rightarrow> b | None \<Rightarrow> t)))"

fun compose_verb :: "string list \<Rightarrow> string option" where
  "compose_verb [] = None"
| "compose_verb (a # as) =
     (if a = ''-p'' then (case as of _ # verb # _ \<Rightarrow> Some verb | _ \<Rightarrow> None) else compose_verb as)"

definition commandLabel :: "string \<Rightarrow> string list \<Rightarrow> string" where
  "commandLabel name args =
     (if path_base name = ''docker'' \<and> args \<noteq> [] \<and> hd args = ''compose''
      then (case compose_verb (tl args) of Some verb \<Rightarrow> ''docker compose '' @ verb | None \<Rightarrow> ''docker compose'')
      else path_base name)"

text \<open>
  \<open>runCommandJob\<close>. A timeout of zero means no deadline. The two readers append what the command
  prints in the order of arrival, \<open>cm_combined\<close>.
\<close>

definition runCommandJob ::
  "'w host \<Rightarrow> int \<Rightarrow> string \<Rightarrow> string list \<Rightarrow> ActionJob \<Rightarrow> 'w \<Rightarrow> (bool \<times> int) \<times> ActionJob \<times> 'w" where
  "runCommandJob H timeoutSecs name args job w =
     (let (r, w1) = ho_exec H name args w in
      if \<not> cm_started r then
        (let msg = (case cm_error r of Some e \<Rightarrow> exec_text e | None \<Rightarrow> [])
         in ((False, 1), appendJobOutput (msg @ [newline]) (setJobError msg job), w1))
      else
        (let job1 = copyJobOutput (cm_combined r) job; lab = commandLabel name args in
         if 0 < timeoutSecs \<and> cm_deadline r then
           (let msg = lab @ '' timed out after '' @ duration_string (wrap64 (timeoutSecs * second));
                job2 = appendJobOutput ([newline] @ msg @ [newline]) (setJobError msg job1)
            in ((False, 1),
                if lab = ''docker compose pull''
                then appendJobOutput (''Large images can need more time. Raise this schedule's or action's timeout, or use 0 for no limit.'' @ [newline]) job2
                else job2, w1))
         else case cm_error r of
             None \<Rightarrow> ((True, 0), job1, w1)
           | Some (ExitError code _) \<Rightarrow> ((False, code), job1, w1)
           | Some (ExecFailure s) \<Rightarrow> ((False, 1), setJobError s job1, w1)))"

definition runComposeJob ::
  "'w host \<Rightarrow> Project \<Rightarrow> int \<Rightarrow> string list \<Rightarrow> ActionJob \<Rightarrow> 'w \<Rightarrow> (bool \<times> int) \<times> ActionJob \<times> 'w" where
  "runComposeJob H project timeoutSecs args job w =
     (let (pname, w1) = getProjectName H (pr_Name project) w
      in runCommandJob H timeoutSecs ''docker'' (compose_args H project pname args w1) job w1)"

definition outcome :: "(bool \<times> int) \<times> ActionJob \<times> 'w \<Rightarrow> ActionJob \<times> 'w" where
  "outcome r = (let ((success, exitCode), job, w) = r in (job \<lparr> aj_Success := success, aj_ExitCode := exitCode \<rparr>, w))"

definition preflight_failure :: "string \<Rightarrow> OpResult \<Rightarrow> ActionJob \<Rightarrow> ActionJob" where
  "preflight_failure banner preflight job =
     (appendJobOutput (banner @ op_Output preflight) job) \<lparr> aj_Success := False, aj_ExitCode := op_ExitCode preflight,
        aj_Error := ''compose service identity preflight failed'' \<rparr>"

definition runUpdateJob :: "'w host \<Rightarrow> Engine \<Rightarrow> Project \<Rightarrow> int \<Rightarrow> ActionJob \<Rightarrow> 'w \<Rightarrow> ActionJob \<times> 'w" where
  "runUpdateJob H e project timeoutSecs job w =
     (if HasHook H e ''post'' ''update'' (pr_Name project) w then
        outcome (runCommandJob H 300 (hookPath e ''post'' ''update'' (pr_Name project)) [pr_Name project, pr_Dir project]
          (appendJobOutput (''=== update hook ==='' @ [newline]) job) w)
      else
        (let (preflight, w1) = CheckComposeServiceIdentity H project w in
         if \<not> op_Success preflight
         then (preflight_failure (''=== compose service identity preflight ==='' @ [newline]) preflight job, w1)
         else
           (let ((pullOK, pullExit), job1, w2) = runComposeJob H project timeoutSecs (composePullArgs project)
                  (appendJobOutput (''=== docker compose pull ==='' @ [newline]) job) w1 in
            if \<not> pullOK then (job1 \<lparr> aj_Success := False, aj_ExitCode := pullExit \<rparr>, w2)
            else
              (let ((upOK, upExit), job2, w3) = runComposeJob H project 300 [''up'', ''-d'']
                     (appendJobOutput ([newline] @ ''=== docker compose up -d ==='' @ [newline]) job1) w2 in
               if \<not> upOK then (job2 \<lparr> aj_Success := False, aj_ExitCode := upExit \<rparr>, w3)
               else
                 (let (v, w4) = verifyUpdateServices H project w3;
                      job3 = appendJobOutput (op_Output v)
                        (appendJobOutput ([newline] @ ''=== verify update ==='' @ [newline]) job2)
                  in (job3 \<lparr> aj_Success := op_Success v, aj_ExitCode := op_ExitCode v,
                        aj_Error := (if op_Success v then aj_Error job3 else ''post-update container verification failed'') \<rparr>, w4))))))"

text \<open>
  \<open>runCheckJob\<close>; \<open>encode\<close> stands for \<^verbatim>\<open>json.MarshalIndent\<close>. The store of the server always saves
  update statuses.
\<close>

definition runCheckJob ::
  "'w host \<Rightarrow> decoders \<Rightarrow> (ProjectUpdateStatus \<Rightarrow> string) \<Rightarrow> Project \<Rightarrow> ActionJob \<Rightarrow> 'w \<Rightarrow> project_db \<Rightarrow> ActionJob \<times> 'w \<times> project_db" where
  "runCheckJob H J encode project job w pd =
     (let (status0, w1) = CheckProjectUpdates H J project w;
          (res, pd1) = SaveProjectUpdateStatus (pr_Name project) status0 pd;
          status = (case res of Inl e \<Rightarrow> status0 \<lparr> ps_Error := ''save update-check result: '' @ e \<rparr> | Inr _ \<Rightarrow> status0);
          job1 = appendJobOutput (''=== check updates ==='' @ [newline] @ encode status @ [newline]) job
      in (if ps_Error status = [] then job1 \<lparr> aj_Success := True, aj_ExitCode := 0 \<rparr>
          else job1 \<lparr> aj_Success := False, aj_ExitCode := 1, aj_Error := ps_Error status \<rparr>, w1, pd1))"

text \<open>The body of \<open>run\<close>: the action, then the status of a failed job.\<close>

definition run_action ::
  "'w host \<Rightarrow> Engine \<Rightarrow> decoders \<Rightarrow> (ProjectUpdateStatus \<Rightarrow> string) \<Rightarrow> Project \<Rightarrow> int \<Rightarrow> ActionJob \<Rightarrow> 'w \<Rightarrow> project_db \<Rightarrow> ActionJob \<times> 'w \<times> project_db" where
  "run_action H e J encode project timeoutSecs job w pd =
     (let keep = (\<lambda>(j, w'). (j, w', pd)); compose = (\<lambda>t args w. outcome (runComposeJob H project t args job w));
          act = aj_Action job
      in if act = ''pull'' then keep (compose timeoutSecs (composePullArgs project) w)
         else if act = ''up'' then
           (let (preflight, w1) = CheckComposeServiceIdentity H project w in
            if \<not> op_Success preflight then (preflight_failure [] preflight job, w1, pd)
            else keep (compose 300 [''up'', ''-d''] w1))
         else if act = ''down'' then keep (compose 300 [''down''] w)
         else if act = ''restart'' then keep (compose 300 [''restart''] w)
         else if act = ''status'' then keep (compose 300 [''ps''] w)
         else if act = ''update'' then keep (runUpdateJob H e project timeoutSecs job w)
         else if act = ''check'' then runCheckJob H J encode project job w pd
         else (job, w, pd))"

definition settle_status :: "ActionJob \<Rightarrow> ActionJob" where
  "settle_status job = (if \<not> aj_Success job then job \<lparr> aj_Status := ''failed'' \<rparr> else job)"

text \<open>The deferred function of \<open>run\<close>.\<close>

definition finish_job :: "instant \<Rightarrow> ActionJob \<Rightarrow> ActionJob" where
  "finish_job now job =
     job \<lparr> aj_EndedAt := now, aj_Duration := duration_string (round_ms (now - aj_StartedAt job)),
           aj_Status := (if aj_Status job = ''running'' then ''completed'' else aj_Status job) \<rparr>"

definition run ::
  "'w host \<Rightarrow> Engine \<Rightarrow> decoders \<Rightarrow> (ProjectUpdateStatus \<Rightarrow> string) \<Rightarrow> Project \<Rightarrow> int \<Rightarrow> ActionJob \<Rightarrow> 'w \<Rightarrow> project_db \<Rightarrow> ActionJob \<times> 'w \<times> project_db" where
  "run H e J encode project timeoutSecs job w pd =
     (let (job1, w1, pd1) = run_action H e J encode project timeoutSecs job w pd
      in (finish_job (ho_now H w1) (settle_status job1), w1, pd1))"

definition runSystemPrune :: "'w host \<Rightarrow> ActionJob \<Rightarrow> 'w \<Rightarrow> ActionJob \<times> 'w" where
  "runSystemPrune H job w =
     (let (result, w1) = Prune H ''system-all'' w;
          job1 = job \<lparr> aj_Success := op_Success result, aj_ExitCode := op_ExitCode result, aj_Output := op_Output result,
            aj_Status := (if op_Success result then ''completed'' else ''failed''),
            aj_Error := (if op_Success result then aj_Error job else ''full Docker system prune failed''),
            aj_EndedAt := ho_now H w1,
            aj_Duration := duration_string (round_ms (ho_now H w1 - aj_StartedAt job)) \<rparr>
      in (job1, w1))"

subsection \<open>The manager\<close>

text \<open>The jobs of the process, and the store behind them. A new id comes from the system's random source, which may fail.\<close>

record JobManager =
  jm_jobs :: "(string \<times> ActionJob) list"
  jm_db :: db

definition new_job :: "string \<Rightarrow> string \<Rightarrow> string \<Rightarrow> instant \<Rightarrow> ActionJob" where
  "new_job i project action now =
     \<lparr> aj_ID = i, aj_Project = project, aj_Action = action, aj_Status = ''running'', aj_Success = False,
       aj_ExitCode = 0, aj_Output = [], aj_StartedAt = now, aj_EndedAt = zero_time, aj_Duration = [], aj_Error = [] \<rparr>"

definition register :: "ActionJob \<Rightarrow> JobManager \<Rightarrow> JobManager" where
  "register job m = m \<lparr> jm_jobs := AList.update (aj_ID job) job (jm_jobs m) \<rparr>"

definition StartJob :: "string result \<Rightarrow> instant \<Rightarrow> Project \<Rightarrow> string \<Rightarrow> int \<Rightarrow> JobManager \<Rightarrow> ActionJob result \<times> JobManager" where
  "StartJob randomJobID now project action0 timeoutSecs m =
     (let action = to_lower (trim_space action0) in
      if \<not> ValidJobAction action then (Inl (''invalid action: '' @ action), m)
      else if timeoutSecs < 0 then (Inl ''timeout cannot be negative'', m)
      else case randomJobID of
        Inl e \<Rightarrow> (Inl e, m)
      | Inr i \<Rightarrow> (let job = new_job i (pr_Name project) action now in (Inr job, register job m)))"

definition StartSystemPrune :: "string result \<Rightarrow> instant \<Rightarrow> JobManager \<Rightarrow> ActionJob result \<times> JobManager" where
  "StartSystemPrune randomJobID now m =
     (case randomJobID of
        Inl e \<Rightarrow> (Inl e, m)
      | Inr i \<Rightarrow> (let job = new_job i ''(system)'' ''prune-system-all'' now in (Inr job, register job m)))"

definition save_job :: "ActionJob \<Rightarrow> JobManager \<Rightarrow> (store_error + unit) \<times> JobManager" where
  "save_job job m = (let (r, d) = SaveJob job (jm_db m) in (r, m \<lparr> jm_db := d \<rparr>))"

definition StartSkipped :: "string result \<Rightarrow> instant \<Rightarrow> Project \<Rightarrow> string \<Rightarrow> string \<Rightarrow> JobManager \<Rightarrow> ActionJob result \<times> JobManager" where
  "StartSkipped randomJobID now project action out m =
     (case randomJobID of
        Inl e \<Rightarrow> (Inl e, m)
      | Inr i \<Rightarrow>
          (let job = (new_job i (pr_Name project) action now) \<lparr> aj_Status := ''skipped'', aj_Success := True,
                 aj_Output := out, aj_EndedAt := now, aj_Duration := ''0s'' \<rparr>
           in (Inr job, snd (save_job job m))))"

definition store_text :: "store_error \<Rightarrow> string" where
  "store_text e = (case e of ErrNotFound \<Rightarrow> ''not found'' | DBError s \<Rightarrow> s)"

definition RecordResult :: "string result \<Rightarrow> instant \<Rightarrow> OpResult \<Rightarrow> JobManager \<Rightarrow> ActionJob result \<times> JobManager" where
  "RecordResult randomJobID now result m =
     (case randomJobID of
        Inl e \<Rightarrow> (Inl e, m)
      | Inr i \<Rightarrow>
          (let job = (new_job i (op_Project result) (op_Action result) now) \<lparr>
                 aj_Status := (if op_Success result then ''completed'' else ''failed''), aj_Success := op_Success result,
                 aj_ExitCode := op_ExitCode result, aj_Output := op_Output result, aj_EndedAt := now,
                 aj_Duration := op_Duration result, aj_Error := (if op_Success result then [] else ''operation failed'') \<rparr>;
               (r, m1) = save_job job (register job m)
           in (case r of Inl e \<Rightarrow> (Inl (store_text e), m1) | Inr _ \<Rightarrow> (Inr job, m1))))"

definition GetJob :: "string \<Rightarrow> JobManager \<Rightarrow> ActionJob option \<times> JobManager" where
  "GetJob i m =
     (case map_of (jm_jobs m) i of
        Some job \<Rightarrow> (Some job, m)
      | None \<Rightarrow>
          (let (r, d) = LoadJob i (jm_db m)
           in (case r of Inl _ \<Rightarrow> None | Inr job \<Rightarrow> Some job, m \<lparr> jm_db := d \<rparr>)))"

definition ListAllJobs :: "JobManager \<Rightarrow> ActionJob list \<times> JobManager" where
  "ListAllJobs m =
     (let (r, d) = ListJobs (jm_db m)
      in (map snd (jm_jobs m) @
            (case r of Inl _ \<Rightarrow> [] | Inr stored \<Rightarrow> filter (\<lambda>j. aj_ID j \<notin> fst ` set (jm_jobs m)) stored),
          m \<lparr> jm_db := d \<rparr>))"

section \<open>Output of a job\<close>

definition tail_of :: "nat \<Rightarrow> 'a list \<Rightarrow> 'a list" where
  "tail_of n xs = drop (length xs - n) xs"

lemma tail_of_length: "length (tail_of n xs) \<le> n"
  by (simp add: tail_of_def)

lemma tail_of_append: "n \<le> length ys \<Longrightarrow> tail_of n (xs @ ys) = tail_of n ys"
  by (simp add: tail_of_def)

lemma tail_of_tail: "tail_of n (tail_of n xs @ ys) = tail_of n (xs @ ys)"
proof (cases "length xs \<le> n")
  case True
  then show ?thesis by (simp add: tail_of_def)
next
  case False
  have "xs @ ys = take (length xs - n) xs @ (tail_of n xs @ ys)" by (simp add: tail_of_def)
  moreover have "n \<le> length (tail_of n xs @ ys)" using False by (simp add: tail_of_def)
  ultimately show ?thesis using tail_of_append by metis
qed

lemma append_output: "aj_Output (appendJobOutput txt job) = tail_of maxOutput (aj_Output job @ txt)"
  by (simp add: appendJobOutput_def tail_of_def Let_def)

lemma append_job [simp]:
  "aj_ID (appendJobOutput t j) = aj_ID j" "aj_Project (appendJobOutput t j) = aj_Project j"
  "aj_Action (appendJobOutput t j) = aj_Action j" "aj_Status (appendJobOutput t j) = aj_Status j"
  "aj_StartedAt (appendJobOutput t j) = aj_StartedAt j" "aj_Success (appendJobOutput t j) = aj_Success j"
  "aj_ExitCode (appendJobOutput t j) = aj_ExitCode j" "aj_Error (appendJobOutput t j) = aj_Error j"
  by (simp_all add: appendJobOutput_def Let_def)

lemma fold_append_output:
  "length (aj_Output job) \<le> maxOutput \<Longrightarrow>
   aj_Output (fold appendJobOutput cs job) = tail_of maxOutput (aj_Output job @ concat cs)"
proof (induction cs arbitrary: job)
  case Nil
  then show ?case by (simp add: tail_of_def)
next
  case (Cons c cs)
  have "length (aj_Output (appendJobOutput c job)) \<le> maxOutput"
    by (simp add: append_output tail_of_def)
  then have "aj_Output (fold appendJobOutput (c # cs) job) =
      tail_of maxOutput (aj_Output (appendJobOutput c job) @ concat cs)" using Cons.IH by simp
  then show ?case by (simp add: append_output tail_of_tail)
qed

lemma concat_blocks: "0 < n \<Longrightarrow> concat (blocks n s) = s"
proof (induction n s rule: blocks.induct)
  case (1 n s)
  then show ?case by (subst blocks.simps) auto
qed

text \<open>
  However the output of a command is cut into the blocks that arrive, a job keeps exactly the
  last mebibyte of everything printed so far.
\<close>

theorem job_keeps_last_output:
  assumes "length (aj_Output job) \<le> maxOutput"
  shows "aj_Output (fold appendJobOutput pieces job) = tail_of maxOutput (aj_Output job @ concat pieces)
    \<and> aj_Output (copyJobOutput (concat pieces) job) = aj_Output (fold appendJobOutput pieces job)
    \<and> length (aj_Output (fold appendJobOutput pieces job)) \<le> maxOutput"
  using assms by (simp add: fold_append_output copyJobOutput_def concat_blocks tail_of_length)

theorem job_keeps_last_output_witness:
  "aj_Output (copyJobOutput (concat [''ab'', ''c'']) (new_job ''j'' ''web'' ''pull'' 0)) =
   tail_of maxOutput (''ab'' @ ''c'')"
  using job_keeps_last_output[of "new_job ''j'' ''web'' ''pull'' 0" "[''ab'', ''c'']"] by (simp add: new_job_def)

section \<open>Results of a job\<close>

text \<open>What every step of a job keeps: its identity, its status and the bound on its output.\<close>

definition same_job :: "ActionJob \<Rightarrow> ActionJob \<Rightarrow> bool" where
  "same_job j j' \<longleftrightarrow> aj_ID j' = aj_ID j \<and> aj_Project j' = aj_Project j \<and> aj_Action j' = aj_Action j
     \<and> aj_StartedAt j' = aj_StartedAt j \<and> aj_Status j' = aj_Status j
     \<and> (length (aj_Output j) \<le> maxOutput \<longrightarrow> length (aj_Output j') \<le> maxOutput)"

named_theorems job_steps

lemma same_job_refl [job_steps]: "same_job j j" by (simp add: same_job_def)

lemma same_job_trans: "same_job a b \<Longrightarrow> same_job b c \<Longrightarrow> same_job a c" by (simp add: same_job_def)

lemma same_job_append [job_steps]: "same_job a b \<Longrightarrow> same_job a (appendJobOutput t b)"
  by (simp add: same_job_def append_output tail_of_length)

lemma same_job_results [job_steps]:
  "same_job a b \<Longrightarrow> same_job a (b \<lparr> aj_Success := s, aj_ExitCode := c \<rparr>)"
  "same_job a b \<Longrightarrow> same_job a (b \<lparr> aj_Success := s, aj_ExitCode := c, aj_Error := err \<rparr>)"
  "same_job a b \<Longrightarrow> same_job a (setJobError err b)"
  by (simp_all add: same_job_def setJobError_def)

lemma same_job_copy [job_steps]: "same_job a b \<Longrightarrow> same_job a (copyJobOutput s b)"
proof -
  have "same_job a b \<Longrightarrow> same_job a (fold appendJobOutput cs b)" for cs
    by (induction cs arbitrary: b) (simp_all add: same_job_append)
  then show "same_job a b \<Longrightarrow> same_job a (copyJobOutput s b)" by (simp add: copyJobOutput_def)
qed

lemma runCommandJob_result:
  "runCommandJob H t name args job w = ((ok, code), job', w') \<Longrightarrow> same_job job job' \<and> (ok \<longrightarrow> code = 0)"
  by (auto simp: runCommandJob_def Let_def intro!: job_steps
      split: prod.splits if_splits option.splits exec_error.splits)

lemma runComposeJob_result:
  "runComposeJob H p t args job w = ((ok, code), job', w') \<Longrightarrow> same_job job job' \<and> (ok \<longrightarrow> code = 0)"
  using runCommandJob_result by (fastforce simp: runComposeJob_def Let_def split: prod.splits)

definition honest_job :: "ActionJob \<Rightarrow> ActionJob \<Rightarrow> bool" where
  "honest_job j j' \<longleftrightarrow> same_job j j' \<and> (aj_Success j' \<longrightarrow> aj_ExitCode j' = 0)"

lemma outcome_honest:
  "(\<And>ok code j w. r = ((ok, code), j, w) \<Longrightarrow> same_job job j \<and> (ok \<longrightarrow> code = 0)) \<Longrightarrow> honest_job job (fst (outcome r))"
  by (cases r) (auto simp: outcome_def honest_job_def Let_def intro!: job_steps split: prod.splits)

lemma preflight_honest: "honest_job job (preflight_failure b pf job)"
  by (auto simp: preflight_failure_def honest_job_def intro!: job_steps)

lemma verify_exit: "op_Success (fst (verifyUpdateServices H p w)) \<Longrightarrow> op_ExitCode (fst (verifyUpdateServices H p w)) = 0"
proof -
  obtain s1 w1 where s1: "updateServiceStates H p w = (s1, w1)" by force
  show "op_Success (fst (verifyUpdateServices H p w)) \<Longrightarrow> op_ExitCode (fst (verifyUpdateServices H p w)) = 0"
    using s1 by (auto simp: verifyUpdateServices_def Let_def split: prod.splits sum.splits if_splits)
qed

lemma honest_after: "same_job a b \<Longrightarrow> honest_job b c \<Longrightarrow> honest_job a c"
  using same_job_trans by (auto simp: honest_job_def)

lemma runUpdateJob_honest: "honest_job job (fst (runUpdateJob H e p t job w))"
proof (cases "HasHook H e ''post'' ''update'' (pr_Name p) w")
  case True
  let ?j = "appendJobOutput (''=== update hook ==='' @ [newline]) job"
  have "honest_job ?j (fst (outcome (runCommandJob H 300 (hookPath e ''post'' ''update'' (pr_Name p)) [pr_Name p, pr_Dir p] ?j w)))"
    by (rule outcome_honest) (rule runCommandJob_result)
  then show ?thesis using True honest_after[OF same_job_append[OF same_job_refl]] by (simp add: runUpdateJob_def)
next
  case False
  obtain pf w1 where pf: "CheckComposeServiceIdentity H p w = (pf, w1)" by force
  let ?j0 = "appendJobOutput (''=== docker compose pull ==='' @ [newline]) job"
  obtain ok1 c1 j1 w2 where pull: "runComposeJob H p t (composePullArgs p) ?j0 w1 = ((ok1, c1), j1, w2)" by (metis surj_pair)
  let ?j1 = "appendJobOutput ([newline] @ ''=== docker compose up -d ==='' @ [newline]) j1"
  obtain ok2 c2 j2 w3 where up: "runComposeJob H p 300 [''up'', ''-d''] ?j1 w2 = ((ok2, c2), j2, w3)" by (metis surj_pair)
  obtain v w4 where v: "verifyUpdateServices H p w3 = (v, w4)" by force
  have s1: "same_job job j1" using runComposeJob_result[OF pull] same_job_append[OF same_job_refl] same_job_trans by blast
  then have s2: "same_job job j2" using runComposeJob_result[OF up] same_job_append same_job_trans by blast
  have "honest_job job (j1 \<lparr> aj_Success := False, aj_ExitCode := c1 \<rparr>)" "honest_job job (j2 \<lparr> aj_Success := False, aj_ExitCode := c2 \<rparr>)"
    using s1 s2 by (auto simp: honest_job_def intro!: job_steps)
  moreover have "op_Success v \<Longrightarrow> op_ExitCode v = 0" using verify_exit[of H p w3] v by simp
  then have "honest_job job ((appendJobOutput (op_Output v) (appendJobOutput x j2)) \<lparr> aj_Success := op_Success v,
      aj_ExitCode := op_ExitCode v, aj_Error := y \<rparr>)" for x y
    using s2 by (auto simp: honest_job_def intro!: job_steps)
  ultimately show ?thesis
    using False pf pull up v preflight_honest[of job _ pf] unfolding runUpdateJob_def by (simp add: Let_def)
qed

lemma runCheckJob_honest: "honest_job job (fst (runCheckJob H J enc p job w pd))"
  by (auto simp: runCheckJob_def honest_job_def Let_def intro!: job_steps split: prod.splits)

lemma compose_honest: "honest_job job (fst (outcome (runComposeJob H p t args job w)))"
  by (rule outcome_honest) (rule runComposeJob_result)

lemma run_action_honest:
  assumes "ValidJobAction (aj_Action job)"
  shows "honest_job job (fst (run_action H e J enc p t job w pd))"
  using assms compose_honest[of job H p] runUpdateJob_honest[of job H e p t w] runCheckJob_honest[of job H J enc p w pd]
    preflight_honest[of job "[]"]
  by (simp add: run_action_def ValidJobAction_def Let_def split_beta) blast


definition no_manager :: JobManager where
  "no_manager = \<lparr> jm_jobs = [], jm_db = idle_db \<rparr>"

definition controller_project :: Project where
  "controller_project = web_project \<lparr> pr_Name := ''stack-manager'' \<rparr>"

definition update_job_of :: "Project \<Rightarrow> ActionJob" where
  "update_job_of p = fst (run demo_host demo_engine demo_decoders (\<lambda>_. []) p 0 (new_job ''j'' (pr_Name p) ''update'' 0) () empty_project_db)"


text \<open>
  The refusal to update the server's own project covers direct operations only: a job of the
  action \<^verbatim>\<open>update\<close>, which is what schedules and agents start, pulls and restarts that project.
\<close>

theorem update_job_of_controller_runs:
  "IsControllerProject demo_host controller_project
   \<and> map op_Success (fst (Update demo_host demo_engine controller_project ())) = [False]
   \<and> aj_Success (update_job_of controller_project)"
proof -
  let ?p = controller_project
  have compose: "\<exists>j. runComposeJob demo_host p t args job () = ((True, 0), j, ())" for p t args job
    by (auto simp: runComposeJob_def runCommandJob_def demo_host_def answer_def Let_def split: prod.splits)
  have hook: "\<not> HasHook demo_host demo_engine ''post'' ''update'' (pr_Name ?p) ()" by code_simp
  have pre: "op_Success (fst (CheckComposeServiceIdentity demo_host ?p ()))" by code_simp
  have ver: "op_Success (fst (verifyUpdateServices demo_host ?p ()))" by code_simp
  have "aj_Success (fst (runUpdateJob demo_host demo_engine ?p 0 job ()))" for job
    using hook pre ver compose[of ?p 0 "composePullArgs ?p"] compose[of ?p 300 "[''up'', ''-d'']"]
    unfolding runUpdateJob_def by (auto simp: Let_def split: prod.splits) (metis Pair_inject)+
  then have "aj_Success (update_job_of ?p)"
    by (simp add: update_job_of_def run_def run_action_def new_job_def finish_job_def settle_status_def Let_def split_beta)
  moreover have "IsControllerProject demo_host ?p" "map op_Success (fst (Update demo_host demo_engine ?p ())) = [False]"
    by code_simp+
  ultimately show ?thesis by blast
qed

end
