(* ===== verification/Discovery.thy ===== *)
theory Discovery
  imports UpdateChecks
begin

text \<open>
  Finding, marking and deleting projects: \<^verbatim>\<open>server/internal/core/discover.go\<close>, \<^verbatim>\<open>host_ports.go\<close> and the
  project operations of \<^verbatim>\<open>engine.go\<close>. The file system is an argument: a record of functions on the
  state of the machine. The documentation list of a project is an argument of its construction.
\<close>

section \<open>Definitions\<close>

subsection \<open>The file system\<close>

text \<open>What \<^verbatim>\<open>os.Stat\<close> tells about a path.\<close>

datatype stat = Missing | Unreadable | IsFile | IsExecutable | IsDir

record 'w disk =
  dk_stat :: "string \<Rightarrow> 'w \<Rightarrow> stat"
  dk_readdir :: "string \<Rightarrow> 'w \<Rightarrow> (string \<times> bool) list result"
  dk_read :: "string \<Rightarrow> 'w \<Rightarrow> string option"
  dk_create :: "string \<Rightarrow> 'w \<Rightarrow> string option \<times> 'w"
  dk_remove :: "string \<Rightarrow> 'w \<Rightarrow> string option \<times> 'w"
  dk_remove_all :: "string \<Rightarrow> 'w \<Rightarrow> string option \<times> 'w"
  dk_abs :: "string \<Rightarrow> string result"

text \<open>
  \<^verbatim>\<open>filepath.Rel\<close> for two absolute paths, by their components.
\<close>

definition components :: "string \<Rightarrow> string list" where
  "components p = filter (\<lambda>c. c \<noteq> []) (split_on (CHR ''/'') p)"

fun common :: "string list \<Rightarrow> string list \<Rightarrow> nat" where
  "common (a # as) (b # bs) = (if a = b then Suc (common as bs) else 0)"
| "common _ _ = 0"

definition path_rel :: "string \<Rightarrow> string \<Rightarrow> string" where
  "path_rel base targ =
     (let b = components base; t = components targ; k = common b t;
          r = replicate (length b - k) ''..'' @ drop k t
      in if r = [] then ''.'' else join ''/'' r)"

datatype core_error = NotFound string | CoreError string

fun core_text :: "core_error \<Rightarrow> string" where
  "core_text (NotFound s) = s"
| "core_text (CoreError s) = s"

subsection \<open>Ports of host-network containers\<close>

definition valid_port :: "string \<Rightarrow> int option" where
  "valid_port s = (let (n, ok) = atoi s in if ok \<and> 0 < n \<and> n \<le> 65535 then Some n else None)"

definition quote_marks :: string where "quote_marks = [CHR 0x22, CHR 0x27]"

definition declared_port :: "string \<Rightarrow> string \<Rightarrow> int option" where
  "declared_port key v =
     (if \<not> has_suffix (to_upper key) ''PORT'' then None
      else valid_port (trim_right (trim_left (trim_space v) quote_marks) quote_marks))"

definition envDeclaredPorts :: "'w disk \<Rightarrow> string \<Rightarrow> 'w \<Rightarrow> int list" where
  "envDeclaredPorts K path w =
     (case dk_read K path w of
        None \<Rightarrow> []
      | Some data \<Rightarrow>
          (let m = parseEnvMap data; keys = remdups (map envKey (split_on newline data))
           in List.map_filter (\<lambda>k. case m k of Some v \<Rightarrow> declared_port k v | None \<Rightarrow> None) keys))"

definition exposed_port :: "string \<Rightarrow> int option" where
  "exposed_port spec =
     (let (num, proto) = (case cut_at (CHR ''/'') spec of Some (a, b) \<Rightarrow> (a, b) | None \<Rightarrow> (spec, []))
      in if proto \<noteq> [] \<and> proto \<noteq> ''tcp'' then None else valid_port num)"

text \<open>\<open>decode\<close> stands for the keys of the JSON object that \<^verbatim>\<open>docker inspect\<close> prints.\<close>

definition parseExposedTCPPorts :: "(string \<Rightarrow> string list option) \<Rightarrow> string \<Rightarrow> int list" where
  "parseExposedTCPPorts decode raw =
     (case decode raw of None \<Rightarrow> [] | Some specs \<Rightarrow> List.map_filter exposed_port specs)"

definition imageExposedTCPPorts :: "'w host \<Rightarrow> (string \<Rightarrow> string list option) \<Rightarrow> string \<Rightarrow> 'w \<Rightarrow> int list \<times> 'w" where
  "imageExposedTCPPorts H decode containerID w =
     (let (r, w1) = ho_exec H ''docker'' [''inspect'', ''--format'', ''{{json .Config.ExposedPorts}}'', containerID] w
      in (if cm_error r \<noteq> None then [] else parseExposedTCPPorts decode (cm_stdout r), w1))"

definition uniqueSortedPorts :: "int list \<Rightarrow> int list" where
  "uniqueSortedPorts ports = sort (remdups ports)"

fun fill_ports :: "'w host \<Rightarrow> (string \<Rightarrow> string list option) \<Rightarrow> int list \<Rightarrow> Container list \<Rightarrow> 'w \<Rightarrow> Container list \<times> 'w" where
  "fill_ports H decode env [] w = ([], w)"
| "fill_ports H decode env (c # cs) w =
     (if \<not> ct_HostNetwork c then (let (cs', w2) = fill_ports H decode env cs w in (c # cs', w2))
      else
        (let (ports, w1) = (if env = [] \<and> ct_ID c \<noteq> [] then imageExposedTCPPorts H decode (ct_ID c) w else (env, w));
             (cs', w2) = fill_ports H decode env cs w1
         in (c \<lparr> ct_HostPorts := uniqueSortedPorts ports \<rparr> # cs', w2)))"

definition fillHostNetworkPorts :: "'w host \<Rightarrow> 'w disk \<Rightarrow> (string \<Rightarrow> string list option) \<Rightarrow> Project \<Rightarrow> 'w \<Rightarrow> Project \<times> 'w" where
  "fillHostNetworkPorts H K decode p w =
     (let (cs, w1) = fill_ports H decode (envDeclaredPorts K (path_join (pr_Dir p) ''.env'') w) (pr_Containers p) w
      in (p \<lparr> pr_Containers := cs \<rparr>, w1))"

subsection \<open>Discovery\<close>

definition composeFileNames :: "string list" where
  "composeFileNames = [''compose.yml'', ''compose.yaml'', ''docker-compose.yml'', ''docker-compose.yaml'']"

definition plain_file :: "stat \<Rightarrow> bool" where
  "plain_file s \<longleftrightarrow> s = IsFile \<or> s = IsExecutable"

definition composeFileForDir :: "'w disk \<Rightarrow> string \<Rightarrow> 'w \<Rightarrow> string" where
  "composeFileForDir K dir w =
     (case find (\<lambda>p. plain_file (dk_stat K p w)) (map (path_join dir) composeFileNames) of
        Some p \<Rightarrow> p | None \<Rightarrow> [])"

definition inactiveMarker :: string where "inactiveMarker = ''.inactive''"

definition isInactive :: "'w disk \<Rightarrow> string \<Rightarrow> 'w \<Rightarrow> bool" where
  "isInactive K dir w \<longleftrightarrow> dk_stat K (path_join dir inactiveMarker) w \<notin> {Missing, Unreadable}"

text \<open>The decoders that building a project needs besides those of theory \<open>UpdateChecks\<close>, and its documents.\<close>

record 'w views =
  vw_container :: "string \<Rightarrow> (string \<times> string \<times> string \<times> string \<times> string \<times> string) option"
  vw_ports :: "string \<Rightarrow> string list option"
  vw_docs :: "Project \<Rightarrow> 'w \<Rightarrow> ProjectDoc list"

definition base_name :: "string \<Rightarrow> string" where
  "base_name dir = (case rev (components dir) of [] \<Rightarrow> ''/'' | c # _ \<Rightarrow> c)"

definition buildProject :: "'w host \<Rightarrow> 'w disk \<Rightarrow> 'w views \<Rightarrow> decoders \<Rightarrow> Engine \<Rightarrow> string \<Rightarrow> string \<Rightarrow> 'w \<Rightarrow> Project \<times> 'w" where
  "buildProject H K V J e dir composeFile w =
     (let name = base_name dir;
          hooks = map (\<lambda>c. (c, True)) (filter (\<lambda>c. dk_stat K (hookPath e ''post'' c name) w = IsExecutable)
            [''update'', ''pull'', ''restart'', ''down'', ''up'']);
          ((containers, state), w1) = getContainers H (vw_container V) name w;
          p0 = blank_project \<lparr> pr_Name := name, pr_Dir := dir, pr_ComposeFile := composeFile,
            pr_Inactive := isInactive K dir w, pr_HasHook := hooks, pr_State := state,
            pr_Running := (state = ''running''), pr_Containers := containers \<rparr>;
          (p1, w2) = fillHostNetworkPorts H K (vw_ports V) p0 w1;
          (sources, w3) = ImageSources H J p1 w2;
          p2 = p1 \<lparr> pr_ImageSources := sources \<rparr>
      in (p2 \<lparr> pr_Documentation := vw_docs V p2 w3, pr_IsGit := (dk_stat K (path_join dir ''.git'') w3 = IsDir) \<rparr>, w3))"

fun build_entries :: "'w host \<Rightarrow> 'w disk \<Rightarrow> 'w views \<Rightarrow> decoders \<Rightarrow> Engine \<Rightarrow> string \<Rightarrow> (string \<times> bool) list \<Rightarrow> 'w \<Rightarrow> Project list \<times> 'w" where
  "build_entries H K V J e root [] w = ([], w)"
| "build_entries H K V J e root ((name, is_dir) # es) w =
     (let dir = path_join root name; cf = composeFileForDir K dir w in
      if \<not> is_dir \<or> has_prefix name ''.'' \<or> cf = [] then build_entries H K V J e root es w
      else
        (let (p, w1) = buildProject H K V J e dir cf w; (ps, w2) = build_entries H K V J e root es w1
         in (p # ps, w2)))"

definition discoverInRoot :: "'w host \<Rightarrow> 'w disk \<Rightarrow> 'w views \<Rightarrow> decoders \<Rightarrow> Engine \<Rightarrow> string \<Rightarrow> 'w \<Rightarrow> Project list result \<times> 'w" where
  "discoverInRoot H K V J e root w =
     (if dk_stat K root w = Missing then (Inl ''no such file or directory'', w)
      else
        (let cf = composeFileForDir K root w;
             (own, w1) = (if cf \<noteq> [] then (let (p, w1) = buildProject H K V J e root cf w in ([p], w1)) else ([], w))
         in case dk_readdir K root w1 of
              Inl err \<Rightarrow> (Inl err, w1)
            | Inr entries \<Rightarrow>
                (let (ps, w2) = build_entries H K V J e root (sort_key fst entries) w1 in (Inr (own @ ps), w2))))"

text \<open>Of several projects with one name the first counts.\<close>

fun add_new :: "Project list \<Rightarrow> Project list \<Rightarrow> Project list" where
  "add_new acc [] = acc"
| "add_new acc (p # ps) =
     (if \<exists>q \<in> set acc. pr_Name q = pr_Name p then add_new acc ps else add_new (acc @ [p]) ps)"

fun discover_roots :: "'w host \<Rightarrow> 'w disk \<Rightarrow> 'w views \<Rightarrow> decoders \<Rightarrow> Engine \<Rightarrow> string list \<Rightarrow> Project list \<Rightarrow> 'w \<Rightarrow> Project list \<times> 'w" where
  "discover_roots H K V J e [] acc w = (acc, w)"
| "discover_roots H K V J e (root # roots) acc w =
     (case discoverInRoot H K V J e root w of
        (Inl _, w1) \<Rightarrow> discover_roots H K V J e roots acc w1
      | (Inr found, w1) \<Rightarrow> discover_roots H K V J e roots (add_new acc found) w1)"

definition DiscoverProjects :: "'w host \<Rightarrow> 'w disk \<Rightarrow> 'w views \<Rightarrow> decoders \<Rightarrow> Engine \<Rightarrow> 'w \<Rightarrow> (core_error + Project list) \<times> 'w" where
  "DiscoverProjects H K V J e w =
     (let (projects, w1) = discover_roots H K V J e (AllRoots e) [] w
      in (if projects = [] \<and> dk_stat K (en_RootDir e) w1 = Missing
          then Inl (NotFound (''root directory does not exist: '' @ en_RootDir e)) else Inr projects, w1))"

definition GetProject :: "'w host \<Rightarrow> 'w disk \<Rightarrow> 'w views \<Rightarrow> decoders \<Rightarrow> Engine \<Rightarrow> string \<Rightarrow> 'w \<Rightarrow> (core_error + Project) \<times> 'w" where
  "GetProject H K V J e name w =
     (let (r, w1) = DiscoverProjects H K V J e w
      in (case r of
            Inl err \<Rightarrow> Inl err
          | Inr projects \<Rightarrow> (case find (\<lambda>p. pr_Name p = name) projects of
              Some p \<Rightarrow> Inr p | None \<Rightarrow> Inl (NotFound (''project not found: '' @ name))), w1))"

definition FilterProjects :: "Project list \<Rightarrow> string list \<Rightarrow> string list \<Rightarrow> bool \<Rightarrow> bool \<Rightarrow> bool \<Rightarrow> Project list" where
  "FilterProjects projects only exclude includeInactive onlyInactive runningOnly =
     filter (\<lambda>p. (if onlyInactive then pr_Inactive p else \<not> (pr_Inactive p \<and> \<not> includeInactive))
       \<and> (only \<noteq> [] \<longrightarrow> pr_Name p \<in> set only)
       \<and> (exclude \<noteq> [] \<longrightarrow> pr_Name p \<notin> set exclude)
       \<and> \<not> (runningOnly \<and> \<not> pr_Running p)) projects"

subsection \<open>Marking and deleting\<close>

definition SetInactive :: "'w host \<Rightarrow> 'w disk \<Rightarrow> 'w views \<Rightarrow> decoders \<Rightarrow> Engine \<Rightarrow> string \<Rightarrow> bool \<Rightarrow> 'w \<Rightarrow> (core_error + unit) \<times> 'w" where
  "SetInactive H K V J e name inactive w =
     (case GetProject H K V J e name w of
        (Inl err, w1) \<Rightarrow> (Inl err, w1)
      | (Inr project, w1) \<Rightarrow>
          (let marker = path_join (pr_Dir project) inactiveMarker in
           if inactive then
             (case dk_create K marker w1 of
                (Some err, w2) \<Rightarrow> (Inl (CoreError (''failed to create inactive marker: '' @ err)), w2)
              | (None, w2) \<Rightarrow> (Inr (), w2))
           else if dk_stat K marker w1 = Missing then (Inr (), w1)
           else
             (case dk_remove K marker w1 of
                (Some err, w2) \<Rightarrow> (Inl (CoreError (''failed to remove inactive marker: '' @ err)), w2)
              | (None, w2) \<Rightarrow> (Inr (), w2))))"

definition looksLikeContainerID :: "string \<Rightarrow> bool" where
  "looksLikeContainerID v \<longleftrightarrow> 12 \<le> length v \<and> length v \<le> 64 \<and> (\<forall>c \<in> set v. is_hex_char c)"

definition validDockerImageID :: "string \<Rightarrow> bool" where
  "validDockerImageID v \<longleftrightarrow>
     has_prefix v ''sha256:'' \<and> length v = 7 + 64 \<and> looksLikeContainerID (trim_prefix v ''sha256:'')"

definition deletionHelperError :: "string \<Rightarrow> ExecResult \<Rightarrow> string" where
  "deletionHelperError runErr result =
     (let d = trim_space (ex_Stderr result); detail = (if d = [] then trim_space (ex_Stdout result) else d)
      in ''privileged deletion helper failed: '' @ (if detail \<noteq> [] then detail else runErr))"

definition helper_args :: "string \<Rightarrow> string \<Rightarrow> string \<Rightarrow> string list" where
  "helper_args rootAbs imageID projectRel =
     [''run'', ''--rm'', ''--pull=never'', ''--user'', ''0:0'', ''--network'', ''none'', ''--read-only'',
      ''--pids-limit'', ''64'', ''--cap-drop'', ''ALL'', ''--cap-add'', ''DAC_OVERRIDE'', ''--cap-add'', ''FOWNER'',
      ''--security-opt'', ''no-new-privileges'', ''--mount'',
      ''type=bind,source='' @ rootAbs @ '',target=/managed-root'', ''--entrypoint'', ''/bin/rm'', imageID,
      ''-rf'', ''--'', path_join ''/managed-root'' projectRel]"

text \<open>
  \<open>removeProjectDirectory\<close>, with the production \<open>dockerExec\<close> and \<open>hostname\<close>. The server in a container
  deletes through a helper container that sees only the root directory.
\<close>

definition removeProjectDirectory :: "'w host \<Rightarrow> 'w disk \<Rightarrow> string \<Rightarrow> string \<Rightarrow> string \<Rightarrow> 'w \<Rightarrow> string option \<times> 'w" where
  "removeProjectDirectory H K projectAbs rootAbs projectRel w =
     (let containerID = trim_space (ho_hostname H) in
      if \<not> looksLikeContainerID containerID then dk_remove_all K projectAbs w
      else
        (let ((inspect, err), w1) = DockerExecWithTimeout H (2 * minute) [''inspect'', ''--format'', ''{{.Image}}'', containerID] w
         in case err of
              Some e \<Rightarrow> (Some (''privileged deletion helper unavailable: cannot inspect controller container: '' @ exec_text e), w1)
            | None \<Rightarrow>
                (let imageID = trim_space (ex_Stdout inspect) in
                 if \<not> validDockerImageID imageID
                 then (Some ''privileged deletion helper unavailable: controller image ID was invalid'', w1)
                 else
                   (let ((remove, err2), w2) = DockerExecWithTimeout H (2 * minute) (helper_args rootAbs imageID projectRel) w1
                    in case err2 of
                         Some e \<Rightarrow> (Some (deletionHelperError (exec_text e) remove), w2)
                       | None \<Rightarrow>
                           (case dk_stat K projectAbs w2 of
                              Missing \<Rightarrow> (None, w2)
                            | Unreadable \<Rightarrow> (Some ''cannot verify project directory removal: unreadable'', w2)
                            | _ \<Rightarrow> (Some ''privileged deletion helper exited successfully but the project directory still exists'', w2))))))"

record DeleteProjectRequest =
  dp_ConfirmName :: string
  dp_StopFirst :: bool

text \<open>The root that has the project as a direct child: the root and the name below it, or a refusal.\<close>

fun containing_root :: "'w disk \<Rightarrow> string \<Rightarrow> string list \<Rightarrow> string + (string \<times> string) option" where
  "containing_root K projectAbs [] = Inr None"
| "containing_root K projectAbs (root # roots) =
     (case dk_abs K root of
        Inl _ \<Rightarrow> containing_root K projectAbs roots
      | Inr rootAbs \<Rightarrow>
          if projectAbs = rootAbs then Inl ''refusing to delete the configured Docker root''
          else
            (let rel = path_rel rootAbs projectAbs in
             if rel = ''.'' \<or> has_prefix rel ''../'' \<or> rel = ''..'' \<or> has_prefix rel ''/''
             then containing_root K projectAbs roots
             else if CHR ''/'' \<notin> set rel then Inr (Some (rootAbs, rel))
             else containing_root K projectAbs roots))"

definition delete_result :: "string \<Rightarrow> bool \<Rightarrow> int \<Rightarrow> string \<Rightarrow> OpResult" where
  "delete_result name ok code out = \<lparr> op_Project = name, op_Action = ''delete'', op_Success = ok, op_Output = out,
     op_ExitCode = code, op_Duration = [] \<rparr>"

text \<open>\<open>DeleteProject\<close> returns a result, an error, or both.\<close>

definition DeleteProject ::
  "'w host \<Rightarrow> 'w disk \<Rightarrow> 'w views \<Rightarrow> decoders \<Rightarrow> Engine \<Rightarrow> string \<Rightarrow> DeleteProjectRequest \<Rightarrow> 'w \<Rightarrow>
   (OpResult option \<times> core_error option) \<times> 'w" where
  "DeleteProject H K V J e name req w =
     (case GetProject H K V J e name w of
        (Inl err, w1) \<Rightarrow> ((None, Some err), w1)
      | (Inr project, w1) \<Rightarrow>
          if dp_ConfirmName req \<noteq> pr_Name project
          then ((None, Some (CoreError ''confirmation must exactly match project name'')), w1)
          else if \<not> pr_Inactive project
          then ((None, Some (CoreError ''project must be marked inactive before it can be deleted'')), w1)
          else
            (case dk_abs K (pr_Dir project) of
               Inl err \<Rightarrow> ((None, Some (CoreError err)), w1)
             | Inr projectAbs \<Rightarrow>
                 (case containing_root K projectAbs (AllRoots e) of
                    Inl err \<Rightarrow> ((None, Some (CoreError err)), w1)
                  | Inr None \<Rightarrow> ((None, Some (CoreError ''project directory is outside the configured Docker roots'')), w1)
                  | Inr (Some (rootAbs, rel)) \<Rightarrow>
                      (let ((containers, _), w2) =
                             (if dp_StopFirst req then getContainers H (vw_container V) (pr_Name project) w1 else (([], []), w1));
                           (down, w3) = (if dp_StopFirst req \<and> containers \<noteq> [] then map_prod Some id (Down H project w2) else (None, w2));
                           out = (case down of
                               Some d \<Rightarrow> ''=== docker compose down ==='' @ [newline] @ op_Output d @ [newline]
                             | None \<Rightarrow> if dp_StopFirst req
                                 then ''=== docker compose down ==='' @ [newline] @ ''no running containers, skipping'' @ [newline] else [])
                       in if (case down of Some d \<Rightarrow> \<not> op_Success d | None \<Rightarrow> False)
                          then ((Some (delete_result (pr_Name project) False (op_ExitCode (the down)) out),
                                 Some (CoreError ''compose down failed'')), w3)
                          else
                            (case removeProjectDirectory H K projectAbs rootAbs rel w3 of
                               (Some err, w4) \<Rightarrow>
                                 ((Some (delete_result (pr_Name project) False 1 (out @ err @ [newline])), Some (CoreError err)), w4)
                             | (None, w4) \<Rightarrow>
                                 ((Some (delete_result (pr_Name project) True 0
                                     (out @ ''deleted directory: '' @ projectAbs @ [newline])), None), w4))))))"

section \<open>Deletion stays below the roots\<close>

lemma common_le: "common as bs \<le> length as"
  by (induction as bs rule: common.induct) auto

lemma common_prefix: "take (common as bs) as = take (common as bs) bs"
  by (induction as bs rule: common.induct) auto

lemma components_no_slash: "c \<in> set (components p) \<Longrightarrow> CHR ''/'' \<notin> set c \<and> c \<noteq> []"
  using split_on_no_sep by (auto simp: components_def)

lemma slash_in_join: "2 \<le> length xs \<Longrightarrow> CHR ''/'' \<in> set (join ''/'' xs)"
  by (induction "''/''" xs rule: join.induct) auto

lemma join_dotdot: "join ''/'' (''..'' # x # xs) = ''../'' @ join ''/'' (x # xs)"
  by simp

text \<open>A relative path that is one plain name leads to a direct child.\<close>

lemma path_rel_child:
  assumes "path_rel base targ = rel" and "CHR ''/'' \<notin> set rel" and "rel \<noteq> ''.''" and "rel \<noteq> ''..''"
  shows "components targ = components base @ [rel]"
proof -
  let ?b = "components base" and ?t = "components targ"
  let ?k = "common ?b ?t"
  let ?r = "replicate (length ?b - ?k) ''..'' @ drop ?k ?t"
  have r: "?r \<noteq> []" "rel = join ''/'' ?r"
    using assms(1,3) by (auto simp: path_rel_def Let_def split: if_splits)
  then have "\<not> 2 \<le> length ?r" using slash_in_join assms(2) by metis
  then obtain x where x: "?r = [x]" using r(1) by (cases ?r) (auto simp: Suc_le_eq length_Suc_conv)
  then have rel: "rel = x" using r(2) by simp
  have k: "length ?b - ?k = 0"
  proof (rule ccontr)
    assume "length ?b - ?k \<noteq> 0"
    then have "hd ?r = ''..''" by simp
    then show False using x rel assms(4) by simp
  qed
  then have "take ?k ?t = ?b" using common_prefix[of ?b ?t] common_le[of ?b ?t] by simp
  then show ?thesis using x k rel by (metis append_Nil append_take_drop_id replicate_0)
qed

lemma containing_root_child:
  "containing_root K p roots = Inr (Some (r, rel)) \<Longrightarrow>
   \<exists>root \<in> set roots. dk_abs K root = Inr r \<and> components p = components r @ [rel]"
proof (induction roots)
  case (Cons root roots)
  show ?case
  proof (cases "dk_abs K root")
    case (Inr a)
    let ?rel = "path_rel a p"
    have "containing_root K p roots = Inr (Some (r, rel)) \<or>
        (r = a \<and> rel = ?rel \<and> CHR ''/'' \<notin> set ?rel \<and> ?rel \<noteq> ''.'' \<and> ?rel \<noteq> ''..'')"
      using Cons.prems unfolding containing_root.simps Inr Let_def sum.case
      by (cases "p = a"; cases "CHR ''/'' \<in> set ?rel") (simp_all only: if_True if_False sum.simps split: if_splits, auto)
    then show ?thesis using Cons.IH Inr path_rel_child[of a p ?rel] by auto
  qed (use Cons in auto)
qed simp


lemma GetProject_name:
  "fst (GetProject H K V J e name w) = Inr p \<Longrightarrow> pr_Name p = name"
  by (auto simp: GetProject_def Let_def split: prod.splits sum.splits option.splits dest: find_Some_in)

definition demo_disk :: "unit disk" where
  "demo_disk = \<lparr>
     dk_stat = (\<lambda>p _. if p = ''/docker/web/compose.yml'' \<or> p = ''/docker/web/.inactive'' then IsFile
                      else if p = ''/docker'' then IsDir else Missing),
     dk_readdir = (\<lambda>_ _. Inr [(''web'', True)]), dk_read = (\<lambda>_ _. None), dk_create = (\<lambda>_ w. (None, w)),
     dk_remove = (\<lambda>_ w. (None, w)), dk_remove_all = (\<lambda>_ w. (None, w)), dk_abs = Inr \<rparr>"

definition demo_views :: "unit views" where
  "demo_views = \<lparr> vw_container = (\<lambda>_. None), vw_ports = (\<lambda>_. None), vw_docs = (\<lambda>_ _. []) \<rparr>"

definition delete_web :: DeleteProjectRequest where
  "delete_web = \<lparr> dp_ConfirmName = ''web'', dp_StopFirst = True \<rparr>"


end
