(* ===== verification/Scheduler.thy ===== *)
theory Scheduler
  imports Jobs Discovery
begin

text \<open>
  The schedule manager: \<^verbatim>\<open>server/internal/core/scheduler.go\<close>. A tick dispatches every due schedule: a
  local job, a command for a callback agent, or a request to a remote agent. The goroutines that
  run beside the dispatcher are an argument \<open>others\<close>: what they do between two of its steps. The
  HTTP client, the URL parser and the JSON decoders of the answers are arguments as well.
\<close>

section \<open>Definitions\<close>

record 'w sched =
  sc_world :: 'w
  sc_jobs :: JobManager
  sc_projects :: project_db

record http_reply =
  hr_StatusCode :: int
  hr_Status :: string
  hr_Body :: string

text \<open>Everything a server is made of.\<close>

record 'w site =
  si_host :: "'w host"
  si_disk :: "'w disk"
  si_views :: "'w views"
  si_decoders :: decoders
  si_engine :: Engine
  si_location :: location
  si_node :: string
  si_http :: "string \<Rightarrow> string \<Rightarrow> (string \<times> string) list \<Rightarrow> string \<Rightarrow> 'w \<Rightarrow> http_reply result \<times> 'w"
  si_url :: "string \<Rightarrow> (string \<times> string \<times> string) option"
  si_job :: "string \<Rightarrow> (string \<times> string \<times> ActionJob option) result"
  si_op :: "string \<Rightarrow> (string \<times> string \<times> OpResult option) result"

abbreviation sched_db :: "'w sched \<Rightarrow> db" where
  "sched_db s \<equiv> jm_db (sc_jobs s)"

text \<open>A store operation on the state of the scheduler.\<close>

definition on_db :: "(db \<Rightarrow> 'a reply) \<Rightarrow> 'w sched \<Rightarrow> (store_error + 'a) \<times> 'w sched" where
  "on_db f s = (let (r, d) = f (sched_db s) in (r, s \<lparr> sc_jobs := (sc_jobs s) \<lparr> jm_db := d \<rparr> \<rparr>))"

definition now_at :: "'w site \<Rightarrow> 'w sched \<Rightarrow> instant" where
  "now_at S s = ho_now (si_host S) (sc_world s)"

definition mark :: "'w site \<Rightarrow> int \<Rightarrow> instant \<Rightarrow> string \<Rightarrow> string \<Rightarrow> string \<Rightarrow> 'w sched \<Rightarrow> (store_error + unit) \<times> 'w sched" where
  "mark S i nextRun jobID status errText s =
     on_db (MarkScheduleDispatched (si_node S) (now_at S s) i nextRun jobID status errText) s"

definition complete_job :: "'w site \<Rightarrow> ActionJob \<Rightarrow> 'w sched \<Rightarrow> 'w sched" where
  "complete_job S j s =
     snd (on_db (CompleteScheduleRun (si_node S) (now_at S s) (aj_ID j) (aj_Status j) (aj_Output j) (aj_Error j)
       (aj_EndedAt j) (aj_Duration j)) s)"

subsection \<open>Remote agents\<close>

text \<open>\<^verbatim>\<open>url.PathEscape\<close>.\<close>

definition path_char :: "char \<Rightarrow> bool" where
  "path_char c \<longleftrightarrow> alnum_char (lower_char c) \<or> c \<in> set ''-_.~$&+=:@''"

definition upper_hex :: "nat \<Rightarrow> char" where
  "upper_hex d = (if d < 10 then char_of (48 + d) else char_of (55 + d))"

definition path_escape :: "string \<Rightarrow> string" where
  "path_escape s = concat (map (\<lambda>c. if path_char c then [c]
     else [CHR ''%'', upper_hex (of_char c div 16), upper_hex (of_char c mod 16)]) s)"

definition ok_code :: "http_reply \<Rightarrow> bool" where
  "ok_code r \<longleftrightarrow> 200 \<le> hr_StatusCode r \<and> hr_StatusCode r < 300"

definition checked_url :: "'w site \<Rightarrow> string \<Rightarrow> string \<Rightarrow> string result" where
  "checked_url S what baseURL =
     (case si_url S baseURL of
        None \<Rightarrow> Inl (''invalid '' @ what @ '' URL'')
      | Some (scheme, hostname, full) \<Rightarrow>
          if scheme = [] \<or> hostname = [] then Inl (''invalid '' @ what @ '' URL'')
          else if scheme \<noteq> ''http'' \<and> scheme \<noteq> ''https'' then Inl (what @ '' URL must use http or https'')
          else Inr (trim_right full ''/''))"

definition runPeerSystemPrune :: "'w site \<Rightarrow> string result \<Rightarrow> ComposeAgent \<Rightarrow> 'w sched \<Rightarrow> (string \<times> bool) result \<times> 'w sched" where
  "runPeerSystemPrune S fresh agent s =
     (case checked_url S ''peer'' (ag_BaseURL agent) of
        Inl e \<Rightarrow> (Inl e, s)
      | Inr base \<Rightarrow>
          (let (r, w1) = si_http S ''POST'' (base @ ''/api/v1/prune'')
                 [(''X-API-Key'', ag_Token agent), (''Content-Type'', ''application/json'')]
                 (''{'' @ [CHR 0x22] @ ''mode'' @ [CHR 0x22] @ '':'' @ [CHR 0x22] @ ''system-all'' @ [CHR 0x22] @ ''}'') (sc_world s);
               s1 = s \<lparr> sc_world := w1 \<rparr>
           in case r of
                Inl e \<Rightarrow> (Inl e, s1)
              | Inr res \<Rightarrow>
                  (case si_op S (hr_Body res) of
                     Inl e \<Rightarrow> (Inl e, s1)
                   | Inr (status, err, op) \<Rightarrow>
                       (case (if ok_code res \<and> status \<noteq> ''error'' then op else None) of
                          None \<Rightarrow> (Inl (if err = [] then hr_Status res else err), s1)
                        | Some result \<Rightarrow>
                            (case RecordResult fresh (now_at S s1) result (sc_jobs s1) of
                               (Inl e, m) \<Rightarrow> (Inl e, s1 \<lparr> sc_jobs := m \<rparr>)
                             | (Inr job, m) \<Rightarrow> (Inr (aj_ID job, False), s1 \<lparr> sc_jobs := m \<rparr>))))))"

definition agent_path :: "string \<Rightarrow> UpdateSchedule \<Rightarrow> string \<Rightarrow> string" where
  "agent_path base schedule action =
     (if action = ''prune-system-all'' then base @ ''/agent/v1/system/jobs/'' @ path_escape action
      else base @ ''/agent/v1/projects/'' @ path_escape (us_Project schedule) @ ''/jobs/'' @ path_escape action)
     @ (if 0 < us_TimeoutSeconds schedule then ''?timeout='' @ itoa (us_TimeoutSeconds schedule) else [])"

text \<open>
  \<open>runAgentSchedule\<close>: the id of the job or command, and whether it has to be watched. A schedule of
  an agent has its id.
\<close>

definition runAgentSchedule ::
  "'w site \<Rightarrow> string result \<Rightarrow> UpdateSchedule \<Rightarrow> int \<Rightarrow> string \<Rightarrow> 'w sched \<Rightarrow> (string \<times> bool) result \<times> 'w sched" where
  "runAgentSchedule S fresh schedule agentID action s =
     (case on_db (GetAgent agentID) s of
        (Inl e, s1) \<Rightarrow> (Inl (store_text e), s1)
      | (Inr agent, s1) \<Rightarrow>
          if \<not> ag_Enabled agent then (Inl (''agent '' @ ag_Name agent @ '' is disabled''), s1)
          else if ag_Mode agent = ''peer'' \<and> action = ''prune-system-all'' then runPeerSystemPrune S fresh agent s1
          else if ag_BaseURL agent = [] \<or> ag_Mode agent = ''callback'' then
            (case on_db (EnqueueAgentCommand (now_at S s1) (ag_ID agent)
                    \<lparr> aq_Project = us_Project schedule, aq_Action = action,
                      aq_Params = ''{'' @ [CHR 0x22] @ ''timeout'' @ [CHR 0x22] @ '':'' @ itoa (us_TimeoutSeconds schedule) @ ''}'' \<rparr>) s1 of
               (Inl e, s2) \<Rightarrow> (Inl (store_text e), s2)
             | (Inr cmd, s2) \<Rightarrow> (Inr (agent_job_id (ac_ID cmd), False), s2))
          else
            (case checked_url S ''agent'' (ag_BaseURL agent) of
               Inl e \<Rightarrow> (Inl e, s1)
             | Inr base \<Rightarrow>
                 (let (r, w1) = si_http S ''POST'' (agent_path base schedule action)
                        [(''Authorization'', ''Bearer '' @ ag_Token agent)] [] (sc_world s1);
                      s2 = s1 \<lparr> sc_world := w1 \<rparr>
                  in case r of
                       Inl e \<Rightarrow> (Inl e, s2)
                     | Inr res \<Rightarrow>
                         (case si_job S (hr_Body res) of
                            Inl e \<Rightarrow> (Inl e, s2)
                          | Inr (status, err, job) \<Rightarrow>
                              if \<not> ok_code res \<or> status = ''error''
                              then (Inl (if err = [] then hr_Status res else err), s2)
                              else
                                (case job of
                                   None \<Rightarrow> (Inl ''agent did not return a job id'', s2)
                                 | Some j \<Rightarrow> if aj_ID j = [] then (Inl ''agent did not return a job id'', s2)
                                              else (Inr (aj_ID j, True), s2))))))"

subsection \<open>Dispatching a schedule\<close>

definition schedule_action :: "UpdateSchedule \<Rightarrow> string" where
  "schedule_action schedule =
     (let a = to_lower (trim_space (us_Action schedule)) in if a = [] then ''update'' else a)"

text \<open>Recording a failure: the schedule advances, with the error in its history.\<close>

definition fail_schedule :: "'w site \<Rightarrow> UpdateSchedule \<Rightarrow> instant \<Rightarrow> string \<Rightarrow> 'w sched \<Rightarrow> string option \<times> 'w sched" where
  "fail_schedule S schedule nextRun err s =
     (case mark S (us_ID schedule) nextRun [] ''failed'' err s of
        (Inl e, s1) \<Rightarrow> (Some (err @ '' (record schedule failure: '' @ store_text e @ '')''), s1)
      | (Inr _, s1) \<Rightarrow> (Some err, s1))"

text \<open>
  After a job has been started: the dispatch is recorded, then a job that has already ended is
  settled. \<open>others k\<close> is what the other goroutines do before the \<open>k\<close>-th of these steps.
\<close>

definition settle_started :: "'w site \<Rightarrow> (nat \<Rightarrow> 'w sched \<Rightarrow> 'w sched) \<Rightarrow> UpdateSchedule \<Rightarrow> instant \<Rightarrow> string \<Rightarrow> bool \<Rightarrow> 'w sched \<Rightarrow> string option \<times> 'w sched" where
  "settle_started S others schedule nextRun jobID watched s =
     (case mark S (us_ID schedule) nextRun jobID ''started'' [] (others 0 s) of
        (Inl e, s1) \<Rightarrow> (Some (store_text e), s1)
      | (Inr _, s1) \<Rightarrow>
          if watched then (None, s1)
          else
            (let s2 = others 1 s1; (current, m) = GetJob jobID (sc_jobs s2); s3 = others 2 (s2 \<lparr> sc_jobs := m \<rparr>)
             in case current of
                  None \<Rightarrow> (None, s3)
                | Some j \<Rightarrow> if aj_Status j = ''running'' then (None, s3) else (None, complete_job S j s3)))"

definition skip_schedule :: "'w site \<Rightarrow> string result \<Rightarrow> UpdateSchedule \<Rightarrow> instant \<Rightarrow> Project \<Rightarrow> string \<Rightarrow> string \<Rightarrow> 'w sched \<Rightarrow> string option \<times> 'w sched" where
  "skip_schedule S fresh schedule nextRun project action reason s =
     (case StartSkipped fresh (now_at S s) project action (''scheduled '' @ action @ '' skipped: '' @ reason @ [newline]) (sc_jobs s) of
        (Inl e, m) \<Rightarrow> fail_schedule S schedule nextRun e (s \<lparr> sc_jobs := m \<rparr>)
      | (Inr job, m) \<Rightarrow>
          (case mark S (us_ID schedule) nextRun (aj_ID job) ''skipped'' [] (s \<lparr> sc_jobs := m \<rparr>) of
             (Inl e, s1) \<Rightarrow> (Some (store_text e), s1)
           | (Inr _, s1) \<Rightarrow> (None, s1)))"

definition sched_policy :: "'w site \<Rightarrow> Project \<Rightarrow> 'w sched \<Rightarrow> ProjectUpdatePolicy \<times> 'w sched" where
  "sched_policy S project s =
     (let (detected, w1) = DetectProjectUpdatePolicy (si_host S) project (sc_world s);
          (policy, pd1) = ResolveUpdatePolicy (pr_Name project) detected (sc_projects s)
      in (policy, s \<lparr> sc_world := w1, sc_projects := pd1 \<rparr>))"

definition run_local_schedule ::
  "'w site \<Rightarrow> string result \<Rightarrow> (nat \<Rightarrow> 'w sched \<Rightarrow> 'w sched) \<Rightarrow> UpdateSchedule \<Rightarrow> instant \<Rightarrow> string \<Rightarrow> Project \<Rightarrow> 'w sched \<Rightarrow> string option \<times> 'w sched" where
  "run_local_schedule S fresh others schedule nextRun action project s =
     (let (policy, s1) = (if action = ''update'' \<or> action = ''check'' then map_prod Some id (sched_policy S project s) else (None, s));
          controller = IsControllerProject (si_host S) project
      in if (case policy of Some p \<Rightarrow> pp_EffectivePolicy p = ''no_updates'' | None \<Rightarrow> False)
         then skip_schedule S fresh schedule nextRun project action
           (if pp_NoUpdatesReason (the policy) = [] then ''updates disabled'' else pp_NoUpdatesReason (the policy)) s1
         else if action = ''check'' \<and> (pr_Inactive project \<or> controller)
         then skip_schedule S fresh schedule nextRun project action
           (if controller then ''the Stack Manager controller uses its dedicated self-update path''
            else ''inactive projects are not checked'') s1
         else
           (case StartJob fresh (now_at S s1) project action (us_TimeoutSeconds schedule) (sc_jobs s1) of
              (Inl e, m) \<Rightarrow> fail_schedule S schedule nextRun e (s1 \<lparr> sc_jobs := m \<rparr>)
            | (Inr job, m) \<Rightarrow> settle_started S others schedule nextRun (aj_ID job) False (s1 \<lparr> sc_jobs := m \<rparr>)))"

definition runSchedule ::
  "'w site \<Rightarrow> string result \<Rightarrow> (nat \<Rightarrow> 'w sched \<Rightarrow> 'w sched) \<Rightarrow> UpdateSchedule \<Rightarrow> 'w sched \<Rightarrow> string option \<times> 'w sched" where
  "runSchedule S fresh others schedule s =
     (let nextRun = nextScheduleRun (si_location S) schedule (now_at S s);
          action = schedule_action schedule
      in if us_Cadence schedule = ''interval'' \<and> us_IntervalMinutes schedule < 1
         then fail_schedule S schedule nextRun (''schedule '' @ itoa (us_ID schedule) @ '' has invalid interval'') s
         else if \<not> ValidScheduleAction action
         then fail_schedule S schedule nextRun (''invalid scheduled action: '' @ action) s
         else case us_AgentID schedule of
             Some agentID \<Rightarrow>
               (case runAgentSchedule S fresh schedule agentID action s of
                  (Inl e, s1) \<Rightarrow> fail_schedule S schedule nextRun e s1
                | (Inr (jobID, pollRemote), s1) \<Rightarrow> settle_started S others schedule nextRun jobID pollRemote s1)
           | None \<Rightarrow>
               if action = ''prune-system-all'' then
                 (case StartSystemPrune fresh (now_at S s) (sc_jobs s) of
                    (Inl e, m) \<Rightarrow> fail_schedule S schedule nextRun e (s \<lparr> sc_jobs := m \<rparr>)
                  | (Inr job, m) \<Rightarrow> settle_started S others schedule nextRun (aj_ID job) False (s \<lparr> sc_jobs := m \<rparr>))
               else
                 (let (g, w1) = GetProject (si_host S) (si_disk S) (si_views S) (si_decoders S) (si_engine S) (us_Project schedule) (sc_world s);
                      s1 = s \<lparr> sc_world := w1 \<rparr>
                  in case g of
                       Inl (NotFound e) \<Rightarrow>
                         (let (recorded, s2) = fail_schedule S schedule nextRun e s1;
                              (r, s3) = on_db (DisableSchedule (now_at S s2) (us_ID schedule) (''disabled automatically: '' @ e)) s2
                          in (case r of
                                Inl d \<Rightarrow> map_option (\<lambda>t. t @ '' (disable schedule: '' @ store_text d @ '')'') recorded
                              | Inr _ \<Rightarrow> recorded, s3))
                     | Inl (CoreError e) \<Rightarrow> fail_schedule S schedule nextRun e s1
                     | Inr project \<Rightarrow> run_local_schedule S fresh others schedule nextRun action project s1))"

text \<open>One tick; \<open>ids k\<close> is the random id of the \<open>k\<close>-th schedule.\<close>

fun run_due :: "'w site \<Rightarrow> (nat \<Rightarrow> string result) \<Rightarrow> (nat \<Rightarrow> 'w sched \<Rightarrow> 'w sched) \<Rightarrow> nat \<Rightarrow> UpdateSchedule list \<Rightarrow> 'w sched \<Rightarrow> 'w sched" where
  "run_due S ids others k [] s = s"
| "run_due S ids others k (u # us) s = run_due S ids others (Suc k) us (snd (runSchedule S (ids k) others u s))"

definition tick :: "'w site \<Rightarrow> (nat \<Rightarrow> string result) \<Rightarrow> (nat \<Rightarrow> 'w sched \<Rightarrow> 'w sched) \<Rightarrow> 'w sched \<Rightarrow> 'w sched" where
  "tick S ids others s =
     (case on_db (ListDueSchedules (now_at S s)) s of
        (Inl _, s1) \<Rightarrow> s1
      | (Inr us, s1) \<Rightarrow> run_due S ids others 0 us s1)"

subsection \<open>Watching a remote job\<close>

text \<open>
  One request of \<open>watchAgentJob\<close>: the job when it has ended, otherwise the last error. The loop ends
  with the deadline of the watch at the latest: \<open>ticks\<close> is the number of requests that fit before
  it, at most one every two seconds.
\<close>

definition poll_job :: "'w site \<Rightarrow> string \<Rightarrow> string \<Rightarrow> 'w \<Rightarrow> (string option + ActionJob) \<times> 'w" where
  "poll_job S endpoint token w =
     (let (r, w1) = si_http S ''GET'' endpoint [(''Authorization'', ''Bearer '' @ token)] [] w
      in (case r of
            Inl e \<Rightarrow> Inl (Some e)
          | Inr res \<Rightarrow>
              (case si_job S (hr_Body res) of
                 Inl e \<Rightarrow> Inl (Some e)
               | Inr (status, err, job) \<Rightarrow>
                   (case (if ok_code res then job else None) of
                      Some j \<Rightarrow> if aj_Status j \<noteq> ''running'' then Inr j else Inl None
                    | None \<Rightarrow> Inl (Some (if err \<noteq> [] then err else ''agent job status returned '' @ hr_Status res)))), w1))"

definition complete_unknown :: "'w site \<Rightarrow> string \<Rightarrow> string \<Rightarrow> 'w sched \<Rightarrow> 'w sched" where
  "complete_unknown S jobID message s =
     snd (on_db (CompleteScheduleRun (si_node S) (now_at S s) jobID ''unknown'' [] message (now_at S s) []) s)"

fun watch_loop :: "'w site \<Rightarrow> nat \<Rightarrow> string \<Rightarrow> string \<Rightarrow> string \<Rightarrow> 'w sched \<Rightarrow> 'w sched" where
  "watch_loop S ticks endpoint token jobID s =
     (let (r, w1) = poll_job S endpoint token (sc_world s); s1 = s \<lparr> sc_world := w1 \<rparr>
      in case r of
           Inr j \<Rightarrow> complete_job S j s1
         | Inl lastErr \<Rightarrow>
             (case ticks of
                0 \<Rightarrow> complete_unknown S jobID (''timed out waiting for agent job status''
                       @ (case lastErr of Some e \<Rightarrow> '': '' @ e | None \<Rightarrow> [])) s1
              | Suc n \<Rightarrow> watch_loop S n endpoint token jobID
                  (s1 \<lparr> sc_world := ho_sleep (si_host S) (2 * second) w1 \<rparr>)))"

declare watch_loop.simps [simp del]

definition watch_timeout :: "UpdateSchedule \<Rightarrow> duration" where
  "watch_timeout schedule =
     (let t = us_TimeoutSeconds schedule * second + 10 * minute in if t < 15 * minute then 15 * minute else t)"

definition watchAgentJob :: "'w site \<Rightarrow> nat \<Rightarrow> int \<Rightarrow> string \<Rightarrow> 'w sched \<Rightarrow> 'w sched" where
  "watchAgentJob S ticks agentID jobID s =
     (case on_db (GetAgent agentID) s of
        (Inl e, s1) \<Rightarrow> complete_unknown S jobID (store_text e) s1
      | (Inr agent, s1) \<Rightarrow>
          watch_loop S ticks (trim_right (ag_BaseURL agent) ''/'' @ ''/agent/v1/jobs/'' @ path_escape jobID)
            (ag_Token agent) jobID s1)"

subsection \<open>The goroutine of a local job\<close>

text \<open>
  The steps of \<open>JobManager.run\<close> as the other goroutines see them: the action, the status of a failure,
  the final update, the save, and the completion handler that \<open>NewScheduleManager\<close> registers.
\<close>

datatype worker_step = WAction | WSettle | WFinish | WSave | WNotify

definition update_job :: "string \<Rightarrow> (ActionJob \<Rightarrow> ActionJob) \<Rightarrow> 'w sched \<Rightarrow> 'w sched" where
  "update_job i f s =
     (case map_of (jm_jobs (sc_jobs s)) i of
        None \<Rightarrow> s
      | Some j \<Rightarrow> s \<lparr> sc_jobs := register (f j) (sc_jobs s) \<rparr>)"

fun worker_step_of :: "'w site \<Rightarrow> (ProjectUpdateStatus \<Rightarrow> string) \<Rightarrow> Project \<Rightarrow> int \<Rightarrow> string \<Rightarrow> worker_step \<Rightarrow> 'w sched \<Rightarrow> 'w sched" where
  "worker_step_of S encode project timeout i WAction s =
     (case map_of (jm_jobs (sc_jobs s)) i of
        None \<Rightarrow> s
      | Some j \<Rightarrow>
          (let (j1, w1, pd1) = run_action (si_host S) (si_engine S) (si_decoders S) encode project timeout j (sc_world s) (sc_projects s)
           in s \<lparr> sc_world := w1, sc_projects := pd1, sc_jobs := register j1 (sc_jobs s) \<rparr>))"
| "worker_step_of S encode project timeout i WSettle s = update_job i settle_status s"
| "worker_step_of S encode project timeout i WFinish s = update_job i (finish_job (now_at S s)) s"
| "worker_step_of S encode project timeout i WSave s =
     (case map_of (jm_jobs (sc_jobs s)) i of
        None \<Rightarrow> s
      | Some j \<Rightarrow> s \<lparr> sc_jobs := snd (save_job j (sc_jobs s)) \<rparr>)"
| "worker_step_of S encode project timeout i WNotify s =
     (case map_of (jm_jobs (sc_jobs s)) i of None \<Rightarrow> s | Some j \<Rightarrow> complete_job S j s)"

definition worker_program :: "worker_step list" where
  "worker_program = [WAction, WSettle, WFinish, WSave, WNotify]"

definition worker :: "'w site \<Rightarrow> (ProjectUpdateStatus \<Rightarrow> string) \<Rightarrow> Project \<Rightarrow> int \<Rightarrow> string \<Rightarrow> worker_step list \<Rightarrow> 'w sched \<Rightarrow> 'w sched" where
  "worker S encode project timeout i steps s = fold (worker_step_of S encode project timeout i) steps s"

section \<open>Every dispatch advances its schedule\<close>

text \<open>The next run of a schedule as the store has it, in a store whose statements succeed.\<close>

definition due_db :: "int \<Rightarrow> db \<Rightarrow> instant option" where
  "due_db i d = map_option us_NextRunAt (find (\<lambda>u. us_ID u = i) (db_schedules d))"

definition live_db :: "int \<Rightarrow> instant option \<Rightarrow> db \<Rightarrow> bool" where
  "live_db i t d \<longleftrightarrow> db_faults d = [] \<and> due_db i d = t \<and> t \<noteq> None"

abbreviation live :: "int \<Rightarrow> instant option \<Rightarrow> 'w sched \<Rightarrow> bool" where
  "live i t s \<equiv> live_db i t (sched_db s)"

named_theorems live_intros

lemma due_update_where:
  assumes "\<And>u. us_ID (f u) = us_ID u" and "\<And>u. us_NextRunAt (f u) = us_NextRunAt u"
  shows "map_option us_NextRunAt (find (\<lambda>u. us_ID u = i) (update_where P f us)) = map_option us_NextRunAt (find (\<lambda>u. us_ID u = i) us)"
  using assms by (induction us) (auto simp: update_where_def)

lemma audit_schedules [simp]:
  "db_schedules (schedule_audit n a p t i jp st er c d) = db_schedules d"
  "db_faults (schedule_audit n a p t i jp st er c d) = db_faults d"
  by (simp_all add: schedule_audit_def)

lemma history_schedules [simp]:
  "db_schedules (insertScheduleRunTx i j st er t d) = db_schedules d"
  "db_faults (insertScheduleRunTx i j st er t d) = db_faults d"
  "db_schedules (insertScheduleAuditTx n i j st er t d) = db_schedules d"
  "db_faults (insertScheduleAuditTx n i j st er t d) = db_faults d"
  "db_schedules (insertScheduleCompletionAuditTx n j st er t d) = db_schedules d"
  "db_faults (insertScheduleCompletionAuditTx n j st er t d) = db_faults d"
  by (auto simp: insertScheduleRunTx_def insertScheduleAuditTx_def insertScheduleCompletionAuditTx_def split: option.splits list.splits)

lemma live_same: "db_schedules d' = db_schedules d \<Longrightarrow> db_faults d' = db_faults d \<Longrightarrow> live_db i t d' = live_db i t d"
  by (simp add: live_db_def due_db_def)

lemma live_GetAgent: "live_db i t d \<Longrightarrow> live_db i t (snd (GetAgent a d))"
  by (simp add: GetAgent_def sql_ok live_db_def)

lemma live_Enqueue: "live_db i t d \<Longrightarrow> live_db i t (snd (EnqueueAgentCommand n a q d))"
  by (simp add: EnqueueAgentCommand_def sql_ok live_db_def due_db_def Let_def)

lemma live_SaveJob: "live_db i t d \<Longrightarrow> live_db i t (snd (SaveJob j d))"
  by (simp add: SaveJob_def sql_ok live_db_def due_db_def Let_def)

lemma live_LoadJob: "live_db i t d \<Longrightarrow> live_db i t (snd (LoadJob j d))"
  by (auto simp: LoadJob_def sql_ok live_db_def due_db_def split: option.splits sum.splits)

lemma live_Disable: "live_db i t d \<Longrightarrow> live_db i t (snd (DisableSchedule n k r d))"
  by (simp add: DisableSchedule_def sql_ok live_db_def due_db_def due_update_where disabled_row_def drop_schedules_def)

lemma live_Complete: "live_db i t d \<Longrightarrow> live_db i t (snd (CompleteScheduleRun n nw j st out er en du d))"
  by (simp add: CompleteScheduleRun_def sql_ok live_db_def due_db_def due_update_where drop_schedules_def Let_def)

lemma live_Mark:
  assumes "live_db i t d"
  shows "fst (MarkScheduleDispatched n nw i nxt j st er d) = Inr ()"
    "live_db i (Some nxt) (snd (MarkScheduleDispatched n nw i nxt j st er d))"
proof -
  have f: "db_faults d = []" using assms by (simp add: live_db_def)
  have ex: "\<exists>u \<in> set (db_schedules d). us_ID u = i"
    using assms unfolding live_db_def due_db_def by (metis (mono_tags, lifting) find_None_iff option.map_disc_iff)
  have "find (\<lambda>u. us_ID u = i) (update_where (\<lambda>u. us_ID u = i) (dispatched_row nw nxt j st er) us) =
      map_option (dispatched_row nw nxt j st er) (find (\<lambda>u. us_ID u = i) us)" for us
    by (induction us) (auto simp: update_where_def dispatched_row_def)
  moreover have "find (\<lambda>u. us_ID u = i) (db_schedules d) \<noteq> None"
    using assms by (auto simp: live_db_def due_db_def)
  ultimately show "fst (MarkScheduleDispatched n nw i nxt j st er d) = Inr ()"
    "live_db i (Some nxt) (snd (MarkScheduleDispatched n nw i nxt j st er d))"
    using ex f by (auto simp: MarkScheduleDispatched_def sql_ok live_db_def due_db_def drop_schedules_def dispatched_row_def Let_def)
qed

lemma on_db_live: "(\<And>d. live_db i t d \<Longrightarrow> live_db i t (snd (f d))) \<Longrightarrow> live i t s \<Longrightarrow> live i t (snd (on_db f s))"
  by (simp add: on_db_def Let_def split_beta)

lemma mark_live: "live i t s \<Longrightarrow> \<exists>s1. mark S i nxt j st er s = (Inr (), s1) \<and> live i (Some nxt) s1"
  using live_Mark[where i = i and t = t and d = "sched_db s" and n = "si_node S" and nw = "now_at S s"
    and nxt = nxt and j = j and st = st and er = er]
  by (simp add: mark_def on_db_def Let_def split_beta)

lemma fail_live: "us_ID u = i \<Longrightarrow> live i t s \<Longrightarrow> live i (Some nxt) (snd (fail_schedule S u nxt err s))"
  using mark_live[of i t s S nxt "[]" "''failed''" err] by (auto simp: fail_schedule_def)

lemma complete_live: "live i t s \<Longrightarrow> live i t (complete_job S j s)"
  unfolding complete_job_def by (rule on_db_live[OF live_Complete])

lemma GetJob_live: "live_db i t (jm_db m) \<Longrightarrow> live_db i t (jm_db (snd (GetJob j m)))"
  using live_LoadJob[of i t "jm_db m" j] by (auto simp: GetJob_def Let_def split_beta split: option.splits)

lemma save_job_live: "live_db i t (jm_db m) \<Longrightarrow> live_db i t (jm_db (snd (save_job j m)))"
  using live_SaveJob by (simp add: save_job_def Let_def split_beta)

text \<open>What the other goroutines may do: anything that leaves this schedule's next run alone.\<close>

definition harmless :: "int \<Rightarrow> (nat \<Rightarrow> 'w sched \<Rightarrow> 'w sched) \<Rightarrow> bool" where
  "harmless i others \<longleftrightarrow> (\<forall>k s t. live i t s \<longrightarrow> live i t (others k s))"

lemma settle_live:
  assumes "harmless i others" and "us_ID u = i" and "live i t s"
  shows "live i (Some nxt) (snd (settle_started S others u nxt j wt s))"
proof -
  have "live i t (others 0 s)" using assms by (auto simp: harmless_def)
  then obtain s1 where m: "mark S i nxt j ''started'' [] (others 0 s) = (Inr (), s1)" "live i (Some nxt) s1"
    using mark_live by blast
  let ?s2 = "others 1 s1"
  let ?s3 = "others 2 (?s2 \<lparr> sc_jobs := snd (GetJob j (sc_jobs ?s2)) \<rparr>)"
  have "live i (Some nxt) ?s2" using m(2) assms(1) by (auto simp: harmless_def)
  then have "live i (Some nxt) ?s3" using GetJob_live assms(1) by (auto simp: harmless_def)
  then show ?thesis using m assms(2) complete_live[of i "Some nxt" ?s3 S]
    by (auto simp: settle_started_def Let_def split_beta split: option.splits)
qed

lemma register_db [simp]: "jm_db (register j m) = jm_db m"
  by (simp add: register_def)

lemma skip_live:
  assumes "us_ID u = i" and "live i t s"
  shows "live i (Some nxt) (snd (skip_schedule S fresh u nxt p a r s))"
proof -
  obtain res m where m: "StartSkipped fresh (now_at S s) p a (''scheduled '' @ a @ '' skipped: '' @ r @ [newline]) (sc_jobs s) = (res, m)"
    by force
  have "live_db i t (jm_db m)"
    using m assms(2) save_job_live by (auto simp: StartSkipped_def Let_def split: sum.splits)
  then have s': "live i t (s \<lparr> sc_jobs := m \<rparr>)" by simp
  show ?thesis
  proof (cases res)
    case (Inl e)
    then show ?thesis using m fail_live[OF assms(1) s', of nxt S e] by (simp add: skip_schedule_def)
  next
    case (Inr j)
    obtain s1 where "mark S i nxt (aj_ID j) ''skipped'' [] (s \<lparr> sc_jobs := m \<rparr>) = (Inr (), s1)" "live i (Some nxt) s1"
      using mark_live[OF s'] by blast
    then show ?thesis using m Inr assms(1) by (simp add: skip_schedule_def)
  qed
qed

lemma record_live: "live_db i t (jm_db m) \<Longrightarrow> live_db i t (jm_db (snd (RecordResult fresh n r m)))"
proof -
  assume l: "live_db i t (jm_db m)"
  then have "live_db i t (jm_db (snd (save_job j (register j m))))" for j by (intro save_job_live) simp
  then show ?thesis using l unfolding RecordResult_def Let_def by (simp add: split_beta split: sum.split)
qed

lemma peer_live:
  assumes "live i t s" shows "live i t (snd (runPeerSystemPrune S fresh a s))"
proof -
  have rec: "live_db i t (jm_db (snd (RecordResult fresh n r (sc_jobs s))))" for n r using record_live assms by blast
  show ?thesis
  proof (cases "checked_url S ''peer'' (ag_BaseURL a)")
    case (Inr base)
    then show ?thesis using assms rec unfolding runPeerSystemPrune_def Let_def
      by (simp add: split_beta split: sum.split option.split prod.split)
  qed (use assms in \<open>simp add: runPeerSystemPrune_def\<close>)
qed

lemma agent_live:
  assumes "live i t s" shows "live i t (snd (runAgentSchedule S fresh u a act s))"
proof -
  obtain g s1 where g: "on_db (GetAgent a) s = (g, s1)" by force
  have s1: "live i t s1" using on_db_live[where f = "GetAgent a", OF live_GetAgent assms] g by simp
  have q: "live i t (snd (on_db (EnqueueAgentCommand n ag req) s1))" for n ag req
    by (rule on_db_live[OF live_Enqueue s1])
  show ?thesis
  proof (cases g)
    case (Inl e)
    then show ?thesis using g s1 by (simp add: runAgentSchedule_def)
  next
    case (Inr ag)
    then show ?thesis using s1 peer_live[OF s1, of S fresh ag] q
      unfolding runAgentSchedule_def g Inr prod.case sum.case Let_def
      by (simp add: split_beta split: sum.split option.split prod.split)
  qed
qed

lemma local_live:
  assumes "harmless i others" and "us_ID u = i" and "live i t s"
  shows "live i (Some nxt) (snd (run_local_schedule S fresh others u nxt act p s))"
proof -
  obtain pol s1 where pol: "(if act = ''update'' \<or> act = ''check'' then map_prod Some id (sched_policy S p s) else (None, s)) = (pol, s1)" by force
  have s1: "live i t s1"
    using pol assms(3) by (auto simp: sched_policy_def Let_def split: if_splits prod.splits)
  let ?m = "StartJob fresh (now_at S s1) p act (us_TimeoutSeconds u) (sc_jobs s1)"
  obtain res m where m: "?m = (res, m)" by force
  have s2: "live i t (s1 \<lparr> sc_jobs := m \<rparr>)"
    using s1 m by (auto simp: StartJob_def register_def Let_def split: sum.splits if_splits)
  have start: "live i (Some nxt) (snd (case ?m of
              (Inl e, m) \<Rightarrow> fail_schedule S u nxt e (s1 \<lparr> sc_jobs := m \<rparr>)
            | (Inr job, m) \<Rightarrow> settle_started S others u nxt (aj_ID job) False (s1 \<lparr> sc_jobs := m \<rparr>)))"
    using fail_live[OF assms(2) s2, of nxt S] settle_live[OF assms(1,2) s2, of nxt S] unfolding m by (cases res) auto
  show ?thesis
    using start skip_live[OF assms(2) s1] unfolding run_local_schedule_def pol Let_def prod.case by presburger
qed


section \<open>No completion is lost\<close>

text \<open>
  A run is settled by two goroutines: the job's own, through the completion handler, and the
  dispatcher, which looks at the job once more after recording the dispatch. The statuses of the
  run rows of one job and the phase of its goroutine are all that matters.
\<close>

definition final_status :: "bool \<Rightarrow> string" where
  "final_status ok = (if ok then ''completed'' else ''failed'')"

definition rows_status :: "string \<Rightarrow> db \<Rightarrow> string list" where
  "rows_status i d = map run_Status (filter (\<lambda>r. run_JobID r = i) (db_runs d))"

text \<open>The job after \<open>c\<close> steps of its goroutine, when its action ends with success \<open>ok\<close>.\<close>

definition phase :: "string \<Rightarrow> nat \<Rightarrow> bool \<Rightarrow> ActionJob \<Rightarrow> bool" where
  "phase i c ok j \<longleftrightarrow> aj_ID j = i \<and> (c = 0 \<longrightarrow> ValidJobAction (aj_Action j)) \<and> (0 < c \<longrightarrow> aj_Success j = ok)
     \<and> aj_Status j = (if c \<le> 1 then ''running'' else if c = 2 then (if ok then ''running'' else ''failed'') else final_status ok)"

definition progress :: "int \<Rightarrow> string \<Rightarrow> nat \<Rightarrow> bool \<Rightarrow> string list \<Rightarrow> 'w sched \<Rightarrow> bool" where
  "progress u i c ok rs s \<longleftrightarrow> (\<exists>t. live u t s) \<and> rows_status i (sched_db s) = rs
     \<and> (\<exists>j. map_of (jm_jobs (sc_jobs s)) i = Some j \<and> phase i c ok j)"

lemma rows_complete:
  "map run_Status (filter (\<lambda>r. run_JobID r = i) (update_where (completes i st) (completed_row st out er en du) rows)) =
   map (\<lambda>_. st) (map run_Status (filter (\<lambda>r. run_JobID r = i) rows))"
  by (induction rows) (auto simp: update_where_def completes_def completed_row_def)

lemma complete_progress:
  assumes "progress u i c ok rs s" and "i \<noteq> []" and "aj_ID j = i"
  shows "progress u i c ok (map (\<lambda>_. aj_Status j) rs) (complete_job S j s)"
proof -
  obtain t where l: "live u t s" and r: "rows_status i (sched_db s) = rs"
    using assms(1) by (auto simp: progress_def)
  have "db_faults (sched_db s) = []" using l by (simp add: live_db_def)
  then have "rows_status i (sched_db (complete_job S j s)) = map (\<lambda>_. aj_Status j) rs"
    using r assms(2,3) CompleteScheduleRun_runs(2)[of "sched_db s" i]
    by (simp add: rows_status_def complete_job_def on_db_def Let_def split_beta rows_complete)
  moreover have "jm_jobs (sc_jobs (complete_job S j s)) = jm_jobs (sc_jobs s)"
    by (simp add: complete_job_def on_db_def Let_def split_beta)
  ultimately show ?thesis using assms(1) complete_live[OF l, of S j] by (auto simp: progress_def)
qed

lemma mark_progress:
  assumes "progress u i c ok rs s"
  shows "\<exists>s1. mark S u nxt i ''started'' [] s = (Inr (), s1) \<and> progress u i c ok (rs @ [''started'']) s1"
proof -
  obtain t where l: "live u t s" and r: "rows_status i (sched_db s) = rs"
    using assms by (auto simp: progress_def)
  obtain s1 where m: "mark S u nxt i ''started'' [] s = (Inr (), s1)" "live u (Some nxt) s1"
    using mark_live[OF l] by blast
  have f: "db_faults (sched_db s) = []" and ex: "find (\<lambda>x. us_ID x = u) (db_schedules (sched_db s)) \<noteq> None"
    using l by (auto simp: live_db_def due_db_def)
  then obtain x where x: "find (\<lambda>x. us_ID x = u) (db_schedules (sched_db s)) = Some x" by blast
  have in_set: "\<exists>x \<in> set (db_schedules (sched_db s)). us_ID x = u" using ex by (auto simp: find_None_iff)
  have upd: "\<exists>y. find (\<lambda>x. us_ID x = u) (update_where (\<lambda>x. us_ID x = u) (dispatched_row n nxt i ''started'' []) (db_schedules (sched_db s))) = Some y" for n
    using x find_update_where[of "\<lambda>x. us_ID x = u" "dispatched_row n nxt i ''started'' []" "\<lambda>x. us_ID x = u" "db_schedules (sched_db s)"]
    by (simp add: dispatched_row_def)
  have audit: "db_runs (insertScheduleAuditTx n k jb st er tt d) = db_runs d" for n k jb st er tt d
    by (auto simp: insertScheduleAuditTx_def schedule_audit_def split: option.splits)
  have "rows_status i (snd (MarkScheduleDispatched n nw u nxt i ''started'' [] (sched_db s))) = rs @ [''started'']" for n nw
    using r f in_set upd[of nw]
    by (auto simp: MarkScheduleDispatched_def sql_ok rows_status_def drop_schedules_def audit insertScheduleRunTx_def Let_def)
  then have "rows_status i (sched_db s1) = rs @ [''started'']" "jm_jobs (sc_jobs s1) = jm_jobs (sc_jobs s)"
    using m(1) by (auto simp: mark_def on_db_def Let_def split_beta)
  then show ?thesis using m assms by (auto simp: progress_def)
qed

lemma register_progress:
  assumes "progress u i c ok rs s" and "phase i c' ok' j" and "sched_db s' = sched_db s"
    and "jm_jobs (sc_jobs s') = AList.update (aj_ID j) j (jm_jobs (sc_jobs s))"
  shows "progress u i c' ok' rs s'"
  using assms by (auto simp: progress_def phase_def update_conv')

lemma worker_progress:
  assumes p: "progress u i c ok rs s" and i: "i \<noteq> []" and c: "c < 5"
  shows "\<exists>ok'. (0 < c \<longrightarrow> ok' = ok) \<and> progress u i (Suc c) ok' (if c = 4 then map (\<lambda>_. final_status ok') rs else rs)
    (worker_step_of S enc project timeout i (worker_program ! c) s)"
proof -
  obtain j t where j: "map_of (jm_jobs (sc_jobs s)) i = Some j" "phase i c ok j" and l: "live u t s"
    using p by (auto simp: progress_def)
  consider "c = 0" | "c = 1" | "c = 2" | "c = 3" | "c = 4" using c by linarith
  then show ?thesis
  proof cases
    case 1
    obtain j1 w1 pd1 where r: "run_action (si_host S) (si_engine S) (si_decoders S) enc project timeout j (sc_world s) (sc_projects s) = (j1, w1, pd1)"
      by (metis surj_pair)
    have "ValidJobAction (aj_Action j)" using j 1 by (simp add: phase_def)
    then have "same_job j j1" using run_action_honest[of j "si_host S" "si_engine S" "si_decoders S" enc project timeout "sc_world s" "sc_projects s"] r
      by (simp add: honest_job_def)
    then have "phase i 1 (aj_Success j1) j1" using j 1 by (simp add: phase_def same_job_def)
    then show ?thesis using register_progress[OF p, of 1 "aj_Success j1" j1 "worker_step_of S enc project timeout i WAction s"] j r 1
      by (auto simp: worker_program_def register_def intro!: exI[of _ "aj_Success j1"])
  next
    case 2
    then have "phase i 2 ok (settle_status j)" using j by (simp add: phase_def settle_status_def)
    then show ?thesis using register_progress[OF p, of 2 ok "settle_status j" "worker_step_of S enc project timeout i WSettle s"] j 2
      by (simp add: worker_program_def update_job_def register_def numeral_2_eq_2)
  next
    case 3
    let ?f = "finish_job (now_at S s)"
    have "phase i 3 ok (?f j)" using j 3 by (simp add: phase_def finish_job_def final_status_def)
    then show ?thesis using register_progress[OF p, of 3 ok "?f j" "worker_step_of S enc project timeout i WFinish s"] j 3
      by (simp add: worker_program_def update_job_def register_def numeral_3_eq_3)
  next
    case 4
    have "phase i 4 ok j" using j 4 by (simp add: phase_def)
    moreover have "rows_status i (snd (SaveJob j (sched_db s))) = rows_status i (sched_db s)"
      using l by (simp add: SaveJob_def sql_ok live_db_def rows_status_def Let_def)
    ultimately show ?thesis using p j 4 save_job_live[of u t "sc_jobs s" j] l
      by (auto simp: worker_program_def progress_def save_job_def Let_def split_beta)
  next
    case 5
    have "aj_ID j = i" "aj_Status j = final_status ok" using j 5 by (auto simp: phase_def)
    then have "progress u i 4 ok (map (\<lambda>_. final_status ok) rs) (complete_job S j s)"
      using complete_progress[OF p i, of j S] 5 by simp
    then show ?thesis using j 5 by (auto simp: worker_program_def progress_def phase_def)
  qed
qed

text \<open>The steps of the goroutine from \<open>a\<close> up to \<open>b\<close>.\<close>

definition segment :: "nat \<Rightarrow> nat \<Rightarrow> worker_step list" where
  "segment a b = drop a (take b worker_program)"

lemma segment_Suc: "a \<le> b \<Longrightarrow> b < 5 \<Longrightarrow> segment a (Suc b) = segment a b @ [worker_program ! b]"
proof -
  assume ab: "a \<le> b" "b < 5"
  have len: "length worker_program = 5" by (simp add: worker_program_def)
  then have "take (Suc b) worker_program = take b worker_program @ [worker_program ! b]"
    using ab by (intro take_Suc_conv_app_nth) simp
  then show ?thesis using ab len by (simp add: segment_def)
qed

lemma segment_progress:
  assumes "progress u i a ok rs s" and "i \<noteq> []" and "a \<le> b" and "b \<le> 5"
  shows "\<exists>ok'. (0 < a \<longrightarrow> ok' = ok) \<and>
    progress u i b ok' (if a < 5 \<and> b = 5 then map (\<lambda>_. final_status ok') rs else rs)
      (worker S enc project timeout i (segment a b) s)"
  using assms(3,4)
proof (induction b rule: dec_induct)
  case base
  then show ?case using assms(1) by (auto simp: segment_def worker_def)
next
  case (step b)
  then obtain ok1 where ok1: "0 < a \<longrightarrow> ok1 = ok"
      "progress u i b ok1 rs (worker S enc project timeout i (segment a b) s)" by fastforce
  obtain ok2 where "0 < b \<longrightarrow> ok2 = ok1" "progress u i (Suc b) ok2 (if b = 4 then map (\<lambda>_. final_status ok2) rs else rs)
      (worker_step_of S enc project timeout i (worker_program ! b) (worker S enc project timeout i (segment a b) s))"
    using worker_progress[OF ok1(2) assms(2), of S enc project timeout] step by auto
  then show ?case using ok1(1) step by (auto simp: segment_Suc worker_def intro!: exI[of _ ok2])
qed

text \<open>
  Property C12. No completion of a scheduled job is lost: however the steps of the job's goroutine fall
  between the steps of the dispatcher (starting the job, recording the dispatch, looking at the job
  again, settling the run), in the end the run has one history row and its status is the job's
  final status, \<^verbatim>\<open>completed\<close> or \<^verbatim>\<open>failed\<close>, never \<^verbatim>\<open>started\<close>.
\<close>

theorem scheduled_run_is_settled:
  assumes store: "db_faults (sched_db s) = []" "find (\<lambda>u. us_ID u = us_ID schedule) (db_schedules (sched_db s)) \<noteq> None"
    and fresh: "i \<noteq> []" "\<forall>r \<in> set (db_runs (sched_db s)). run_JobID r \<noteq> i"
    and start: "StartJob (Inr i) now project action timeout (sc_jobs s) = (Inr job, m)"
    and cuts: "a \<le> b" "b \<le> c" "c \<le> 5"
    and others: "others = (\<lambda>k. worker S encode project timeout i
      (if k = 0 then segment 0 a else if k = 1 then segment a b else if k = 2 then segment b c else segment c 5))"
  shows "\<exists>j r. map_of (jm_jobs (sc_jobs (others 3 (snd (settle_started S others schedule nxt i False (s \<lparr> sc_jobs := m \<rparr>)))))) i = Some j
    \<and> aj_Status j \<in> {''completed'', ''failed''}
    \<and> filter (\<lambda>r. run_JobID r = i) (db_runs (sched_db (others 3 (snd (settle_started S others schedule nxt i False (s \<lparr> sc_jobs := m \<rparr>)))))) = [r]
    \<and> run_Status r = aj_Status j"
proof -
  let ?u = "us_ID schedule"
  have job: "ValidJobAction (aj_Action job)" "aj_ID job = i" "aj_Status job = ''running''" "m = register job (sc_jobs s)"
    using start by (auto simp: StartJob_def new_job_def Let_def split: if_splits)
  have "live ?u (due_db ?u (sched_db s)) s" using store by (auto simp: live_db_def due_db_def)
  then have p0: "progress ?u i 0 ok [] (s \<lparr> sc_jobs := m \<rparr>)" for ok
    using job fresh by (auto simp: progress_def rows_status_def phase_def register_def update_conv' filter_empty_conv)
  have step: "others 0 x = worker S encode project timeout i (segment 0 a) x" "others (Suc 0) x = worker S encode project timeout i (segment a b) x"
    "others 2 x = worker S encode project timeout i (segment b c) x" "others 3 x = worker S encode project timeout i (segment c 5) x" for x
    by (simp_all add: others)
  note seg = segment_progress[where S = S and enc = encode and project = project and timeout = timeout, OF _ fresh(1)]
  obtain ok0 where "progress ?u i a ok0 [] (others 0 (s \<lparr> sc_jobs := m \<rparr>))"
    using seg[OF p0, of a] cuts unfolding step list.map if_cancel by auto
  then obtain s1 where s1: "mark S ?u nxt i ''started'' [] (others 0 (s \<lparr> sc_jobs := m \<rparr>)) = (Inr (), s1)"
      "progress ?u i a ok0 [''started''] s1"
    using mark_progress by fastforce
  obtain ok1 where p1: "0 < a \<longrightarrow> ok1 = ok0"
      "progress ?u i b ok1 (if a < 5 \<and> b = 5 then [final_status ok1] else [''started'']) (others 1 s1)"
    using seg[OF s1(2) cuts(1)] cuts unfolding step One_nat_def list.map by auto
  obtain j where j: "map_of (jm_jobs (sc_jobs (others 1 s1))) i = Some j" "phase i b ok1 j"
    using p1(2) by (auto simp: progress_def)
  have get: "GetJob i (sc_jobs (others 1 s1)) = (Some j, sc_jobs (others 1 s1))" using j by (simp add: GetJob_def)
  define s3 where "s3 = others 2 (others 1 s1)"
  define rs where "rs ok = (if a < 5 \<and> b = 5 \<or> b < 5 \<and> c = 5 then [final_status ok] else [''started''])" for ok
  let ?X = "if a < 5 \<and> b = 5 then [final_status ok1] else [''started'']"
  obtain ok2 where p3: "0 < b \<longrightarrow> ok2 = ok1"
      and pr: "progress ?u i c ok2 (if b < 5 \<and> c = 5 then map (\<lambda>_. final_status ok2) ?X else ?X) s3"
    using seg[OF p1(2) cuts(2,3)] unfolding step s3_def by blast
  have "(if b < 5 \<and> c = 5 then map (\<lambda>_. final_status ok2) ?X else ?X) = rs ok2"
    using p3 cuts by (cases "b = 5") (auto simp: rs_def)
  then have p3: "0 < b \<longrightarrow> ok2 = ok1" "progress ?u i c ok2 (rs ok2) s3" using p3 pr by simp_all
  define s4 where "s4 = snd (settle_started S others schedule nxt i False (s \<lparr> sc_jobs := m \<rparr>))"
  have s4: "s4 = (if aj_Status j = ''running'' then s3 else complete_job S j s3)"
    using s1(1) get by (simp add: s4_def s3_def settle_started_def Let_def)
  have st: "aj_Status j = final_status ok2" if "aj_Status j \<noteq> ''running''"
    using that j(2) p3(1) cuts by (auto simp: phase_def final_status_def split: if_splits)
  have "progress ?u i c ok2 (if aj_Status j = ''running'' then rs ok2 else [final_status ok2]) s4"
    using complete_progress[OF p3(2) fresh(1), of j S] p3(2) j(2) st unfolding s4 by (auto simp: phase_def rs_def split: if_splits)
  moreover have "aj_Status j \<noteq> ''running''" if "b = 5" using that j(2) by (simp add: phase_def final_status_def)
  ultimately have p4: "progress ?u i c ok2 (if aj_Status j = ''running'' \<and> c < 5 then [''started''] else [final_status ok2]) s4"
    using cuts by (auto simp: rs_def split: if_splits)
  obtain ok3 where p5: "0 < c \<longrightarrow> ok3 = ok2" "progress ?u i 5 ok3 [final_status ok3] (others 3 s4)"
    using seg[OF p4 cuts(3)] unfolding step by (fastforce split: if_splits)
  then show ?thesis unfolding s4_def[symmetric]
    by (auto simp: progress_def rows_status_def phase_def final_status_def map_eq_Cons_conv)
qed

section \<open>A concrete server\<close>

definition demo_site :: "unit site" where
  "demo_site = \<lparr> si_host = demo_host, si_disk = demo_disk, si_views = demo_views, si_decoders = demo_decoders,
     si_engine = demo_engine, si_location = utc, si_node = ''n1'', si_http = (\<lambda>_ _ _ _ w. (Inl ''unreachable'', w)),
     si_url = (\<lambda>_. None), si_job = (\<lambda>_. Inl ''no job''), si_op = (\<lambda>_. Inl ''no result'') \<rparr>"

definition hourly :: "int option \<Rightarrow> string \<Rightarrow> UpdateSchedule" where
  "hourly agent action = (request_row utc 0 (daily_pull agent)) \<lparr> us_ID := 1, us_Action := action,
     us_Cadence := ''interval'', us_IntervalMinutes := 60, us_NextRunAt := 0, us_Enabled := True \<rparr>"

definition demo_sched :: "UpdateSchedule \<Rightarrow> unit sched" where
  "demo_sched u = \<lparr> sc_world = (),
     sc_jobs = \<lparr> jm_jobs = [], jm_db = (snd (SaveAgent 0 edge_agent idle_db)) \<lparr> db_schedules := [u] \<rparr> \<rparr>,
     sc_projects = empty_project_db \<rparr>"

lemma demo_sched_store:
  "db_faults (sched_db (demo_sched u)) = []" "db_schedules (sched_db (demo_sched u)) = [u]" "db_runs (sched_db (demo_sched u)) = []"
  by (simp_all add: demo_sched_def SaveAgent_def GetAgentByName_def upsert_agent_def idle_db_def sql_def and_then_def
      drop_agents_def Let_def)


definition demo_worker :: "nat \<Rightarrow> unit sched \<Rightarrow> unit sched" where
  "demo_worker = (\<lambda>k. worker demo_site (\<lambda>_. []) web_project 0 ''job''
      (if k = 0 then segment 0 1 else if k = 1 then segment 1 2 else if k = 2 then segment 2 3 else segment 3 5))"

definition demo_started :: "unit sched" where
  "demo_started = (let s = demo_sched (hourly None ''update'')
     in s \<lparr> sc_jobs := snd (StartJob (Inr ''job'') 0 web_project ''update'' 0 (sc_jobs s)) \<rparr>)"

theorem scheduled_run_is_settled_witness:
  "\<exists>j r. map_of (jm_jobs (sc_jobs (demo_worker 3 (snd (settle_started demo_site demo_worker (hourly None ''update'') 0 ''job'' False demo_started))))) ''job'' = Some j
     \<and> aj_Status j \<in> {''completed'', ''failed''}
     \<and> filter (\<lambda>r. run_JobID r = ''job'') (db_runs (sched_db (demo_worker 3 (snd (settle_started demo_site demo_worker (hourly None ''update'') 0 ''job'' False demo_started))))) = [r]
     \<and> run_Status r = aj_Status j"
proof -
  let ?s = "demo_sched (hourly None ''update'')"
  have "to_lower (trim_space ''update'') = ''update''" "ValidJobAction ''update''" by code_simp+
  then have st: "StartJob (Inr ''job'') 0 web_project ''update'' 0 (sc_jobs ?s) =
      (Inr (new_job ''job'' (pr_Name web_project) ''update'' 0), snd (StartJob (Inr ''job'') 0 web_project ''update'' 0 (sc_jobs ?s)))"
    by (simp add: StartJob_def Let_def)
  have "us_ID (hourly None ''update'') = 1" by (simp add: hourly_def)
  then have e: "find (\<lambda>u. us_ID u = us_ID (hourly None ''update'')) (db_schedules (sched_db ?s)) \<noteq> None"
    "\<forall>r \<in> set (db_runs (sched_db ?s)). run_JobID r \<noteq> ''job''" by (simp_all add: demo_sched_store)
  show ?thesis unfolding demo_started_def Let_def
    by (rule scheduled_run_is_settled[OF demo_sched_store(1) e(1) _ e(2) st _ _ _ demo_worker_def]) simp_all
qed

text \<open>
  A completion can be lost for a callback agent: when the agent reports the result of a
  scheduled command before the dispatcher has recorded the dispatch, the history row and the
  schedule stay \<^verbatim>\<open>started\<close>; the same report one step later settles them.
\<close>

definition report_result :: "nat \<Rightarrow> nat \<Rightarrow> unit sched \<Rightarrow> unit sched" where
  "report_result at k s =
     (if k = at then snd (on_db (SaveAgentCommandResult ''n1'' 5 1 1 True ''ok'') s) else s)"

theorem early_agent_result_is_lost:
  "let u = hourly (Some 1) ''pull'';
       early = sched_db (snd (runSchedule demo_site (Inr ''job'') (report_result 0) u (demo_sched u)));
       late = sched_db (snd (runSchedule demo_site (Inr ''job'') (report_result 1) u (demo_sched u)))
   in map run_Status (db_runs early) = [''started''] \<and> map us_LastStatus (db_schedules early) = [''started'']
      \<and> map ac_Status (db_commands early) = [''done'']
      \<and> map run_Status (db_runs late) = [''completed''] \<and> map us_LastStatus (db_schedules late) = [''completed'']"
  by code_simp

text \<open>
  A root directory that is missing for a moment, such as an unmounted volume, disables the
  schedules of its projects: the dispatcher takes the error for a deleted project.
\<close>

definition no_disk :: "unit disk" where
  "no_disk = demo_disk \<lparr> dk_stat := (\<lambda>_ _. Missing), dk_readdir := (\<lambda>_ _. Inl ''no such file or directory'') \<rparr>"

theorem missing_root_disables_schedule:
  "let u = hourly None ''update'';
       d = sched_db (snd (runSchedule (demo_site \<lparr> si_disk := no_disk \<rparr>) (Inr ''job'') (\<lambda>_ s. s) u (demo_sched u)))
   in map us_Enabled (db_schedules d) = [False]
      \<and> map us_LastError (db_schedules d) = [''disabled automatically: root directory does not exist: /docker'']"
  by code_simp

section \<open>Watching ends\<close>

lemma complete_rows:
  assumes "db_faults (sched_db s) = []" and "i \<noteq> []"
  shows "rows_status i (sched_db (snd (on_db (CompleteScheduleRun n nw i st out er en du) s))) = map (\<lambda>_. st) (rows_status i (sched_db s))"
  using CompleteScheduleRun_runs(2)[OF assms]
  by (simp add: rows_status_def on_db_def Let_def split_beta rows_complete)

lemma unknown_settles:
  "db_faults (sched_db s) = [] \<Longrightarrow> i \<noteq> [] \<Longrightarrow> ''started'' \<notin> set (rows_status i (sched_db (complete_unknown S i msg s)))"
  unfolding complete_unknown_def by (subst complete_rows) auto

lemma job_settles:
  "db_faults (sched_db s) = [] \<Longrightarrow> aj_ID j = i \<Longrightarrow> i \<noteq> [] \<Longrightarrow> aj_Status j \<noteq> ''started'' \<Longrightarrow>
   ''started'' \<notin> set (rows_status i (sched_db (complete_job S j s)))"
  unfolding complete_job_def by (simp add: complete_rows image_constant_conv)

lemma watch_loop_settles:
  assumes "db_faults (sched_db s) = []" and "i \<noteq> []"
    and agent: "\<And>body st er j. si_job S body = Inr (st, er, Some j) \<Longrightarrow> aj_ID j = i \<and> aj_Status j \<noteq> ''started''"
  shows "''started'' \<notin> set (rows_status i (sched_db (watch_loop S ticks endpoint token i s)))"
  using assms(1)
proof (induction ticks arbitrary: s)
  case (0 s)
  obtain r w1 where r: "poll_job S endpoint token (sc_world s) = (r, w1)" by force
  have f: "db_faults (sched_db (s \<lparr> sc_world := w1 \<rparr>)) = []" using 0 by simp
  have "aj_ID j = i \<and> aj_Status j \<noteq> ''started''" if "r = Inr j" for j
    using r that agent by (auto simp: poll_job_def Let_def split: prod.splits sum.splits option.splits if_splits)
  then show ?case using unknown_settles[OF f assms(2)] job_settles[OF f _ assms(2)] r
    by (subst watch_loop.simps) (cases r; simp)
next
  case (Suc n s)
  obtain r w1 where r: "poll_job S endpoint token (sc_world s) = (r, w1)" by force
  have f: "db_faults (sched_db (s \<lparr> sc_world := w1 \<rparr>)) = []" using Suc.prems by simp
  have "aj_ID j = i \<and> aj_Status j \<noteq> ''started''" if "r = Inr j" for j
    using r that agent by (auto simp: poll_job_def Let_def split: prod.splits sum.splits option.splits if_splits)
  then show ?case using Suc.IH[of "s \<lparr> sc_world := ho_sleep (si_host S) (2 * second) w1 \<rparr>"] Suc.prems
      job_settles[OF f _ assms(2)] r
    by (subst watch_loop.simps) (cases r; simp)
qed

text \<open>
  A watched remote job never stays \<^verbatim>\<open>started\<close>: whatever the agent answers and however long it
  is silent, the watch ends with the run settled, with the agent's status for the job or as
  \<^verbatim>\<open>unknown\<close>, provided that the agent's answers are about the job it was asked for.
\<close>

theorem watched_run_is_settled:
  assumes "db_faults (sched_db s) = []" and "jobID \<noteq> []"
    and "\<And>body st er j. si_job S body = Inr (st, er, Some j) \<Longrightarrow> aj_ID j = jobID \<and> aj_Status j \<noteq> ''started''"
  shows "''started'' \<notin> set (rows_status jobID (sched_db (watchAgentJob S ticks agentID jobID s)))"
proof -
  obtain g s1 where g: "on_db (GetAgent agentID) s = (g, s1)" by force
  then have f: "db_faults (sched_db s1) = []"
    using assms(1) by (auto simp: on_db_def GetAgent_def sql_ok)
  show ?thesis
  proof (cases g)
    case (Inl e)
    then show ?thesis using g unknown_settles[OF f assms(2)] by (simp add: watchAgentJob_def)
  next
    case (Inr a)
    then show ?thesis using g watch_loop_settles[OF f assms(2,3)] by (simp add: watchAgentJob_def)
  qed
qed

theorem watched_run_is_settled_witness:
  "''started'' \<notin> set (rows_status ''r1'' (sched_db (watchAgentJob
     (demo_site \<lparr> si_job := (\<lambda>_. Inr ([], [], Some ((new_job ''r1'' ''web'' ''pull'' 0) \<lparr> aj_Status := ''completed'' \<rparr>))) \<rparr>)
     3 1 ''r1'' (demo_sched (hourly (Some 1) ''pull'')))))"
  using watched_run_is_settled[OF demo_sched_store(1), of "''r1''"
      "demo_site \<lparr> si_job := (\<lambda>_. Inr ([], [], Some ((new_job ''r1'' ''web'' ''pull'' 0) \<lparr> aj_Status := ''completed'' \<rparr>))) \<rparr>"]
  by (auto simp: new_job_def)

end
