(* ===== verification/AgentLoop.thy ===== *)
theory AgentLoop
  imports AgentApi Scheduler
begin

text \<open>
  The callback agent, \<^verbatim>\<open>server/cmd/server/agent_callback.go\<close>, and its composition with the controller's
  handlers of \<open>AgentApi\<close>. The agent's host is a \<open>site\<close>; the controller, with the network before it,
  is a record of the two calls the agent makes, over a state of its own. \<open>controller_link\<close> makes that
  record from the controller's handlers, with calls that arrive, get lost on the way, or lose their
  answer, and with other users of the controller's store in between.
\<close>

section \<open>Definitions\<close>

subsection \<open>The agent\<close>

text \<open>
  The answer of a check-in as the agent decodes it, and the two calls: \<open>Inl\<close> when \<^verbatim>\<open>client.Do\<close> fails.
  A decoded body is \<open>Inl\<close> when \<^verbatim>\<open>json.Decode\<close> fails. Both take the endpoint and the token.
\<close>

record checkin_envelope =
  ce_Status :: string
  ce_Error :: string
  ce_Commands :: "AgentCommandDispatch list"

record 'c controller =
  co_checkin :: "string \<Rightarrow> string \<Rightarrow> string \<times> Project list \<Rightarrow> 'c \<Rightarrow>
    (int \<times> string \<times> checkin_envelope result) result \<times> 'c"
  co_report :: "string \<Rightarrow> string \<Rightarrow> string \<times> AgentCommandResult list \<Rightarrow> 'c \<Rightarrow> (int \<times> string) result \<times> 'c"

text \<open>
  What an agent is made of: its site, the same host with the time limit of the commands of \<open>Pull\<close> and
  \<open>Update\<close> set to some seconds, \<^verbatim>\<open>json.MarshalIndent\<close> of a status, and the \<^verbatim>\<open>timeout\<close> of a command's
  parameters (\<open>None\<close> when they are no JSON object with a number there).
\<close>

record 'w agent =
  at_site :: "'w site"
  at_limited :: "int \<Rightarrow> 'w host"
  at_encode :: "ProjectUpdateStatus \<Rightarrow> string result"
  at_timeout :: "string \<Rightarrow> int option"
  at_name :: string
  at_token :: string
  at_checkins :: string
  at_results :: string

definition agentControllerPath :: "(string \<Rightarrow> (string \<times> string \<times> string) option) \<Rightarrow> string \<Rightarrow> string \<Rightarrow> string result" where
  "agentControllerPath parse controllerURL path =
     (case parse (trim_space controllerURL) of
        None \<Rightarrow> Inl ''invalid controller URL''
      | Some (scheme, authority, txt) \<Rightarrow>
          if scheme = [] \<or> authority = [] then Inl ''invalid controller URL''
          else if scheme \<noteq> ''http'' \<and> scheme \<noteq> ''https'' then Inl ''controller URL must use http or https''
          else Inr (trim_right txt ''/'' @ path))"

definition agentCheckinEndpoint :: "(string \<Rightarrow> (string \<times> string \<times> string) option) \<Rightarrow> string \<Rightarrow> string result" where
  "agentCheckinEndpoint parse controllerURL =
     agentControllerPath parse controllerURL ''/api/v1/agent-checkin/projects''"

definition agentResultsEndpoint :: "(string \<Rightarrow> (string \<times> string \<times> string) option) \<Rightarrow> string \<Rightarrow> string result" where
  "agentResultsEndpoint parse controllerURL =
     agentControllerPath parse controllerURL ''/api/v1/agent-checkin/results''"

definition op_answer :: "OpResult \<Rightarrow> bool \<times> string" where
  "op_answer r = (op_Success r, op_Output r)"

definition command_timeout :: "'w agent \<Rightarrow> string \<Rightarrow> int" where
  "command_timeout A params =
     (if params = [] then 300
      else (case at_timeout A params of Some t \<Rightarrow> if 0 < t then t else 300 | None \<Rightarrow> 300))"

definition executeAgentCommand :: "'w agent \<Rightarrow> AgentCommandDispatch \<Rightarrow> 'w \<Rightarrow> (bool \<times> string) \<times> 'w" where
  "executeAgentCommand A cmd w =
     (let S = at_site A; H = si_host S; action = ad_Action cmd in
      if action = ''prune-system-all'' then map_prod op_answer id (Prune H ''system-all'' w)
      else
        (case GetProject H (si_disk S) (si_views S) (si_decoders S) (si_engine S) (ad_Project cmd) w of
           (Inl e, w1) \<Rightarrow> ((False, ''project not found: '' @ core_text e), w1)
         | (Inr project, w1) \<Rightarrow>
             (let L = at_limited A (command_timeout A (ad_Params cmd)) in
              if action = ''check'' then
                (let (status, w2) = CheckProjectUpdates H (si_decoders S) project w1
                 in (case at_encode A status of
                       Inl e \<Rightarrow> (False, e)
                     | Inr out \<Rightarrow> (ps_Error status = [], out), w2))
              else if action = ''up'' then map_prod op_answer id (Up H project w1)
              else if action = ''down'' then map_prod op_answer id (Down H project w1)
              else if action = ''pull'' then map_prod op_answer id (Pull L project w1)
              else if action = ''restart'' then map_prod op_answer id (Restart H project w1)
              else if action = ''update'' then
                (let (rs, w2) = Update L (si_engine S) project w1
                 in (((\<forall>r \<in> set rs. op_Success r), concat (map (\<lambda>r. op_Output r @ [newline]) rs)), w2))
              else ((False, ''unknown action: '' @ action), w1))))"

text \<open>The loop of \<open>runAgentCommands\<close>: one result per command, in their order.\<close>

fun execute_all :: "'w agent \<Rightarrow> AgentCommandDispatch list \<Rightarrow> 'w \<Rightarrow> AgentCommandResult list \<times> 'w" where
  "execute_all A [] w = ([], w)"
| "execute_all A (cmd # cmds) w =
     (let ((success, out), w1) = executeAgentCommand A cmd w;
          (rs, w2) = execute_all A cmds w1
      in (\<lparr> ar_ID = ad_ID cmd, ar_Success = success, ar_Output = out \<rparr> # rs, w2))"

definition success_code :: "int \<Rightarrow> bool" where
  "success_code code \<longleftrightarrow> 200 \<le> code \<and> code < 300"

definition reportAgentResults :: "'c controller \<Rightarrow> 'w agent \<Rightarrow> AgentCommandResult list \<Rightarrow> 'c \<Rightarrow> string option \<times> 'c" where
  "reportAgentResults C A results c =
     (case co_report C (at_results A) (at_token A) (at_name A, results) c of
        (Inl e, c1) \<Rightarrow> (Some e, c1)
      | (Inr (code, status), c1) \<Rightarrow>
          (if \<not> success_code code then Some (''results endpoint returned '' @ status) else None, c1))"

text \<open>A failed report is only logged; the first component is the list of results it carried.\<close>

definition runAgentCommands ::
  "'c controller \<Rightarrow> 'w agent \<Rightarrow> AgentCommandDispatch list \<Rightarrow> 'w \<times> 'c \<Rightarrow> AgentCommandResult list \<times> 'w \<times> 'c" where
  "runAgentCommands C A commands s =
     (let (w, c) = s; (results, w1) = execute_all A commands w; (_, c1) = reportAgentResults C A results c
      in (results, w1, c1))"

text \<open>
  One round: the error it returns, if any, and the results of the commands it executed (which the
  code keeps in a local variable).
\<close>

definition sendAgentCheckin ::
  "'c controller \<Rightarrow> 'w agent \<Rightarrow> 'w \<times> 'c \<Rightarrow> (string option \<times> AgentCommandResult list) \<times> 'w \<times> 'c" where
  "sendAgentCheckin C A s =
     (let (w, c) = s; S = at_site A in
      case DiscoverProjects (si_host S) (si_disk S) (si_views S) (si_decoders S) (si_engine S) w of
        (Inl e, w1) \<Rightarrow> ((Some (core_text e), []), w1, c)
      | (Inr projects, w1) \<Rightarrow>
          (case co_checkin C (at_checkins A) (at_token A) (at_name A, projects) c of
             (Inl e, c1) \<Rightarrow> ((Some e, []), w1, c1)
           | (Inr (code, status, Inl e), c1) \<Rightarrow> ((Some e, []), w1, c1)
           | (Inr (code, status, Inr envelope), c1) \<Rightarrow>
               if \<not> success_code code \<or> ce_Status envelope = ''error''
               then ((Some (if ce_Error envelope = [] then status else ce_Error envelope), []), w1, c1)
               else if ce_Commands envelope = [] then ((None, []), w1, c1)
               else
                 (let (results, s1) = runAgentCommands C A (ce_Commands envelope) (w1, c1)
                  in ((None, results), s1))))"

text \<open>
  The loop: a first round, then one at each tick until the context is done, after \<open>ticks\<close> of them. An
  error of a round is logged. \<open>Inl\<close> is \<^verbatim>\<open>log.Fatalf\<close>.
\<close>

fun checkin_rounds :: "'c controller \<Rightarrow> 'w agent \<Rightarrow> nat \<Rightarrow> 'w \<times> 'c \<Rightarrow> string list \<times> 'w \<times> 'c" where
  "checkin_rounds C A 0 s = ([], s)"
| "checkin_rounds C A (Suc n) s =
     (let ((err, _), s1) = sendAgentCheckin C A s; (errs, s2) = checkin_rounds C A n s1
      in ((case err of None \<Rightarrow> errs | Some e \<Rightarrow> (''agent check-in failed: '' @ e) # errs), s2))"

definition runAgentCallbackLoop ::
  "(string \<Rightarrow> (string \<times> string \<times> string) option) \<Rightarrow> string \<Rightarrow> bool \<Rightarrow> nat \<Rightarrow> 'c controller \<Rightarrow> 'w agent \<Rightarrow> 'w \<times> 'c \<Rightarrow>
   string + string list \<times> 'w \<times> 'c" where
  "runAgentCallbackLoop parse controllerURL once ticks C A s =
     bind_result (agentCheckinEndpoint parse controllerURL) (\<lambda>endpoint.
     bind_result (agentResultsEndpoint parse controllerURL) (\<lambda>resultsEndpoint.
       Inr (checkin_rounds C (A \<lparr> at_checkins := endpoint, at_results := resultsEndpoint \<rparr>)
              (if once then 1 else Suc ticks) s)))"

subsection \<open>The controller behind the network\<close>

text \<open>
  A call arrives and is answered, is lost before it arrives, or is answered into the void. \<open>others\<close> is
  what other users do to the store before the call arrives; \<open>encode\<close> is the JSON text of the projects
  as the controller stores it, \<open>line\<close> the status line of a code. The handlers answer with \<open>writeJSON\<close>
  and \<open>writeError\<close>.
\<close>

datatype delivery = Delivered | RequestLost string | ReplyLost string

definition deliver :: "delivery \<Rightarrow> (db \<Rightarrow> db) \<Rightarrow> (db \<Rightarrow> 'a \<times> db) \<Rightarrow> db \<Rightarrow> 'a result \<times> db" where
  "deliver way others f d =
     (case way of
        Delivered \<Rightarrow> map_prod Inr id (f (others d))
      | RequestLost e \<Rightarrow> (Inl e, others d)
      | ReplyLost e \<Rightarrow> (Inl e, snd (f (others d))))"

definition checkin_reply :: "(int \<Rightarrow> string) \<Rightarrow> (int \<times> nat \<times> AgentCommandDispatch list) response \<Rightarrow> int \<times> string \<times> checkin_envelope result" where
  "checkin_reply line r =
     (let (code, body) = r in
      (code, line code,
       Inr (case body of
              Inl e \<Rightarrow> \<lparr> ce_Status = ''error'', ce_Error = e, ce_Commands = [] \<rparr>
            | Inr (_, _, cmds) \<Rightarrow> \<lparr> ce_Status = ''ok'', ce_Error = [], ce_Commands = cmds \<rparr>)))"

definition controller_link ::
  "string \<Rightarrow> instant \<Rightarrow> instant \<Rightarrow> (int \<Rightarrow> string) \<Rightarrow> (Project list \<Rightarrow> string result) \<Rightarrow> delivery \<Rightarrow> delivery \<Rightarrow> (db \<Rightarrow> db) \<Rightarrow> db controller" where
  "controller_link node now later line encode way1 way2 others =
     \<lparr> co_checkin = (\<lambda>_ token (name, projects). deliver way1 others (\<lambda>d. map_prod (checkin_reply line) id
         (CheckinProjects now (''Bearer '' @ token) [] (Some (name, length projects, encode projects)) d))),
       co_report = (\<lambda>_ token (name, results). deliver way2 others (\<lambda>d. map_prod (\<lambda>r. (fst r, line (fst r))) id
         (CheckinResults node later (''Bearer '' @ token) [] (Some (name, results)) d))) \<rparr>"

text \<open>Any number of agents that check in at the same controller; the list holds the ids executed so far.\<close>

definition quiet :: "(db \<Rightarrow> db) \<Rightarrow> bool" where
  "quiet others \<longleftrightarrow> (\<forall>d. \<exists>l. store_run d l (others d))"

inductive agents_run :: "'w \<times> db \<Rightarrow> int list \<Rightarrow> 'w \<times> db \<Rightarrow> bool" where
  begin_run: "agents_run s [] s"
| round: "agents_run s l s1 \<Longrightarrow> quiet others \<Longrightarrow>
    sendAgentCheckin (controller_link node now later line encode way1 way2 others) A s1 = ((err, results), s2) \<Longrightarrow>
    agents_run s (l @ map ar_ID results) s2"
| store: "agents_run s l (w, d) \<Longrightarrow> store_run d l' d' \<Longrightarrow> agents_run s l (w, d')"
| world: "agents_run s l (w, d) \<Longrightarrow> agents_run s l (w', d)"


section \<open>Lemmas\<close>

text \<open>The ids that an answer hands to the agent.\<close>

definition answered :: "(int \<times> string \<times> checkin_envelope result) result \<Rightarrow> int list" where
  "answered r = (case r of Inr (_, _, Inr envelope) \<Rightarrow> map ad_ID (ce_Commands envelope) | _ \<Rightarrow> [])"

lemma answered_simps [simp]:
  "answered (Inl e) = []" "answered (Inr (code, st, Inl e)) = []"
  "answered (Inr (code, st, Inr envelope)) = map ad_ID (ce_Commands envelope)"
  by (simp_all add: answered_def)

lemma execute_all_ids: "map ar_ID (fst (execute_all A cmds w)) = map ad_ID cmds"
proof (induction cmds arbitrary: w)
  case (Cons cmd cmds)
  show ?case using Cons [of "snd (executeAgentCommand A cmd w)"] by (simp add: case_prod_beta Let_def)
qed simp

text \<open>
  What an agent needs of its controller so that nothing runs twice: an answer hands out distinct ids
  that were open, they are not open afterwards, and nothing an agent does opens an id.
\<close>

locale at_most_once =
  fixes C :: "'c controller" and inv :: "'c \<Rightarrow> bool" and open_ids :: "'c \<Rightarrow> int set"
  assumes checkin_law: "co_checkin C url tok body c = (r, c') \<Longrightarrow> inv c \<Longrightarrow>
      inv c' \<and> distinct (answered r) \<and> set (answered r) \<subseteq> open_ids c \<and> open_ids c' \<subseteq> open_ids c - set (answered r)"
    and report_law: "co_report C url tok res c = (r', c') \<Longrightarrow> inv c \<Longrightarrow> inv c' \<and> open_ids c' \<subseteq> open_ids c"
begin

lemma runAgentCommands_once:
  assumes "runAgentCommands C A cmds (w, c) = (results, w', c')" "inv c"
  shows "map ar_ID results = map ad_ID cmds \<and> inv c' \<and> open_ids c' \<subseteq> open_ids c"
proof -
  obtain w1 where e: "execute_all A cmds w = (results, w1)"
    using assms(1) by (auto simp: runAgentCommands_def Let_def split: prod.splits)
  obtain r c1 where p: "co_report C (at_results A) (at_token A) (at_name A, results) c = (r, c1)" by fastforce
  have "c' = c1"
    using assms(1) e p by (auto simp: runAgentCommands_def Let_def reportAgentResults_def split: prod.splits sum.splits)
  with report_law [OF p assms(2)] execute_all_ids [of A cmds w] e show ?thesis by simp
qed

lemma round_once:
  assumes "sendAgentCheckin C A (w, c) = ((err, results), w', c')" "inv c"
  shows "inv c' \<and> distinct (map ar_ID results) \<and> set (map ar_ID results) \<subseteq> open_ids c
    \<and> open_ids c' \<subseteq> open_ids c - set (map ar_ID results)"
proof -
  let ?S = "at_site A"
  obtain p w1 where d: "DiscoverProjects (si_host ?S) (si_disk ?S) (si_views ?S) (si_decoders ?S) (si_engine ?S) w = (p, w1)"
    by fastforce
  show ?thesis
  proof (cases p)
    case (Inl e)
    then show ?thesis using assms d by (simp add: sendAgentCheckin_def Let_def)
  next
    case (Inr projects)
    obtain r c1 where k: "co_checkin C (at_checkins A) (at_token A) (at_name A, projects) c = (r, c1)" by fastforce
    note law = checkin_law [OF k assms(2)]
    show ?thesis
    proof (cases "\<exists>code st envelope. r = Inr (code, st, Inr envelope) \<and> success_code code \<and> ce_Status envelope \<noteq> ''error''
        \<and> ce_Commands envelope \<noteq> []")
      case True
      then obtain code st envelope where r: "r = Inr (code, st, Inr envelope)" "success_code code"
          "ce_Status envelope \<noteq> ''error''" "ce_Commands envelope \<noteq> []" by blast
      obtain results1 w2 c2 where q: "runAgentCommands C A (ce_Commands envelope) (w1, c1) = (results1, w2, c2)"
        using prod_cases3 by blast
      have "results = results1" "c' = c2"
        using assms(1) d Inr k r q by (simp_all add: sendAgentCheckin_def Let_def)
      with runAgentCommands_once [OF q] law r(1) show ?thesis by auto
    next
      case False
      then have "results = [] \<and> c' = c1"
        using assms(1) d Inr k by (auto simp: sendAgentCheckin_def Let_def split: sum.splits prod.splits if_splits)
      with law show ?thesis by auto
    qed
  qed
qed

end


subsection \<open>The controller hands a command out once\<close>

lemma quiet_claimable:
  assumes "quiet others" "wf_db d"
  shows "wf_db (others d)" "claimable (others d) \<subseteq> claimable d"
proof -
  obtain l where "store_run d l (others d)" using assms(1) by (auto simp: quiet_def)
  with run_claimable [OF this assms(2)] wf_store_run [OF this assms(2)]
  show "wf_db (others d)" "claimable (others d) \<subseteq> claimable d" by auto
qed

lemma same_data_claimable: "same_data d d' \<Longrightarrow> claimable d' = claimable d"
  by (auto simp: same_data_def claimable_def)

lemma CheckinProjects_once:
  assumes "CheckinProjects now authorization tok body d = (r, d')" "wf_db d"
  shows "wf_db d' \<and> distinct (answered (Inr (checkin_reply line r))) \<and>
    set (answered (Inr (checkin_reply line r))) \<subseteq> claimable d \<and>
    claimable d' \<subseteq> claimable d - set (answered (Inr (checkin_reply line r)))"
proof -
  have bad: "answered (Inr (checkin_reply line (write_error code msg))) = []" for code msg
    by (simp add: checkin_reply_def)
  have good: "answered (Inr (checkin_reply line (write_json code (i, k, cmds)))) = map ad_ID cmds" for code i k cmds
    by (simp add: checkin_reply_def)
  show ?thesis
  proof (cases "\<exists>name n raw. body = Some (name, n, raw) \<and> trim_space name \<noteq> []")
    case False
    then show ?thesis using assms bad
      by (auto simp: CheckinProjects_def Let_def split: option.splits if_splits)
  next
    case True
    then obtain name n raw where b: "body = Some (name, n, raw)" "trim_space name \<noteq> []" by blast
    obtain g d1 where g: "authAgent authorization tok (trim_space name) d = (g, d1)" by fastforce
    note same = authAgent_cases(1) [OF g]
    have w1: "wf_db d1" "claimable d1 = claimable d"
      using same assms(2) by (simp_all add: same_data_tables same_data_claimable)
    show ?thesis
    proof (cases g)
      case (Inl e)
      then show ?thesis using assms b g bad w1 by (cases e) (auto simp: CheckinProjects_def Let_def)
    next
      case (Inr agent)
      obtain s d2 where s: "SaveAgentProjectSnapshot now (ag_ID agent) raw d1 = (s, d2)" by fastforce
      obtain t d3 where t: "TouchAgent now (ag_ID agent) d2 = (t, d3)" by fastforce
      obtain k d4 where k: "ClaimPendingCommands now (ag_ID agent) d3 = (k, d4)" by fastforce
      have r2: "store_step d1 [] d2" using store_step.save_snapshot [of d1 now "ag_ID agent" raw] s by simp
      have r3: "store_step d2 [] d3" using store_step.touch_agent [of d2 now "ag_ID agent"] t by simp
      have w2: "wf_db d2" "claimable d2 \<subseteq> claimable d"
        using wf_store_step [OF r2] step_claimable [OF r2] w1 by auto
      have w3: "wf_db d3" "claimable d3 \<subseteq> claimable d"
        using wf_store_step [OF r3] step_claimable [OF r3] w2 by auto
      have w4: "wf_db d4" using wf_ClaimPendingCommands [OF w3(1), of now "ag_ID agent"] k by simp
      show ?thesis
      proof (cases "isl s \<or> isl t \<or> isl k")
        case True
        have fail4: "claimable d4 \<subseteq> claimable d" if "k = Inl e" for e
          using step_claimable [OF store_step.claim_failed] k that w3 by blast
        from True consider e where "s = Inl e" | e where "s = Inr ()" "t = Inl e"
          | e where "s = Inr ()" "t = Inr ()" "k = Inl e" by (cases s; cases t; cases k) auto
        then show ?thesis
        proof cases
          case 1
          then show ?thesis using assms(1) b g Inr s bad w2 by (auto simp: CheckinProjects_def Let_def)
        next
          case 2
          then show ?thesis using assms(1) b g Inr s t bad w3 by (auto simp: CheckinProjects_def Let_def)
        next
          case 3
          then show ?thesis using assms(1) b g Inr s t k bad w4 fail4 by (auto simp: CheckinProjects_def Let_def)
        qed
      next
        case False
        then obtain cmds where o: "s = Inr ()" "t = Inr ()" "k = Inr cmds" by (cases s; cases t; cases k) auto
        have "d' = d4" "answered (Inr (checkin_reply line r)) = map ad_ID cmds"
          using assms(1) b g Inr s t k o good by (auto simp: CheckinProjects_def Let_def)
        with claim_once [OF w3(1), of now "ag_ID agent" cmds d4] k o w3 w4 show ?thesis by auto
      qed
    qed
  qed
qed

lemma save_results_once:
  assumes "save_results node now i rs d = (r, d')" "wf_db d"
  shows "wf_db d' \<and> claimable d' \<subseteq> claimable d"
  using assms
proof (induction rs arbitrary: d)
  case (Cons x rs)
  obtain y d1 where y: "SaveAgentCommandResult node now i (ar_ID x) (ar_Success x) (ar_Output x) d = (y, d1)" by fastforce
  have st: "store_step d [] d1"
    using store_step.command_result [of d node now i "ar_ID x" "ar_Success x" "ar_Output x"] y by simp
  have w1: "wf_db d1" "claimable d1 \<subseteq> claimable d"
    using wf_store_step [OF st] step_claimable [OF st] Cons.prems(2) by auto
  show ?case
  proof (cases y)
    case (Inl e)
    with Cons.prems(1) y w1 show ?thesis by simp
  next
    case (Inr u)
    with Cons.prems(1) y have "save_results node now i rs d1 = (r, d')" by simp
    from Cons.IH [OF this w1(1)] w1(2) show ?thesis by auto
  qed
qed simp

lemma CheckinResults_once:
  assumes "CheckinResults node now authorization tok body d = (r, d')" "wf_db d"
  shows "wf_db d' \<and> claimable d' \<subseteq> claimable d"
proof (cases "\<exists>name rs. body = Some (name, rs) \<and> trim_space name \<noteq> []")
  case False
  then show ?thesis using assms by (auto simp: CheckinResults_def Let_def split: option.splits if_splits)
next
  case True
  then obtain name rs where b: "body = Some (name, rs)" "trim_space name \<noteq> []" by blast
  obtain g d1 where g: "authAgent authorization tok (trim_space name) d = (g, d1)" by fastforce
  have w1: "wf_db d1" "claimable d1 = claimable d"
    using authAgent_cases(1) [OF g] assms(2) by (simp_all add: same_data_tables same_data_claimable)
  show ?thesis
  proof (cases g)
    case (Inl e)
    then show ?thesis using assms(1) b g w1 by (cases e) (auto simp: CheckinResults_def Let_def)
  next
    case (Inr agent)
    obtain s d2 where s: "save_results node now (ag_ID agent) rs d1 = (s, d2)" by fastforce
    then have "d' = d2" using assms(1) b g Inr by (auto simp: CheckinResults_def Let_def split: sum.splits)
    with save_results_once [OF s w1(1)] w1(2) show ?thesis by simp
  qed
qed

lemma controller_link_once:
  assumes "quiet others"
  shows "at_most_once (controller_link node now later line encode way1 way2 others) wf_db claimable"
proof
  fix url tok body d r d'
  assume r: "co_checkin (controller_link node now later line encode way1 way2 others) url tok body d = (r, d')" "wf_db d"
  obtain name projects where b: "body = (name, projects)" by fastforce
  obtain x d1 where x: "CheckinProjects now (''Bearer '' @ tok) [] (Some (name, length projects, encode projects)) (others d) = (x, d1)"
    by fastforce
  note q = quiet_claimable [OF assms r(2)]
  note once = CheckinProjects_once [OF x q(1), of line]
  show "wf_db d' \<and> distinct (answered r) \<and> set (answered r) \<subseteq> claimable d \<and>
      claimable d' \<subseteq> claimable d - set (answered r)"
    using r(1) x once q by (cases way1) (auto simp: controller_link_def deliver_def b)
next
  fix url tok res d r d'
  assume r: "co_report (controller_link node now later line encode way1 way2 others) url tok res d = (r, d')" "wf_db d"
  obtain name results where b: "res = (name, results)" by fastforce
  obtain x d1 where x: "CheckinResults node later (''Bearer '' @ tok) [] (Some (name, results)) (others d) = (x, d1)"
    by fastforce
  note q = quiet_claimable [OF assms r(2)]
  show "wf_db d' \<and> claimable d' \<subseteq> claimable d"
    using r(1) x CheckinResults_once [OF x q(1)] q by (cases way2) (auto simp: controller_link_def deliver_def b)
qed

lemma quiet_id [simp]: "quiet (\<lambda>d. d)"
  by (auto simp: quiet_def intro: store_run.start)

text \<open>The controller with nobody else at it.\<close>

interpretation lone: at_most_once "controller_link node now later line encode way1 way2 (\<lambda>d. d)" wf_db claimable
  for node now later line encode way1 way2
  by (rule controller_link_once) simp

lemma agents_run_once:
  assumes "agents_run s l s'" "wf_db (snd s)"
  shows "wf_db (snd s') \<and> distinct l \<and> set l \<subseteq> claimable (snd s) \<and> claimable (snd s') \<subseteq> claimable (snd s) - set l"
  using assms
proof (induction rule: agents_run.induct)
  case (round s l s1 others node now later line encode way1 way2 A err results s2)
  have one: "at_most_once (controller_link node now later line encode way1 way2 others) wf_db claimable"
    by (rule controller_link_once) (rule round.hyps)
  show ?case
    using at_most_once.round_once [OF one, of A "fst s1" "snd s1" err results "fst s2" "snd s2"]
      round.hyps(3) round.IH [OF round.prems] by auto
next
  case (store s l w d l' d')
  with run_claimable [OF store.hyps(2)] wf_store_run [OF store.hyps(2)] show ?case by fastforce
qed simp_all


subsection \<open>A round without failures\<close>

lemma find_unique:
  "distinct (map k xs) \<Longrightarrow> x \<in> set xs \<Longrightarrow> find (\<lambda>y. k y = k x) xs = Some x"
  by (induction xs) (auto simp: image_iff)

lemma trim_prefix_append [simp]: "trim_prefix (p @ s) p = s"
  by (simp add: trim_prefix_def has_prefix_iff)

lemma authAgent_ok:
  assumes "db_faults d = []" "distinct (map ag_Name (db_agents d))" "a \<in> set (db_agents d)"
    "ag_Enabled a" "ag_Token a \<noteq> []"
  shows "authAgent (''Bearer '' @ ag_Token a) [] (ag_Name a) d = (Inr (scanAgent a), d)"
proof -
  have "GetAgentByName (ag_Name a) d = (Inr (scanAgent a), d)"
    using assms(1) find_unique [OF assms(2,3)] by (simp add: GetAgentByName_def sql_ok find_row_def)
  moreover have "bearer_token (''Bearer '' @ ag_Token a) [] = ag_Token a"
    unfolding bearer_token_def trim_prefix_append using assms(5) by (simp add: Let_def)
  ultimately show ?thesis using assms(4,5) by (simp add: authAgent_def Let_def)
qed

text \<open>What the report of a result does to a row of the command table.\<close>

definition record_result :: "int \<Rightarrow> instant \<Rightarrow> AgentCommandResult \<Rightarrow> AgentCommand \<Rightarrow> AgentCommand" where
  "record_result i now r c =
     (if ac_ID c = ar_ID r \<and> ac_AgentID c = i
      then c \<lparr> ac_Status := (if ar_Success r then ''done'' else ''error''), ac_Success := ar_Success r,
               ac_Output := ar_Output r, ac_UpdatedAt := now \<rparr>
      else c)"

lemma record_result_keys [simp]:
  "ac_ID (record_result i now r c) = ac_ID c" "ac_AgentID (record_result i now r c) = ac_AgentID c"
  by (simp_all add: record_result_def)

lemma CompleteScheduleRun_commands:
  assumes "db_faults d = []"
  shows "db_commands (snd (CompleteScheduleRun node now jobID st out err t dur d)) = db_commands d"
    "fst (CompleteScheduleRun node now jobID st out err t dur d) = Inr ()"
    "db_faults (snd (CompleteScheduleRun node now jobID st out err t dur d)) = []"
proof -
  have aud: "db_commands (insertScheduleCompletionAuditTx node j s e t' x) = db_commands x" for j s e t' x
    by (auto simp: insertScheduleCompletionAuditTx_def schedule_audit_def split: list.splits)
  show "db_commands (snd (CompleteScheduleRun node now jobID st out err t dur d)) = db_commands d"
    using assms by (simp add: CompleteScheduleRun_def sql_ok Let_def aud)
  show "fst (CompleteScheduleRun node now jobID st out err t dur d) = Inr ()"
    "db_faults (snd (CompleteScheduleRun node now jobID st out err t dur d)) = []"
    using assms CompleteScheduleRun_runs(1,3) by (cases "jobID = []"; simp add: CompleteScheduleRun_def)+
qed

lemma SaveAgentCommandResult_ok:
  assumes "db_faults d = []"
  shows "\<exists>d'. SaveAgentCommandResult node now i (ar_ID r) (ar_Success r) (ar_Output r) d = (Inr (), d') \<and>
    db_faults d' = [] \<and> db_commands d' = map (record_result i now r) (db_commands d)"
proof -
  define d1 where "d1 = d \<lparr> db_commands := update_where (\<lambda>c. ac_ID c = ar_ID r \<and> ac_AgentID c = i)
      (\<lambda>c. c \<lparr> ac_Status := (if ar_Success r then ''done'' else ''error''), ac_Success := ar_Success r,
               ac_Output := ar_Output r, ac_UpdatedAt := now \<rparr>) (db_commands d) \<rparr>"
  let ?c = "CompleteScheduleRun node now (agent_job_id (ar_ID r))
              (if ar_Success r then ''completed'' else ''failed'') (ar_Output r)
              (if ar_Success r then [] else ''agent command failed'') now [] d1"
  have "db_faults d1 = []" by (simp add: d1_def assms)
  note c = CompleteScheduleRun_commands [OF this, of node now "agent_job_id (ar_ID r)"
      "if ar_Success r then ''completed'' else ''failed''" "ar_Output r"
      "if ar_Success r then [] else ''agent command failed''" now "[]"]
  have "SaveAgentCommandResult node now i (ar_ID r) (ar_Success r) (ar_Output r) d = ?c"
    unfolding SaveAgentCommandResult_def sql_ok [OF assms] d1_def [symmetric] by (simp add: and_then_def)
  moreover have "?c = (Inr (), snd ?c)" using c(2) by (simp add: prod_eq_iff)
  moreover have "db_commands d1 = map (record_result i now r) (db_commands d)"
    by (simp add: d1_def update_where_def record_result_def [abs_def])
  ultimately show ?thesis using c(1,3) by metis
qed

lemma save_results_ok:
  "db_faults d = [] \<Longrightarrow>
   \<exists>d'. save_results node now i rs d = (Inr (), d') \<and> db_commands d' = map (fold (record_result i now) rs) (db_commands d)"
proof (induction rs arbitrary: d)
  case (Cons r rs)
  from SaveAgentCommandResult_ok [OF Cons.prems, of node now i r] obtain d1 where d1:
    "SaveAgentCommandResult node now i (ar_ID r) (ar_Success r) (ar_Output r) d = (Inr (), d1)"
    "db_faults d1 = []" "db_commands d1 = map (record_result i now r) (db_commands d)" by blast
  from Cons.IH [OF d1(2)] d1(1,3) show ?case by (auto simp: comp_def)
qed (simp add: id_def [symmetric])

lemma fold_record_keys [simp]:
  "ac_ID (fold (record_result i now) rs c) = ac_ID c" "ac_AgentID (fold (record_result i now) rs c) = ac_AgentID c"
  by (induction rs arbitrary: c) auto

lemma fold_record_result:
  assumes "distinct (map ar_ID rs)"
  shows "fold (record_result i now) rs c =
    (if ac_AgentID c = i then (case map_of (map (\<lambda>r. (ar_ID r, r)) rs) (ac_ID c) of
        None \<Rightarrow> c | Some r \<Rightarrow> record_result i now r c) else c)"
  using assms
proof (induction rs arbitrary: c)
  case (Cons r rs)
  show ?case
  proof (cases "ac_ID c = ar_ID r")
    case True
    then have "map_of (map (\<lambda>r. (ar_ID r, r)) rs) (ac_ID c) = None"
      using Cons.prems by (auto simp: map_of_eq_None_iff)
    with True Cons show ?thesis by (auto simp: record_result_def split: option.splits)
  next
    case False
    then have "record_result i now r c = c" by (simp add: record_result_def)
    with False Cons show ?thesis by auto
  qed
qed simp


text \<open>The facts about an agent whose calls the controller accepts.\<close>

definition accepted :: "db \<Rightarrow> ComposeAgent \<Rightarrow> 'w agent \<Rightarrow> bool" where
  "accepted d a A \<longleftrightarrow> wf_db d \<and> db_faults d = [] \<and> a \<in> set (db_agents d) \<and> ag_Enabled a \<and>
     ag_Token a = at_token A \<and> at_token A \<noteq> [] \<and> ag_Name a = trim_space (at_name A) \<and> ag_Name a \<noteq> []"

lemma accepted_checkin:
  assumes "accepted d a A"
  defines "queue \<equiv> pending_of (ag_ID a) (db_commands d)"
  shows "\<exists>d'. CheckinProjects now (''Bearer '' @ at_token A) [] (Some (at_name A, n, Inr raw)) d =
      ((200, Inr (ag_ID a, n, map dispatch_of queue)), d') \<and> db_faults d' = [] \<and>
      (\<exists>a'. a' \<in> set (db_agents d') \<and> scanAgent a' = (scanAgent a) \<lparr> ag_LastSeen := Some now, ag_UpdatedAt := now \<rparr>) \<and>
      distinct (map ag_Name (db_agents d')) \<and>
      db_commands d' = update_where (\<lambda>c. ac_ID c \<in> ac_ID ` set queue)
        (\<lambda>c. c \<lparr> ac_Status := ''dispatched'', ac_UpdatedAt := now \<rparr>) (db_commands d)"
proof -
  note acc = assms(1) [unfolded accepted_def]
  have names: "distinct (map ag_Name (db_agents d))" using acc by (simp add: wf_db_def wf_ids_def)
  have named: "trim_space (at_name A) \<noteq> []" using acc by metis
  have auth: "authAgent (''Bearer '' @ at_token A) [] (trim_space (at_name A)) d = (Inr (scanAgent a), d)"
    using authAgent_ok [of d a] acc names by simp
  define d1 where "d1 = snd (SaveAgentProjectSnapshot now (ag_ID a) (Inr raw) d)"
  define d2 where "d2 = snd (TouchAgent now (ag_ID a) d1)"
  have s1: "SaveAgentProjectSnapshot now (ag_ID a) (Inr raw) d = (Inr (), d1)"
    and d1: "db_faults d1 = []" "db_agents d1 = db_agents d" "db_commands d1 = db_commands d"
    using acc by (auto simp: d1_def SaveAgentProjectSnapshot_def sql_ok drop_agents_def)
  have s2: "TouchAgent now (ag_ID a) d1 = (Inr (), d2)"
    and d2: "db_faults d2 = []" "db_commands d2 = db_commands d"
      "db_agents d2 = update_where (\<lambda>x. ag_ID x = ag_ID a) (\<lambda>x. x \<lparr> ag_LastSeen := Some now, ag_UpdatedAt := now \<rparr>) (db_agents d)"
    using d1 by (simp_all add: d2_def TouchAgent_def sql_ok drop_agents_def)
  define d' where "d' = d2 \<lparr> db_commands := update_where (\<lambda>c. ac_ID c \<in> ac_ID ` set queue)
        (\<lambda>c. c \<lparr> ac_Status := ''dispatched'', ac_UpdatedAt := now \<rparr>) (db_commands d) \<rparr>"
  have s3: "ClaimPendingCommands now (ag_ID a) d2 = (Inr (map dispatch_of queue), d')"
    by (simp add: ClaimPendingCommands_def sql_ok d2 Let_def queue_def d'_def)
  have "CheckinProjects now (''Bearer '' @ at_token A) [] (Some (at_name A, n, Inr raw)) d =
      ((200, Inr (ag_ID a, n, map dispatch_of queue)), d')"
    using named auth s1 s2 s3 by (simp add: CheckinProjects_def Let_def)
  moreover have "a \<lparr> ag_LastSeen := Some now, ag_UpdatedAt := now \<rparr> \<in> set (db_agents d')"
    using acc by (auto simp: d'_def d2 set_update_where image_iff)
  moreover have "scanAgent (a \<lparr> ag_LastSeen := Some now, ag_UpdatedAt := now \<rparr>) =
      (scanAgent a) \<lparr> ag_LastSeen := Some now, ag_UpdatedAt := now \<rparr>"
    by (simp add: scanAgent_def Let_def)
  moreover have "distinct (map ag_Name (db_agents d'))"
    using names by (simp add: d'_def d2 map_update_where)
  ultimately show ?thesis using d2(1) by (auto simp: d'_def)
qed

lemma accepted_results:
  assumes "db_faults d = []" "distinct (map ag_Name (db_agents d))" "a \<in> set (db_agents d)"
    "ag_Enabled a" "ag_Token a = at_token A" "at_token A \<noteq> []" "ag_Name a = trim_space (at_name A)" "ag_Name a \<noteq> []"
  shows "\<exists>d'. CheckinResults node later (''Bearer '' @ at_token A) [] (Some (at_name A, results)) d =
      ((200, Inr (length results)), d') \<and>
      db_commands d' = map (fold (record_result (ag_ID a) later) results) (db_commands d)"
proof -
  have auth: "authAgent (''Bearer '' @ at_token A) [] (trim_space (at_name A)) d = (Inr (scanAgent a), d)"
    using authAgent_ok [OF assms(1-4)] assms by simp
  from save_results_ok [OF assms(1), of node later "ag_ID a" results] obtain d' where
    "save_results node later (ag_ID a) results d = (Inr (), d')"
    "db_commands d' = map (fold (record_result (ag_ID a) later) results) (db_commands d)" by blast
  with assms(7,8) auth show ?thesis by (auto simp: CheckinResults_def Let_def)
qed

lemma record_after_claim:
  "ac_ID c = ar_ID r \<Longrightarrow> ac_AgentID c = i \<Longrightarrow>
   record_result i later r (c \<lparr> ac_Status := ''dispatched'', ac_UpdatedAt := now \<rparr>) = record_result i later r c"
  by (simp add: record_result_def)

text \<open>Reporting what was claimed overwrites what the claim wrote.\<close>

lemma settle_claimed:
  assumes "wf_db d" "map ar_ID results = map ac_ID (pending_of i (db_commands d))"
  shows "map (fold (record_result i later) results)
      (update_where (\<lambda>c. ac_ID c \<in> ac_ID ` set (pending_of i (db_commands d)))
        (\<lambda>c. c \<lparr> ac_Status := ''dispatched'', ac_UpdatedAt := now \<rparr>) (db_commands d)) =
    map (\<lambda>c. case map_of (map (\<lambda>r. (ar_ID r, r)) results) (ac_ID c) of
        None \<Rightarrow> c | Some r \<Rightarrow> record_result i later r c) (db_commands d)"
proof -
  let ?Q = "pending_of i (db_commands d)"
  have rows: "distinct (map ac_ID (db_commands d))" using assms(1) by (simp add: wf_db_def wf_ids_def keyed_def)
  have pend: "set ?Q \<subseteq> {c \<in> set (db_commands d). ac_AgentID c = i}"
    by (auto simp: pending_of_def dest: in_set_takeD)
  have "distinct (map ac_ID (sort_key ac_ID
      (filter (\<lambda>c. ac_AgentID c = i \<and> ac_Status c = ''pending'') (db_commands d))))"
    using rows by (auto simp: distinct_map intro: inj_on_subset)
  then have "distinct (map ac_ID ?Q)" unfolding pending_of_def take_map [symmetric] by (rule distinct_take)
  then have dist: "distinct (map ar_ID results)" unfolding assms(2) .
  have ids: "ar_ID ` set results = ac_ID ` set ?Q" using arg_cong [OF assms(2), of set] by simp
  show ?thesis unfolding update_where_def map_map
  proof (rule map_cong [OF refl])
    fix c assume c: "c \<in> set (db_commands d)"
    show "(fold (record_result i later) results \<circ>
        (\<lambda>r. if ac_ID r \<in> ac_ID ` set ?Q then r \<lparr> ac_Status := ''dispatched'', ac_UpdatedAt := now \<rparr> else r)) c =
      (case map_of (map (\<lambda>r. (ar_ID r, r)) results) (ac_ID c) of None \<Rightarrow> c | Some r \<Rightarrow> record_result i later r c)"
    proof (cases "ac_ID c \<in> ac_ID ` set ?Q")
      case True
      then obtain q where q: "q \<in> set ?Q" "ac_ID c = ac_ID q" by auto
      then have "c = q" using pend c rows by (auto simp: distinct_map dest: inj_onD)
      with q pend have own: "ac_AgentID c = i" by auto
      from True ids obtain r where r: "r \<in> set results" "ar_ID r = ac_ID c" by (metis imageE)
      then have m: "map_of (map (\<lambda>r. (ar_ID r, r)) results) (ac_ID c) = Some r"
        using dist by (intro map_of_is_SomeI) (auto simp: comp_def r(2) [symmetric])
      show ?thesis using True own m r(2) by (simp add: fold_record_result [OF dist] record_after_claim)
    next
      case False
      then have "map_of (map (\<lambda>r. (ar_ID r, r)) results) (ac_ID c) = None"
        using ids by (simp add: map_of_eq_None_iff image_image)
      with False show ?thesis by (simp add: fold_record_result [OF dist])
    qed
  qed
qed

section \<open>Properties\<close>

text \<open>
  Property C2. However many agents check in at a controller, whatever else its users do, and
  whichever calls or answers the network loses: no queued command is ever executed twice. Every
  command that is executed was pending at the start or queued during the run, and none of them is
  pending at the end.
\<close>

theorem agents_execute_commands_once:
  assumes "agents_run s l s'" "wf_db (snd s)"
  shows "distinct l \<and>
    set l \<subseteq> {ac_ID c |c. c \<in> set (db_commands (snd s)) \<and> ac_Status c = ''pending''} \<union> {db_next_command (snd s) ..} \<and>
    (\<forall>c \<in> set (db_commands (snd s')). ac_ID c \<in> set l \<longrightarrow> ac_Status c \<noteq> ''pending'')"
proof -
  from agents_run_once [OF assms] have r: "distinct l" "set l \<subseteq> claimable (snd s)"
      "claimable (snd s') \<subseteq> claimable (snd s) - set l" by auto
  have "ac_Status c \<noteq> ''pending''" if "c \<in> set (db_commands (snd s'))" "ac_ID c \<in> set l" for c
    using that r(3) by (auto simp: claimable_def)
  with r show ?thesis by (auto simp: claimable_def)
qed

text \<open>
  Property C15. A round whose two calls arrive: the agent executes the hundred oldest pending commands
  of its queue in their order, and the controller records for each of them, and for nothing else,
  whether it succeeded and what it printed.
\<close>

theorem delivered_round_settles_commands:
  assumes "accepted d a A"
    and "DiscoverProjects (si_host (at_site A)) (si_disk (at_site A)) (si_views (at_site A))
           (si_decoders (at_site A)) (si_engine (at_site A)) w = (Inr projects, w1)"
    and "encode projects = Inr raw"
    and "execute_all A (map dispatch_of (pending_of (ag_ID a) (db_commands d))) w1 = (results, w2)"
  shows "\<exists>d'. sendAgentCheckin (controller_link node now later line encode Delivered Delivered (\<lambda>d. d)) A (w, d) =
      ((None, results), w2, d') \<and>
    map ar_ID results = map ac_ID (pending_of (ag_ID a) (db_commands d)) \<and>
    db_commands d' = map (\<lambda>c. case map_of (map (\<lambda>r. (ar_ID r, r)) results) (ac_ID c) of
        None \<Rightarrow> c | Some r \<Rightarrow> record_result (ag_ID a) later r c) (db_commands d)"
proof -
  let ?Q = "pending_of (ag_ID a) (db_commands d)"
  let ?C = "controller_link node now later line encode Delivered Delivered (\<lambda>d. d)"
  note acc = assms(1) [unfolded accepted_def]
  obtain d1 a' where k: "CheckinProjects now (''Bearer '' @ at_token A) [] (Some (at_name A, length projects, Inr raw)) d =
      ((200, Inr (ag_ID a, length projects, map dispatch_of ?Q)), d1)" "db_faults d1 = []"
    "a' \<in> set (db_agents d1)" "scanAgent a' = (scanAgent a) \<lparr> ag_LastSeen := Some now, ag_UpdatedAt := now \<rparr>"
    "distinct (map ag_Name (db_agents d1))"
    "db_commands d1 = update_where (\<lambda>c. ac_ID c \<in> ac_ID ` set ?Q)
        (\<lambda>c. c \<lparr> ac_Status := ''dispatched'', ac_UpdatedAt := now \<rparr>) (db_commands d)"
    using accepted_checkin [OF assms(1), of now "length projects" raw] by blast
  have a': "ag_ID a' = ag_ID a" "ag_Enabled a' = ag_Enabled a" "ag_Token a' = ag_Token a" "ag_Name a' = ag_Name a"
    using arg_cong [OF k(4), of ag_ID] arg_cong [OF k(4), of ag_Enabled] arg_cong [OF k(4), of ag_Token]
      arg_cong [OF k(4), of ag_Name] by simp_all
  have ids: "map ar_ID results = map ac_ID ?Q"
    using execute_all_ids [of A "map dispatch_of ?Q" w1] assms(4) by (simp add: comp_def dispatch_of_def)
  note settle = settle_claimed [OF _ ids, of later now, folded k(6)]
  show ?thesis
  proof (cases "?Q = []")
    case True
    then have "sendAgentCheckin ?C A (w, d) = ((None, results), w2, d1)" "results = []" "db_commands d1 = db_commands d"
      using assms(2,3,4) k(1,6)
      by (simp_all add: sendAgentCheckin_def controller_link_def deliver_def checkin_reply_def success_code_def Let_def
          update_where_def)
    with True show ?thesis by simp
  next
    case False
    obtain d2 where p: "CheckinResults node later (''Bearer '' @ at_token A) [] (Some (at_name A, results)) d1 =
        ((200, Inr (length results)), d2)"
      "db_commands d2 = map (fold (record_result (ag_ID a) later) results) (db_commands d1)"
      using accepted_results [OF k(2,5,3), of A node later results] a' acc by auto
    have "sendAgentCheckin ?C A (w, d) = ((None, results), w2, d2)"
      using False assms(2,3,4) k(1) p(1)
      by (simp add: sendAgentCheckin_def runAgentCommands_def reportAgentResults_def controller_link_def deliver_def
          checkin_reply_def success_code_def Let_def)
    with p(2) settle acc ids show ?thesis by simp
  qed
qed

text \<open>
  An answer that gets lost takes its commands with it: they stay \<^verbatim>\<open>dispatched\<close>, and no round of any
  agent ever executes them.
\<close>

theorem lost_reply_loses_commands:
  assumes "accepted d a A"
    and "DiscoverProjects (si_host (at_site A)) (si_disk (at_site A)) (si_views (at_site A))
           (si_decoders (at_site A)) (si_engine (at_site A)) w = (Inr projects, w1)"
    and "encode projects = Inr raw"
    and "sendAgentCheckin (controller_link node now later line encode (ReplyLost e) way2 (\<lambda>d. d)) A (w, d) = (r, w', d')"
  shows "r = (Some e, []) \<and>
    (\<forall>c \<in> set (pending_of (ag_ID a) (db_commands d)).
       c \<lparr> ac_Status := ''dispatched'', ac_UpdatedAt := now \<rparr> \<in> set (db_commands d') \<and>
       (\<forall>l s. agents_run (w', d') l s \<longrightarrow> ac_ID c \<notin> set l))"
proof -
  let ?Q = "pending_of (ag_ID a) (db_commands d)"
  obtain d1 where k: "CheckinProjects now (''Bearer '' @ at_token A) [] (Some (at_name A, length projects, Inr raw)) d =
      ((200, Inr (ag_ID a, length projects, map dispatch_of ?Q)), d1)"
    "db_commands d1 = update_where (\<lambda>c. ac_ID c \<in> ac_ID ` set ?Q)
        (\<lambda>c. c \<lparr> ac_Status := ''dispatched'', ac_UpdatedAt := now \<rparr>) (db_commands d)"
    using accepted_checkin [OF assms(1), of now "length projects" raw] by blast
  have r: "r = (Some e, [])" "d' = d1"
    using assms(2,3,4) k(1) by (simp_all add: sendAgentCheckin_def controller_link_def deliver_def Let_def)
  have wf: "wf_db d" using assms(1) by (simp add: accepted_def)
  note once = CheckinProjects_once [OF k(1) wf, of line]
  have sub: "set ?Q \<subseteq> set (db_commands d)" by (auto simp: pending_of_def dest: in_set_takeD)
  have gone: "ac_ID c \<notin> claimable d'" if "c \<in> set ?Q" for c
    using once that unfolding r(2) by (auto simp: checkin_reply_def dispatch_of_def)
  have "c \<lparr> ac_Status := ''dispatched'', ac_UpdatedAt := now \<rparr> \<in> set (db_commands d')" if "c \<in> set ?Q" for c
    using that sub unfolding r(2) k(2) set_update_where by (auto simp: image_iff)
  moreover have "ac_ID c \<notin> set l" if "c \<in> set ?Q" "agents_run (w', d') l s" for c l s
    using agents_run_once [OF that(2)] gone [OF that(1)] once unfolding r(2) by auto
  ultimately show ?thesis using r(1) by blast
qed


section \<open>A concrete agent\<close>

definition demo_agent :: "unit agent" where
  "demo_agent = \<lparr> at_site = demo_site, at_limited = (\<lambda>_. demo_host), at_encode = (\<lambda>_. Inr ''status''),
     at_timeout = (\<lambda>_. None), at_name = ''edge'', at_token = ''s3cret'', at_checkins = [], at_results = [] \<rparr>"

definition demo_link :: "delivery \<Rightarrow> db controller" where
  "demo_link way = controller_link ''n1'' 30 40 itoa (\<lambda>_. Inr ''[]'') way Delivered (\<lambda>d. d)"

definition demo_round :: "(string option \<times> AgentCommandResult list) \<times> unit \<times> db" where
  "demo_round = sendAgentCheckin (demo_link Delivered) demo_agent ((), queued_db)"

lemma demo_round_ids: "map ar_ID (snd (fst demo_round)) = [1]"
  by code_simp

theorem agents_execute_commands_once_witness:
  "\<exists>s'. agents_run ((), queued_db) [1] s' \<and> list_all (\<lambda>c. ac_ID c = 1 \<longrightarrow> ac_Status c \<noteq> ''pending'') (db_commands (snd s'))"
proof -
  have "agents_run ((), queued_db) ([] @ map ar_ID (snd (fst demo_round))) (snd demo_round)"
    by (rule agents_run.round [OF agents_run.begin_run quiet_id, where err = "fst (fst demo_round)"])
      (simp add: demo_round_def demo_link_def)
  then have run: "agents_run ((), queued_db) [1] (snd demo_round)" unfolding demo_round_ids by simp
  have "list_all (\<lambda>c. ac_ID c = 1 \<longrightarrow> ac_Status c \<noteq> ''pending'') (db_commands (snd (snd demo_round)))"
    using agents_execute_commands_once [OF run] wf_queued_db unfolding list_all_iff by simp
  with run show ?thesis by (intro exI conjI)
qed

definition edge_row :: ComposeAgent where
  "edge_row = \<lparr> ag_ID = 1, ag_Name = ''edge'', ag_BaseURL = [], ag_Mode = ''callback'', ag_Enabled = True,
     ag_LastSeen = None, ag_CreatedAt = 10, ag_UpdatedAt = 10, ag_Token = ''s3cret'' \<rparr>"

lemma edge_accepted: "accepted queued_db edge_row demo_agent"
proof -
  have "db_agents queued_db = [edge_row]" "trim_space (at_name demo_agent) = ''edge''" by code_simp+
  then show ?thesis using wf_queued_db by (simp add: accepted_def edge_row_def demo_agent_def)
qed

lemma demo_discovery:
  "\<exists>projects w. DiscoverProjects (si_host (at_site demo_agent)) (si_disk (at_site demo_agent)) (si_views (at_site demo_agent))
     (si_decoders (at_site demo_agent)) (si_engine (at_site demo_agent)) () = (Inr projects, w)"
proof -
  let ?d = "DiscoverProjects (si_host (at_site demo_agent)) (si_disk (at_site demo_agent)) (si_views (at_site demo_agent))
     (si_decoders (at_site demo_agent)) (si_engine (at_site demo_agent)) ()"
  have "\<not> isl (fst ?d)" by code_simp
  then obtain projects where "fst ?d = Inr projects" by (cases "fst ?d") simp_all
  then have "?d = (Inr projects, snd ?d)" by (simp only: prod_eq_iff fst_conv snd_conv simp_thms)
  then show ?thesis by blast
qed

theorem delivered_round_settles_commands_witness:
  "\<exists>results d'. sendAgentCheckin (demo_link Delivered) demo_agent ((), queued_db) = ((None, results), (), d') \<and>
     map ar_ID results = [1] \<and> map ac_Status (db_commands d') = [''done'']"
proof -
  from demo_discovery obtain projects where d: "DiscoverProjects (si_host (at_site demo_agent)) (si_disk (at_site demo_agent))
      (si_views (at_site demo_agent)) (si_decoders (at_site demo_agent)) (si_engine (at_site demo_agent)) () = (Inr projects, ())"
    by auto
  obtain results where e: "execute_all demo_agent (map dispatch_of (pending_of (ag_ID edge_row) (db_commands queued_db))) () = (results, ())"
    by (metis surj_pair old.unit.exhaust)
  have q: "map ac_ID (pending_of (ag_ID edge_row) (db_commands queued_db)) = [1]"
    "map ac_Status (db_commands (snd (snd demo_round))) = [''done'']" by code_simp+
  from delivered_round_settles_commands [where encode = "\<lambda>_. Inr ''[]''" and node = "''n1''" and now = 30
      and later = 40 and line = itoa, OF edge_accepted d refl e] q
  show ?thesis unfolding demo_round_def demo_link_def by auto
qed

theorem lost_reply_loses_commands_witness:
  "\<exists>d'. sendAgentCheckin (demo_link (ReplyLost ''EOF'')) demo_agent ((), queued_db) = ((Some ''EOF'', []), (), d') \<and>
     map ac_Status (db_commands d') = [''dispatched'']"
proof -
  let ?s = "sendAgentCheckin (demo_link (ReplyLost ''EOF'')) demo_agent ((), queued_db)"
  from demo_discovery obtain projects where d: "DiscoverProjects (si_host (at_site demo_agent)) (si_disk (at_site demo_agent))
      (si_views (at_site demo_agent)) (si_decoders (at_site demo_agent)) (si_engine (at_site demo_agent)) () = (Inr projects, ())"
    by auto
  have s: "?s = (fst ?s, (), snd (snd ?s))" by (simp add: prod_eq_iff)
  have "map ac_Status (db_commands (snd (snd ?s))) = [''dispatched'']" by code_simp
  with lost_reply_loses_commands [where encode = "\<lambda>_. Inr ''[]''", OF edge_accepted d refl s [unfolded demo_link_def]] s
  show ?thesis unfolding demo_link_def by metis
qed

text \<open>
  A command of the schedules that the agent does not know: a scheduled \<^verbatim>\<open>status\<close> is queued for a
  callback agent, and fails there.
\<close>

theorem scheduled_status_fails_on_agents:
  "ValidScheduleAction ''status'' \<and>
   fst (executeAgentCommand demo_agent \<lparr> ad_ID = 1, ad_Project = ''web'', ad_Action = ''status'', ad_Params = [] \<rparr> ()) =
     (False, ''unknown action: status'')"
  by code_simp

end
