(* ===== verification/Auth.thy ===== *)
theory Auth
  imports GoTime
begin

text \<open>
  Users, sessions and the authentication of requests: \<^verbatim>\<open>server/internal/auth/store.go\<close>,
  \<^verbatim>\<open>server/internal/middleware/auth.go\<close>, \<^verbatim>\<open>server/internal/handlers/auth.go\<close> and the legacy import of
  users in \<^verbatim>\<open>server/internal/storage/store.go\<close>. The state is the table \<^verbatim>\<open>users\<close>, the keys of Redis that
  this code uses, with the time at which Redis drops them, and the list of the coming failures of
  database statements and Redis commands. What comes from outside the program is an argument: the
  record \<open>crypto\<close> holds bcrypt, the TOTP check and the comparison of the \<^verbatim>\<open>username\<close> column (its
  collation ignores case), and the record \<open>draws\<close> holds the clock and the random bytes of a request.
  JSON of the structures stored in Redis and in \<^verbatim>\<open>totp_backup_codes\<close> reads back as it was written, so
  the model stores the structures themselves.
\<close>

section \<open>Definitions\<close>

subsection \<open>Keys with a time to live\<close>

type_synonym 'v keyspace = "string \<Rightarrow> ('v \<times> instant option) option"

definition kv_get :: "instant \<Rightarrow> string \<Rightarrow> 'v keyspace \<Rightarrow> 'v option" where
  "kv_get now k m =
     (case m k of
        None \<Rightarrow> None
      | Some (v, None) \<Rightarrow> Some v
      | Some (v, Some e) \<Rightarrow> if now < e then Some v else None)"

definition kv_set :: "instant \<Rightarrow> duration \<Rightarrow> string \<Rightarrow> 'v \<Rightarrow> 'v keyspace \<Rightarrow> 'v keyspace" where
  "kv_set now ttl k v m = m(k \<mapsto> (v, if 0 < ttl then Some (now + ttl) else None))"

definition kv_del :: "string \<Rightarrow> 'v keyspace \<Rightarrow> 'v keyspace" where
  "kv_del k m = m(k := None)"

subsection \<open>State\<close>

abbreviation RoleAdmin :: string where "RoleAdmin \<equiv> ''admin''"
abbreviation RoleOperator :: string where "RoleOperator \<equiv> ''operator''"

record User =
  u_Username :: string
  u_PasswordHash :: string
  u_Role :: string
  u_TOTPSecret :: string
  u_TOTPEnabled :: bool
  u_TOTPBackupCodes :: "string list option"
  u_CreatedAt :: instant

record PublicUser =
  pu_Username :: string
  pu_Role :: string
  pu_TOTPEnabled :: bool
  pu_CreatedAt :: instant

record Session =
  se_Token :: string
  se_User :: PublicUser
  se_ExpiresAt :: instant

datatype cached = CSession Session | CUsers "PublicUser list"

record authdb =
  adb_users :: "User list"
  adb_redis :: "cached keyspace"
  adb_ttl :: duration
  adb_faults :: "string option list"

record crypto =
  cr_same :: "string \<Rightarrow> string \<Rightarrow> bool"
  cr_hash :: "string \<Rightarrow> string \<Rightarrow> string result"
  cr_match :: "string \<Rightarrow> string \<Rightarrow> bool"
  cr_totp :: "instant \<Rightarrow> string \<Rightarrow> string \<Rightarrow> bool"

text \<open>
  One statement or Redis command: the next entry of \<open>adb_faults\<close> decides whether it happens. A
  statement that finds no row answers \<open>Inr None\<close>.
\<close>

definition stmt :: "authdb \<Rightarrow> (authdb \<Rightarrow> 'a result \<times> authdb) \<Rightarrow> 'a result \<times> authdb" where
  "stmt d f =
     (case adb_faults d of
        [] \<Rightarrow> f d
      | None # fs \<Rightarrow> f (d \<lparr> adb_faults := fs \<rparr>)
      | Some e # fs \<Rightarrow> (Inl e, d \<lparr> adb_faults := fs \<rparr>))"

definition user_row :: "crypto \<Rightarrow> string \<Rightarrow> authdb \<Rightarrow> User option result \<times> authdb" where
  "user_row E username d = stmt d (\<lambda>d. (Inr (find (\<lambda>u. cr_same E (u_Username u) username) (adb_users d)), d))"

definition update_user :: "crypto \<Rightarrow> string \<Rightarrow> (User \<Rightarrow> User) \<Rightarrow> authdb \<Rightarrow> nat result \<times> authdb" where
  "update_user E username f d = stmt d (\<lambda>d.
     (Inr (count_where (\<lambda>u. cr_same E (u_Username u) username \<and> f u \<noteq> u) (adb_users d)),
      d \<lparr> adb_users := update_where (\<lambda>u. cr_same E (u_Username u) username) f (adb_users d) \<rparr>))"

definition redis_get :: "instant \<Rightarrow> string \<Rightarrow> authdb \<Rightarrow> cached option result \<times> authdb" where
  "redis_get now k d = stmt d (\<lambda>d. (Inr (kv_get now k (adb_redis d)), d))"

definition redis_set :: "instant \<Rightarrow> duration \<Rightarrow> string \<Rightarrow> cached \<Rightarrow> authdb \<Rightarrow> unit result \<times> authdb" where
  "redis_set now ttl k v d = stmt d (\<lambda>d. (Inr (), d \<lparr> adb_redis := kv_set now ttl k v (adb_redis d) \<rparr>))"

definition redis_del :: "string \<Rightarrow> authdb \<Rightarrow> authdb" where
  "redis_del k d = snd (stmt d (\<lambda>d. (Inr (), d \<lparr> adb_redis := kv_del k (adb_redis d) \<rparr>)))"

abbreviation em_dash :: string where "em_dash \<equiv> [CHR 0xE2, CHR 0x80, CHR 0x94]"
abbreviation users_key :: string where "users_key \<equiv> ''users:list''"

text \<open>An outcome that is only an error: \<open>None\<close> is Go's \<^verbatim>\<open>nil\<close>.\<close>

definition err_of :: "'a result \<times> authdb \<Rightarrow> string option \<times> authdb" where
  "err_of r = (case r of (Inl e, d) \<Rightarrow> (Some e, d) | (Inr _, d) \<Rightarrow> (None, d))"

subsection \<open>Names, roles and input\<close>

definition publicUser :: "User \<Rightarrow> PublicUser" where
  "publicUser user = \<lparr> pu_Username = u_Username user, pu_Role = u_Role user,
     pu_TOTPEnabled = u_TOTPEnabled user, pu_CreatedAt = u_CreatedAt user \<rparr>"

definition normalizeUsername :: "string \<Rightarrow> string" where
  "normalizeUsername username = to_lower (trim_space username)"

definition normalizeRole :: "string \<Rightarrow> string" where
  "normalizeRole role = (if to_lower (trim_space role) = RoleAdmin then RoleAdmin else RoleOperator)"

definition username_char :: "char \<Rightarrow> bool" where
  "username_char c = (CHR ''a'' \<le> c \<and> c \<le> CHR ''z'' \<or> CHR ''0'' \<le> c \<and> c \<le> CHR ''9'' \<or>
     c = CHR ''-'' \<or> c = CHR ''_'' \<or> c = CHR ''.'')"

definition validateUserInput :: "string \<Rightarrow> string \<Rightarrow> string option" where
  "validateUserInput username password =
     (if length username < 3 \<or> 64 < length username then Some ''username must be 3 to 64 characters''
      else if \<not> list_all username_char username
      then Some ''username may contain only lowercase letters, numbers, dots, underscores, or hyphens''
      else if length password < 12 then Some ''password must be at least 12 characters'' else None)"

subsection \<open>The user store\<close>

definition new_user :: "string \<Rightarrow> string \<Rightarrow> string \<Rightarrow> instant \<Rightarrow> User" where
  "new_user username hash role now = \<lparr> u_Username = username, u_PasswordHash = hash, u_Role = role,
     u_TOTPSecret = [], u_TOTPEnabled = False, u_TOTPBackupCodes = None, u_CreatedAt = now \<rparr>"

definition insert_user :: "crypto \<Rightarrow> User \<Rightarrow> authdb \<Rightarrow> unit result \<times> authdb" where
  "insert_user E user d = stmt d (\<lambda>d.
     if \<exists>u \<in> set (adb_users d). cr_same E (u_Username u) (u_Username user) then (Inl ''Duplicate entry'', d)
     else (Inr (), d \<lparr> adb_users := adb_users d @ [user] \<rparr>))"

definition CreateUser :: "crypto \<Rightarrow> instant \<Rightarrow> string \<Rightarrow> string \<Rightarrow> string \<Rightarrow> string \<Rightarrow> authdb \<Rightarrow> string option \<times> authdb" where
  "CreateUser E now salt username0 password role0 d =
     (let username = normalizeUsername username0; role = normalizeRole role0 in
      case validateUserInput username password of
        Some e \<Rightarrow> (Some e, d)
      | None \<Rightarrow>
          (case cr_hash E salt password of
             Inl e \<Rightarrow> (Some e, d)
           | Inr hash \<Rightarrow>
               (case insert_user E (new_user username hash role now) d of
                  (Inl e, d1) \<Rightarrow>
                    (Some (if contains (to_lower e) ''duplicate'' then ''user already exists: '' @ username else e), d1)
                | (Inr _, d1) \<Rightarrow> (None, redis_del users_key d1))))"

definition upsertUserPassword :: "crypto \<Rightarrow> instant \<Rightarrow> string \<Rightarrow> string \<Rightarrow> string \<Rightarrow> string \<Rightarrow> authdb \<Rightarrow> string option \<times> authdb" where
  "upsertUserPassword E now salt username0 password role d =
     (let username = normalizeUsername username0 in
      case cr_hash E salt password of
        Inl e \<Rightarrow> (Some e, d)
      | Inr hash \<Rightarrow>
          (case stmt d (\<lambda>d. (Inr (),
              if \<exists>u \<in> set (adb_users d). cr_same E (u_Username u) username
              then d \<lparr> adb_users := update_where (\<lambda>u. cr_same E (u_Username u) username)
                         (\<lambda>u. u \<lparr> u_PasswordHash := hash, u_Role := role \<rparr>) (adb_users d) \<rparr>
              else d \<lparr> adb_users := adb_users d @ [new_user username hash role now] \<rparr>)) of
             (Inl e, d1) \<Rightarrow> (Some e, d1)
           | (Inr _, d1) \<Rightarrow> (None, redis_del users_key d1)))"

definition userCount :: "authdb \<Rightarrow> nat result \<times> authdb" where
  "userCount d = stmt d (\<lambda>d. (Inr (length (adb_users d)), d))"

definition adminCount :: "crypto \<Rightarrow> authdb \<Rightarrow> nat result \<times> authdb" where
  "adminCount E d = stmt d (\<lambda>d. (Inr (count_where (\<lambda>u. cr_same E (u_Role u) RoleAdmin) (adb_users d)), d))"

definition resetAdminOnBoot :: "string \<Rightarrow> bool" where
  "resetAdminOnBoot reset_env =
     (let v = to_lower (trim_space reset_env) in v = ''1'' \<or> v = ''true'' \<or> v = ''yes'' \<or> v = ''force'')"

text \<open>\<open>NewStore\<close>: \<open>reset_env\<close> is the value of \<^verbatim>\<open>RESET_ADMIN_PASSWORD\<close>.\<close>

definition NewStore :: "crypto \<Rightarrow> instant \<Rightarrow> string \<Rightarrow> string \<Rightarrow> string \<Rightarrow> string \<Rightarrow> authdb \<Rightarrow> string option \<times> authdb" where
  "NewStore E now salt reset_env adminUsername adminPassword d =
     (case userCount d of
        (Inl e, d1) \<Rightarrow> (Some e, d1)
      | (Inr n, d1) \<Rightarrow>
          if n = 0 then
            (if trim_space adminPassword = []
             then (Some ''no users exist and no bootstrap admin password was provided'', d1)
             else CreateUser E now salt adminUsername adminPassword RoleAdmin d1)
          else if resetAdminOnBoot reset_env \<and> trim_space adminPassword \<noteq> [] then
            (case upsertUserPassword E now salt adminUsername adminPassword RoleAdmin d1 of
               (Some e, d2) \<Rightarrow> (Some (''RESET_ADMIN_PASSWORD: '' @ e), d2)
             | (None, d2) \<Rightarrow> (None, d2))
          else (None, d1))"

definition Authenticate :: "crypto \<Rightarrow> string \<Rightarrow> string \<Rightarrow> authdb \<Rightarrow> PublicUser option \<times> authdb" where
  "Authenticate E username0 password d =
     (let username = normalizeUsername username0 in
      case user_row E username d of
        (Inr (Some user), d1) \<Rightarrow>
          if u_Username user \<noteq> username then (None, d1)
          else if \<not> cr_match E (u_PasswordHash user) password then (None, d1)
          else (Some (publicUser user), d1)
      | (_, d1) \<Rightarrow> (None, d1))"

definition HasTOTP :: "crypto \<Rightarrow> string \<Rightarrow> authdb \<Rightarrow> bool \<times> authdb" where
  "HasTOTP E username d =
     (case user_row E (normalizeUsername username) d of
        (Inr (Some user), d1) \<Rightarrow> (u_TOTPEnabled user, d1)
      | (_, d1) \<Rightarrow> (False, d1))"

definition hex_digit :: "nat \<Rightarrow> char" where
  "hex_digit n = (if n < 10 then char_of (48 + n) else char_of (87 + n))"

definition hex_encode :: "nat list \<Rightarrow> string" where
  "hex_encode bs = concat (map (\<lambda>b. [hex_digit (b div 16), hex_digit (b mod 16)]) bs)"

text \<open>\<open>generateBackupCodes\<close>: each entry of \<open>rand\<close> holds the four random bytes of one code.\<close>

definition generateBackupCodes :: "nat list list \<Rightarrow> string list" where
  "generateBackupCodes rand = map hex_encode rand"

text \<open>\<open>key\<close> is the result of \<^verbatim>\<open>totp.Generate\<close>: the secret and its URL.\<close>

definition TOTPEnroll :: "crypto \<Rightarrow> (string \<times> string) result \<Rightarrow> nat list list \<Rightarrow> string \<Rightarrow> authdb \<Rightarrow>
    (string \<times> string list \<times> string) result \<times> authdb" where
  "TOTPEnroll E key rand username0 d =
     (let username = normalizeUsername username0 in
      case key of
        Inl e \<Rightarrow> (Inl e, d)
      | Inr (secret, url) \<Rightarrow>
          (let codes = generateBackupCodes rand in
           case update_user E username (\<lambda>u. u \<lparr> u_TOTPSecret := secret, u_TOTPEnabled := False,
               u_TOTPBackupCodes := Some codes \<rparr>) d of
             (Inl e, d1) \<Rightarrow> (Inl e, d1)
           | (Inr _, d1) \<Rightarrow> (Inr (secret, codes, url), redis_del users_key d1)))"

definition TOTPVerifyAndEnable :: "crypto \<Rightarrow> instant \<Rightarrow> string \<Rightarrow> string \<Rightarrow> authdb \<Rightarrow> string option \<times> authdb" where
  "TOTPVerifyAndEnable E now username0 code d =
     (let username = normalizeUsername username0 in
      case user_row E username d of
        (Inr (Some user), d1) \<Rightarrow>
          if u_TOTPSecret user = [] then (Some (''TOTP not enrolled '' @ em_dash @ '' enroll first''), d1)
          else if \<not> cr_totp E now code (u_TOTPSecret user) then (Some ''invalid code'', d1)
          else
            (let (e, d2) = err_of (update_user E username (\<lambda>u. u \<lparr> u_TOTPEnabled := True \<rparr>) d1)
             in (e, redis_del users_key d2))
      | (_, d1) \<Rightarrow> (Some ''user not found'', d1))"

definition TOTPValidateCode :: "crypto \<Rightarrow> instant \<Rightarrow> string \<Rightarrow> string \<Rightarrow> authdb \<Rightarrow> bool \<times> authdb" where
  "TOTPValidateCode E now username0 code d =
     (let username = normalizeUsername username0 in
      case user_row E username d of
        (Inr (Some user), d1) \<Rightarrow>
          if cr_totp E now code (u_TOTPSecret user) then (True, d1)
          else
            (let codes = (case u_TOTPBackupCodes user of None \<Rightarrow> [] | Some cs \<Rightarrow> cs) in
             if code \<in> set codes
             then (True, snd (update_user E username (\<lambda>u. u \<lparr> u_TOTPBackupCodes := Some (remove1 code codes) \<rparr>) d1))
             else (False, d1))
      | (_, d1) \<Rightarrow> (False, d1))"

definition TOTPDisable :: "crypto \<Rightarrow> string \<Rightarrow> authdb \<Rightarrow> string option \<times> authdb" where
  "TOTPDisable E username0 d =
     (let (e, d1) = err_of (update_user E (normalizeUsername username0)
            (\<lambda>u. u \<lparr> u_TOTPSecret := [], u_TOTPEnabled := False, u_TOTPBackupCodes := None \<rparr>) d)
      in (e, redis_del users_key d1))"

text \<open>The \<^verbatim>\<open>SELECT\<close> of \<open>ListUsers\<close> and \<open>GetUser\<close> leaves out \<^verbatim>\<open>totp_enabled\<close>.\<close>

definition listed_user :: "User \<Rightarrow> PublicUser" where
  "listed_user u = (publicUser u) \<lparr> pu_TOTPEnabled := False \<rparr>"

definition ListUsers :: "instant \<Rightarrow> authdb \<Rightarrow> PublicUser list \<times> authdb" where
  "ListUsers now d =
     (case redis_get now users_key d of
        (Inr (Some (CUsers cached)), d1) \<Rightarrow> (cached, d1)
      | (_, d1) \<Rightarrow>
          (case stmt d1 (\<lambda>d. (Inr (map listed_user (adb_users d)), d)) of
             (Inl _, d2) \<Rightarrow> ([], d2)
           | (Inr rows, d2) \<Rightarrow>
               (let users = sort_key pu_Username rows
                in (users, snd (redis_set now (adb_ttl d2) users_key (CUsers users) d2)))))"

definition GetUser :: "crypto \<Rightarrow> string \<Rightarrow> authdb \<Rightarrow> PublicUser option \<times> authdb" where
  "GetUser E username d =
     (case user_row E (normalizeUsername username) d of
        (Inr (Some user), d1) \<Rightarrow> (Some (listed_user user), d1)
      | (_, d1) \<Rightarrow> (None, d1))"

definition SetPassword :: "crypto \<Rightarrow> string \<Rightarrow> string \<Rightarrow> string \<Rightarrow> authdb \<Rightarrow> string option \<times> authdb" where
  "SetPassword E salt username0 password d =
     (let username = normalizeUsername username0 in
      if length password < 12 then (Some ''password must be at least 12 characters'', d)
      else
        (case cr_hash E salt password of
           Inl e \<Rightarrow> (Some e, d)
         | Inr hash \<Rightarrow>
             (case update_user E username (\<lambda>u. u \<lparr> u_PasswordHash := hash \<rparr>) d of
                (Inl e, d1) \<Rightarrow> (Some e, d1)
              | (Inr rows, d1) \<Rightarrow> if rows = 0 then (Some (''user not found: '' @ username), d1) else (None, d1))))"

definition ChangeOwnPassword :: "crypto \<Rightarrow> string \<Rightarrow> string \<Rightarrow> string \<Rightarrow> string \<Rightarrow> authdb \<Rightarrow> string option \<times> authdb" where
  "ChangeOwnPassword E salt username currentPassword newPassword d =
     (case Authenticate E username currentPassword d of
        (None, d1) \<Rightarrow> (Some ''current password is incorrect'', d1)
      | (Some _, d1) \<Rightarrow> SetPassword E salt username newPassword d1)"

text \<open>The part of \<open>DeleteUser\<close> before its \<^verbatim>\<open>DELETE\<close>: an error, or permission to go on.\<close>

definition may_delete :: "crypto \<Rightarrow> string \<Rightarrow> authdb \<Rightarrow> string option \<times> authdb" where
  "may_delete E username d =
     (case user_row E username d of
        (Inl e, d1) \<Rightarrow> (Some e, d1)
      | (Inr None, d1) \<Rightarrow> (Some (''user not found: '' @ username), d1)
      | (Inr (Some user), d1) \<Rightarrow>
          if u_Role user = RoleAdmin then
            (case adminCount E d1 of
               (Inl e, d2) \<Rightarrow> (Some e, d2)
             | (Inr admins, d2) \<Rightarrow>
                 if admins \<le> 1 then (Some ''cannot delete the last admin user'', d2) else (None, d2))
          else (None, d1))"

definition delete_row :: "crypto \<Rightarrow> string \<Rightarrow> authdb \<Rightarrow> string option \<times> authdb" where
  "delete_row E username d =
     (case stmt d (\<lambda>d. (Inr (), d \<lparr> adb_users := delete_where (\<lambda>u. cr_same E (u_Username u) username) (adb_users d) \<rparr>)) of
        (Inl e, d1) \<Rightarrow> (Some e, d1)
      | (Inr _, d1) \<Rightarrow> (None, redis_del users_key d1))"

definition DeleteUser :: "crypto \<Rightarrow> string \<Rightarrow> authdb \<Rightarrow> string option \<times> authdb" where
  "DeleteUser E username0 d =
     (let username = normalizeUsername username0 in
      case may_delete E username d of
        (Some e, d1) \<Rightarrow> (Some e, d1)
      | (None, d1) \<Rightarrow> delete_row E username d1)"

text \<open>
  \<open>importLegacyUsers\<close>: the file is missing (\<open>None\<close>), unreadable or not JSON (\<open>Some (Inl e)\<close>), or a list
  of users. A row whose key exists is ignored.
\<close>

fun import_users :: "crypto \<Rightarrow> instant \<Rightarrow> (string \<times> string \<times> string \<times> instant) list \<Rightarrow> authdb \<Rightarrow> string option \<times> authdb" where
  "import_users E now [] d = (None, d)"
| "import_users E now ((username, hash, role, created) # rest) d =
     (if username = [] \<or> hash = [] then import_users E now rest d
      else
        (case stmt d (\<lambda>d. (Inr (),
            if \<exists>u \<in> set (adb_users d). cr_same E (u_Username u) username then d
            else d \<lparr> adb_users := adb_users d @
              [new_user username hash (if role = [] then RoleOperator else role) (if is_zero created then now else created)] \<rparr>)) of
           (Inl e, d1) \<Rightarrow> (Some e, d1)
         | (Inr _, d1) \<Rightarrow> import_users E now rest d1))"

definition importLegacyUsers :: "crypto \<Rightarrow> instant \<Rightarrow> (string \<times> string \<times> string \<times> instant) list result option \<Rightarrow>
    authdb \<Rightarrow> string option \<times> authdb" where
  "importLegacyUsers E now file d =
     (case file of None \<Rightarrow> (None, d) | Some (Inl e) \<Rightarrow> (Some e, d) | Some (Inr users) \<Rightarrow> import_users E now users d)"

subsection \<open>Sessions\<close>

text \<open>\<open>token\<close> is the result of \<^verbatim>\<open>randomToken\<close>: 32 random bytes in base64.\<close>

definition session_key :: "string \<Rightarrow> string" where "session_key token = ''session:'' @ token"
definition pending_key :: "string \<Rightarrow> string" where "pending_key token = ''totp_pending:'' @ token"

definition store_session :: "instant \<Rightarrow> duration \<Rightarrow> string result \<Rightarrow> (string \<Rightarrow> string) \<Rightarrow> PublicUser \<Rightarrow> authdb \<Rightarrow> Session result \<times> authdb" where
  "store_session now ttl token key user d =
     (case token of
        Inl e \<Rightarrow> (Inl e, d)
      | Inr t \<Rightarrow>
          (let session = \<lparr> se_Token = t, se_User = user, se_ExpiresAt = now + ttl \<rparr> in
           case redis_set now ttl (key t) (CSession session) d of
             (Inl e, d1) \<Rightarrow> (Inl e, d1)
           | (Inr _, d1) \<Rightarrow> (Inr session, d1)))"

definition Create :: "duration \<Rightarrow> instant \<Rightarrow> string result \<Rightarrow> PublicUser \<Rightarrow> authdb \<Rightarrow> Session result \<times> authdb" where
  "Create ttl now token user d = store_session now ttl token session_key user d"

definition CreatePending :: "instant \<Rightarrow> string result \<Rightarrow> PublicUser \<Rightarrow> authdb \<Rightarrow> Session result \<times> authdb" where
  "CreatePending now token user d = store_session now (2 * minute) token pending_key user d"

definition DeleteSession :: "string \<Rightarrow> authdb \<Rightarrow> authdb" where
  "DeleteSession token d = redis_del (session_key token) d"

definition GetSession :: "instant \<Rightarrow> string \<Rightarrow> authdb \<Rightarrow> Session option \<times> authdb" where
  "GetSession now token d =
     (case redis_get now (session_key token) d of
        (Inr (Some (CSession session)), d1) \<Rightarrow>
          if se_ExpiresAt session < now then (None, DeleteSession token d1) else (Some session, d1)
      | (_, d1) \<Rightarrow> (None, d1))"

definition GetPending :: "instant \<Rightarrow> string \<Rightarrow> authdb \<Rightarrow> Session option \<times> authdb" where
  "GetPending now token d =
     (case redis_get now (pending_key token) d of
        (Inr (Some (CSession session)), d1) \<Rightarrow> (Some session, d1)
      | (_, d1) \<Rightarrow> (None, d1))"

definition DeletePending :: "string \<Rightarrow> authdb \<Rightarrow> authdb" where
  "DeletePending token d = redis_del (pending_key token) d"

subsection \<open>The request and its user\<close>

text \<open>
  What the handlers read of a request: the headers \<^verbatim>\<open>Authorization\<close> and \<^verbatim>\<open>X-API-Key\<close>, the query
  parameters \<^verbatim>\<open>token\<close> and \<^verbatim>\<open>api_key\<close>, the two headers of a reverse proxy and the address of the peer.
\<close>

record request =
  rq_authorization :: string
  rq_api_key :: string
  rq_query_token :: string
  rq_query_api_key :: string
  rq_real_ip :: string
  rq_forwarded_for :: string
  rq_remote_addr :: string

definition BearerToken :: "request \<Rightarrow> string" where
  "BearerToken r =
     (if has_prefix (rq_authorization r) ''Bearer ''
      then trim_space (trim_prefix (rq_authorization r) ''Bearer '') else [])"

text \<open>
  \<open>RequireAuth\<close>: \<open>apiKey\<close> is the current API key (empty when there is none) and \<open>sessions\<close> tells whether
  a session manager is given. The result is the user of the request's context, or the error.
\<close>

definition RequireAuth :: "instant \<Rightarrow> string \<Rightarrow> bool \<Rightarrow> request \<Rightarrow> authdb \<Rightarrow> PublicUser response \<times> authdb" where
  "RequireAuth now apiKey sessions r d =
     (let token = (if BearerToken r = [] then trim_space (rq_query_token r) else BearerToken r) in
      if sessions \<and> token \<noteq> [] then
        (case GetSession now token d of
           (None, d1) \<Rightarrow> (write_error 401 ''invalid or expired session'', d1)
         | (Some session, d1) \<Rightarrow> (write_json 200 (se_User session), d1))
      else
        (let provided = (if rq_api_key r = [] then trim_space (rq_query_api_key r) else rq_api_key r) in
         if provided = [] then (write_error 401 ''missing credentials'', d)
         else if apiKey = [] \<or> provided \<noteq> apiKey then (write_error 401 ''invalid API key'', d)
         else (write_json 200 \<lparr> pu_Username = ''api-key'', pu_Role = RoleAdmin, pu_TOTPEnabled = False,
                                pu_CreatedAt = zero_time \<rparr>, d)))"

text \<open>\<open>user\<close> is what \<open>CurrentUser\<close> finds in the context of the request.\<close>

definition RequireAdmin :: "PublicUser option \<Rightarrow> bool" where
  "RequireAdmin user = (case user of Some u \<Rightarrow> pu_Role u = RoleAdmin | None \<Rightarrow> False)"

text \<open>The middleware of \<^verbatim>\<open>main\<close> that takes the client's address from the proxy headers.\<close>

definition realIP :: "request \<Rightarrow> request" where
  "realIP r =
     (let rip = trim_space (rq_real_ip r) in
      if rip \<noteq> [] then r \<lparr> rq_remote_addr := rip @ '':0'' \<rparr>
      else if rq_forwarded_for r \<noteq> [] then
        r \<lparr> rq_remote_addr :=
             (case cut_at CHR '','' (rq_forwarded_for r) of
                Some (first, _) \<Rightarrow> if first = [] then trim_space (rq_forwarded_for r) else trim_space first
              | None \<Rightarrow> trim_space (rq_forwarded_for r)) @ '':0'' \<rparr>
      else r)"

text \<open>\<^verbatim>\<open>net.SplitHostPort\<close>: the host, or \<open>None\<close> for its errors.\<close>

definition last_colon :: "string \<Rightarrow> (string \<times> string) option" where
  "last_colon s = (case cut_at CHR '':'' (rev s) of None \<Rightarrow> None | Some (b, a) \<Rightarrow> Some (rev a, rev b))"

definition split_host_port :: "string \<Rightarrow> string option" where
  "split_host_port hostport =
     (case last_colon hostport of
        None \<Rightarrow> None
      | Some (before, port) \<Rightarrow>
          if has_prefix hostport ''['' then
            (case cut_at CHR '']'' hostport of
               None \<Rightarrow> None
             | Some (inner, rest) \<Rightarrow>
                 if rest \<noteq> CHR '':'' # port then None
                 else if CHR ''['' \<in> set (tl inner) \<or> CHR ''['' \<in> set rest \<or> CHR '']'' \<in> set rest then None
                 else Some (tl inner))
          else if CHR '':'' \<in> set before then None
          else if CHR ''['' \<in> set hostport \<or> CHR '']'' \<in> set hostport then None
          else Some before)"

definition loginClientIP :: "request \<Rightarrow> string" where
  "loginClientIP r =
     (case split_host_port (rq_remote_addr r) of
        Some host \<Rightarrow> if host \<noteq> [] then host else rq_remote_addr r
      | None \<Rightarrow> rq_remote_addr r)"

text \<open>The call to the firewall that a login makes: the address and the comment, if any.\<close>

definition allowlistLoginIP :: "bool \<Rightarrow> request \<Rightarrow> string \<Rightarrow> (string \<times> string) list" where
  "allowlistLoginIP allower r username =
     (let ip = loginClientIP r in
      if \<not> allower \<or> ip = [] then [] else [(ip, ''Stack Manager login '' @ trim_space username)])"

subsection \<open>Handlers\<close>

text \<open>
  A handler reads the clock and draws its random values from \<open>draws\<close>: \<open>dr_key\<close> is the result of
  \<^verbatim>\<open>totp.Generate\<close>, \<open>dr_rand\<close> the bytes of the backup codes, and \<open>dr_qr\<close> is \<^verbatim>\<open>totpQRDataURI\<close>, which
  draws a picture. \<open>user\<close> is the user in the request's context, a body is \<open>None\<close> when it does not
  decode, and the list beside the response holds the calls to the firewall.
\<close>

record draws =
  dr_now :: instant
  dr_salt :: string
  dr_token :: "string result"
  dr_key :: "(string \<times> string) result"
  dr_rand :: "nat list list"
  dr_qr :: "string \<Rightarrow> string"

record AuthHandler =
  ah_ttl :: duration
  ah_allower :: bool

datatype auth_body =
    BPending string PublicUser
  | BSession string instant PublicUser
  | BEnrolled string "string list" string string
  | BTOTP bool
  | BName string
  | BUser PublicUser
  | BUsers "PublicUser list"
  | BLoggedOut

type_synonym handled = "(auth_body response \<times> (string \<times> string) list) \<times> authdb"

definition answer :: "auth_body response \<Rightarrow> authdb \<Rightarrow> handled" where
  "answer resp d = ((resp, []), d)"

definition start_session :: "AuthHandler \<Rightarrow> draws \<Rightarrow> request \<Rightarrow> PublicUser \<Rightarrow> authdb \<Rightarrow> handled" where
  "start_session h D r user d =
     (case Create (ah_ttl h) (dr_now D) (dr_token D) user d of
        (Inl e, d1) \<Rightarrow> answer (write_error 500 e) d1
      | (Inr session, d1) \<Rightarrow>
          ((write_json 200 (BSession (se_Token session) (se_ExpiresAt session) user),
            allowlistLoginIP (ah_allower h) r (pu_Username user)), d1))"

definition Login :: "crypto \<Rightarrow> AuthHandler \<Rightarrow> draws \<Rightarrow> request \<Rightarrow> (string \<times> string) option \<Rightarrow> authdb \<Rightarrow> handled" where
  "Login E h D r body d =
     (case body of
        None \<Rightarrow> answer (write_error 400 ''invalid request body'') d
      | Some (username, password) \<Rightarrow>
          (case Authenticate E username password d of
             (None, d1) \<Rightarrow> answer (write_error 401 ''invalid username or password'') d1
           | (Some user, d1) \<Rightarrow>
               if pu_TOTPEnabled user then
                 (case CreatePending (dr_now D) (dr_token D) user d1 of
                    (Inl e, d2) \<Rightarrow> answer (write_error 500 e) d2
                  | (Inr pending, d2) \<Rightarrow> answer (write_json 200 (BPending (se_Token pending) user)) d2)
               else start_session h D r user d1))"

definition TOTPLogin :: "crypto \<Rightarrow> AuthHandler \<Rightarrow> draws \<Rightarrow> request \<Rightarrow> (string \<times> string) option \<Rightarrow> authdb \<Rightarrow> handled" where
  "TOTPLogin E h D r body d =
     (case body of
        None \<Rightarrow> answer (write_error 400 ''invalid request body'') d
      | Some (totpToken, code) \<Rightarrow>
          (case GetPending (dr_now D) totpToken d of
             (None, d1) \<Rightarrow> answer (write_error 401
                 (''totp token expired or invalid '' @ em_dash @ '' re-enter your password'')) d1
           | (Some pending, d1) \<Rightarrow>
               (case TOTPValidateCode E (dr_now D) (pu_Username (se_User pending)) (trim_space code)
                       (DeletePending totpToken d1) of
                  (False, d2) \<Rightarrow> answer (write_error 401 ''invalid TOTP code'') d2
                | (True, d2) \<Rightarrow> start_session h D r (se_User pending) d2)))"

definition handleTOTPEnroll :: "crypto \<Rightarrow> draws \<Rightarrow> PublicUser option \<Rightarrow> authdb \<Rightarrow> handled" where
  "handleTOTPEnroll E D user d =
     (case user of
        None \<Rightarrow> answer (write_error 401 ''not signed in'') d
      | Some u \<Rightarrow>
          (case TOTPEnroll E (dr_key D) (dr_rand D) (pu_Username u) d of
             (Inl e, d1) \<Rightarrow> answer (write_error 500 e) d1
           | (Inr (secret, codes, url), d1) \<Rightarrow> answer (write_json 200 (BEnrolled secret codes url (dr_qr D url))) d1))"

definition TOTPVerify :: "crypto \<Rightarrow> draws \<Rightarrow> PublicUser option \<Rightarrow> string option \<Rightarrow> authdb \<Rightarrow> handled" where
  "TOTPVerify E D user body d =
     (case (user, body) of
        (None, _) \<Rightarrow> answer (write_error 401 ''not signed in'') d
      | (Some _, None) \<Rightarrow> answer (write_error 400 ''invalid request body'') d
      | (Some u, Some code) \<Rightarrow>
          (case TOTPVerifyAndEnable E (dr_now D) (pu_Username u) (trim_space code) d of
             (Some e, d1) \<Rightarrow> answer (write_error 400 e) d1
           | (None, d1) \<Rightarrow> answer (write_json 200 (BTOTP True)) d1))"

definition handleTOTPDisable :: "crypto \<Rightarrow> PublicUser option \<Rightarrow> string option \<Rightarrow> authdb \<Rightarrow> handled" where
  "handleTOTPDisable E user body d =
     (case (user, body) of
        (None, _) \<Rightarrow> answer (write_error 401 ''not signed in'') d
      | (Some _, None) \<Rightarrow> answer (write_error 400 ''invalid request body'') d
      | (Some u, Some password) \<Rightarrow>
          (case Authenticate E (pu_Username u) password d of
             (None, d1) \<Rightarrow> answer (write_error 401 ''password incorrect'') d1
           | (Some _, d1) \<Rightarrow>
               (case TOTPDisable E (pu_Username u) d1 of
                  (Some e, d2) \<Rightarrow> answer (write_error 500 e) d2
                | (None, d2) \<Rightarrow> answer (write_json 200 (BTOTP False)) d2)))"

text \<open>Handlers for administrators run their body behind \<open>RequireAdmin\<close>.\<close>

definition admin_only :: "PublicUser option \<Rightarrow> (authdb \<Rightarrow> handled) \<Rightarrow> authdb \<Rightarrow> handled" where
  "admin_only user body d = (if RequireAdmin user then body d else answer (write_error 403 ''admin role required'') d)"

definition name_or_error :: "int \<Rightarrow> string \<Rightarrow> string option \<times> authdb \<Rightarrow> handled" where
  "name_or_error code name r =
     (case r of (Some e, d) \<Rightarrow> answer (write_error code e) d | (None, d) \<Rightarrow> answer (write_json 200 (BName name)) d)"

definition TOTPResetUser :: "crypto \<Rightarrow> PublicUser option \<Rightarrow> string \<Rightarrow> authdb \<Rightarrow> handled" where
  "TOTPResetUser E user username = admin_only user (\<lambda>d. name_or_error 500 username (TOTPDisable E username d))"

definition Logout :: "request \<Rightarrow> authdb \<Rightarrow> handled" where
  "Logout r d =
     (let token = BearerToken r
      in answer (write_json 200 BLoggedOut) (if token \<noteq> [] then DeleteSession token d else d))"

definition Me :: "crypto \<Rightarrow> PublicUser option \<Rightarrow> authdb \<Rightarrow> handled" where
  "Me E user d =
     (case user of
        None \<Rightarrow> answer (write_error 401 ''missing user'') d
      | Some u \<Rightarrow>
          (let (enabled, d1) = HasTOTP E (pu_Username u) d
           in answer (write_json 200 (BUser (u \<lparr> pu_TOTPEnabled := enabled \<rparr>))) d1))"

definition handleListUsers :: "draws \<Rightarrow> PublicUser option \<Rightarrow> authdb \<Rightarrow> handled" where
  "handleListUsers D user = admin_only user (\<lambda>d.
     let (users, d1) = ListUsers (dr_now D) d in answer (write_json 200 (BUsers users)) d1)"

definition zero_user :: PublicUser where
  "zero_user = \<lparr> pu_Username = [], pu_Role = [], pu_TOTPEnabled = False, pu_CreatedAt = zero_time \<rparr>"

definition handleCreateUser :: "crypto \<Rightarrow> draws \<Rightarrow> PublicUser option \<Rightarrow> (string \<times> string \<times> string) option \<Rightarrow> authdb \<Rightarrow> handled" where
  "handleCreateUser E D user body = admin_only user (\<lambda>d.
     case body of
       None \<Rightarrow> answer (write_error 400 ''invalid request body'') d
     | Some (username, password, role) \<Rightarrow>
         (case CreateUser E (dr_now D) (dr_salt D) username password role d of
            (Some e, d1) \<Rightarrow> answer (write_error 400 e) d1
          | (None, d1) \<Rightarrow>
              (let (created, d2) = GetUser E username d1
               in answer (write_json 201 (BUser (case created of Some u \<Rightarrow> u | None \<Rightarrow> zero_user))) d2)))"

definition handleSetPassword :: "crypto \<Rightarrow> draws \<Rightarrow> PublicUser option \<Rightarrow> string \<Rightarrow> string option \<Rightarrow> authdb \<Rightarrow> handled" where
  "handleSetPassword E D user username body = admin_only user (\<lambda>d.
     case body of
       None \<Rightarrow> answer (write_error 400 ''invalid request body'') d
     | Some password \<Rightarrow> name_or_error 400 username (SetPassword E (dr_salt D) username password d))"

definition handleChangeOwnPassword :: "crypto \<Rightarrow> draws \<Rightarrow> PublicUser option \<Rightarrow> (string \<times> string) option \<Rightarrow> authdb \<Rightarrow> handled" where
  "handleChangeOwnPassword E D user body d =
     (case user of
        None \<Rightarrow> answer (write_error 401 ''not signed in'') d
      | Some u \<Rightarrow>
          if pu_Username u = [] then answer (write_error 401 ''not signed in'') d
          else
            (case body of
               None \<Rightarrow> answer (write_error 400 ''invalid request body'') d
             | Some (current, new) \<Rightarrow>
                 name_or_error 400 (pu_Username u) (ChangeOwnPassword E (dr_salt D) (pu_Username u) current new d)))"

definition handleDeleteUser :: "crypto \<Rightarrow> PublicUser option \<Rightarrow> string \<Rightarrow> authdb \<Rightarrow> handled" where
  "handleDeleteUser E user username = admin_only user (\<lambda>d. name_or_error 400 username (DeleteUser E username d))"

subsection \<open>The routes\<close>

text \<open>
  The routes of \<^verbatim>\<open>main\<close> that change users and sessions. All but the two logins run behind
  \<open>RequireAuth\<close>; \<open>apiKey\<close> is the API key at the time of the request.
\<close>

datatype auth_call =
    CallLogin "(string \<times> string) option"
  | CallTOTPLogin "(string \<times> string) option"
  | CallMe
  | CallLogout
  | CallChangePassword "(string \<times> string) option"
  | CallTOTPEnroll
  | CallTOTPVerify "string option"
  | CallTOTPDisable "string option"
  | CallTOTPReset string
  | CallListUsers
  | CallCreateUser "(string \<times> string \<times> string) option"
  | CallSetPassword string "string option"
  | CallDeleteUser string

fun signed_in :: "crypto \<Rightarrow> draws \<Rightarrow> request \<Rightarrow> auth_call \<Rightarrow> PublicUser \<Rightarrow> authdb \<Rightarrow> handled" where
  "signed_in E D r CallMe u d = Me E (Some u) d"
| "signed_in E D r CallLogout u d = Logout r d"
| "signed_in E D r (CallChangePassword b) u d = handleChangeOwnPassword E D (Some u) b d"
| "signed_in E D r CallTOTPEnroll u d = handleTOTPEnroll E D (Some u) d"
| "signed_in E D r (CallTOTPVerify b) u d = TOTPVerify E D (Some u) b d"
| "signed_in E D r (CallTOTPDisable b) u d = handleTOTPDisable E (Some u) b d"
| "signed_in E D r (CallTOTPReset n) u d = TOTPResetUser E (Some u) n d"
| "signed_in E D r CallListUsers u d = handleListUsers D (Some u) d"
| "signed_in E D r (CallCreateUser b) u d = handleCreateUser E D (Some u) b d"
| "signed_in E D r (CallSetPassword n b) u d = handleSetPassword E D (Some u) n b d"
| "signed_in E D r (CallDeleteUser n) u d = handleDeleteUser E (Some u) n d"
| "signed_in E D r _ u d = answer (write_error 404 []) d"

fun serve :: "crypto \<Rightarrow> AuthHandler \<Rightarrow> string \<Rightarrow> draws \<Rightarrow> request \<Rightarrow> auth_call \<Rightarrow> authdb \<Rightarrow> handled" where
  "serve E h apiKey D r (CallLogin b) d = Login E h D (realIP r) b d"
| "serve E h apiKey D r (CallTOTPLogin b) d = TOTPLogin E h D (realIP r) b d"
| "serve E h apiKey D r c d =
     (case RequireAuth (dr_now D) apiKey True (realIP r) d of
        ((code, Inl e), d1) \<Rightarrow> answer (code, Inl e) d1
      | ((_, Inr u), d1) \<Rightarrow> signed_in E D (realIP r) c u d1)"

text \<open>A history of requests, each with its draws and the API key of its time.\<close>

record event =
  ev_draws :: draws
  ev_apiKey :: string
  ev_request :: request
  ev_call :: auth_call

definition handle :: "crypto \<Rightarrow> AuthHandler \<Rightarrow> event \<Rightarrow> authdb \<Rightarrow> handled" where
  "handle E h ev d = serve E h (ev_apiKey ev) (ev_draws ev) (ev_request ev) (ev_call ev) d"

definition after :: "crypto \<Rightarrow> AuthHandler \<Rightarrow> event list \<Rightarrow> authdb \<Rightarrow> authdb" where
  "after E h evs d = fold (\<lambda>ev d. snd (handle E h ev d)) evs d"

section \<open>Keys and statements\<close>

locale keyvalue =
  fixes lookup_key :: "instant \<Rightarrow> string \<Rightarrow> 'm \<Rightarrow> 'v option"
    and set_key :: "instant \<Rightarrow> duration \<Rightarrow> string \<Rightarrow> 'v \<Rightarrow> 'm \<Rightarrow> 'm"
    and del_key :: "string \<Rightarrow> 'm \<Rightarrow> 'm"
  assumes lookup_set: "0 < ttl \<Longrightarrow> lookup_key t k (set_key now ttl k v m) = (if t < now + ttl then Some v else None)"
    and lookup_set_other: "k \<noteq> k' \<Longrightarrow> lookup_key t k (set_key now ttl k' v m) = lookup_key t k m"
    and lookup_del: "lookup_key t k (del_key k m) = None"
    and lookup_del_other: "k \<noteq> k' \<Longrightarrow> lookup_key t k (del_key k' m) = lookup_key t k m"
begin

lemma lookup_set_twice:
  "0 < ttl \<Longrightarrow> k \<noteq> k' \<Longrightarrow> lookup_key t k (set_key now' ttl' k' v' (set_key now ttl k v m)) = (if t < now + ttl then Some v else None)"
  by (simp add: lookup_set lookup_set_other)

lemma deleted_stays_deleted:
  "k \<notin> fst ` set kvs \<Longrightarrow>
   lookup_key t k (fold (\<lambda>(k', now, ttl, v). set_key now ttl k' v) kvs (del_key k m)) = None"
proof (induction kvs rule: rev_induct)
  case Nil
  then show ?case by (simp add: lookup_del)
next
  case (snoc x kvs)
  then show ?case by (cases x) (auto simp: lookup_set_other)
qed

end

interpretation kv: keyvalue kv_get kv_set kv_del
  by unfold_locales (auto simp: kv_get_def kv_set_def kv_del_def)

lemma key_spaces [simp]:
  "session_key t \<noteq> pending_key t'" "pending_key t' \<noteq> session_key t" "session_key t \<noteq> users_key" "pending_key t \<noteq> users_key"
  "session_key t = session_key t' \<longleftrightarrow> t = t'" "pending_key t = pending_key t' \<longleftrightarrow> t = t'"
  by (simp_all add: session_key_def pending_key_def)

lemma stmt_cases:
  assumes "stmt d f = (r, d')"
  obtains (done_) fs where "f (d \<lparr> adb_faults := fs \<rparr>) = (r, d')"
    | (failed) e fs where "r = Inl e" "d' = d \<lparr> adb_faults := fs \<rparr>"
proof (cases "adb_faults d")
  case Nil
  then have "f (d \<lparr> adb_faults := [] \<rparr>) = (r, d')"
    using assms by (simp add: stmt_def) (metis authdb.surjective authdb.update_convs(4) Nil)
  then show ?thesis by (rule done_)
next
  case (Cons x fs)
  then show ?thesis using assms done_ failed by (cases x) (auto simp: stmt_def)
qed

lemma user_row_effect:
  "user_row E n d = (r, d') \<Longrightarrow> adb_users d' = adb_users d \<and> adb_redis d' = adb_redis d \<and>
   (\<forall>x. r = Inr x \<longrightarrow> x = find (\<lambda>u. cr_same E (u_Username u) n) (adb_users d))"
  unfolding user_row_def by (erule stmt_cases) auto

lemma update_user_effect:
  "update_user E n f d = (r, d') \<Longrightarrow> adb_redis d' = adb_redis d \<and>
   (case r of Inl _ \<Rightarrow> adb_users d' = adb_users d
    | Inr k \<Rightarrow> adb_users d' = update_where (\<lambda>u. cr_same E (u_Username u) n) f (adb_users d)
        \<and> k = count_where (\<lambda>u. cr_same E (u_Username u) n \<and> f u \<noteq> u) (adb_users d))"
  unfolding update_user_def by (erule stmt_cases) auto

lemma redis_get_effect:
  "redis_get now k d = (r, d') \<Longrightarrow> adb_users d' = adb_users d \<and> adb_redis d' = adb_redis d \<and>
   (\<forall>x. r = Inr x \<longrightarrow> x = kv_get now k (adb_redis d))"
  unfolding redis_get_def by (erule stmt_cases) auto

lemma redis_set_effect:
  "redis_set now ttl k v d = (r, d') \<Longrightarrow> adb_users d' = adb_users d \<and>
   adb_redis d' = (case r of Inl _ \<Rightarrow> adb_redis d | Inr _ \<Rightarrow> kv_set now ttl k v (adb_redis d))"
  unfolding redis_set_def by (erule stmt_cases) auto

lemma redis_del_effect:
  "adb_users (redis_del k d) = adb_users d \<and>
   (adb_redis (redis_del k d) = adb_redis d \<or> adb_redis (redis_del k d) = kv_del k (adb_redis d))"
  by (auto simp: redis_del_def stmt_def split: list.splits option.splits)

lemma adb_users_redis_del [simp]: "adb_users (redis_del k d) = adb_users d"
  using redis_del_effect by blast

lemma insert_user_effect:
  "insert_user E user d = (r, d') \<Longrightarrow> adb_redis d' = adb_redis d \<and>
   (case r of Inl _ \<Rightarrow> adb_users d' = adb_users d
    | Inr _ \<Rightarrow> adb_users d' = adb_users d @ [user] \<and> (\<forall>u \<in> set (adb_users d). \<not> cr_same E (u_Username u) (u_Username user)))"
  unfolding insert_user_def by (erule stmt_cases) (auto split: if_splits)

lemmas stmt_effects = user_row_effect update_user_effect redis_get_effect redis_set_effect insert_user_effect

subsection \<open>States without new keys\<close>

text \<open>\<open>calm d d'\<close>: no key but that of the user list has a new value.\<close>

definition calm :: "authdb \<Rightarrow> authdb \<Rightarrow> bool" where
  "calm d d' = (\<forall>k. k \<noteq> users_key \<longrightarrow> adb_redis d' k = adb_redis d k \<or> adb_redis d' k = None)"

lemma calm_refl [simp]: "calm d d"
  by (simp add: calm_def)

lemma calm_trans [trans]: "calm d d1 \<Longrightarrow> calm d1 d2 \<Longrightarrow> calm d d2"
  by (metis calm_def)

lemma calm_redis: "adb_redis d' = adb_redis d \<Longrightarrow> calm d d'"
  by (simp add: calm_def)

lemma calm_del [simp]: "calm d (redis_del k d)"
  using redis_del_effect[of k d] by (auto simp: calm_def kv_del_def split: if_splits)

lemma calm_del_after: "calm d d1 \<Longrightarrow> calm d (redis_del k d1)"
  by (rule calm_trans[OF _ calm_del])

lemma snd_answer [simp]: "snd (answer resp d) = d"
  by (simp add: answer_def)

lemma snd_name_or_error [simp]: "snd (name_or_error code name r) = snd r"
  by (auto simp: name_or_error_def split: prod.splits option.splits)

subsection \<open>What every request respects\<close>

text \<open>
  A relation between the states before and after a request. It allows the steps that touch neither the
  table nor the sessions, changes to the password and the TOTP columns of the rows named by \<open>mine\<close>
  and, when \<open>admin\<close> holds, new rows and deletions. Every request of a user respects such a relation.
\<close>

locale account_relation =
  fixes E :: crypto and R :: "authdb \<Rightarrow> authdb \<Rightarrow> bool" and mine :: "string \<Rightarrow> bool" and admin :: bool
  assumes R_trans: "R d d1 \<Longrightarrow> R d1 d2 \<Longrightarrow> R d d2"
    and quiet: "adb_users d' = adb_users d \<Longrightarrow> calm d d' \<Longrightarrow> R d d'"
    and modify: "mine n \<Longrightarrow> \<forall>u. u_Username (f u) = u_Username u \<and> u_Role (f u) = u_Role u \<Longrightarrow>
      update_user E n f d = (r, d') \<Longrightarrow> R d d'"
    and add: "admin \<Longrightarrow> insert_user E (new_user n hash (normalizeRole ro) now) d = (r', d') \<Longrightarrow> R d d'"
    and remove: "admin \<Longrightarrow> R d (snd (DeleteUser E n d))"
    and all_mine: "admin \<Longrightarrow> mine n"
begin

lemma R_refl: "R d d"
  by (rule quiet) simp_all

lemma R_del_after: "R d d1 \<Longrightarrow> R d (redis_del k d1)"
  by (erule R_trans) (simp add: quiet)

lemma R_reads:
  "user_row E n d = (r1, d') \<Longrightarrow> R d d'"
  "redis_get now k d = (r3, d') \<Longrightarrow> R d d'"
  by (auto dest!: stmt_effects intro!: quiet calm_redis)

lemma R_users_set: "redis_set now ttl users_key v d = (r, d') \<Longrightarrow> R d d'"
  by (rule quiet) (auto dest!: redis_set_effect simp: calm_def kv_set_def split: sum.splits)

lemma R_stmt_read: "R d (snd (stmt d (\<lambda>d. (r d, d))))"
  by (rule quiet) (auto simp: stmt_def intro!: calm_redis split: list.splits option.splits)

lemma R_snd: "R d (snd r) \<Longrightarrow> r = (a, d') \<Longrightarrow> R d d'"
  by simp

lemmas R_intros = R_refl R_del_after R_reads

lemma R_Authenticate: "R d (snd (Authenticate E n p d))"
  by (auto simp: Authenticate_def Let_def split: option.splits sum.splits prod.splits intro: R_reads)

lemma R_HasTOTP: "R d (snd (HasTOTP E n d))"
  by (auto simp: HasTOTP_def split: option.splits sum.splits prod.splits intro: R_reads)

lemma R_GetUser: "R d (snd (GetUser E n d))"
  by (auto simp: GetUser_def split: option.splits sum.splits prod.splits intro: R_reads)

lemma R_CreateUser: "admin \<Longrightarrow> R d (snd (CreateUser E now salt n p ro d))"
  by (auto simp: CreateUser_def Let_def split: option.splits sum.splits prod.splits intro: R_refl R_del_after add)

lemma R_TOTPEnroll: "mine (normalizeUsername n) \<Longrightarrow> R d (snd (TOTPEnroll E key rand n d))"
  by (auto simp: TOTPEnroll_def Let_def split: option.splits sum.splits prod.splits
      dest!: modify[rotated 2] intro: R_refl R_del_after)

lemma R_err_of_update:
  "mine n \<Longrightarrow> \<forall>u. u_Username (f u) = u_Username u \<and> u_Role (f u) = u_Role u \<Longrightarrow> R d (snd (err_of (update_user E n f d)))"
  by (auto simp: err_of_def split: sum.splits prod.splits intro: modify)

lemma R_TOTPDisable: "mine (normalizeUsername n) \<Longrightarrow> R d (snd (TOTPDisable E n d))"
  by (auto simp: TOTPDisable_def split_beta intro!: R_del_after R_err_of_update)

lemma R_TOTPVerifyAndEnable:
  assumes "mine (normalizeUsername n)" shows "R d (snd (TOTPVerifyAndEnable E now n c d))"
proof -
  obtain r d1 where u: "user_row E (normalizeUsername n) d = (r, d1)" by (rule prod.exhaust)
  then have 1: "R d d1" by (rule R_reads)
  have 2: "R d (redis_del users_key (snd (err_of (update_user E (normalizeUsername n) (u_TOTPEnabled_update (\<lambda>_. True)) d1))))"
    by (rule R_del_after, rule R_trans[OF 1], rule R_err_of_update) (simp_all add: assms)
  show ?thesis
    using 1 2 by (auto simp: TOTPVerifyAndEnable_def Let_def u split_beta split: option.splits sum.splits)
qed

lemma R_TOTPValidateCode:
  assumes "mine (normalizeUsername n)" shows "R d (snd (TOTPValidateCode E now n c d))"
proof -
  obtain r d1 where u: "user_row E (normalizeUsername n) d = (r, d1)" by (rule prod.exhaust)
  then have 1: "R d d1" by (rule R_reads)
  have 2: "R d (snd (update_user E (normalizeUsername n) (u_TOTPBackupCodes_update g) d1))" for g
    using R_trans[OF 1 modify[OF assms, of "u_TOTPBackupCodes_update g" d1]]
    by (cases "update_user E (normalizeUsername n) (u_TOTPBackupCodes_update g) d1") simp
  show ?thesis
    using 1 2 by (auto simp: TOTPValidateCode_def Let_def u split: option.splits sum.splits)
qed

lemma R_SetPassword: "mine (normalizeUsername n) \<Longrightarrow> R d (snd (SetPassword E salt n p d))"
  by (auto simp: SetPassword_def Let_def split: option.splits sum.splits prod.splits
      dest!: modify[rotated 2] intro: R_refl)

lemma R_ChangeOwnPassword: "mine (normalizeUsername n) \<Longrightarrow> R d (snd (ChangeOwnPassword E salt n p q d))"
proof (cases "Authenticate E n p d")
  case (Pair a d1)
  assume "mine (normalizeUsername n)"
  then show ?thesis
    using R_Authenticate[of d n p] R_SetPassword[of n d1 salt q] Pair
    by (auto simp: ChangeOwnPassword_def split: option.splits intro: R_trans)
qed

lemma R_ListUsers: "R d (snd (ListUsers now d))"
proof -
  obtain r d1 where g: "redis_get now users_key d = (r, d1)" by (rule prod.exhaust)
  obtain s d2 where q: "stmt d1 (\<lambda>d. (Inr (map listed_user (adb_users d)) :: PublicUser list result, d)) = (s, d2)"
    by (rule prod.exhaust)
  have 1: "R d d1" using g by (rule R_reads)
  have 2: "R d d2" by (rule R_trans[OF 1 R_snd[OF R_stmt_read q]])
  have 3: "R d (snd (redis_set now (adb_ttl d2) users_key v d2))" for v
    using R_trans[OF 2 R_users_set] by (cases "redis_set now (adb_ttl d2) users_key v d2") simp
  show ?thesis
    using 1 2 3 by (auto simp: ListUsers_def g q Let_def split: sum.splits option.splits cached.splits)
qed

lemma R_GetSession: "R d (snd (GetSession now t d))"
  by (auto simp: GetSession_def DeleteSession_def split: prod.splits sum.splits option.splits cached.splits intro: R_intros)

lemma R_GetPending: "R d (snd (GetPending now t d))"
  by (auto simp: GetPending_def split: prod.splits sum.splits option.splits cached.splits intro: R_reads)

lemma R_RequireAuth: "R d (snd (RequireAuth now apiKey b r d))"
  using R_GetSession[of d now] R_refl by (auto simp: RequireAuth_def Let_def split: prod.splits option.splits) (metis snd_conv)+

lemma R_admin_only: "(RequireAdmin user \<Longrightarrow> R d (snd (body d))) \<Longrightarrow> R d (snd (admin_only user body d))"
  by (simp add: admin_only_def R_refl)

lemma R_handleCreateUser: "(RequireAdmin user \<longrightarrow> admin) \<Longrightarrow> R d (snd (handleCreateUser E D user b d))"
proof -
  assume adm: "RequireAdmin user \<longrightarrow> admin"
  have "R d d1" if "CreateUser E (dr_now D) (dr_salt D) n p ro d = (x, d1)" and admin for n p ro x d1
    using R_snd[OF R_CreateUser that(1)] that(2) .
  moreover have "R d (snd (let (created, d2) = GetUser E n d1 in answer (write_json 201 (g created)) d2))"
    if "CreateUser E (dr_now D) (dr_salt D) n p ro d = (x, d1)" and admin for n p ro x d1 g
    using R_trans[OF R_snd[OF R_CreateUser that(1)] R_GetUser[of d1 n]] that(2) by (simp add: split_beta)
  ultimately show ?thesis
    unfolding handleCreateUser_def using adm by (intro R_admin_only) (auto split: option.splits prod.splits intro: R_refl)
qed

theorem R_signed_in:
  assumes adm: "pu_Role u = RoleAdmin \<longrightarrow> admin" and own: "mine (normalizeUsername (pu_Username u))"
  shows "R d (snd (signed_in E D r c u d))"
proof (cases c)
  case CallMe
  then show ?thesis using R_HasTOTP[of d "pu_Username u"] by (simp add: Me_def split_beta)
next
  case CallLogout
  then show ?thesis by (simp add: Logout_def Let_def DeleteSession_def R_intros)
next
  case (CallChangePassword b)
  then show ?thesis
    using R_ChangeOwnPassword[OF own] R_refl by (auto simp: handleChangeOwnPassword_def split: option.splits)
next
  case CallTOTPEnroll
  then show ?thesis
    using R_TOTPEnroll[OF own, of d "dr_key D" "dr_rand D"]
    by (auto simp: handleTOTPEnroll_def split: prod.splits sum.splits)
next
  case (CallTOTPVerify b)
  show ?thesis
  proof (cases b)
    case (Some code)
    then show ?thesis using CallTOTPVerify R_TOTPVerifyAndEnable[OF own, of d "dr_now D" "trim_space code"]
      by (auto simp: TOTPVerify_def split: prod.splits option.splits)
  qed (simp add: CallTOTPVerify TOTPVerify_def R_refl)
next
  case (CallTOTPDisable b)
  show ?thesis
  proof (cases b)
    case (Some p)
    obtain a d1 where au: "Authenticate E (pu_Username u) p d = (a, d1)" by (rule prod.exhaust)
    note 1 = R_snd[OF R_Authenticate au]
    from CallTOTPDisable Some 1 R_trans[OF 1 R_TOTPDisable[OF own]] show ?thesis
      by (auto simp: handleTOTPDisable_def au split: prod.splits option.splits)
  qed (simp add: CallTOTPDisable handleTOTPDisable_def R_refl)
next
  case (CallTOTPReset n)
  then show ?thesis
    by (simp add: TOTPResetUser_def) (intro R_admin_only, use adm in \<open>simp add: RequireAdmin_def R_TOTPDisable all_mine\<close>)
next
  case CallListUsers
  then show ?thesis
    by (simp add: handleListUsers_def, intro R_admin_only) (simp add: split_beta R_ListUsers)
next
  case (CallCreateUser b)
  then show ?thesis using adm by (simp add: R_handleCreateUser RequireAdmin_def)
next
  case (CallSetPassword n b)
  then show ?thesis
    by (simp add: handleSetPassword_def, intro R_admin_only)
      (use adm in \<open>auto simp: RequireAdmin_def R_refl all_mine split: option.splits intro!: R_SetPassword\<close>)
next
  case (CallDeleteUser n)
  then show ?thesis
    by (simp add: handleDeleteUser_def) (intro R_admin_only, use adm in \<open>simp add: RequireAdmin_def remove\<close>)
qed (simp_all add: R_refl)

lemma R_serve:
  assumes "\<And>b. c \<noteq> CallLogin b" "\<And>b. c \<noteq> CallTOTPLogin b"
    and "\<And>code u d1. RequireAuth (dr_now D) apiKey True (realIP r) d = ((code, Inr u), d1) \<Longrightarrow>
      (pu_Role u = RoleAdmin \<longrightarrow> admin) \<and> mine (normalizeUsername (pu_Username u))"
  shows "R d (snd (serve E h apiKey D r c d))"
proof -
  obtain resp d1 where ra: "RequireAuth (dr_now D) apiKey True (realIP r) d = (resp, d1)" by (rule prod.exhaust)
  obtain code x where resp: "resp = (code, x)" by (rule prod.exhaust)
  have sv: "serve E h apiKey D r c d = (case x of Inl e \<Rightarrow> answer (code, Inl e) d1 | Inr u \<Rightarrow> signed_in E D (realIP r) c u d1)"
    using assms ra resp by (cases c) (auto split: sum.splits)
  have 1: "R d d1" using R_snd[OF R_RequireAuth ra] .
  show ?thesis
  proof (cases x)
    case (Inr u)
    then show ?thesis using R_trans[OF 1 R_signed_in] assms(3) ra resp sv by simp
  qed (use 1 sv in simp)
qed

end

subsection \<open>Operations that start no session\<close>

lemma calm_stmts:
  "update_user E n f d = (r2, d') \<Longrightarrow> calm d d'"
  "insert_user E user d = (r4, d') \<Longrightarrow> calm d d'"
  by (auto dest!: stmt_effects intro: calm_redis)

lemma may_delete_effect:
  assumes "may_delete E n d = (r, d')"
  shows "adb_users d' = adb_users d \<and> calm d d' \<and>
    (r = None \<longrightarrow> (\<exists>u \<in> set (adb_users d). cr_same E (u_Username u) n \<and>
       (u_Role u = RoleAdmin \<longrightarrow> 1 < count_where (\<lambda>u. cr_same E (u_Role u) RoleAdmin) (adb_users d))))"
proof -
  obtain x d1 where u: "user_row E n d = (x, d1)" by (rule prod.exhaust)
  obtain k d2 where a: "adminCount E d1 = (k, d2)" by (rule prod.exhaust)
  have d2: "adb_users d2 = adb_users d1" "adb_redis d2 = adb_redis d1"
    "\<And>m. k = Inr m \<Longrightarrow> m = count_where (\<lambda>u. cr_same E (u_Role u) RoleAdmin) (adb_users d1)"
    using a unfolding adminCount_def by (auto elim: stmt_cases)
  have "\<And>row. x = Inr (Some row) \<Longrightarrow> row \<in> set (adb_users d) \<and> cr_same E (u_Username row) n"
    using user_row_effect[OF u] by (metis find_Some_in)
  then show ?thesis
    using assms d2 user_row_effect[OF u]
    by (auto simp: may_delete_def u a calm_redis split: sum.splits option.splits if_splits)
qed

lemma delete_row_effect:
  assumes "delete_row E n d = (r, d')"
  shows "calm d d' \<and> (adb_users d' = adb_users d \<or> adb_users d' = delete_where (\<lambda>u. cr_same E (u_Username u) n) (adb_users d))"
proof -
  obtain x d1 where st: "stmt d (\<lambda>d. (Inr () :: unit result,
      d \<lparr> adb_users := delete_where (\<lambda>u. cr_same E (u_Username u) n) (adb_users d) \<rparr>)) = (x, d1)" by (rule prod.exhaust)
  then have "adb_redis d1 = adb_redis d \<and> (adb_users d1 = adb_users d \<or>
      adb_users d1 = delete_where (\<lambda>u. cr_same E (u_Username u) n) (adb_users d))"
    by (cases rule: stmt_cases) auto
  then show ?thesis
    using assms st by (auto simp: delete_row_def calm_redis split: sum.splits intro: calm_del_after)
qed

lemma calm_DeleteUser: "calm d (snd (DeleteUser E n d))"
proof -
  obtain r d1 where m: "may_delete E (normalizeUsername n) d = (r, d1)" by (rule prod.exhaust)
  obtain r2 d2 where x: "delete_row E (normalizeUsername n) d1 = (r2, d2)" by (rule prod.exhaust)
  show ?thesis
    using may_delete_effect[OF m] delete_row_effect[OF x]
    by (auto simp: DeleteUser_def m x split: option.splits intro: calm_trans)
qed

interpretation calm: account_relation E calm "\<lambda>_. True" True for E
  by unfold_locales (auto intro: calm_trans calm_stmts calm_DeleteUser)

lemma calm_snd: "calm d (snd r) \<Longrightarrow> r = (a, d') \<Longrightarrow> calm d d'"
  by simp

section \<open>Where sessions come from\<close>

text \<open>
  The event shows the password of the row that becomes the user of the session; the event shows a
  current code, or one of the backup codes, of that user.
\<close>

definition password_shown :: "crypto \<Rightarrow> event \<Rightarrow> authdb \<Rightarrow> PublicUser \<Rightarrow> bool" where
  "password_shown E ev d u =
     (\<exists>n p row. ev_call ev = CallLogin (Some (n, p)) \<and> row \<in> set (adb_users d) \<and>
        u_Username row = normalizeUsername n \<and> cr_match E (u_PasswordHash row) p \<and> u = publicUser row)"

definition code_shown :: "crypto \<Rightarrow> event \<Rightarrow> authdb \<Rightarrow> PublicUser \<Rightarrow> bool" where
  "code_shown E ev d u =
     (\<exists>t c row. ev_call ev = CallTOTPLogin (Some (t, c)) \<and> row \<in> set (adb_users d) \<and>
        cr_same E (u_Username row) (normalizeUsername (pu_Username u)) \<and>
        (cr_totp E (dr_now (ev_draws ev)) (trim_space c) (u_TOTPSecret row) \<or>
         (\<exists>codes. u_TOTPBackupCodes row = Some codes \<and> trim_space c \<in> set codes)))"

lemma Authenticate_Some:
  assumes "Authenticate E n p d = (Some u, d')"
  shows "\<exists>row \<in> set (adb_users d). u_Username row = normalizeUsername n \<and> cr_match E (u_PasswordHash row) p \<and> u = publicUser row"
  using assms by (auto simp: Authenticate_def Let_def split: prod.splits sum.splits option.splits if_splits
      dest!: user_row_effect find_Some_in[OF sym])

lemma Authenticate_effect:
  "Authenticate E n p d = (x, d') \<Longrightarrow> adb_users d' = adb_users d \<and> adb_redis d' = adb_redis d"
  by (auto simp: Authenticate_def Let_def split: prod.splits sum.splits option.splits if_splits dest!: user_row_effect)

lemma store_session_effect:
  assumes "store_session now ttl token key user d = (r, d')"
  shows "adb_users d' = adb_users d \<and>
    (case r of Inl _ \<Rightarrow> adb_redis d' = adb_redis d
     | Inr s \<Rightarrow> token = Inr (se_Token s) \<and> se_User s = user \<and> se_ExpiresAt s = now + ttl
         \<and> adb_redis d' = kv_set now ttl (key (se_Token s)) (CSession s) (adb_redis d))"
  using assms by (auto simp: store_session_def Let_def split: sum.splits prod.splits dest!: redis_set_effect)

lemma start_session_effect:
  assumes "start_session h D r user d = (resp, d')"
  shows "adb_users d' = adb_users d \<and>
    (adb_redis d' = adb_redis d \<or>
     (\<exists>s. dr_token D = Inr (se_Token s) \<and> se_User s = user \<and> se_ExpiresAt s = dr_now D + ah_ttl h \<and>
        adb_redis d' = kv_set (dr_now D) (ah_ttl h) (session_key (se_Token s)) (CSession s) (adb_redis d)))"
  using assms by (auto simp: start_session_def Create_def answer_def split: prod.splits sum.splits dest!: store_session_effect)

lemma GetPending_Some:
  assumes "GetPending now t d = (Some s, d')"
  shows "adb_users d' = adb_users d \<and> (\<exists>e. adb_redis d (pending_key t) = Some (CSession s, e) \<and> (\<forall>x. e = Some x \<longrightarrow> now < x))"
  using assms by (auto simp: GetPending_def kv_get_def split: prod.splits sum.splits option.splits cached.splits if_splits
      dest!: redis_get_effect)

lemma TOTPValidateCode_True:
  assumes "TOTPValidateCode E now n c d = (True, d')"
  shows "\<exists>row \<in> set (adb_users d). cr_same E (u_Username row) (normalizeUsername n) \<and>
    (cr_totp E now c (u_TOTPSecret row) \<or> (\<exists>codes. u_TOTPBackupCodes row = Some codes \<and> c \<in> set codes))"
proof -
  obtain r d1 where u: "user_row E (normalizeUsername n) d = (r, d1)" by (rule prod.exhaust)
  obtain row where r: "r = Inr (Some row)"
    and ok: "cr_totp E now c (u_TOTPSecret row) \<or> (\<exists>codes. u_TOTPBackupCodes row = Some codes \<and> c \<in> set codes)"
    using assms by (auto simp: TOTPValidateCode_def Let_def u split: sum.splits option.splits if_splits)
  have "row \<in> set (adb_users d) \<and> cr_same E (u_Username row) (normalizeUsername n)"
    using user_row_effect[OF u] r by (metis find_Some_in)
  then show ?thesis using ok by blast
qed

lemma login_step:
  assumes "ev_call ev = CallLogin b" and "handle E h ev d = (resp, d')"
  shows "adb_redis d' = adb_redis d \<or>
    (\<exists>s. password_shown E ev d (se_User s) \<and>
      (if pu_TOTPEnabled (se_User s)
       then adb_redis d' = kv_set (dr_now (ev_draws ev)) (2 * minute) (pending_key (se_Token s)) (CSession s) (adb_redis d)
       else adb_redis d' = kv_set (dr_now (ev_draws ev)) (ah_ttl h) (session_key (se_Token s)) (CSession s) (adb_redis d)
          \<and> se_ExpiresAt s = dr_now (ev_draws ev) + ah_ttl h))"
proof (cases b)
  case None
  then show ?thesis using assms by (auto simp: handle_def Login_def answer_def)
next
  case (Some np)
  obtain n p where np: "np = (n, p)" by (rule prod.exhaust)
  obtain x d1 where au: "Authenticate E n p d = (x, d1)" by (rule prod.exhaust)
  note eff = Authenticate_effect[OF au]
  show ?thesis
  proof (cases x)
    case None
    then show ?thesis using assms Some np au eff by (auto simp: handle_def Login_def answer_def)
  next
    case (Some u)
    have shown: "password_shown E ev d u"
      using Authenticate_Some[of E n p d u d1] au assms(1) \<open>b = Some np\<close> np Some by (auto simp: password_shown_def)
    show ?thesis
    proof (cases "pu_TOTPEnabled u")
      case True
      obtain s d2 where cp: "CreatePending (dr_now (ev_draws ev)) (dr_token (ev_draws ev)) u d1 = (s, d2)" by (rule prod.exhaust)
      have "d' = d2" using assms \<open>b = Some np\<close> np au Some True cp
        by (auto simp: handle_def Login_def answer_def split: sum.splits)
      then show ?thesis
        using store_session_effect[OF cp[unfolded CreatePending_def]] shown True eff by (cases s) auto
    next
      case False
      have "start_session h (ev_draws ev) (realIP (ev_request ev)) u d1 = (resp, d')"
        using assms \<open>b = Some np\<close> np au Some False by (simp add: handle_def Login_def)
      then show ?thesis using start_session_effect shown False eff by fastforce
    qed
  qed
qed

lemma calm_Some: "calm d d' \<Longrightarrow> k \<noteq> users_key \<Longrightarrow> adb_redis d' k = Some v \<Longrightarrow> adb_redis d k = Some v"
  unfolding calm_def by (metis option.distinct(1))

lemma totp_login_step:
  assumes "ev_call ev = CallTOTPLogin b" and "handle E h ev d = (resp, d')"
    and "adb_redis d' k = Some v" and "k \<noteq> users_key"
  shows "adb_redis d k = Some v \<or>
    (\<exists>s t p e x. k = session_key (se_Token s) \<and> v = (CSession s, x) \<and>
      adb_redis d (pending_key t) = Some (CSession p, e) \<and> se_User p = se_User s \<and>
      (\<forall>x. e = Some x \<longrightarrow> dr_now (ev_draws ev) < x) \<and> code_shown E ev d (se_User s) \<and>
      se_ExpiresAt s = dr_now (ev_draws ev) + ah_ttl h)"
proof (cases b)
  case None
  then show ?thesis using assms by (auto simp: handle_def TOTPLogin_def answer_def)
next
  case (Some tc)
  let ?now = "dr_now (ev_draws ev)"
  obtain t c where tc: "tc = (t, c)" by (rule prod.exhaust)
  obtain x d1 where gp: "GetPending ?now t d = (x, d1)" by (rule prod.exhaust)
  have c1: "calm d d1" using calm_snd[OF calm.R_GetPending gp] .
  show ?thesis
  proof (cases x)
    case None
    then have "d' = d1" using assms \<open>b = Some tc\<close> tc gp by (auto simp: handle_def TOTPLogin_def answer_def)
    then show ?thesis using calm_Some[OF c1 assms(4)] assms(3) by simp
  next
    case (Some p)
    obtain ok d2 where tv: "TOTPValidateCode E ?now (pu_Username (se_User p)) (trim_space c) (DeletePending t d1) = (ok, d2)"
      by (rule prod.exhaust)
    have c2: "calm d d2"
      using c1 calm_snd[OF calm.R_TOTPValidateCode tv] calm_del[of d1] by (metis DeletePending_def calm_trans)
    note pend = GetPending_Some[OF gp[unfolded Some]]
    show ?thesis
    proof (cases ok)
      case False
      then have "d' = d2" using assms \<open>b = Some tc\<close> tc gp Some tv by (auto simp: handle_def TOTPLogin_def answer_def)
      then show ?thesis using calm_Some[OF c2 assms(4)] assms(3) by simp
    next
      case True
      have "start_session h (ev_draws ev) (realIP (ev_request ev)) (se_User p) d2 = (resp, d')"
        using assms \<open>b = Some tc\<close> tc gp Some tv True by (simp add: handle_def TOTPLogin_def)
      note ss = start_session_effect[OF this]
      have shown: "code_shown E ev d (se_User p)"
        using TOTPValidateCode_True[of E ?now "pu_Username (se_User p)" "trim_space c" "DeletePending t d1" d2] tv True pend assms(1) \<open>b = Some tc\<close> tc
        by (auto simp: code_shown_def DeletePending_def)
      show ?thesis
      proof (cases "adb_redis d' k = adb_redis d2 k")
        case True
        then have "adb_redis d2 k = Some v" using assms(3) by simp
        then show ?thesis using calm_Some[OF c2 assms(4)] by blast
      next
        case False
        then obtain s where s: "se_User s = se_User p" "se_ExpiresAt s = ?now + ah_ttl h"
          "adb_redis d' = kv_set ?now (ah_ttl h) (session_key (se_Token s)) (CSession s) (adb_redis d2)"
          using ss by auto
        then have "k = session_key (se_Token s)" "\<exists>x. v = (CSession s, x)"
          using False assms(3) by (auto simp: kv_set_def split: if_splits)
        then show ?thesis using pend shown s by metis
      qed
    qed
  qed
qed


text \<open>
  A session of \<open>u\<close> that lasts until \<open>expires\<close> goes back to a login in the history: the password of
  the account and, when the account had TOTP enabled at that time, within two minutes a code.
\<close>

definition second_step :: "crypto \<Rightarrow> AuthHandler \<Rightarrow> event list \<Rightarrow> event \<Rightarrow> event list \<Rightarrow> authdb \<Rightarrow> PublicUser \<Rightarrow> instant \<Rightarrow> bool" where
  "second_step E h xs ev ys d u expires =
     (\<exists>ys1 ev2 ys2. ys = ys1 @ ev2 # ys2 \<and> code_shown E ev2 (after E h (xs @ ev # ys1) d) u \<and>
        dr_now (ev_draws ev2) < dr_now (ev_draws ev) + 2 * minute \<and> expires = dr_now (ev_draws ev2) + ah_ttl h)"

definition session_origin :: "crypto \<Rightarrow> AuthHandler \<Rightarrow> event list \<Rightarrow> authdb \<Rightarrow> PublicUser \<Rightarrow> instant \<Rightarrow> bool" where
  "session_origin E h evs d u expires =
     (\<exists>xs ev ys. evs = xs @ ev # ys \<and> password_shown E ev (after E h xs d) u \<and>
        (if pu_TOTPEnabled u then second_step E h xs ev ys d u expires
         else expires = dr_now (ev_draws ev) + ah_ttl h))"

definition pending_origin :: "crypto \<Rightarrow> AuthHandler \<Rightarrow> event list \<Rightarrow> authdb \<Rightarrow> PublicUser \<Rightarrow> instant option \<Rightarrow> bool" where
  "pending_origin E h evs d u e =
     (pu_TOTPEnabled u \<and> (\<exists>xs ev ys. evs = xs @ ev # ys \<and> password_shown E ev (after E h xs d) u \<and>
        e = Some (dr_now (ev_draws ev) + 2 * minute)))"

lemma after_snoc: "after E h (evs @ [ev]) d = snd (handle E h ev (after E h evs d))"
  by (simp add: after_def)

lemma second_step_snoc: "second_step E h xs lg ys d u x \<Longrightarrow> second_step E h xs lg (ys @ [ev]) d u x"
  unfolding second_step_def by force

lemma session_origin_snoc: "session_origin E h evs d u x \<Longrightarrow> session_origin E h (evs @ [ev]) d u x"
  unfolding session_origin_def by (metis append.assoc append_Cons second_step_snoc)

lemma pending_origin_snoc: "pending_origin E h evs d u e \<Longrightarrow> pending_origin E h (evs @ [ev]) d u e"
  unfolding pending_origin_def by force

lemma session_origin_login:
  "password_shown E ev (after E h evs d) u \<Longrightarrow> \<not> pu_TOTPEnabled u \<Longrightarrow>
   session_origin E h (evs @ [ev]) d u (dr_now (ev_draws ev) + ah_ttl h)"
  unfolding session_origin_def by (metis append_Cons append_Nil)

lemma session_origin_totp:
  assumes "pending_origin E h evs d u e" "\<forall>x. e = Some x \<longrightarrow> dr_now (ev_draws ev) < x" "code_shown E ev (after E h evs d) u"
  shows "session_origin E h (evs @ [ev]) d u (dr_now (ev_draws ev) + ah_ttl h)"
proof -
  obtain xs lg ys where h: "pu_TOTPEnabled u" "evs = xs @ lg # ys" "password_shown E lg (after E h xs d) u"
    "e = Some (dr_now (ev_draws lg) + 2 * minute)"
    using assms(1) by (auto simp: pending_origin_def)
  then have "second_step E h xs lg (ys @ [ev]) d u (dr_now (ev_draws ev) + ah_ttl h)"
    using assms(2,3) unfolding second_step_def by blast
  moreover have "evs @ [ev] = xs @ lg # (ys @ [ev])" using h(2) by simp
  ultimately show ?thesis using h(1,3) unfolding session_origin_def by (metis (full_types))
qed

lemma handle_new_key:
  assumes "handle E h ev d = (resp, d')" "adb_redis d' k = Some v" "adb_redis d k \<noteq> Some v" "k \<noteq> users_key"
  shows "(\<exists>s. k = pending_key (se_Token s) \<and> v = (CSession s, Some (dr_now (ev_draws ev) + 2 * minute)) \<and>
             password_shown E ev d (se_User s) \<and> pu_TOTPEnabled (se_User s))
       \<or> (\<exists>s x. k = session_key (se_Token s) \<and> v = (CSession s, x) \<and> se_ExpiresAt s = dr_now (ev_draws ev) + ah_ttl h \<and>
             (password_shown E ev d (se_User s) \<and> \<not> pu_TOTPEnabled (se_User s) \<or>
              code_shown E ev d (se_User s) \<and>
              (\<exists>t p e. adb_redis d (pending_key t) = Some (CSession p, e) \<and> se_User p = se_User s \<and>
                 (\<forall>x. e = Some x \<longrightarrow> dr_now (ev_draws ev) < x))))"
proof -
  consider (login) b where "ev_call ev = CallLogin b" | (totp) b where "ev_call ev = CallTOTPLogin b"
    | (other) "\<And>b. ev_call ev \<noteq> CallLogin b" "\<And>b. ev_call ev \<noteq> CallTOTPLogin b"
    by blast
  then show ?thesis
  proof cases
    case login
    from login_step[OF this assms(1)] show ?thesis
    proof
      assume "adb_redis d' = adb_redis d"
      then show ?thesis using assms by simp
    next
      assume "\<exists>s. password_shown E ev d (se_User s) \<and>
        (if pu_TOTPEnabled (se_User s)
         then adb_redis d' = kv_set (dr_now (ev_draws ev)) (2 * minute) (pending_key (se_Token s)) (CSession s) (adb_redis d)
         else adb_redis d' = kv_set (dr_now (ev_draws ev)) (ah_ttl h) (session_key (se_Token s)) (CSession s) (adb_redis d)
            \<and> se_ExpiresAt s = dr_now (ev_draws ev) + ah_ttl h)"
      then obtain s where s: "password_shown E ev d (se_User s)"
        "pu_TOTPEnabled (se_User s) \<Longrightarrow> adb_redis d' = kv_set (dr_now (ev_draws ev)) (2 * minute) (pending_key (se_Token s)) (CSession s) (adb_redis d)"
        "\<not> pu_TOTPEnabled (se_User s) \<Longrightarrow> adb_redis d' = kv_set (dr_now (ev_draws ev)) (ah_ttl h) (session_key (se_Token s)) (CSession s) (adb_redis d)
            \<and> se_ExpiresAt s = dr_now (ev_draws ev) + ah_ttl h"
        by (auto split: if_splits)
      show ?thesis
      proof (cases "pu_TOTPEnabled (se_User s)")
        case True
        then show ?thesis using s(1) s(2)[OF True] assms(2,3) by (auto simp: kv_set_def split: if_splits)
      next
        case False
        then show ?thesis using s(1) s(3)[OF False] assms(2,3) by (auto simp: kv_set_def split: if_splits)
      qed
    qed
  next
    case totp
    from totp_login_step[OF this assms(1,2,4)] assms(3) show ?thesis by blast
  next
    case other
    then have "calm d d'" using calm.R_serve[of "ev_call ev"] assms(1) by (metis handle_def snd_conv)
    then show ?thesis using calm_Some assms(2-4) by blast
  qed
qed

lemma history_keys:
  assumes "\<forall>t. adb_redis d (session_key t) = None \<and> adb_redis d (pending_key t) = None"
  shows "(\<forall>t s e. adb_redis (after E h evs d) (pending_key t) = Some (CSession s, e) \<longrightarrow> pending_origin E h evs d (se_User s) e) \<and>
         (\<forall>t s e. adb_redis (after E h evs d) (session_key t) = Some (CSession s, e) \<longrightarrow>
            session_origin E h evs d (se_User s) (se_ExpiresAt s))"
proof (induction evs rule: rev_induct)
  case Nil
  then show ?case using assms by (simp add: after_def)
next
  case (snoc ev evs)
  obtain resp d' where hd: "handle E h ev (after E h evs d) = (resp, d')" by (rule prod.exhaust)
  have d': "after E h (evs @ [ev]) d = d'" by (simp add: after_snoc hd)
  have "pending_origin E h (evs @ [ev]) d (se_User s) e" if k: "adb_redis d' (pending_key t) = Some (CSession s, e)" for t s e
  proof (cases "adb_redis (after E h evs d) (pending_key t) = Some (CSession s, e)")
    case True
    then show ?thesis using snoc.IH pending_origin_snoc by blast
  next
    case False
    from handle_new_key[OF hd k False] show ?thesis by (force simp: pending_origin_def)
  qed
  moreover have "session_origin E h (evs @ [ev]) d (se_User s) (se_ExpiresAt s)"
    if k: "adb_redis d' (session_key t) = Some (CSession s, e)" for t s e
  proof (cases "adb_redis (after E h evs d) (session_key t) = Some (CSession s, e)")
    case True
    then show ?thesis using snoc.IH session_origin_snoc by blast
  next
    case False
    from handle_new_key[OF hd k False]
    consider "password_shown E ev (after E h evs d) (se_User s)" "\<not> pu_TOTPEnabled (se_User s)" "se_ExpiresAt s = dr_now (ev_draws ev) + ah_ttl h"
      | t' p e' where "code_shown E ev (after E h evs d) (se_User s)" "se_ExpiresAt s = dr_now (ev_draws ev) + ah_ttl h"
        "adb_redis (after E h evs d) (pending_key t') = Some (CSession p, e')" "se_User p = se_User s"
        "\<forall>x. e' = Some x \<longrightarrow> dr_now (ev_draws ev) < x"
      by auto
    then show ?thesis
    proof cases
      case 1
      then show ?thesis using session_origin_login by metis
    next
      case 2
      then show ?thesis using snoc.IH session_origin_totp by metis
    qed
  qed
  ultimately show ?case unfolding d' by blast
qed

lemma GetSession_Some:
  assumes "GetSession now t d = (Some s, d')"
  shows "now \<le> se_ExpiresAt s \<and> (\<exists>e. adb_redis d (session_key t) = Some (CSession s, e))"
  using assms by (auto simp: GetSession_def kv_get_def split: prod.splits sum.splits option.splits cached.splits if_splits
      dest!: redis_get_effect)

text \<open>
  Property C1. Whoever passes \<open>RequireAuth\<close> after a history of requests that started without sessions
  either shows the API key or is the user of a session that has not expired and goes back to a login
  in that history: the right password for the account and, for an account with TOTP enabled, a
  current code or a backup code given within two minutes of it.
\<close>

theorem authenticated_requests_logged_in:
  assumes "\<forall>t. adb_redis d (session_key t) = None \<and> adb_redis d (pending_key t) = None"
    and "RequireAuth now apiKey True r (after E h evs d) = ((code, Inr u), d')"
  shows "(apiKey \<noteq> [] \<and> apiKey \<in> {rq_api_key r, trim_space (rq_query_api_key r)} \<and> pu_Username u = ''api-key'')
       \<or> (\<exists>expires. now \<le> expires \<and> session_origin E h evs d u expires)"
proof (cases "GetSession now (if BearerToken r = [] then trim_space (rq_query_token r) else BearerToken r) (after E h evs d)")
  case (Pair x d1)
  show ?thesis
  proof (cases "(if BearerToken r = [] then trim_space (rq_query_token r) else BearerToken r) = []")
    case True
    then show ?thesis using assms(2) by (auto simp: RequireAuth_def Let_def split: if_splits)
  next
    case False
    then obtain s where "x = Some s" "u = se_User s"
      using assms(2) Pair by (auto simp: RequireAuth_def Let_def split: option.splits if_splits)
    then show ?thesis using GetSession_Some Pair history_keys[OF assms(1)] by metis
  qed
qed


section \<open>Accounts\<close>

text \<open>Relations that depend on the table only are respected by the logins as well.\<close>

locale table_relation = account_relation +
  assumes table_only: "adb_users d' = adb_users d \<Longrightarrow> R d d'"
begin

lemma R_start_session: "R d (snd (start_session h D r user d))"
  by (cases "start_session h D r user d") (simp add: table_only start_session_effect)

lemma R_Login: "R d (snd (Login E h D r b d))"
proof -
  have "adb_users (snd (CreatePending now t u d)) = adb_users d" for now t u d
    by (cases "CreatePending now t u d") (simp add: CreatePending_def store_session_effect)
  then have "adb_users d2 = adb_users d" if "Authenticate E n p d = (Some u, d1)" "CreatePending now t u d1 = (x, d2)" for n p u d1 now t x d2
    using Authenticate_effect[OF that(1)] that(2) by (metis snd_conv)
  moreover have "R d d1" if "Authenticate E n p d = (x, d1)" for n p x d1
    using table_only Authenticate_effect[OF that] by blast
  moreover have "R d (snd (start_session h D r u d1))" if "Authenticate E n p d = (x, d1)" for n p x d1 u
    using R_trans[OF _ R_start_session] table_only Authenticate_effect[OF that] by blast
  ultimately show ?thesis
    by (auto simp: Login_def R_refl intro: table_only split: option.splits prod.splits sum.splits)
qed

lemma R_TOTPLogin:
  assumes "\<And>n. mine n"
  shows "R d (snd (TOTPLogin E h D r b d))"
proof (cases b)
  case None
  then show ?thesis by (simp add: TOTPLogin_def R_refl)
next
  case (Some tc)
  obtain t c where tc: "tc = (t, c)" by (rule prod.exhaust)
  obtain x d1 where gp: "GetPending (dr_now D) t d = (x, d1)" by (rule prod.exhaust)
  note 1 = R_snd[OF R_GetPending gp]
  have 2: "R d (snd (TOTPValidateCode E now n c' (DeletePending t d1)))" for now n c'
    using R_trans[OF R_del_after[OF 1] R_TOTPValidateCode[OF assms]] by (simp add: DeletePending_def)
  have "R d d2" if "TOTPValidateCode E now n c' (DeletePending t d1) = (ok, d2)" for now n c' ok d2
    using 2[of now n c'] that by simp
  then show ?thesis
    using 1 R_trans[OF _ R_start_session]
    by (auto simp: Some tc TOTPLogin_def gp split: option.splits prod.splits bool.splits)
qed

lemma R_handle:
  assumes "admin"
  shows "R d (snd (handle E h ev d))"
proof -
  consider (login) b where "ev_call ev = CallLogin b" | (totp) b where "ev_call ev = CallTOTPLogin b"
    | (other) "\<And>b. ev_call ev \<noteq> CallLogin b" "\<And>b. ev_call ev \<noteq> CallTOTPLogin b"
    by blast
  then show ?thesis
  proof cases
    case login
    then show ?thesis by (simp add: handle_def R_Login)
  next
    case totp
    then show ?thesis by (simp add: handle_def R_TOTPLogin all_mine assms)
  next
    case other
    then show ?thesis unfolding handle_def by (intro R_serve) (auto simp: all_mine assms)
  qed
qed

lemma R_after:
  assumes "admin"
  shows "R d (after E h evs d)"
proof (induction evs rule: rev_induct)
  case Nil
  then show ?case by (simp add: after_def R_refl)
next
  case (snoc ev evs)
  then show ?case using R_trans[OF _ R_handle[OF assms]] by (simp add: after_snoc)
qed

end

subsection \<open>There is always an administrator\<close>

text \<open>The primary key, the two roles of the program, and at least one administrator.\<close>

definition accounts_ok :: "crypto \<Rightarrow> authdb \<Rightarrow> bool" where
  "accounts_ok E d =
     (sorted_wrt (\<lambda>u v. \<not> cr_same E (u_Username u) (u_Username v)) (adb_users d) \<and>
      (\<forall>u \<in> set (adb_users d). u_Role u \<in> {RoleAdmin, RoleOperator}) \<and>
      (\<exists>u \<in> set (adb_users d). u_Role u = RoleAdmin))"

text \<open>The collation is an equivalence that does not confuse the two roles.\<close>

definition collation :: "crypto \<Rightarrow> bool" where
  "collation E = (equivp (cr_same E) \<and> \<not> cr_same E RoleOperator RoleAdmin)"

lemma accounts_ok_update:
  assumes "\<forall>u. u_Username (f u) = u_Username u \<and> u_Role (f u) = u_Role u" "accounts_ok E d"
    "adb_users d' = update_where P f (adb_users d)"
  shows "accounts_ok E d'"
proof -
  have "sorted_wrt (\<lambda>u v. \<not> cr_same E (u_Username u) (u_Username v)) (update_where P f us)"
    if "sorted_wrt (\<lambda>u v. \<not> cr_same E (u_Username u) (u_Username v)) us" for us
    using that assms(1) by (induction us) (auto simp: set_update_where)
  moreover have "\<exists>v \<in> set (update_where P f us). u_Role v = RoleAdmin" if "u \<in> set us" "u_Role u = RoleAdmin" for u us
    using that assms(1) by (induction us) auto
  ultimately show ?thesis
    using assms by (fastforce simp: accounts_ok_def set_update_where)
qed

lemma keyed_count:
  assumes "equivp (cr_same E)" "sorted_wrt (\<lambda>u v. \<not> cr_same E (u_Username u) (u_Username v)) us"
  shows "count_where (\<lambda>u. cr_same E (u_Username u) n) us \<le> 1"
  using assms(2)
proof (induction us)
  case (Cons u us)
  have "\<forall>v \<in> set us. \<not> cr_same E (u_Username v) n" if "cr_same E (u_Username u) n"
    using Cons.prems that assms(1) by simp (meson equivp_symp equivp_transp)
  then show ?case using Cons by auto
qed (simp add: count_where_def)

lemma keyed_unique:
  assumes "equivp (cr_same E)" "sorted_wrt (\<lambda>u v. \<not> cr_same E (u_Username u) (u_Username v)) us"
    "u \<in> set us" "v \<in> set us" "cr_same E (u_Username u) n" "cr_same E (u_Username v) n"
  shows "u = v"
proof -
  have "cr_same E (u_Username u) (u_Username v)" "cr_same E (u_Username v) (u_Username u)"
    using assms(1,5,6) by (meson equivp_symp equivp_transp)+
  then show ?thesis using assms(2-4) by (induction us) auto
qed

lemma count_where_split: "count_where P us = count_where P (delete_where Q us) + count_where (\<lambda>u. P u \<and> Q u) us"
  by (induction us) (auto simp: count_where_def delete_where_def)

lemma count_where_mono: "(\<And>u. u \<in> set us \<Longrightarrow> P u \<Longrightarrow> Q u) \<Longrightarrow> count_where P us \<le> count_where Q us"
  by (induction us) (auto simp: count_where_def)

lemma role_same:
  assumes "collation E" "u_Role u \<in> {RoleAdmin, RoleOperator}"
  shows "cr_same E (u_Role u) RoleAdmin \<longleftrightarrow> u_Role u = RoleAdmin"
  using assms by (auto simp: collation_def equivp_reflp)

lemma accounts_ok_delete:
  assumes "collation E" "accounts_ok E d" "row \<in> set (adb_users d)" "cr_same E (u_Username row) n"
    "u_Role row = RoleAdmin \<longrightarrow> 1 < count_where (\<lambda>u. cr_same E (u_Role u) RoleAdmin) (adb_users d)"
    "adb_users d' = delete_where (\<lambda>u. cr_same E (u_Username u) n) (adb_users d)"
  shows "accounts_ok E d'"
proof -
  let ?adm = "\<lambda>u. cr_same E (u_Role u) RoleAdmin" and ?n = "\<lambda>u. cr_same E (u_Username u) n" and ?us = "adb_users d"
  have one: "count_where ?n ?us \<le> 1"
    using assms(1,2) keyed_count by (auto simp: collation_def accounts_ok_def)
  have roles: "\<forall>u \<in> set ?us. u_Role u \<in> {RoleAdmin, RoleOperator}"
    using assms(2) by (simp add: accounts_ok_def)
  have "\<exists>u \<in> set (delete_where ?n ?us). ?adm u"
  proof (cases "u_Role row = RoleAdmin")
    case True
    have "count_where (\<lambda>u. ?adm u \<and> ?n u) ?us \<le> 1" using one count_where_mono[of ?us "\<lambda>u. ?adm u \<and> ?n u" ?n] by simp
    then have "0 < count_where ?adm (delete_where ?n ?us)" using assms(5) True count_where_split[of ?adm ?us ?n] by linarith
    then show ?thesis using count_where_0[of ?adm "delete_where ?n ?us"] by (metis less_numeral_extra(3))
  next
    case False
    have "row = u" if "u \<in> set ?us" "?n u" for u
      using keyed_unique[OF _ _ assms(3) that(1) assms(4) that(2)] assms(1,2) by (auto simp: collation_def accounts_ok_def)
    then show ?thesis using assms(2) roles role_same[OF assms(1)] False by (auto simp: accounts_ok_def)
  qed
  then have "\<exists>u \<in> set (adb_users d'). u_Role u = RoleAdmin"
    using roles role_same[OF assms(1)] assms(6) by auto
  then show ?thesis
    using assms(2,6) by (auto simp: accounts_ok_def delete_where_def sorted_wrt_filter)
qed

lemma accounts_ok_DeleteUser:
  assumes "collation E" "accounts_ok E d"
  shows "accounts_ok E (snd (DeleteUser E n d))"
proof -
  obtain r d1 where m: "may_delete E (normalizeUsername n) d = (r, d1)" by (rule prod.exhaust)
  obtain r2 d2 where x: "delete_row E (normalizeUsername n) d1 = (r2, d2)" by (rule prod.exhaust)
  have same: "accounts_ok E d'" if "adb_users d' = adb_users d" for d' using assms(2) that by (simp add: accounts_ok_def)
  have "accounts_ok E d2" if "r = None"
    using may_delete_effect[OF m] delete_row_effect[OF x] that same accounts_ok_delete[OF assms] by metis
  then show ?thesis
    using may_delete_effect[OF m] same by (auto simp: DeleteUser_def m x split: option.splits)
qed

lemma normalizeRole_cases: "normalizeRole ro \<in> {RoleAdmin, RoleOperator}"
  by (simp add: normalizeRole_def)

lemma accounts_ok_insert:
  assumes "accounts_ok E d" "insert_user E (new_user n hash (normalizeRole ro) now) d = (r, d')"
  shows "accounts_ok E d'"
  using insert_user_effect[OF assms(2)] assms(1) normalizeRole_cases[of ro]
  by (cases r) (auto simp: accounts_ok_def new_user_def sorted_wrt_append)

interpretation admins: table_relation E "\<lambda>d d'. collation E \<longrightarrow> accounts_ok E d \<longrightarrow> accounts_ok E d'" "\<lambda>_. True" True for E
proof unfold_locales
  show "collation E \<longrightarrow> accounts_ok E d \<longrightarrow> accounts_ok E d'"
    if "\<forall>u. u_Username (f u) = u_Username u \<and> u_Role (f u) = u_Role u" "update_user E n f d = (r, d')" for n f d r d'
    proof (cases r)
    case (Inl e)
    then show ?thesis using update_user_effect[OF that(2)] by (simp add: accounts_ok_def)
  next
    case (Inr k)
    then show ?thesis using update_user_effect[OF that(2)] accounts_ok_update[OF that(1)] by auto
  qed
qed (auto simp: accounts_ok_DeleteUser accounts_ok_insert, auto simp: accounts_ok_def)


text \<open>
  Property C3. The user table keeps its primary key and an administrator, whatever requests arrive:
  starting from a table with both, after every history of logins, password changes, TOTP calls,
  creations and deletions of users, with or without failing statements, some row has the role admin.
\<close>

theorem admin_always_remains:
  assumes "collation E" "accounts_ok E d"
  shows "accounts_ok E (after E h evs d)"
  using admins.R_after assms by blast

subsection \<open>Operators change only their own row\<close>

definition own_changes :: "crypto \<Rightarrow> string \<Rightarrow> User \<Rightarrow> User \<Rightarrow> bool" where
  "own_changes E me a b =
     (u_Username b = u_Username a \<and> u_Role b = u_Role a \<and> (\<not> cr_same E (u_Username a) me \<longrightarrow> b = a))"

lemma own_changes_update:
  "\<forall>u. u_Username (f u) = u_Username u \<and> u_Role (f u) = u_Role u \<Longrightarrow>
   list_all2 (own_changes E me) us (update_where (\<lambda>u. cr_same E (u_Username u) me) f us)"
  by (induction us) (auto simp: own_changes_def)

interpretation confined: table_relation E "\<lambda>d d'. list_all2 (own_changes E me) (adb_users d) (adb_users d')" "\<lambda>n. n = me" False for E me
proof unfold_locales
  show "list_all2 (own_changes E me) (adb_users d) (adb_users d2)"
    if "list_all2 (own_changes E me) (adb_users d) (adb_users d1)" "list_all2 (own_changes E me) (adb_users d1) (adb_users d2)" for d d1 d2
    using list_all2_trans[OF _ that] by (auto simp: own_changes_def)
  show "list_all2 (own_changes E me) (adb_users d) (adb_users d')"
    if "n = me" "\<forall>u. u_Username (f u) = u_Username u \<and> u_Role (f u) = u_Role u" "update_user E n f d = (r, d')" for n f d r d'
    using update_user_effect[OF that(3)] own_changes_update[OF that(2)] that(1)
    by (auto simp: own_changes_def list.rel_refl split: sum.splits)
qed (auto simp: own_changes_def list.rel_refl)

text \<open>
  Property C9. A request whose user is not an administrator leaves every row of the user table as it
  is, except that of the user's own name, and never changes a name or a role or the number of rows.
\<close>

theorem operator_changes_own_row:
  assumes "RequireAuth (dr_now D) apiKey True (realIP r) d = ((code, Inr u), d1)" "pu_Role u \<noteq> RoleAdmin"
    and "\<forall>b. c \<noteq> CallLogin b \<and> c \<noteq> CallTOTPLogin b"
  shows "list_all2 (own_changes E (normalizeUsername (pu_Username u)))
    (adb_users d) (adb_users (snd (serve E h apiKey D r c d)))"
  by (rule confined.R_serve) (use assms in auto)

subsection \<open>Passwords and backup codes\<close>

lemma stmt_works: "adb_faults d = [] \<Longrightarrow> stmt d f = f d"
  by (simp add: stmt_def)

lemma find_keyed:
  assumes "equivp (cr_same E)" "sorted_wrt (\<lambda>u v. \<not> cr_same E (u_Username u) (u_Username v)) us"
    "row \<in> set us" "cr_same E (u_Username row) n"
  shows "find (\<lambda>u. cr_same E (u_Username u) n) us = Some row"
proof (cases "find (\<lambda>u. cr_same E (u_Username u) n) us")
  case None
  then show ?thesis using assms(3,4) by (auto simp: find_None_all)
next
  case (Some v)
  then show ?thesis using keyed_unique[OF assms(1,2,3) _ assms(4)] find_Some_in[OF Some] by auto
qed

lemma validate_backup_code:
  assumes "adb_faults d = []" "find (\<lambda>u. cr_same E (u_Username u) (normalizeUsername n)) (adb_users d) = Some row"
    "u_TOTPBackupCodes row = Some codes" "\<not> cr_totp E now c (u_TOTPSecret row)"
  shows "TOTPValidateCode E now n c d =
    (c \<in> set codes, if c \<in> set codes then d \<lparr> adb_users := update_where (\<lambda>u. cr_same E (u_Username u) (normalizeUsername n))
        (\<lambda>u. u \<lparr> u_TOTPBackupCodes := Some (remove1 c codes) \<rparr>) (adb_users d) \<rparr> else d)"
  using assms by (simp add: TOTPValidateCode_def user_row_def update_user_def stmt_works Let_def)

text \<open>
  A backup code works once: with a working database, a code of the stored list that is
  not a current TOTP code is accepted, is refused ever after, and the other codes stay good.
\<close>

theorem backup_code_works_once:
  assumes "adb_faults d = []" "equivp (cr_same E)"
    "sorted_wrt (\<lambda>u v. \<not> cr_same E (u_Username u) (u_Username v)) (adb_users d)"
    and row: "row \<in> set (adb_users d)" "cr_same E (u_Username row) (normalizeUsername n)"
    and codes: "u_TOTPBackupCodes row = Some codes" "distinct codes" "c \<in> set codes"
    and not_current: "\<forall>t x. x \<in> set codes \<longrightarrow> \<not> cr_totp E t x (u_TOTPSecret row)"
  shows "\<exists>d'. TOTPValidateCode E now n c d = (True, d') \<and> \<not> fst (TOTPValidateCode E now' n c d') \<and>
    (\<forall>x \<in> set codes - {c}. fst (TOTPValidateCode E now' n x d'))"
proof -
  let ?P = "\<lambda>u. cr_same E (u_Username u) (normalizeUsername n)"
  let ?f = "\<lambda>u :: User. u \<lparr> u_TOTPBackupCodes := Some (remove1 c codes) \<rparr>"
  let ?d' = "d \<lparr> adb_users := update_where ?P ?f (adb_users d) \<rparr>"
  have find: "find ?P (adb_users d) = Some row" using find_keyed[OF assms(2,3) row] .
  have find': "find ?P (adb_users ?d') = Some (?f row)"
    using find row(2) by (simp add: find_update_where)
  have first: "TOTPValidateCode E now n c d = (True, ?d')"
    using validate_backup_code[OF assms(1) find codes(1)] codes(3) not_current by simp
  have "fst (TOTPValidateCode E now' n x ?d') = (x \<in> set (remove1 c codes))" if "x \<in> set codes" for x
    using validate_backup_code[of ?d' E n "?f row" "remove1 c codes" now' x] assms(1) find' not_current that by simp
  then show ?thesis using first codes(2,3) by (intro exI[of _ ?d']) auto
qed

text \<open>
  A user that has just been created can log in: with a working database and a bcrypt whose
  hashes match their passwords, the name in any spelling that normalises alike, and the password, give
  the account with its normalised name and role and without TOTP.
\<close>

theorem created_user_logs_in:
  assumes "adb_faults d = []" "\<forall>s. cr_same E s s" "\<forall>salt p h. cr_hash E salt p = Inr h \<longrightarrow> cr_match E h p"
    and "CreateUser E now salt n p ro d = (None, d')" "normalizeUsername n' = normalizeUsername n"
  shows "fst (Authenticate E n' p d') = Some \<lparr> pu_Username = normalizeUsername n, pu_Role = normalizeRole ro,
    pu_TOTPEnabled = False, pu_CreatedAt = now \<rparr>"
proof -
  obtain hash where h: "cr_hash E salt p = Inr hash"
    using assms(4) by (auto simp: CreateUser_def Let_def split: option.splits sum.splits)
  have new: "\<not> (\<exists>u \<in> set (adb_users d). cr_same E (u_Username u) (normalizeUsername n))"
    and d': "d' = d \<lparr> adb_users := adb_users d @ [new_user (normalizeUsername n) hash (normalizeRole ro) now],
                     adb_redis := kv_del users_key (adb_redis d) \<rparr>"
    using assms(1,4) h by (auto simp: CreateUser_def Let_def insert_user_def redis_del_def stmt_works new_user_def
        split: option.splits if_splits)
  have "find (\<lambda>u. cr_same E (u_Username u) (normalizeUsername n)) (adb_users d') =
    Some (new_user (normalizeUsername n) hash (normalizeRole ro) now)"
    using new assms(2) by (auto simp: d' find_append new_user_def dest: find_Some_in split: option.splits)
  then show ?thesis
    using assms(1,3,5) h by (simp add: Authenticate_def user_row_def stmt_works d' new_user_def publicUser_def Let_def)
qed


subsection \<open>Where the accounts are weaker than they look\<close>

lemma may_delete_works: "adb_faults d = [] \<Longrightarrow> snd (may_delete E n d) = d"
  by (simp add: may_delete_def user_row_def adminCount_def stmt_works split: option.splits)

lemma stmt_works_DeleteUser:
  assumes "adb_faults d = []" "DeleteUser E n d = (x, d')"
  shows "adb_faults d' = [] \<and> (\<forall>k. k \<noteq> users_key \<longrightarrow> adb_redis d' k = adb_redis d k)"
proof (cases "may_delete E (normalizeUsername n) d")
  case (Pair y d1)
  then have "d1 = d" using may_delete_works[OF assms(1)] by (metis snd_conv)
  then show ?thesis
    using assms Pair by (cases y) (auto simp: DeleteUser_def delete_row_def redis_del_def stmt_works kv_del_def)
qed

text \<open>
  Deleting a user ends none of the user's sessions: with a working database and Redis, every
  request is let through \<open>RequireAuth\<close> after the deletion exactly as before, with the role of the
  session, so a deleted administrator stays one until the session expires.
\<close>

theorem deletion_keeps_sessions:
  assumes "adb_faults d = []"
  shows "fst (RequireAuth now apiKey True r (snd (DeleteUser E n d))) = fst (RequireAuth now apiKey True r d)"
proof -
  obtain x d' where del: "DeleteUser E n d = (x, d')" by (rule prod.exhaust)
  have same: "adb_redis d' (session_key t) = adb_redis d (session_key t)" "adb_faults d' = []" for t
    using stmt_works_DeleteUser[OF assms del] by simp_all
  have "fst (GetSession now t d') = fst (GetSession now t d)" for t
    using same assms by (simp add: GetSession_def redis_get_def stmt_works kv_get_def DeleteSession_def split: option.splits cached.splits prod.splits)
  then have "fst (case GetSession now t d' of (None, d1) \<Rightarrow> (write_error 401 m, d1) | (Some session, d1) \<Rightarrow> (write_json 200 (se_User session), d1))
    = fst (case GetSession now t d of (None, d1) \<Rightarrow> (write_error 401 m, d1) | (Some session, d1) \<Rightarrow> (write_json 200 (se_User session), d1))" for t m
    by (cases "GetSession now t d"; cases "GetSession now t d'") (metis (no_types, lifting) fst_conv option.case_eq_if prod.case)
  then show ?thesis by (simp add: del RequireAuth_def Let_def)
qed


text \<open>
  A server for examples: names compare without regard to case, hashes show the password, the current
  code is always 424242.
\<close>

definition demo_crypto :: crypto where
  "demo_crypto = \<lparr> cr_same = (\<lambda>a b. to_lower a = to_lower b),
     cr_hash = (\<lambda>salt p. if 72 < length p then Inl ''password length exceeds 72 bytes'' else Inr (CHR ''#'' # p)),
     cr_match = (\<lambda>h p. h = CHR ''#'' # p),
     cr_totp = (\<lambda>now code secret. secret \<noteq> [] \<and> code = ''424242'') \<rparr>"

definition demo_draws :: "instant \<Rightarrow> string \<Rightarrow> draws" where
  "demo_draws now token = \<lparr> dr_now = now, dr_salt = [], dr_token = Inr token, dr_key = Inr (''SECRET'', ''otpauth''),
     dr_rand = [], dr_qr = (\<lambda>_. []) \<rparr>"

definition demo_user :: "string \<Rightarrow> string \<Rightarrow> User" where
  "demo_user name role = new_user name (''#'' @ name @ ''-password'') role 0"

definition demo_authdb :: authdb where
  "demo_authdb = \<lparr> adb_users = [demo_user ''root'' ''admin'',
       (demo_user ''olga'' ''operator'') \<lparr> u_TOTPSecret := ''S'', u_TOTPEnabled := True, u_TOTPBackupCodes := Some [''0badcafe'', ''deadbeef''] \<rparr>],
     adb_redis = (\<lambda>_. None), adb_ttl = minute, adb_faults = [] \<rparr>"

definition demo_request :: "string \<Rightarrow> request" where
  "demo_request token = \<lparr> rq_authorization = ''Bearer '' @ token, rq_api_key = [], rq_query_token = [], rq_query_api_key = [],
     rq_real_ip = [], rq_forwarded_for = [], rq_remote_addr = ''10.0.0.7:5123'' \<rparr>"

definition demo_handler :: AuthHandler where
  "demo_handler = \<lparr> ah_ttl = 12 * hour, ah_allower = True \<rparr>"

definition demo_event :: "instant \<Rightarrow> string \<Rightarrow> auth_call \<Rightarrow> event" where
  "demo_event now token c = \<lparr> ev_draws = demo_draws now token, ev_apiKey = ''key'', ev_request = demo_request [], ev_call = c \<rparr>"

definition demo_logins :: "event list" where
  "demo_logins = [demo_event 1 ''pend'' (CallLogin (Some (''Olga'', ''olga-password''))),
                  demo_event minute ''tok'' (CallTOTPLogin (Some (''pend'', '' 424242''))) ]"

lemmas demo_defs = demo_crypto_def demo_draws_def demo_user_def demo_authdb_def demo_request_def demo_handler_def
  demo_event_def demo_logins_def

lemma demo_same: "equivp (cr_same demo_crypto)" "\<not> cr_same demo_crypto RoleOperator RoleAdmin"
  by (auto simp: demo_crypto_def to_lower_def lower_char_def intro!: equivpI reflpI sympI transpI)

definition demo_olga :: PublicUser where
  "demo_olga = \<lparr> pu_Username = ''olga'', pu_Role = ''operator'', pu_TOTPEnabled = True, pu_CreatedAt = 0 \<rparr>"

lemma demo_olga_session:
  "fst (RequireAuth hour ''key'' True (demo_request ''tok'') (after demo_crypto demo_handler demo_logins demo_authdb)) = (200, Inr demo_olga)"
  by code_simp

theorem authenticated_requests_logged_in_witness:
  "\<exists>expires. hour \<le> expires \<and> session_origin demo_crypto demo_handler demo_logins demo_authdb demo_olga expires"
proof -
  have "\<forall>t. adb_redis demo_authdb (session_key t) = None \<and> adb_redis demo_authdb (pending_key t) = None"
    by (simp add: demo_authdb_def)
  moreover have "RequireAuth hour ''key'' True (demo_request ''tok'') (after demo_crypto demo_handler demo_logins demo_authdb) =
    ((200, Inr demo_olga), snd (RequireAuth hour ''key'' True (demo_request ''tok'') (after demo_crypto demo_handler demo_logins demo_authdb)))"
    by (rule prod_eqI) (simp_all add: demo_olga_session)
  ultimately show ?thesis using authenticated_requests_logged_in by (fastforce simp: demo_olga_def)
qed

theorem admin_always_remains_witness:
  "accounts_ok demo_crypto (after demo_crypto demo_handler
     [demo_event 1 [] (CallLogin (Some (''root'', ''root-password''))), demo_event 2 [] (CallDeleteUser ''root'')] demo_authdb)"
  by (rule admin_always_remains) (auto simp: collation_def demo_same, code_simp)

theorem operator_changes_own_row_witness:
  "list_all2 (own_changes demo_crypto ''olga'') (adb_users (after demo_crypto demo_handler demo_logins demo_authdb))
     (adb_users (snd (serve demo_crypto demo_handler ''key'' (demo_draws hour []) (demo_request ''tok'')
        (CallSetPassword ''root'' (Some ''a-new-password'')) (after demo_crypto demo_handler demo_logins demo_authdb))))"
proof -
  let ?d = "after demo_crypto demo_handler demo_logins demo_authdb"
  have "realIP (demo_request ''tok'') = demo_request ''tok''" by (simp add: realIP_def demo_request_def)
  then have "RequireAuth (dr_now (demo_draws hour [])) ''key'' True (realIP (demo_request ''tok'')) ?d =
    ((200, Inr demo_olga), snd (RequireAuth hour ''key'' True (demo_request ''tok'') ?d))"
    by (intro prod_eqI) (simp_all add: demo_olga_session demo_draws_def)
  moreover have "normalizeUsername (pu_Username demo_olga) = ''olga''" by code_simp
  ultimately show ?thesis
    using operator_changes_own_row[of "demo_draws hour []" "''key''" "demo_request ''tok''" ?d 200 demo_olga _
        "CallSetPassword ''root'' (Some ''a-new-password'')" demo_crypto demo_handler]
    by (simp add: demo_olga_def)
qed

lemma demo_row: "adb_users demo_authdb ! 1 \<in> set (adb_users demo_authdb)"
  by (simp add: demo_authdb_def)

theorem backup_code_works_once_witness:
  "\<exists>d'. TOTPValidateCode demo_crypto 5 ''OLGA'' ''deadbeef'' demo_authdb = (True, d') \<and>
     \<not> fst (TOTPValidateCode demo_crypto 6 ''OLGA'' ''deadbeef'' d') \<and>
     (\<forall>x \<in> set [''0badcafe'', ''deadbeef''] - {''deadbeef''}. fst (TOTPValidateCode demo_crypto 6 ''OLGA'' x d'))"
proof (rule backup_code_works_once[OF _ _ _ demo_row])
  show "sorted_wrt (\<lambda>u v. \<not> cr_same demo_crypto (u_Username u) (u_Username v)) (adb_users demo_authdb)"
    by code_simp
  show "cr_same demo_crypto (u_Username (adb_users demo_authdb ! 1)) (normalizeUsername ''OLGA'')"
    by code_simp
  show "equivp (cr_same demo_crypto)" by (rule demo_same)
qed (auto simp: demo_authdb_def demo_crypto_def)

theorem created_user_logs_in_witness:
  "fst (Authenticate demo_crypto ''IVAN '' ''twelve chars!'' (snd (CreateUser demo_crypto 7 [] '' Ivan'' ''twelve chars!'' ''Admin'' demo_authdb)))
   = Some \<lparr> pu_Username = normalizeUsername '' Ivan'', pu_Role = normalizeRole ''Admin'', pu_TOTPEnabled = False, pu_CreatedAt = 7 \<rparr>"
proof (rule created_user_logs_in)
  have "fst (CreateUser demo_crypto 7 [] '' Ivan'' ''twelve chars!'' ''Admin'' demo_authdb) = None" by code_simp
  then show "CreateUser demo_crypto 7 [] '' Ivan'' ''twelve chars!'' ''Admin'' demo_authdb =
    (None, snd (CreateUser demo_crypto 7 [] '' Ivan'' ''twelve chars!'' ''Admin'' demo_authdb))"
    by (intro prod_eqI) simp_all
  show "normalizeUsername ''IVAN '' = normalizeUsername '' Ivan''" by code_simp
qed (auto simp: demo_authdb_def demo_crypto_def)

theorem deletion_keeps_sessions_witness:
  "fst (RequireAuth 2 ''key'' True (demo_request ''tok'') (snd (DeleteUser demo_crypto ''olga'' demo_authdb))) =
   fst (RequireAuth 2 ''key'' True (demo_request ''tok'') demo_authdb)"
  by (rule deletion_keeps_sessions) (simp add: demo_authdb_def)

text \<open>
  Two requests that delete the two administrators at the same time: each checks before the other
  deletes, and no administrator is left.
\<close>

lemma concurrent_deletions_leave_no_admin:
  "let d = demo_authdb \<lparr> adb_users := [demo_user ''root'' ''admin'', demo_user ''anna'' ''admin''] \<rparr>;
       (first, d1) = may_delete demo_crypto ''root'' d; (second, d2) = may_delete demo_crypto ''anna'' d1;
       d3 = snd (delete_row demo_crypto ''root'' d2); d4 = snd (delete_row demo_crypto ''anna'' d3)
   in first = None \<and> second = None \<and> adb_users d4 = []"
  by code_simp

text \<open>A legacy user whose name has a capital letter is imported and can never log in.\<close>

lemma imported_capital_locked_out:
  "let d = snd (importLegacyUsers demo_crypto 9 (Some (Inr [(''Bob'', ''#bob-password'', ''admin'', 3)])) demo_authdb)
   in length (adb_users d) = 3 \<and> fst (Authenticate demo_crypto ''Bob'' ''bob-password'' d) = None \<and>
      fst (CreateUser demo_crypto 9 [] ''bob'' ''bob-password'' ''admin'' d) = Some ''user already exists: bob''"
  by code_simp

text \<open>An IPv6 client behind the proxy: the firewall is told an address with another last group.\<close>

lemma ipv6_login_allows_other_address:
  "allowlistLoginIP True (realIP (demo_request [] \<lparr> rq_real_ip := ''2001:db8::1'' \<rparr>)) ''olga'' =
     [(''2001:db8::1:0'', ''Stack Manager login olga'')]"
  by code_simp

end
