(* ===== verification/Files.thy ===== *)
theory Files
  imports Discovery
begin

text \<open>
  The file system that the project files live in, and the lexical functions of Go's \<^verbatim>\<open>path/filepath\<close>
  (on Unix). A path names a regular file with its contents, a directory or a symbolic link to an
  absolute path; links are followed in the last component, at most forty times as Linux does. A file
  may be unreadable, and a call that changes the file system may fail (the next entry of \<open>fs_faults\<close>
  decides); a failing write may leave the beginning of the new contents behind. The same state is a \<open>disk\<close> in the sense of theory \<open>Discovery\<close>.
\<close>

section \<open>Definitions\<close>

subsection \<open>Paths\<close>

text \<open>\<^verbatim>\<open>filepath.Clean\<close>: the components from the left, on a stack (its top first).\<close>

fun clean_stack :: "bool \<Rightarrow> string list \<Rightarrow> string list \<Rightarrow> string list" where
  "clean_stack rooted st [] = rev st"
| "clean_stack rooted st (c # cs) =
     (if c = [] \<or> c = ''.'' then clean_stack rooted st cs
      else if c = ''..'' then
        (case st of
           [] \<Rightarrow> clean_stack rooted (if rooted then [] else [c]) cs
         | t # ts \<Rightarrow> clean_stack rooted (if t = ''..'' then c # st else ts) cs)
      else clean_stack rooted (c # st) cs)"

definition is_abs :: "string \<Rightarrow> bool" where
  "is_abs p = has_prefix p ''/''"

definition clean_components :: "string \<Rightarrow> string list" where
  "clean_components p = clean_stack (is_abs p) [] (split_on CHR ''/'' p)"

definition path_of :: "bool \<Rightarrow> string list \<Rightarrow> string" where
  "path_of rooted cs =
     (if rooted then CHR ''/'' # join ''/'' cs else if cs = [] then ''.'' else join ''/'' cs)"

definition path_clean :: "string \<Rightarrow> string" where
  "path_clean p = path_of (is_abs p) (clean_components p)"

text \<open>\<^verbatim>\<open>filepath.Join\<close> of two elements; an empty element is left out.\<close>

definition join_path :: "string \<Rightarrow> string \<Rightarrow> string" where
  "join_path a b =
     (if a = [] \<and> b = [] then [] else if a = [] then path_clean b else if b = [] then path_clean a
      else path_clean (a @ ''/'' @ b))"

text \<open>\<^verbatim>\<open>filepath.Ext\<close>: from the last dot of the last component.\<close>

fun ext_rev :: "string \<Rightarrow> string \<Rightarrow> string" where
  "ext_rev acc [] = []"
| "ext_rev acc (c # cs) = (if c = CHR ''/'' then [] else if c = CHR ''.'' then c # acc else ext_rev (c # acc) cs)"

definition path_ext :: "string \<Rightarrow> string" where
  "path_ext p = ext_rev [] (rev p)"

subsection \<open>Nodes and system calls\<close>

datatype node = File string | Folder | Link string

datatype fs_error = NotExist | FsError string

datatype fault = Refuse string | Torn string nat

record fsys =
  fs_nodes :: "string \<Rightarrow> node option"
  fs_unreadable :: "string \<Rightarrow> bool"
  fs_faults :: "fault option list"

fun fs_text :: "fs_error \<Rightarrow> string" where
  "fs_text NotExist = ''no such file or directory''"
| "fs_text (FsError e) = e"

text \<open>The path at the end of a chain of links.\<close>

fun target :: "nat \<Rightarrow> (string \<Rightarrow> node option) \<Rightarrow> string \<Rightarrow> string option" where
  "target 0 m p = None"
| "target (Suc n) m p = (case m p of Some (Link t) \<Rightarrow> target n m t | _ \<Rightarrow> Some p)"

definition follow :: "(string \<Rightarrow> node option) \<Rightarrow> string \<Rightarrow> fs_error + string" where
  "follow m p = (case target 40 m p of None \<Rightarrow> Inl (FsError ''too many levels of symbolic links'') | Some q \<Rightarrow> Inr q)"

fun fault_text :: "fault \<Rightarrow> string" where
  "fault_text (Refuse e) = e"
| "fault_text (Torn e n) = e"

definition sys :: "fsys \<Rightarrow> (fsys \<Rightarrow> (fs_error + 'a) \<times> fsys) \<Rightarrow> (fs_error + 'a) \<times> fsys" where
  "sys s f =
     (case fs_faults s of
        [] \<Rightarrow> f s
      | None # fs \<Rightarrow> f (s \<lparr> fs_faults := fs \<rparr>)
      | Some e # fs \<Rightarrow> (Inl (FsError (fault_text e)), s \<lparr> fs_faults := fs \<rparr>))"

definition read_node :: "fsys \<Rightarrow> string \<Rightarrow> fs_error + string" where
  "read_node s p =
     (case follow (fs_nodes s) p of
        Inl e \<Rightarrow> Inl e
      | Inr q \<Rightarrow>
          (case fs_nodes s q of
             None \<Rightarrow> Inl NotExist
           | Some (File c) \<Rightarrow> if fs_unreadable s q then Inl (FsError ''permission denied'') else Inr c
           | Some _ \<Rightarrow> Inl (FsError ''is a directory'')))"

definition fs_stat :: "string \<Rightarrow> fsys \<Rightarrow> fs_error + node" where
  "fs_stat p s =
     (case follow (fs_nodes s) p of
        Inl e \<Rightarrow> Inl e
      | Inr q \<Rightarrow> (case fs_nodes s q of None \<Rightarrow> Inl NotExist | Some x \<Rightarrow> Inr x))"

text \<open>The directory of a path; a file can only be written into an existing one.\<close>

definition dir_of :: "string \<Rightarrow> string" where
  "dir_of p = (let d = rev (drop 1 (dropWhile (\<lambda>c. c \<noteq> CHR ''/'') (rev p))) in if d = [] then ''/'' else d)"

definition put_file :: "string \<Rightarrow> string \<Rightarrow> (string \<Rightarrow> node option) \<Rightarrow> fs_error + (string \<Rightarrow> node option)" where
  "put_file p c m =
     (case follow m p of
        Inl e \<Rightarrow> Inl e
      | Inr q \<Rightarrow>
          if m q = Some Folder then Inl (FsError ''is a directory'')
          else if m (dir_of q) \<noteq> Some Folder then Inl NotExist
          else Inr (m(q \<mapsto> File c)))"

text \<open>\<^verbatim>\<open>os.WriteFile\<close> truncates the file before it writes.\<close>

definition fs_write :: "string \<Rightarrow> string \<Rightarrow> fsys \<Rightarrow> (fs_error + unit) \<times> fsys" where
  "fs_write p c s =
     (case fs_faults s of
        Some (Torn e n) # fs \<Rightarrow>
          (Inl (FsError e),
           (case put_file p (take n c) (fs_nodes s) of
              Inl _ \<Rightarrow> s \<lparr> fs_faults := fs \<rparr> | Inr m \<Rightarrow> s \<lparr> fs_nodes := m, fs_faults := fs \<rparr>))
      | _ \<Rightarrow> sys s (\<lambda>s.
          (case put_file p c (fs_nodes s) of Inl e \<Rightarrow> (Inl e, s) | Inr m \<Rightarrow> (Inr (), s \<lparr> fs_nodes := m \<rparr>))))"

definition fs_remove :: "string \<Rightarrow> fsys \<Rightarrow> (fs_error + unit) \<times> fsys" where
  "fs_remove p s = sys s (\<lambda>s.
     if fs_nodes s p = None then (Inl NotExist, s) else (Inr (), s \<lparr> fs_nodes := (fs_nodes s)(p := None) \<rparr>))"

text \<open>\<^verbatim>\<open>os.MkdirAll\<close>: the directory and its missing parents.\<close>

fun make_dirs :: "string \<Rightarrow> string list \<Rightarrow> (string \<Rightarrow> node option) \<Rightarrow> fs_error + (string \<Rightarrow> node option)" where
  "make_dirs base [] m = Inr m"
| "make_dirs base (c # cs) m =
     (let p = base @ ''/'' @ c in
      case m p of
        None \<Rightarrow> make_dirs p cs (m(p \<mapsto> Folder))
      | Some (File _) \<Rightarrow> Inl (FsError ''not a directory'')
      | Some _ \<Rightarrow> make_dirs p cs m)"

definition fs_mkdir_all :: "string \<Rightarrow> fsys \<Rightarrow> (fs_error + unit) \<times> fsys" where
  "fs_mkdir_all p s = sys s (\<lambda>s.
     (case make_dirs [] (components p) (fs_nodes s) of
        Inl e \<Rightarrow> (Inl e, s) | Inr m \<Rightarrow> (Inr (), s \<lparr> fs_nodes := m \<rparr>)))"

text \<open>The view of this state that project discovery has: only the queries are used.\<close>

definition fs_disk :: "fsys disk" where
  "fs_disk = \<lparr>
     dk_stat = (\<lambda>p s. case follow (fs_nodes s) p of
         Inl _ \<Rightarrow> Unreadable
       | Inr q \<Rightarrow> (case fs_nodes s q of None \<Rightarrow> Missing | Some (File _) \<Rightarrow> IsFile | Some _ \<Rightarrow> IsDir)),
     dk_readdir = (\<lambda>p s. Inl ''not listed''),
     dk_read = (\<lambda>p s. case read_node s p of Inl _ \<Rightarrow> None | Inr c \<Rightarrow> Some c),
     dk_create = (\<lambda>p s. case fs_write p [] s of (Inl e, s1) \<Rightarrow> (Some (fs_text e), s1) | (Inr _, s1) \<Rightarrow> (None, s1)),
     dk_remove = (\<lambda>p s. case fs_remove p s of (Inl e, s1) \<Rightarrow> (Some (fs_text e), s1) | (Inr _, s1) \<Rightarrow> (None, s1)),
     dk_remove_all = (\<lambda>p s. (None, s \<lparr> fs_nodes := (\<lambda>q. if q = p \<or> has_prefix q (p @ ''/'') then None else fs_nodes s q) \<rparr>)),
     dk_abs = (\<lambda>p. Inr (path_clean p)) \<rparr>"

section \<open>Paths\<close>

lemma clean_stack_components:
  "set (clean_stack rooted st cs) \<subseteq> set st \<union> {c \<in> set cs. c \<noteq> [] \<and> c \<noteq> ''.''}"
proof (induction cs arbitrary: st)
  case (Cons c cs)
  consider "c = [] \<or> c = ''.''" | "c = ''..''" "st = []" | t ts where "c = ''..''" "st = t # ts" | "c \<notin> {[], ''.'', ''..''}"
    by (cases st) auto
  then show ?case
  proof cases
    case 3
    then show ?thesis using Cons.IH[of "if t = ''..'' then c # st else ts"] by auto
  next
    case 4
    then show ?thesis using Cons.IH[of "c # st"] by auto
  qed (use Cons.IH[of st] Cons.IH[of "[]"] Cons.IH[of "[c]"] in auto)
qed simp

lemma clean_stack_no_dots:
  "\<forall>c \<in> set cs. c \<noteq> ''..'' \<Longrightarrow> clean_stack rooted st cs = rev st @ filter (\<lambda>c. c \<noteq> [] \<and> c \<noteq> ''.'') cs"
  by (induction rooted st cs rule: clean_stack.induct) auto

lemma clean_stack_append:
  "clean_stack rooted st (as @ bs) = clean_stack rooted (rev (clean_stack rooted st as)) bs"
  by (induction rooted st as rule: clean_stack.induct) (auto split: list.splits)

lemma clean_components_plain:
  assumes "c \<in> set (clean_components p)"
  shows "c \<noteq> []" "c \<noteq> ''.''" "CHR ''/'' \<notin> set c"
  using assms clean_stack_components[of "is_abs p" "[]" "split_on CHR ''/'' p"] split_on_no_sep[of c "CHR ''/''" p]
  by (auto simp: clean_components_def)

text \<open>Below a directory: cleaning keeps the components of the directory when no \<^verbatim>\<open>..\<close> follows.\<close>

lemma clean_below:
  assumes "a \<noteq> []" "\<forall>c \<in> set (split_on CHR ''/'' b). c \<noteq> ''..''"
  shows "clean_components (a @ ''/'' @ b) =
    clean_components a @ filter (\<lambda>c. c \<noteq> [] \<and> c \<noteq> ''.'') (split_on CHR ''/'' b)"
proof -
  have "is_abs (a @ ''/'' @ b) = is_abs a" using assms(1) by (cases a) (auto simp: is_abs_def)
  moreover have "split_on CHR ''/'' (a @ ''/'' @ b) = split_on CHR ''/'' a @ split_on CHR ''/'' b"
    using split_on_append_sep[of "CHR ''/''" a b] by simp
  ultimately show ?thesis
    using assms(2) by (simp add: clean_components_def clean_stack_append clean_stack_no_dots)
qed

lemma join_append: "xs \<noteq> [] \<Longrightarrow> ys \<noteq> [] \<Longrightarrow> join sep (xs @ ys) = join sep xs @ sep @ join sep ys"
proof (induction xs)
  case (Cons x xs)
  then show ?case by (cases xs) (simp_all add: join_Cons)
qed simp

text \<open>\<open>below d p\<close>: \<open>p\<close> is \<open>d\<close> followed by at least one further component.\<close>

definition below :: "string \<Rightarrow> string \<Rightarrow> bool" where
  "below d p = (\<exists>cs. cs \<noteq> [] \<and> (\<forall>c \<in> set cs. c \<noteq> [] \<and> c \<noteq> ''.'' \<and> c \<noteq> ''..'' \<and> CHR ''/'' \<notin> set c) \<and> p = d @ concat (map (\<lambda>c. CHR ''/'' # c) cs))"

lemma join_slashes: "cs \<noteq> [] \<Longrightarrow> CHR ''/'' # join ''/'' cs = concat (map (\<lambda>c. CHR ''/'' # c) cs)"
proof (induction cs)
  case (Cons c cs)
  then show ?case by (cases cs) (auto simp: join_Cons)
qed simp

lemma path_of_append:
  assumes "ds \<noteq> []" "cs \<noteq> []"
  shows "path_of rooted (ds @ cs) = path_of rooted ds @ concat (map (\<lambda>c. CHR ''/'' # c) cs)"
  using assms join_append[of ds cs "''/''"] join_slashes[of cs] by (auto simp: path_of_def)

lemma split_on_infix: "l \<in> set (split_on c s) \<Longrightarrow> \<exists>a b. s = a @ l @ b"
proof (induction s arbitrary: l)
  case (Cons x xs)
  obtain y ys where ys: "split_on c xs = y # ys" by (cases "split_on c xs") auto
  have first: "\<exists>b. xs = y @ b"
    using join_split_on[of c xs] ys by (cases ys) auto
  show ?case
  proof (cases "l \<in> set (split_on c xs)")
    case True
    then show ?thesis using Cons.IH by (metis append_Cons)
  next
    case False
    then have "l = [] \<or> l = x # y" using Cons.prems ys by (auto split: if_splits)
    then show ?thesis using first by (metis append_Cons append_Nil)
  qed
qed simp

lemma clean_stack_rooted: "''..'' \<notin> set st \<Longrightarrow> ''..'' \<notin> set (clean_stack True st cs)"
  by (induction "True" st cs rule: clean_stack.induct) (auto split: list.splits)

lemma clean_components_rooted: "is_abs p \<Longrightarrow> c \<in> set (clean_components p) \<Longrightarrow> c \<noteq> ''..''"
  using clean_stack_rooted[of "[]" "split_on CHR ''/'' p"] by (auto simp: clean_components_def)

text \<open>A clean absolute path is the path of its components.\<close>

lemma clean_components_path_of:
  assumes "\<forall>c \<in> set cs. c \<noteq> [] \<and> c \<noteq> ''.'' \<and> c \<noteq> ''..'' \<and> CHR ''/'' \<notin> set c"
  shows "clean_components (path_of True cs) = cs"
proof (cases "cs = []")
  case False
  then have "split_on CHR ''/'' (path_of True cs) = [] # cs"
    using assms by (simp add: path_of_def split_on_join)
  moreover have "is_abs (path_of True cs)" by (simp add: path_of_def is_abs_def)
  moreover have "\<forall>c \<in> set ([] # cs). c \<noteq> ''..''" using assms by auto
  moreover have "filter (\<lambda>c. c \<noteq> [] \<and> c \<noteq> ''.'') cs = cs" using assms by (auto intro: filter_True)
  ultimately show ?thesis by (simp add: clean_components_def clean_stack_no_dots del: clean_stack.simps)
qed (simp add: path_of_def clean_components_def)

lemma path_clean_abs: "is_abs p \<Longrightarrow> path_clean p = path_of True (clean_components p)"
  by (simp add: path_clean_def)

lemma path_clean_idem: "is_abs p \<Longrightarrow> path_clean (path_clean p) = path_clean p"
proof -
  assume p: "is_abs p"
  then have "clean_components (path_clean p) = clean_components p"
    using clean_components_plain clean_components_rooted
    by (simp add: path_clean_abs clean_components_path_of)
  moreover have "is_abs (path_clean p)" using p by (simp add: path_clean_abs path_of_def is_abs_def)
  ultimately show ?thesis using p by (simp add: path_clean_abs)
qed

text \<open>Joining a relative path without \<^verbatim>\<open>..\<close> to an absolute directory stays at or below it.\<close>

definition plain_components :: "string \<Rightarrow> string list" where
  "plain_components rel = filter (\<lambda>c. c \<noteq> [] \<and> c \<noteq> ''.'') (split_on CHR ''/'' rel)"

lemma join_path_plain:
  assumes "is_abs d" "rel \<noteq> []" "\<not> contains rel ''..''"
  shows "clean_components (d @ ''/'' @ rel) = clean_components d @ plain_components rel"
    and "\<forall>c \<in> set (plain_components rel). c \<noteq> [] \<and> c \<noteq> ''.'' \<and> c \<noteq> ''..'' \<and> CHR ''/'' \<notin> set c"
proof -
  have "\<forall>c \<in> set (split_on CHR ''/'' rel). c \<noteq> ''..''"
    using assms(3) split_on_infix by (fastforce simp: contains_iff)
  moreover have "d \<noteq> []" using assms(1) by (auto simp: is_abs_def)
  ultimately show "clean_components (d @ ''/'' @ rel) = clean_components d @ plain_components rel"
    "\<forall>c \<in> set (plain_components rel). c \<noteq> [] \<and> c \<noteq> ''.'' \<and> c \<noteq> ''..'' \<and> CHR ''/'' \<notin> set c"
    using clean_below[of d rel] by (auto simp: plain_components_def dest: split_on_no_sep)
qed

lemma join_path_below:
  assumes "is_abs d" "clean_components d \<noteq> []" "rel \<noteq> []" "\<not> contains rel ''..''"
  shows "path_clean (join_path d rel) = path_clean d @ concat (map (\<lambda>c. CHR ''/'' # c) (plain_components rel))"
    and "join_path d rel = path_clean (join_path d rel)"
proof -
  have d: "d \<noteq> []" using assms(1) by (auto simp: is_abs_def)
  then have a: "is_abs (d @ ''/'' @ rel)" using assms(1) by (cases d) (auto simp: is_abs_def)
  have j: "join_path d rel = path_clean (d @ ''/'' @ rel)" using d assms(3) by (simp add: join_path_def)
  show "join_path d rel = path_clean (join_path d rel)" using j path_clean_idem[OF a] by simp
  have "path_clean (d @ ''/'' @ rel) = path_of True (clean_components d @ plain_components rel)"
    using a join_path_plain(1)[OF assms(1,3,4)] by (simp add: path_clean_abs)
  also have "\<dots> = path_clean d @ concat (map (\<lambda>c. CHR ''/'' # c) (plain_components rel))"
    using assms(1,2) path_of_append by (cases "plain_components rel = []") (simp_all add: path_clean_abs)
  finally show "path_clean (join_path d rel) = path_clean d @ concat (map (\<lambda>c. CHR ''/'' # c) (plain_components rel))"
    using j path_clean_idem[OF a] by simp
qed

section \<open>System calls without links\<close>

definition linkless :: "fsys \<Rightarrow> bool" where
  "linkless s = (\<forall>p t. fs_nodes s p \<noteq> Some (Link t))"

lemma follow_linkless: "linkless s \<Longrightarrow> follow (fs_nodes s) p = Inr p"
  by (auto simp: follow_def linkless_def eval_nat_numeral split: option.splits node.splits)

lemma read_node_File:
  "linkless s \<Longrightarrow> read_node s p = Inr c \<longleftrightarrow> fs_nodes s p = Some (File c) \<and> \<not> fs_unreadable s p"
  by (auto simp: read_node_def follow_linkless split: option.splits node.splits)

definition wrote :: "string \<Rightarrow> string \<Rightarrow> fsys \<Rightarrow> fsys \<Rightarrow> bool \<Rightarrow> bool" where
  "wrote p c s s' ok =
     (linkless s' \<and> fs_unreadable s' = fs_unreadable s \<and>
      (if ok then fs_nodes s' = (fs_nodes s)(p \<mapsto> File c)
       else fs_nodes s' = fs_nodes s \<or> (\<exists>n. fs_nodes s' = (fs_nodes s)(p \<mapsto> File (take n c)))))"

lemma put_file_linkless:
  "linkless s \<Longrightarrow> put_file p c (fs_nodes s) =
     (if fs_nodes s p = Some Folder then Inl (FsError ''is a directory'')
      else if fs_nodes s (dir_of p) \<noteq> Some Folder then Inl NotExist else Inr ((fs_nodes s)(p \<mapsto> File c)))"
  by (simp add: put_file_def follow_linkless)

lemma fs_write_wrote:
  assumes "fs_write p c s = (r, s')" "linkless s"
  shows "wrote p c s s' (\<not> isl r)"
proof -
  have ll: "linkless (s \<lparr> fs_faults := fs \<rparr>)" for fs using assms(2) by (simp add: linkless_def)
  have new: "linkless (s \<lparr> fs_nodes := (fs_nodes s)(p \<mapsto> File x), fs_faults := fs \<rparr>)"
    "linkless (s \<lparr> fs_faults := fs, fs_nodes := (fs_nodes s)(p \<mapsto> File x) \<rparr>)"
    "linkless (s \<lparr> fs_nodes := (fs_nodes s)(p \<mapsto> File x) \<rparr>)" for x fs
    using assms(2) by (auto simp: linkless_def)
  have put: "put_file p x (fs_nodes s) = (if fs_nodes s p = Some Folder then Inl (FsError ''is a directory'')
      else if fs_nodes s (dir_of p) \<noteq> Some Folder then Inl NotExist else Inr ((fs_nodes s)(p \<mapsto> File x)))" for x
    using put_file_linkless[OF assms(2)] .
  show ?thesis
    using assms(1) ll new assms(2)
    by (auto simp: fs_write_def sys_def wrote_def put split: list.splits option.splits fault.splits if_splits)
qed

lemma wrote_other: "wrote p c s s' ok \<Longrightarrow> q \<noteq> p \<Longrightarrow> fs_nodes s' q = fs_nodes s q"
  by (auto simp: wrote_def split: if_splits)

lemma wrote_linkless: "wrote p c s s' ok \<Longrightarrow> linkless s' \<and> fs_unreadable s' = fs_unreadable s"
  by (simp add: wrote_def)

lemma wrote_ok: "wrote p c s s' True \<Longrightarrow> fs_nodes s' p = Some (File c)"
  by (simp add: wrote_def)

end
