(* ===== verification/TemplateUpdate.thy ===== *)
theory TemplateUpdate
  imports Files "HOL-Library.AList"
begin

text \<open>
  Creating a project and updating one from its catalog template: \<^verbatim>\<open>server/internal/core/create.go\<close> and
  the part of \<^verbatim>\<open>template_update.go\<close> that theory \<open>EnvFile\<close> leaves. The catalog is an argument (a list of
  templates), and so are SHA-256 in hexadecimal and the JSON form of a provenance record. Files are those
  of theory \<open>Files\<close>, with failing and torn writes.
\<close>

section \<open>Definitions\<close>

subsection \<open>The catalog\<close>

record StackTemplate =
  st_ID :: string
  st_Name :: string
  st_ComposeContent :: string
  st_EnvContent :: string

definition GetBuiltinStackTemplate :: "StackTemplate list \<Rightarrow> string \<Rightarrow> StackTemplate option" where
  "GetBuiltinStackTemplate catalog tid = find (\<lambda>t. st_ID t = trim_space tid) catalog"

record templateProvenance =
  tp_TemplateID :: string
  tp_TemplateSHA256 :: string
  tp_ComposeSHA256 :: string

record codec =
  co_sha256 :: "string \<Rightarrow> string"
  co_encode :: "templateProvenance \<Rightarrow> string"
  co_decode :: "string \<Rightarrow> templateProvenance option"

definition templateProvenanceFile :: string where
  "templateProvenanceFile = ''.stack-manager-template.json''"

subsection \<open>Service mounts\<close>

definition normalizeComposeText :: "string \<Rightarrow> string" where
  "normalizeComposeText s =
     trim_space (join [newline] (map (\<lambda>l. trim_right l [CHR '' '', CHR 0x09, CHR 0x0D]) (split_on newline s)))"

text \<open>The state of the line scanner; the map of services is an association list.\<close>

record mounts =
  mo_services :: "(string \<times> string list) list"
  mo_inServices :: bool
  mo_inVolumes :: bool
  mo_seenVolumes :: bool
  mo_known :: bool
  mo_current :: string

definition put :: "string \<Rightarrow> 'v \<Rightarrow> (string \<times> 'v) list \<Rightarrow> (string \<times> 'v) list" where
  "put k v m = AList.update k v m"

definition mounts_of :: "(string \<times> string list) list \<Rightarrow> string \<Rightarrow> string list" where
  "mounts_of m k = (case map_of m k of Some v \<Rightarrow> v | None \<Rightarrow> [])"

definition scan_mount :: "nat \<Rightarrow> string \<Rightarrow> mounts \<Rightarrow> mounts" where
  "scan_mount indent trimmed st =
     (let st1 = (if indent = 4 \<and> has_prefix trimmed ''volumes:'' then st \<lparr> mo_known := False \<rparr> else st);
          st2 = (if indent \<le> 4 then st1 \<lparr> mo_inVolumes := False \<rparr> else st1)
      in if mo_inVolumes st2 \<and> 6 \<le> indent \<and> has_prefix trimmed ''- '' then
           (let mount = trim_space (trim_prefix trimmed ''- '');
                st3 = (if has_prefix mount ''type:'' then st2 \<lparr> mo_known := False \<rparr> else st2)
            in st3 \<lparr> mo_services := put (mo_current st3) (mounts_of (mo_services st3) (mo_current st3) @ [mount]) (mo_services st3) \<rparr>)
         else st2)"

definition scan_line :: "string \<Rightarrow> mounts \<Rightarrow> mounts" where
  "scan_line raw st =
     (let line = trim_right raw [CHR '' '', CHR 0x09, CHR 0x0D]; trimmed = trim_space line in
      if trimmed = [] \<or> has_prefix trimmed ''#'' then st
      else
        (let indent = length line - length (trim_left line '' '') in
         if indent = 0 then st \<lparr> mo_inServices := (trimmed = ''services:''), mo_current := [], mo_inVolumes := False \<rparr>
         else if \<not> mo_inServices st then st
         else if indent = 2 \<and> has_suffix trimmed '':'' then
           (let svc = trim_suffix trimmed '':''
            in st \<lparr> mo_current := svc, mo_services := put svc [] (mo_services st), mo_inVolumes := False \<rparr>)
         else if mo_current st = [] then st
         else if indent = 4 \<and> trimmed = ''volumes:'' then st \<lparr> mo_inVolumes := True, mo_seenVolumes := True \<rparr>
         else scan_mount indent trimmed st))"

definition composeServiceMounts :: "string \<Rightarrow> (string \<times> string list) list \<times> bool \<times> bool" where
  "composeServiceMounts compose =
     (let st = fold scan_line (split_on newline compose)
            \<lparr> mo_services = [], mo_inServices = False, mo_inVolumes = False, mo_seenVolumes = False, mo_known = True, mo_current = [] \<rparr>
      in (mo_services st, mo_seenVolumes st, mo_known st))"

definition persistentMountsChanged :: "string \<Rightarrow> string \<Rightarrow> bool" where
  "persistentMountsChanged current replacement =
     (let (cm, chas, cknown) = composeServiceMounts current; (rm, rhas, rknown) = composeServiceMounts replacement in
      \<not> cknown \<or> \<not> rknown \<or> chas \<noteq> rhas \<or> length cm \<noteq> length rm \<or>
      (\<exists>(service, mounts) \<in> set cm. map_of rm service \<noteq> Some mounts))"

definition composeHasGPU :: "string \<Rightarrow> bool" where
  "composeHasGPU compose =
     (let c = to_lower compose in contains c ''driver: nvidia'' \<or> contains c ''[gpu]'' \<or> contains c ''- gpu'')"

subsection \<open>Provenance\<close>

text \<open>Go's early return on an error, with a message in front.\<close>

definition wrap_error :: "string \<Rightarrow> (fs_error + 'a) \<times> fsys \<Rightarrow> ('a \<Rightarrow> fsys \<Rightarrow> 'b result \<times> fsys) \<Rightarrow> 'b result \<times> fsys" where
  "wrap_error msg r k = (case r of (Inl e, s) \<Rightarrow> (Inl (msg @ fs_text e), s) | (Inr a, s) \<Rightarrow> k a s)"

definition writeTemplateProvenance :: "codec \<Rightarrow> StackTemplate list \<Rightarrow> string \<Rightarrow> string \<Rightarrow> fsys \<Rightarrow> unit result \<times> fsys" where
  "writeTemplateProvenance C catalog projectDir templateID s =
     (case GetBuiltinStackTemplate catalog templateID of
        None \<Rightarrow> (Inl (''catalog template '' @ quoted templateID @ '' is not available''), s)
      | Some tmpl \<Rightarrow>
          (let composePath = composeFileForDir fs_disk projectDir s in
           if composePath = [] then (Inl ''cannot record template provenance without a compose file'', s)
           else
             wrap_error ''read compose for template provenance: '' (read_node s composePath, s) (\<lambda>content s.
               wrap_error ''write template provenance: ''
                 (fs_write (path_join projectDir templateProvenanceFile)
                   (co_encode C \<lparr> tp_TemplateID = templateID, tp_TemplateSHA256 = co_sha256 C (st_ComposeContent tmpl),
                      tp_ComposeSHA256 = co_sha256 C content \<rparr> @ [newline]) s)
                 (\<lambda>_ s. (Inr (), s)))))"

definition templateForManagedProject :: "codec \<Rightarrow> StackTemplate list \<Rightarrow> Project \<Rightarrow> fsys \<Rightarrow> StackTemplate result" where
  "templateForManagedProject C catalog project s =
     (case read_node s (path_join (pr_Dir project) templateProvenanceFile) of
        Inl NotExist \<Rightarrow> Inl ''project is not explicitly managed by a catalog template''
      | Inl e \<Rightarrow> Inl (''read template provenance: '' @ fs_text e)
      | Inr payload \<Rightarrow>
          (case co_decode C payload of
             None \<Rightarrow> Inl ''template provenance is invalid''
           | Some pv \<Rightarrow>
               if tp_TemplateID pv = [] \<or> tp_TemplateSHA256 pv = [] \<or> tp_ComposeSHA256 pv = []
               then Inl ''template provenance is invalid''
               else if tp_ComposeSHA256 pv \<noteq> tp_TemplateSHA256 pv
               then Inl ''project compose was customized before catalog deployment''
               else
                 (case GetBuiltinStackTemplate catalog (tp_TemplateID pv) of
                    None \<Rightarrow> Inl (''catalog template '' @ quoted (tp_TemplateID pv) @ '' is no longer available'')
                  | Some tmpl \<Rightarrow>
                      (case read_node s (pr_ComposeFile project) of
                         Inl e \<Rightarrow> Inl (''read current compose: '' @ fs_text e)
                       | Inr current \<Rightarrow>
                           if co_sha256 C current \<noteq> tp_ComposeSHA256 pv
                           then Inl ''project compose has local changes after catalog deployment''
                           else Inr tmpl))))"

subsection \<open>Preview and update\<close>

record TemplateUpdatePreview =
  tu_HasTemplate :: bool
  tu_TemplateID :: string
  tu_TemplateName :: string
  tu_ComposeChanged :: bool
  tu_PersistentMountsChanged :: bool
  tu_NewEnvKeys :: "string list"
  tu_GPUApplied :: bool

text \<open>The code ignores the error of some reads and goes on with no contents.\<close>

definition read_or_empty :: "string \<Rightarrow> fsys \<Rightarrow> string" where
  "read_or_empty p s = (case read_node s p of Inl _ \<Rightarrow> [] | Inr c \<Rightarrow> c)"

definition PreviewTemplateUpdate :: "codec \<Rightarrow> StackTemplate list \<Rightarrow> Project \<Rightarrow> fsys \<Rightarrow> TemplateUpdatePreview" where
  "PreviewTemplateUpdate C catalog project s =
     (case templateForManagedProject C catalog project s of
        Inl _ \<Rightarrow>
          \<lparr> tu_HasTemplate = False, tu_TemplateID = [], tu_TemplateName = [], tu_ComposeChanged = False,
            tu_PersistentMountsChanged = False, tu_NewEnvKeys = [], tu_GPUApplied = False \<rparr>
      | Inr tmpl \<Rightarrow>
          (let curCompose = read_or_empty (pr_ComposeFile project) s;
               curEnv = read_or_empty (path_join (pr_Dir project) ''.env'') s
           in \<lparr> tu_HasTemplate = True, tu_TemplateID = st_ID tmpl, tu_TemplateName = st_Name tmpl,
                tu_ComposeChanged = (normalizeComposeText curCompose \<noteq> normalizeComposeText (st_ComposeContent tmpl)),
                tu_PersistentMountsChanged = persistentMountsChanged curCompose (st_ComposeContent tmpl),
                tu_NewEnvKeys = newEnvKeys curEnv (st_EnvContent tmpl), tu_GPUApplied = composeHasGPU curCompose \<rparr>))"

definition write_backup :: "string \<Rightarrow> string \<Rightarrow> string \<Rightarrow> string \<Rightarrow> fsys \<Rightarrow> unit result \<times> fsys" where
  "write_backup msg path ts content s =
     (if content = [] then (Inr (), s)
      else wrap_error msg (fs_write (path @ ''.bak-'' @ ts) content s) (\<lambda>_ s. (Inr (), s)))"

text \<open>\<open>ts\<close> is the time stamp of the call, as formatted.\<close>

definition and_next :: "'a result \<times> fsys \<Rightarrow> (fsys \<Rightarrow> 'b result \<times> fsys) \<Rightarrow> 'b result \<times> fsys" where
  "and_next r k = (case r of (Inl e, s) \<Rightarrow> (Inl e, s) | (Inr _, s) \<Rightarrow> k s)"

text \<open>The second half of the update: the \<^verbatim>\<open>.env\<close> file, then the provenance record.\<close>

definition migrate_env :: "codec \<Rightarrow> StackTemplate list \<Rightarrow> string \<Rightarrow> Project \<Rightarrow> StackTemplate \<Rightarrow> string \<Rightarrow> fsys \<Rightarrow> TemplateUpdatePreview result \<times> fsys" where
  "migrate_env C catalog ts project tmpl curCompose s =
     (let envPath = path_join (pr_Dir project) ''.env''; curEnv = read_or_empty envPath s in
      and_next (write_backup ''back up .env: '' envPath ts curEnv s) (\<lambda>s1.
      wrap_error ''write .env: '' (fs_write envPath (mergeEnvKeepingValues curEnv (st_EnvContent tmpl)) s1) (\<lambda>_ s2.
      and_next (writeTemplateProvenance C catalog (pr_Dir project) (st_ID tmpl) s2) (\<lambda>s3.
        (Inr \<lparr> tu_HasTemplate = True, tu_TemplateID = st_ID tmpl, tu_TemplateName = st_Name tmpl,
               tu_ComposeChanged = True, tu_PersistentMountsChanged = False,
               tu_NewEnvKeys = newEnvKeys curEnv (st_EnvContent tmpl), tu_GPUApplied = composeHasGPU curCompose \<rparr>, s3)))))"

definition ApplyTemplateUpdate :: "codec \<Rightarrow> StackTemplate list \<Rightarrow> string \<Rightarrow> Project \<Rightarrow> fsys \<Rightarrow> TemplateUpdatePreview result \<times> fsys" where
  "ApplyTemplateUpdate C catalog ts project s =
     (case templateForManagedProject C catalog project s of
        Inl e \<Rightarrow> (Inl (''catalog template update unavailable: '' @ e), s)
      | Inr tmpl \<Rightarrow>
          if pr_ComposeFile project = [] then (Inl ''project has no compose file to update'', s)
          else
            (let curCompose = read_or_empty (pr_ComposeFile project) s in
             if persistentMountsChanged curCompose (st_ComposeContent tmpl)
             then (Inl ''refusing catalog template apply: it changes service mount topology; review and migrate compose.yml manually'', s)
             else
               and_next (write_backup ''back up compose: '' (pr_ComposeFile project) ts curCompose s) (\<lambda>s1.
               wrap_error ''write compose: '' (fs_write (pr_ComposeFile project) (st_ComposeContent tmpl) s1)
                 (\<lambda>_. migrate_env C catalog ts project tmpl curCompose))))"

subsection \<open>Creating a project\<close>

record CreateProjectRequest =
  cq_Name :: string
  cq_TemplateID :: string
  cq_ComposeContent :: string
  cq_EnvContent :: string
  cq_RunAsUID :: string
  cq_RunAsGID :: string
  cq_EnforceUser :: "bool option"
  cq_Inactive :: bool
  cq_Overwrite :: bool

definition ascii_alnum :: "char \<Rightarrow> bool" where
  "ascii_alnum c = (CHR ''A'' \<le> c \<and> c \<le> CHR ''Z'' \<or> CHR ''a'' \<le> c \<and> c \<le> CHR ''z'' \<or> CHR ''0'' \<le> c \<and> c \<le> CHR ''9'')"

definition name_char :: "char \<Rightarrow> bool" where
  "name_char c = (ascii_alnum c \<or> c = CHR ''_'' \<or> c = CHR ''.'' \<or> c = CHR ''-'')"

definition validProjectDirName :: "string \<Rightarrow> bool" where
  "validProjectDirName name = (case name of [] \<Rightarrow> False | c # cs \<Rightarrow> ascii_alnum c \<and> list_all name_char cs)"

definition validComposeServiceName :: "string \<Rightarrow> bool" where
  "validComposeServiceName v = (v \<noteq> [] \<and> list_all name_char v)"

definition shouldEnforceCreateUser :: "CreateProjectRequest \<Rightarrow> bool" where
  "shouldEnforceCreateUser req = (cq_EnforceUser req = Some True)"

text \<open>\<open>server_uid\<close> and \<open>server_gid\<close> are the server's own user and group.\<close>

definition resolveCreateRunUser :: "int \<Rightarrow> int \<Rightarrow> CreateProjectRequest \<Rightarrow> (string \<times> string) result" where
  "resolveCreateRunUser server_uid server_gid req =
     (let uid0 = trim_space (cq_RunAsUID req); gid0 = trim_space (cq_RunAsGID req);
          uid = (if uid0 = [] then itoa server_uid else uid0); gid = (if gid0 = [] then itoa server_gid else gid0)
      in if \<not> numericID uid \<or> \<not> numericID gid then Inl ''run-as UID and GID must be numeric'' else Inr (uid, gid))"

text \<open>
  \<open>config\<close> stands for running \<^verbatim>\<open>docker compose -f F config --services\<close>: for the arguments, the directory and
  the added environment, its output, its error output and its error.
\<close>

type_synonym compose_config = "string list \<Rightarrow> string \<Rightarrow> string list \<Rightarrow> fsys \<Rightarrow> string \<times> string \<times> string option"

fun service_lines :: "string list \<Rightarrow> string list result" where
  "service_lines [] = Inr []"
| "service_lines (line # ls) =
     (let service = trim_space line in
      if service = [] then service_lines ls
      else if \<not> validComposeServiceName service then Inl (''invalid compose service name: '' @ service)
      else (case service_lines ls of Inl e \<Rightarrow> Inl e | Inr ss \<Rightarrow> Inr (service # ss)))"

definition user_env :: "string \<Rightarrow> string \<Rightarrow> string list" where
  "user_env uid gid = [''STACK_UID='' @ uid, ''STACK_GID='' @ gid, ''PUID='' @ uid, ''PGID='' @ gid, ''UID='' @ uid,
     ''GID='' @ gid, ''USER_UID='' @ uid, ''USER_GID='' @ gid]"

definition composeConfigServices :: "compose_config \<Rightarrow> string \<Rightarrow> string \<Rightarrow> string \<Rightarrow> string \<Rightarrow> fsys \<Rightarrow> string list result" where
  "composeConfigServices config projectDir composeFile uid gid s =
     (let (out, err_out, err) = config [''compose'', ''-f'', composeFile, ''config'', ''--services''] projectDir (user_env uid gid) s in
      case err of
        Some e \<Rightarrow> (let msg = trim_space err_out in
          Inl (''compose service discovery failed: '' @ (if msg = [] then e else msg)))
      | None \<Rightarrow> service_lines (split_on newline out))"

definition user_override :: "string list \<Rightarrow> string \<Rightarrow> string \<Rightarrow> string" where
  "user_override services uid gid =
     ''# Generated by Stack Manager. Edit STACK_UID/STACK_GID in .env or this file to run a stack as a different user.'' @ [newline]
     @ ''services:'' @ [newline]
     @ concat (map (\<lambda>service. ''  '' @ service @ '':'' @ [newline] @ ''    user: '' @ [CHR 0x22] @ ''${STACK_UID:-'' @ uid
         @ ''}:${STACK_GID:-'' @ gid @ ''}'' @ [CHR 0x22, newline]) services)"

definition lift_error :: "(fs_error + unit) \<times> fsys \<Rightarrow> unit result \<times> fsys" where
  "lift_error r = wrap_error [] r (\<lambda>_ s. (Inr (), s))"

definition writeComposeUserOverride :: "compose_config \<Rightarrow> string \<Rightarrow> string \<Rightarrow> string \<Rightarrow> string \<Rightarrow> fsys \<Rightarrow> unit result \<times> fsys" where
  "writeComposeUserOverride config projectDir composeFile uid gid s =
     (case composeConfigServices config projectDir composeFile uid gid s of
        Inl e \<Rightarrow> (Inl e, s)
      | Inr services \<Rightarrow>
          if services = [] then (Inr (), s)
          else lift_error (fs_write (path_join projectDir ''compose.override.yml'') (user_override services uid gid) s))"

text \<open>The files of a new project, after its directory and its compose file are written.\<close>

definition record_template :: "codec \<Rightarrow> StackTemplate list \<Rightarrow> string \<Rightarrow> CreateProjectRequest \<Rightarrow> fsys \<Rightarrow> unit result \<times> fsys" where
  "record_template C catalog projectDir req s =
     (if cq_TemplateID req \<noteq> [] then writeTemplateProvenance C catalog projectDir (cq_TemplateID req) s
      else if cq_Overwrite req then
        (case fs_remove (path_join projectDir templateProvenanceFile) s of
           (Inl NotExist, s1) \<Rightarrow> (Inr (), s1)
         | (Inl e, s1) \<Rightarrow> (Inl (''remove stale template provenance: '' @ fs_text e), s1)
         | (Inr _, s1) \<Rightarrow> (Inr (), s1))
      else (Inr (), s))"

definition fill_project :: "codec \<Rightarrow> StackTemplate list \<Rightarrow> compose_config \<Rightarrow> int \<Rightarrow> int \<Rightarrow> string \<Rightarrow> CreateProjectRequest \<Rightarrow> fsys \<Rightarrow> unit result \<times> fsys" where
  "fill_project C catalog config server_uid server_gid projectDir req s =
     (case resolveCreateRunUser server_uid server_gid req of
        Inl e \<Rightarrow> (Inl e, s)
      | Inr (uid, gid) \<Rightarrow>
          (let envContent = mergeRunUserEnv (cq_EnvContent req) uid gid in
           and_next (if envContent = [] then (Inr (), s) else lift_error (fs_write (path_join projectDir ''.env'') envContent s)) (\<lambda>s1.
           and_next (if shouldEnforceCreateUser req
                     then writeComposeUserOverride config projectDir (path_join projectDir ''compose.yml'') uid gid s1 else (Inr (), s1)) (\<lambda>s2.
           and_next (if cq_Inactive req then lift_error (fs_write (path_join projectDir inactiveMarker) [] s2) else (Inr (), s2))
             (record_template C catalog projectDir req)))))"

text \<open>
  \<open>CreateProject\<close> up to the call of \<open>buildProject\<close> (theory \<open>Discovery\<close>): the directory and the compose file
  of the new project. \<open>rootAbs\<close> is the absolute path of the root, a clean path.
\<close>

definition CreateProject :: "codec \<Rightarrow> StackTemplate list \<Rightarrow> compose_config \<Rightarrow> int \<Rightarrow> int \<Rightarrow> string result \<Rightarrow> CreateProjectRequest \<Rightarrow> fsys \<Rightarrow>
    (string \<times> string) result \<times> fsys" where
  "CreateProject C catalog config server_uid server_gid root_abs req s =
     (let name = trim_space (cq_Name req) in
      if \<not> validProjectDirName name
      then (Inl ''project name must start with a letter or number and contain only letters, numbers, dots, underscores, or hyphens'', s)
      else if trim_space (cq_ComposeContent req) = [] then (Inl ''compose content is required'', s)
      else if cq_TemplateID req \<noteq> [] \<and> GetBuiltinStackTemplate catalog (cq_TemplateID req) = None
      then (Inl (''unknown catalog template: '' @ cq_TemplateID req), s)
      else
        (case root_abs of
           Inl e \<Rightarrow> (Inl e, s)
         | Inr rootAbs \<Rightarrow>
             (let projectDir = path_join rootAbs name in
              case fs_stat projectDir s of
                Inl (FsError e) \<Rightarrow> (Inl e, s)
              | st \<Rightarrow>
                  if \<not> isl st \<and> \<not> cq_Overwrite req then (Inl (''project already exists: '' @ name), s)
                  else
                    and_next (lift_error (fs_mkdir_all projectDir s)) (\<lambda>s1.
                    and_next (lift_error (fs_write (path_join projectDir ''compose.yml'') (cq_ComposeContent req) s1)) (\<lambda>s2.
                    and_next (fill_project C catalog config server_uid server_gid projectDir req s2) (\<lambda>s3.
                      let cf = composeFileForDir fs_disk projectDir s3 in
                      if cf = [] then (Inl ''project was created but no compose file could be found'', s3)
                      else (Inr (projectDir, cf), s3)))))))"

section \<open>Early returns\<close>

lemma wrap_error_cases:
  assumes "wrap_error msg r k = (y, s')"
  obtains e where "r = (Inl e, s')" "y = Inl (msg @ fs_text e)" | a s1 where "r = (Inr a, s1)" "k a s1 = (y, s')"
  using assms by (auto simp: wrap_error_def split: prod.splits sum.splits)

lemma and_next_cases:
  assumes "and_next r k = (y, s')"
  obtains e where "r = (Inl e, s')" "y = Inl e" | a s1 where "r = (Inr a, s1)" "k s1 = (y, s')"
  using assms by (auto simp: and_next_def split: prod.splits sum.splits)

section \<open>An update from the catalog loses nothing\<close>

lemma write_backup_wrote:
  assumes "write_backup msg p ts c s = (r, s')" "linkless s"
  shows "(c = [] \<and> s' = s) \<or> (c \<noteq> [] \<and> wrote (p @ ''.bak-'' @ ts) c s s' (\<not> isl r))"
  using assms fs_write_wrote
  by (auto simp: write_backup_def split: if_splits elim!: wrap_error_cases) fastforce+

lemma templateForManagedProject_Inr:
  assumes "templateForManagedProject C catalog project s = Inr tmpl" "linkless s"
  shows "\<exists>pv c. read_node s (path_join (pr_Dir project) templateProvenanceFile) = Inr (pv) \<and>
    fs_nodes s (pr_ComposeFile project) = Some (File c) \<and> \<not> fs_unreadable s (pr_ComposeFile project) \<and>
    (\<exists>p. co_decode C pv = Some p \<and> tp_ComposeSHA256 p = co_sha256 C c \<and> tp_TemplateSHA256 p = co_sha256 C c \<and>
      GetBuiltinStackTemplate catalog (tp_TemplateID p) = Some tmpl)"
proof -
  obtain payload where pl: "read_node s (path_join (pr_Dir project) templateProvenanceFile) = Inr payload"
    using assms(1) by (auto simp: templateForManagedProject_def split: sum.splits fs_error.splits)
  obtain p where p: "co_decode C payload = Some p"
    using assms(1) pl by (auto simp: templateForManagedProject_def split: option.splits)
  obtain c where c: "read_node s (pr_ComposeFile project) = Inr c" "co_sha256 C c = tp_ComposeSHA256 p"
    "tp_ComposeSHA256 p = tp_TemplateSHA256 p" "GetBuiltinStackTemplate catalog (tp_TemplateID p) = Some tmpl"
    using assms(1) pl p by (auto simp: templateForManagedProject_def split: option.splits sum.splits if_splits)
  then show ?thesis using pl p read_node_File[OF assms(2)] by metis
qed

lemma writeTemplateProvenance_wrote:
  assumes "writeTemplateProvenance C catalog dir tid s = (r, s')" "linkless s"
  shows "s' = s \<or> (\<exists>x. wrote (path_join dir templateProvenanceFile) x s s' (\<not> isl r))"
  using assms fs_write_wrote
  by (auto simp: writeTemplateProvenance_def Let_def split: option.splits if_splits elim!: wrap_error_cases) fastforce+

text \<open>The files of a project that an update writes.\<close>

definition update_paths :: "Project \<Rightarrow> string \<Rightarrow> string list" where
  "update_paths project ts =
     (let cp = pr_ComposeFile project; ep = path_join (pr_Dir project) ''.env''
      in [cp, cp @ ''.bak-'' @ ts, ep, ep @ ''.bak-'' @ ts, path_join (pr_Dir project) templateProvenanceFile])"

definition compose_in_dir :: "Project \<Rightarrow> bool" where
  "compose_in_dir project = (\<exists>n \<in> set composeFileNames. pr_ComposeFile project = path_join (pr_Dir project) n)"

lemma update_paths_distinct: "compose_in_dir project \<Longrightarrow> distinct (update_paths project ts)"
  by (auto simp: compose_in_dir_def composeFileNames_def update_paths_def Let_def path_join_def templateProvenanceFile_def)

text \<open>\<open>kept c p b x\<close>: the text \<open>c\<close> is still at \<open>p\<close>, or in the backup \<open>b\<close>.\<close>

definition kept :: "string \<Rightarrow> string \<Rightarrow> string \<Rightarrow> fsys \<Rightarrow> bool" where
  "kept c p b x = (fs_nodes x p = Some (File c) \<or> fs_nodes x b = Some (File c))"

lemma kept_wrote: "kept c p b s \<Longrightarrow> wrote q x s s' ok \<Longrightarrow> q \<noteq> p \<Longrightarrow> q \<noteq> b \<Longrightarrow> kept c p b s'"
  by (auto simp: kept_def wrote_other)

text \<open>
  One file of the update: the backup of its text, then the new text. Wherever this stops, the old
  text is kept, and nothing else has changed.
\<close>

lemma replace_with_backup:
  assumes "linkless s" "fs_nodes s p = Some (File c)" "c \<noteq> []"
    and "and_next (write_backup m1 p ts c s) (\<lambda>s1. wrap_error m2 (fs_write p new s1) k) = (r, s')"
  obtains "isl r" "linkless s'" "kept c p (p @ ''.bak-'' @ ts) s'" "fs_unreadable s' = fs_unreadable s"
      "\<And>q. q \<notin> {p, p @ ''.bak-'' @ ts} \<Longrightarrow> fs_nodes s' q = fs_nodes s q"
  | s2 where "k () s2 = (r, s')" "linkless s2" "fs_nodes s2 p = Some (File new)" "fs_nodes s2 (p @ ''.bak-'' @ ts) = Some (File c)"
      "fs_unreadable s2 = fs_unreadable s" "\<And>q. q \<notin> {p, p @ ''.bak-'' @ ts} \<Longrightarrow> fs_nodes s2 q = fs_nodes s q"
  using assms(4)
proof (cases rule: and_next_cases)
  case (1 e)
  then have "wrote (p @ ''.bak-'' @ ts) c s s' False"
    using write_backup_wrote[OF _ assms(1), of m1 p ts c "Inl e" s'] assms(3) by auto
  then show ?thesis
    using that(1) 1 assms(2) wrote_other wrote_linkless by (auto simp: kept_def)
next
  case (2 a s1)
  then have w1: "wrote (p @ ''.bak-'' @ ts) c s s1 True"
    using write_backup_wrote[OF 2(1) assms(1)] assms(3) by auto
  note b1 = wrote_ok[OF w1] and l1 = wrote_linkless[OF w1]
  from 2(2) show ?thesis
  proof (cases rule: wrap_error_cases)
    case (1 e)
    then have "wrote p new s1 s' False" using fs_write_wrote[OF 1(1)] l1 by simp
    then show ?thesis
      using that(1) 1 b1 l1 wrote_other[OF w1] wrote_other wrote_linkless by (auto simp: kept_def)
  next
    case (2 u s2)
    then have w2: "wrote p new s1 s2 True" using fs_write_wrote[OF 2(1)] l1 by simp
    then show ?thesis
      using that(2)[of s2] 2 b1 l1 wrote_ok[OF w2] wrote_other[OF w1] wrote_other[OF w2] wrote_linkless[OF w2] by auto
  qed
qed

lemma migrate_env_keeps:
  fixes project :: Project
  defines "ep \<equiv> path_join (pr_Dir project) ''.env''"
  assumes "linkless s" "migrate_env C catalog ts project tmpl c s = (r, s')"
    and v: "fs_nodes s ep = Some (File v)" "v \<noteq> []" "\<not> fs_unreadable s ep"
    and dist: "ep @ ''.bak-'' @ ts \<noteq> path_join (pr_Dir project) templateProvenanceFile"
  shows "kept v ep (ep @ ''.bak-'' @ ts) s' \<and>
    (\<forall>q. q \<notin> {ep, ep @ ''.bak-'' @ ts, path_join (pr_Dir project) templateProvenanceFile} \<longrightarrow> fs_nodes s' q = fs_nodes s q)"
proof -
  have "read_or_empty ep s = v"
    using v read_node_File[OF assms(2), of ep v] by (simp add: read_or_empty_def)
  with assms(3) have "and_next (write_backup ''back up .env: '' ep ts v s) (\<lambda>s1.
      wrap_error ''write .env: '' (fs_write ep (mergeEnvKeepingValues v (st_EnvContent tmpl)) s1) (\<lambda>_ s2.
      and_next (writeTemplateProvenance C catalog (pr_Dir project) (st_ID tmpl) s2) (\<lambda>s3.
        (Inr \<lparr> tu_HasTemplate = True, tu_TemplateID = st_ID tmpl, tu_TemplateName = st_Name tmpl,
               tu_ComposeChanged = True, tu_PersistentMountsChanged = False,
               tu_NewEnvKeys = newEnvKeys v (st_EnvContent tmpl), tu_GPUApplied = composeHasGPU c \<rparr>, s3)))) = (r, s')"
    by (simp add: migrate_env_def Let_def ep_def)
  from assms(2) v(1,2) this show ?thesis
  proof (cases rule: replace_with_backup)
    case 1
    then show ?thesis by simp
  next
    case (2 s2)
    obtain r3 where "writeTemplateProvenance C catalog (pr_Dir project) (st_ID tmpl) s2 = (r3, s')"
      using 2(1) by (auto elim!: and_next_cases)
    from writeTemplateProvenance_wrote[OF this 2(2)]
    have last: "fs_nodes s' q = fs_nodes s2 q" if "q \<noteq> path_join (pr_Dir project) templateProvenanceFile" for q
      using that wrote_other by fastforce
    have "fs_nodes s' (ep @ ''.bak-'' @ ts) = Some (File v)" using last[OF dist] 2(4) by simp
    then show ?thesis using last 2(6) by (simp add: kept_def)
  qed
qed



section \<open>A successful update can be repeated\<close>

lemma and_next_Inr: "and_next r k = (Inr y, s') \<Longrightarrow> \<exists>a s1. r = (Inr a, s1) \<and> k s1 = (Inr y, s')"
  by (erule and_next_cases) auto

lemma wrap_error_Inr: "wrap_error msg r k = (Inr y, s') \<Longrightarrow> \<exists>a s1. r = (Inr a, s1) \<and> k a s1 = (Inr y, s')"
  by (erule wrap_error_cases) auto

lemma find_trimmed:
  assumes "GetBuiltinStackTemplate catalog tid = Some tmpl"
  shows "GetBuiltinStackTemplate catalog (st_ID tmpl) = Some tmpl"
proof -
  have "st_ID tmpl = trim_space tid" using find_Some_in[OF assms[unfolded GetBuiltinStackTemplate_def]] by simp
  then show ?thesis using assms by (simp add: GetBuiltinStackTemplate_def)
qed

lemma compose_names_apart:
  assumes "n \<in> set composeFileNames" "m \<in> set composeFileNames"
  shows "n \<noteq> m @ ''.bak-'' @ ts" "n \<noteq> ''.env''" "n \<noteq> ''.env.bak-'' @ ts"
  using assms by (auto simp: composeFileNames_def)

lemma compose_file_stable:
  assumes "linkless s" "linkless s'" "composeFileForDir fs_disk dir s = cp" "cp \<noteq> []"
    and "fs_nodes s' cp = Some (File x)" "\<forall>n \<in> set composeFileNames. path_join dir n \<noteq> cp \<longrightarrow> fs_nodes s' (path_join dir n) = fs_nodes s (path_join dir n)"
  shows "composeFileForDir fs_disk dir s' = cp"
proof -
  have st: "plain_file (dk_stat fs_disk p t) = (\<exists>c. fs_nodes t p = Some (File c))" if "linkless t" for p t
    using follow_linkless[OF that] that
    by (auto simp: plain_file_def fs_disk_def linkless_def split: option.splits node.splits)
  have "plain_file (dk_stat fs_disk cp s)"
    using assms(3,4) by (auto simp: composeFileForDir_def split: option.splits dest!: find_Some_in)
  then have "plain_file (dk_stat fs_disk p s') = plain_file (dk_stat fs_disk p s)" if "p \<in> set (map (path_join dir) composeFileNames)" for p
    using that assms(5,6) st[OF assms(1)] st[OF assms(2)] by (cases "p = cp") auto
  then have "find (\<lambda>p. plain_file (dk_stat fs_disk p s')) (map (path_join dir) composeFileNames)
      = find (\<lambda>p. plain_file (dk_stat fs_disk p s)) (map (path_join dir) composeFileNames)"
    by (intro find_cong) auto
  then show ?thesis using assms(3) by (simp add: composeFileForDir_def)
qed

lemma writeTemplateProvenance_Inr:
  assumes "writeTemplateProvenance C catalog dir tid s = (Inr u, s')" "linkless s"
    and "GetBuiltinStackTemplate catalog tid = Some tmpl" "composeFileForDir fs_disk dir s = cp" "fs_nodes s cp = Some (File x)"
  shows "wrote (path_join dir templateProvenanceFile)
    (co_encode C \<lparr> tp_TemplateID = tid, tp_TemplateSHA256 = co_sha256 C (st_ComposeContent tmpl), tp_ComposeSHA256 = co_sha256 C x \<rparr> @ [newline]) s s' True
    \<and> \<not> fs_unreadable s cp"
proof -
  let ?pp = "path_join dir templateProvenanceFile"
  let ?pv = "\<lambda>y. co_encode C \<lparr> tp_TemplateID = tid, tp_TemplateSHA256 = co_sha256 C (st_ComposeContent tmpl), tp_ComposeSHA256 = co_sha256 C y \<rparr> @ [newline]"
  have "wrap_error ''read compose for template provenance: '' (read_node s cp, s) (\<lambda>content s.
      wrap_error ''write template provenance: '' (fs_write ?pp (?pv content) s) (\<lambda>_ s. (Inr (), s))) = (Inr u, s')"
    using assms(1,3,4) by (simp add: writeTemplateProvenance_def Let_def split: if_splits)
  from wrap_error_Inr[OF this] obtain y where y: "read_node s cp = Inr y"
    "wrap_error ''write template provenance: '' (fs_write ?pp (?pv y) s) (\<lambda>_ s. (Inr (), s)) = (Inr u, s')"
    by auto
  from wrap_error_Inr[OF y(2)] obtain a where w: "fs_write ?pp (?pv y) s = (Inr a, s')" by auto
  have "y = x" "\<not> fs_unreadable s cp" using y(1) read_node_File[OF assms(2)] assms(5) by auto
  then show ?thesis using fs_write_wrote[OF w assms(2)] by simp
qed

text \<open>The laws of the outside: the JSON record reads back, and a hash is never empty.\<close>

definition codec_laws :: "codec \<Rightarrow> bool" where
  "codec_laws C = ((\<forall>p. co_decode C (co_encode C p @ [newline]) = Some p) \<and> (\<forall>x. co_sha256 C x \<noteq> []))"

lemma recorded_project_is_managed:
  assumes "codec_laws C" "linkless s" "GetBuiltinStackTemplate catalog (st_ID tmpl) = Some tmpl" "st_ID tmpl \<noteq> []"
    and "fs_nodes s (pr_ComposeFile project) = Some (File (st_ComposeContent tmpl))" "\<not> fs_unreadable s (pr_ComposeFile project)"
    and "fs_nodes s (path_join (pr_Dir project) templateProvenanceFile) =
      Some (File (co_encode C \<lparr> tp_TemplateID = st_ID tmpl, tp_TemplateSHA256 = co_sha256 C (st_ComposeContent tmpl),
        tp_ComposeSHA256 = co_sha256 C (st_ComposeContent tmpl) \<rparr> @ [newline]))"
      "\<not> fs_unreadable s (path_join (pr_Dir project) templateProvenanceFile)"
  shows "templateForManagedProject C catalog project s = Inr tmpl"
  using assms(1,3,4) read_node_File[OF assms(2), THEN iffD2, OF conjI, OF assms(5,6)]
    read_node_File[OF assms(2), THEN iffD2, OF conjI, OF assms(7,8)]
  by (simp add: templateForManagedProject_def codec_laws_def)

text \<open>A backup changes at most the backup file.\<close>

lemma write_backup_Inr:
  assumes "write_backup m p ts c s = (Inr u, s1)" "linkless s"
  shows "linkless s1 \<and> fs_unreadable s1 = fs_unreadable s \<and> (\<forall>q. q \<noteq> p @ ''.bak-'' @ ts \<longrightarrow> fs_nodes s1 q = fs_nodes s q)"
  using write_backup_wrote[OF assms] assms(2) wrote_other wrote_linkless by blast

lemma backed_up_write:
  assumes "and_next (write_backup m1 p ts c s) (\<lambda>s1. wrap_error m2 (fs_write p new s1) k) = (Inr y, s')" "linkless s"
  shows "\<exists>s2. k () s2 = (Inr y, s') \<and> linkless s2 \<and> fs_unreadable s2 = fs_unreadable s \<and> fs_nodes s2 p = Some (File new) \<and>
    (\<forall>q. q \<notin> {p, p @ ''.bak-'' @ ts} \<longrightarrow> fs_nodes s2 q = fs_nodes s q)"
proof -
  obtain u s1 where 1: "write_backup m1 p ts c s = (Inr u, s1)" "wrap_error m2 (fs_write p new s1) k = (Inr y, s')"
    using and_next_Inr[OF assms(1)] by blast
  obtain a s2 where 2: "fs_write p new s1 = (Inr a, s2)" "k () s2 = (Inr y, s')"
    using wrap_error_Inr[OF 1(2)] by auto
  note b = write_backup_Inr[OF 1(1) assms(2)]
  have w: "wrote p new s1 s2 True" using fs_write_wrote[OF 2(1)] b by simp
  show ?thesis using 2(2) b wrote_ok[OF w] wrote_other[OF w] wrote_linkless[OF w] by auto
qed

lemma migrate_env_Inr:
  fixes project :: Project
  defines "ep \<equiv> path_join (pr_Dir project) ''.env''"
  assumes "migrate_env C catalog ts project tmpl c s = (Inr preview, s')" "linkless s"
  shows "\<exists>s1 u. writeTemplateProvenance C catalog (pr_Dir project) (st_ID tmpl) s1 = (Inr u, s') \<and> linkless s1 \<and>
    fs_unreadable s1 = fs_unreadable s \<and> fs_nodes s1 ep = Some (File (mergeEnvKeepingValues (read_or_empty ep s) (st_EnvContent tmpl))) \<and>
    (\<forall>q. q \<notin> {ep, ep @ ''.bak-'' @ ts} \<longrightarrow> fs_nodes s1 q = fs_nodes s q)"
proof -
  let ?k = "\<lambda>_ s2. and_next (writeTemplateProvenance C catalog (pr_Dir project) (st_ID tmpl) s2) (\<lambda>s3.
        (Inr \<lparr> tu_HasTemplate = True, tu_TemplateID = st_ID tmpl, tu_TemplateName = st_Name tmpl,
               tu_ComposeChanged = True, tu_PersistentMountsChanged = False,
               tu_NewEnvKeys = newEnvKeys (read_or_empty ep s) (st_EnvContent tmpl), tu_GPUApplied = composeHasGPU c \<rparr>, s3))"
  have "and_next (write_backup ''back up .env: '' ep ts (read_or_empty ep s) s) (\<lambda>s1. wrap_error ''write .env: ''
      (fs_write ep (mergeEnvKeepingValues (read_or_empty ep s) (st_EnvContent tmpl)) s1) ?k) = (Inr preview, s')"
    using assms(2) by (simp add: migrate_env_def Let_def ep_def)
  from backed_up_write[OF this assms(3)] obtain s1 where s1: "?k () s1 = (Inr preview, s')" "linkless s1"
    "fs_unreadable s1 = fs_unreadable s" "fs_nodes s1 ep = Some (File (mergeEnvKeepingValues (read_or_empty ep s) (st_EnvContent tmpl)))"
    "\<forall>q. q \<notin> {ep, ep @ ''.bak-'' @ ts} \<longrightarrow> fs_nodes s1 q = fs_nodes s q"
    by blast
  from and_next_Inr[OF s1(1)] obtain u where "writeTemplateProvenance C catalog (pr_Dir project) (st_ID tmpl) s1 = (Inr u, s')"
    by auto
  then show ?thesis using s1 by blast
qed



section \<open>Mounts\<close>

lemma scan_line_keys: "distinct (map fst (mo_services st)) \<Longrightarrow> distinct (map fst (mo_services (scan_line raw st)))"
  by (auto simp: scan_line_def scan_mount_def put_def Let_def distinct_update)

lemma scan_lines_keys: "distinct (map fst (mo_services st)) \<Longrightarrow> distinct (map fst (mo_services (fold scan_line ls st)))"
  by (induction ls arbitrary: st) (simp_all add: scan_line_keys)

lemma composeServiceMounts_keys: "composeServiceMounts c = (m, b, k) \<Longrightarrow> distinct (map fst m)"
  using scan_lines_keys by (fastforce simp: composeServiceMounts_def Let_def)

lemma same_length_same_map:
  assumes "distinct (map fst a)" "distinct (map fst b)" "length a = length b" "\<forall>(k, v) \<in> set a. map_of b k = Some v"
  shows "map_of a = map_of b"
proof -
  have sub: "map_of a \<subseteq>\<^sub>m map_of b"
    unfolding map_le_def
  proof
    fix k assume "k \<in> dom (map_of a)"
    then obtain v where "map_of a k = Some v" by auto
    then show "map_of a k = map_of b k" using assms(4) map_of_SomeD by fastforce
  qed
  have "card (dom (map_of a)) = card (dom (map_of b))"
    using assms(1-3) by (simp add: dom_map_of_conv_image_fst distinct_card flip: set_map)
  then have "dom (map_of a) = dom (map_of b)"
    using sub map_le_implies_dom_le[OF sub] by (intro card_subset_eq) (auto simp: finite_dom_map_of)
  then show ?thesis using sub by (metis map_le_antisym map_le_def)
qed

text \<open>
  The guard of an update says no change exactly when both files have only mounts the scanner
  understands, agree on having any, and list the same mounts in the same order for the same services.
\<close>

theorem persistentMountsChanged_exact:
  "\<not> persistentMountsChanged current replacement \<longleftrightarrow>
     (case (composeServiceMounts current, composeServiceMounts replacement) of
        ((cm, chas, cknown), (rm, rhas, rknown)) \<Rightarrow> cknown \<and> rknown \<and> chas = rhas \<and> map_of cm = map_of rm)"
proof -
  obtain cm chas ck where c: "composeServiceMounts current = (cm, chas, ck)" by (metis prod_cases3)
  obtain rm rhas rk where r: "composeServiceMounts replacement = (rm, rhas, rk)" by (metis prod_cases3)
  note dc = composeServiceMounts_keys[OF c] and dr = composeServiceMounts_keys[OF r]
  have "length cm = length rm" if "map_of cm = map_of rm"
  proof -
    have "set (map fst cm) = set (map fst rm)" using that by (metis dom_map_of_conv_image_fst set_map)
    then show ?thesis using dc dr by (metis distinct_card length_map)
  qed
  moreover have "\<forall>(k, v) \<in> set cm. map_of rm k = Some v" if "map_of cm = map_of rm"
    using that dc map_of_is_SomeI[OF dc] by auto
  moreover have "map_of cm = map_of rm" if "length cm = length rm" "\<forall>(k, v) \<in> set cm. map_of rm k = Some v"
    using same_length_same_map[OF dc dr that] .
  ultimately show ?thesis
    by (simp add: persistentMountsChanged_def c r) blast
qed


section \<open>Creation stays in the new directory\<close>

definition parents :: "string \<Rightarrow> string set" where
  "parents p = (\<lambda>i. concat (map (\<lambda>c. CHR ''/'' # c) (take i (components p)))) ` {0..length (components p)}"

lemma make_dirs_effect:
  "make_dirs base cs m = Inr m' \<Longrightarrow> m' q \<noteq> m q \<Longrightarrow>
   m q = None \<and> m' q = Some Folder \<and> (\<exists>i \<le> length cs. q = base @ concat (map (\<lambda>c. CHR ''/'' # c) (take i cs)))"
proof (induction cs arbitrary: base m)
  case (Cons c cs)
  let ?p = "base @ ''/'' @ c"
  have up: "\<exists>i \<le> length (c # cs). q = base @ concat (map (\<lambda>c. CHR ''/'' # c) (take i (c # cs)))"
    if "\<exists>i \<le> length cs. q = ?p @ concat (map (\<lambda>c. CHR ''/'' # c) (take i cs))"
  proof -
    from that obtain i where "i \<le> length cs" "q = ?p @ concat (map (\<lambda>c. CHR ''/'' # c) (take i cs))" by blast
    then show ?thesis by (intro exI[of _ "Suc i"]) simp
  qed
  show ?case
  proof (cases "m ?p")
    case None
    then have md: "make_dirs ?p cs (m(?p \<mapsto> Folder)) = Inr m'" using Cons.prems(1) by (simp add: Let_def)
    show ?thesis
    proof (cases "m' q \<noteq> (m(?p \<mapsto> Folder)) q")
      case True
      then show ?thesis using Cons.IH[OF md True] up by (auto split: if_splits)
    next
      case False
      then have "q = ?p" using Cons.prems(2) by (auto split: if_splits)
      then show ?thesis using False None by (auto intro!: exI[of _ "Suc 0"])
    qed
  next
    case (Some x)
    then have md: "make_dirs ?p cs m = Inr m'" using Cons.prems(1) by (cases x) (simp_all add: Let_def)
    then show ?thesis using Cons.IH[OF md Cons.prems(2)] up by blast
  qed
qed simp

text \<open>\<open>grew F p s s'\<close>: only the files \<open>F\<close> changed, and missing directories down to \<open>p\<close> were made.\<close>

definition grew :: "string set \<Rightarrow> string \<Rightarrow> fsys \<Rightarrow> fsys \<Rightarrow> bool" where
  "grew F p s s' = (\<forall>q. q \<notin> F \<longrightarrow> fs_nodes s' q = fs_nodes s q \<or> (fs_nodes s q = None \<and> fs_nodes s' q = Some Folder \<and> q \<in> parents p))"

lemma grew_refl [simp]: "grew F p s s"
  by (simp add: grew_def)

lemma grew_trans:
  "grew F p s s1 \<Longrightarrow> (\<forall>q. q \<notin> F \<longrightarrow> fs_nodes s2 q = fs_nodes s1 q) \<Longrightarrow> grew F p s s2"
  by (simp add: grew_def)


definition only :: "string set \<Rightarrow> fsys \<Rightarrow> fsys \<Rightarrow> bool" where
  "only F s s' = (linkless s' \<and> (\<forall>q. q \<notin> F \<longrightarrow> fs_nodes s' q = fs_nodes s q))"

lemma only_refl: "linkless s \<Longrightarrow> only F s s"
  by (simp add: only_def)

lemma only_wrote: "wrote p c s s' ok \<Longrightarrow> p \<in> F \<Longrightarrow> only F s s'"
  using wrote_other wrote_linkless by (fastforce simp: only_def)

lemma only_trans: "only F s s1 \<Longrightarrow> only F s1 s2 \<Longrightarrow> only F s s2"
  by (simp add: only_def)

lemma only_and_next:
  assumes "linkless s \<Longrightarrow> only F s (snd r)" "\<And>s1. linkless s1 \<Longrightarrow> only F s1 (snd (k s1))" "linkless s"
  shows "only F s (snd (and_next r k))"
proof -
  obtain x s1 where r: "r = (x, s1)" by (rule prod.exhaust)
  then have "only F s s1" using assms by simp
  then show ?thesis
    using assms(2)[of s1] only_trans[of F s s1] by (cases x) (auto simp: and_next_def r only_def)
qed

lemma snd_lift_error [simp]: "snd (lift_error r) = snd r"
  by (auto simp: lift_error_def wrap_error_def split: prod.splits sum.splits)

lemma only_write: "linkless s \<Longrightarrow> p \<in> F \<Longrightarrow> only F s (snd (fs_write p c s))"
  by (cases "fs_write p c s") (auto intro: only_wrote dest: fs_write_wrote)

lemma only_remove: "linkless s \<Longrightarrow> p \<in> F \<Longrightarrow> fs_remove p s = (r, s') \<Longrightarrow> only F s s'"
  by (auto simp: fs_remove_def sys_def only_def linkless_def split: list.splits option.splits if_splits)

lemma only_provenance:
  "linkless s \<Longrightarrow> path_join dir templateProvenanceFile \<in> F \<Longrightarrow> only F s (snd (writeTemplateProvenance C catalog dir tid s))"
  by (cases "writeTemplateProvenance C catalog dir tid s") (auto dest!: writeTemplateProvenance_wrote intro: only_refl only_wrote)

text \<open>The files that creating a project may write in its directory.\<close>

definition project_files :: "string \<Rightarrow> string set" where
  "project_files dir = path_join dir ` {''compose.yml'', ''.env'', ''compose.override.yml'', inactiveMarker, templateProvenanceFile}"

lemma only_fill_project:
  assumes "linkless s"
  shows "only (project_files dir - {path_join dir ''compose.yml''}) s (snd (fill_project C catalog config u g dir req s))"
proof (cases "resolveCreateRunUser u g req")
  case (Inl e)
  then show ?thesis using assms by (simp add: fill_project_def only_refl)
next
  case (Inr ug)
  let ?F = "project_files dir - {path_join dir ''compose.yml''}"
  obtain uid gid where ug: "ug = (uid, gid)" by (rule prod.exhaust)
  have names: "path_join dir n \<in> ?F" if "n \<in> {''.env'', ''compose.override.yml'', inactiveMarker, templateProvenanceFile}" for n
    using that by (auto simp: project_files_def path_join_def inactiveMarker_def templateProvenanceFile_def)
  have rec: "only ?F s (snd (record_template C catalog dir req s))" if "linkless s" for s
    using that names by (auto simp: record_template_def only_refl split: prod.splits sum.splits fs_error.splits
        intro!: only_provenance intro: only_remove)
  have ovr: "only ?F s (snd (writeComposeUserOverride config dir f uid gid s))" if "linkless s" for s f
    using that names by (auto simp: writeComposeUserOverride_def only_refl split: sum.splits intro: only_write)
  show ?thesis
    unfolding fill_project_def Inr ug sum.case prod.case Let_def
    by (intro only_and_next assms) (auto simp: only_refl rec ovr intro!: only_write names)
qed

lemma fill_keeps_linkless: "linkless s \<Longrightarrow> linkless (snd (fill_project C catalog config u g dir req s))"
  using only_fill_project by (auto simp: only_def)

lemma mkdir_effect:
  assumes "fs_mkdir_all p s = (r, s')" "linkless s"
  shows "linkless s' \<and> grew {} p s s'"
proof (cases "\<exists>m. make_dirs [] (components p) (fs_nodes s) = Inr m")
  case True
  then obtain m where m: "make_dirs [] (components p) (fs_nodes s) = Inr m" by blast
  have new: "m q = fs_nodes s q \<or> fs_nodes s q = None \<and> m q = Some Folder \<and> q \<in> parents p" for q
    using make_dirs_effect[OF m, of q] by (fastforce simp: parents_def)
  have "\<forall>p t. m p \<noteq> Some (Link t)"
  proof (intro allI notI)
    fix p t assume "m p = Some (Link t)"
    then show False using new[of p] assms(2) by (auto simp: linkless_def) metis
  qed
  moreover have "fs_nodes s' = m \<or> fs_nodes s' = fs_nodes s"
    using assms(1) m by (auto simp: fs_mkdir_all_def sys_def split: list.splits option.splits)
  ultimately show ?thesis
    using new assms(2) unfolding grew_def linkless_def by metis
next
  case False
  then show ?thesis
    using assms by (auto simp: fs_mkdir_all_def sys_def grew_def linkless_def split: list.splits option.splits sum.splits)
qed

lemma valid_name_plain:
  assumes "validProjectDirName name"
  shows "name \<noteq> []" "CHR ''/'' \<notin> set name" "name \<noteq> ''.''" "name \<noteq> ''..''"
  using assms by (auto simp: validProjectDirName_def name_char_def ascii_alnum_def list_all_iff split: list.splits)

lemma CreateProject_cases:
  assumes "CreateProject C catalog config u g (Inr root) req s = (r, s')"
  defines "dir \<equiv> path_join root (trim_space (cq_Name req))"
  shows "isl r \<and> s' = s \<or> validProjectDirName (trim_space (cq_Name req)) \<and> (fs_stat dir s = Inl NotExist \<or> cq_Overwrite req) \<and>
    and_next (lift_error (fs_mkdir_all dir s)) (\<lambda>s1.
      and_next (lift_error (fs_write (path_join dir ''compose.yml'') (cq_ComposeContent req) s1)) (\<lambda>s2.
      and_next (fill_project C catalog config u g dir req s2) (\<lambda>s3.
        let cf = composeFileForDir fs_disk dir s3 in
        if cf = [] then (Inl ''project was created but no compose file could be found'', s3)
        else (Inr (dir, cf), s3)))) = (r, s')"
  using assms by (auto simp: CreateProject_def Let_def split: if_splits sum.splits fs_error.splits)




section \<open>Examples\<close>

fun dec_field :: "string \<Rightarrow> (string \<times> string) option" where
  "dec_field (x # c # r) =
     (if x = CHR ''x'' then (case dec_field r of Some (f, r') \<Rightarrow> Some (c # f, r') | None \<Rightarrow> None) else Some ([], c # r))"
| "dec_field _ = None"

definition enc_field :: "string \<Rightarrow> string" where
  "enc_field s = concat (map (\<lambda>c. [CHR ''x'', c]) s) @ ''y''"

lemma dec_enc_field: "r \<noteq> [] \<Longrightarrow> dec_field (enc_field s @ r) = Some (s, r)"
  by (induction s) (auto simp: enc_field_def neq_Nil_conv)

definition demo_codec :: codec where
  "demo_codec = \<lparr> co_sha256 = (\<lambda>x. CHR ''h'' # x),
     co_encode = (\<lambda>p. enc_field (tp_TemplateID p) @ enc_field (tp_TemplateSHA256 p) @ enc_field (tp_ComposeSHA256 p)),
     co_decode = (\<lambda>s. case dec_field s of None \<Rightarrow> None | Some (a, r) \<Rightarrow>
       (case dec_field r of None \<Rightarrow> None | Some (b, r2) \<Rightarrow> (case dec_field r2 of None \<Rightarrow> None | Some (c, _) \<Rightarrow>
          Some \<lparr> tp_TemplateID = a, tp_TemplateSHA256 = b, tp_ComposeSHA256 = c \<rparr>))) \<rparr>"

lemma demo_codec_laws: "codec_laws demo_codec"
proof -
  have ne: "enc_field a \<noteq> []" for a by (simp add: enc_field_def)
  show ?thesis
    by (auto simp: codec_laws_def demo_codec_def dec_enc_field ne)
qed

definition demo_compose :: "string \<Rightarrow> string" where
  "demo_compose img = ''services:'' @ [newline] @ ''  web:'' @ [newline] @ ''    image: '' @ img @ [newline]
     @ ''    volumes:'' @ [newline] @ ''      - data:/srv'' @ [newline]"

definition demo_catalog :: "StackTemplate list" where
  "demo_catalog = [\<lparr> st_ID = ''web'', st_Name = ''Web'', st_ComposeContent = demo_compose ''nginx:2'',
     st_EnvContent = ''PORT=80'' @ [newline] @ ''NEW=1'' @ [newline] \<rparr>]"

definition demo_project :: Project where
  "demo_project = blank_project \<lparr> pr_Name := ''web'', pr_Dir := ''/srv/web'', pr_ComposeFile := ''/srv/web/compose.yml'' \<rparr>"

definition demo_env :: string where
  "demo_env = ''PORT=8080'' @ [newline]"

definition demo_fs :: "fault option list \<Rightarrow> fsys" where
  "demo_fs faults = \<lparr> fs_nodes = map_of
     [(''/srv'', Folder), (''/srv/web'', Folder), (''/srv/web/compose.yml'', File (demo_compose ''nginx:1'')),
      (''/srv/web/.env'', File demo_env),
      (''/srv/web/.stack-manager-template.json'', File (co_encode demo_codec \<lparr> tp_TemplateID = ''web'',
          tp_TemplateSHA256 = co_sha256 demo_codec (demo_compose ''nginx:1''),
          tp_ComposeSHA256 = co_sha256 demo_codec (demo_compose ''nginx:1'') \<rparr> @ [newline]))],
     fs_unreadable = (\<lambda>_. False), fs_faults = faults \<rparr>"

lemma demo_fs_linkless: "linkless (demo_fs faults)"
  by (simp add: linkless_def demo_fs_def)

lemma demo_in_dir: "compose_in_dir demo_project"
  by (simp add: compose_in_dir_def demo_project_def composeFileNames_def path_join_def)



definition demo_create :: CreateProjectRequest where
  "demo_create = \<lparr> cq_Name = '' blog '', cq_TemplateID = [], cq_ComposeContent = demo_compose ''ghost'', cq_EnvContent = [],
     cq_RunAsUID = [], cq_RunAsGID = ''users'', cq_EnforceUser = None, cq_Inactive = False, cq_Overwrite = False \<rparr>"


text \<open>
  A group that is not a number is refused only after the directory and the compose file exist: the
  second attempt, with a valid group, finds an existing project.
\<close>

lemma refused_creation_blocks_retry:
  "let run = CreateProject demo_codec demo_catalog (\<lambda>_ _ _ _. ([], [], None)) 1000 1000 (Inr ''/srv'');
       (r1, s1) = run demo_create (demo_fs []); (r2, s2) = run (demo_create \<lparr> cq_RunAsGID := [] \<rparr>) s1
   in r1 = Inl ''run-as UID and GID must be numeric'' \<and> r2 = Inl ''project already exists: blog''"
  by code_simp

text \<open>An unreadable \<^verbatim>\<open>.env\<close> counts as empty: its values are overwritten without a backup.\<close>

lemma unreadable_env_is_lost:
  "let s = demo_fs [] \<lparr> fs_unreadable := (\<lambda>p. p = ''/srv/web/.env'') \<rparr>;
       (r, s') = ApplyTemplateUpdate demo_codec demo_catalog ''1'' demo_project s
   in \<not> isl r \<and> fs_nodes s' ''/srv/web/.env'' = Some (File (''PORT=80'' @ [newline] @ ''NEW=1'' @ [newline])) \<and>
      fs_nodes s' ''/srv/web/.env.bak-1'' = None"
  by code_simp

text \<open>An update that stops half way cannot be repeated: the new compose file counts as a local change.\<close>

lemma half_update_is_stuck:
  "let (r, s') = ApplyTemplateUpdate demo_codec demo_catalog ''1'' demo_project (demo_fs [None, None, Some (Refuse ''disk full'')])
   in r = Inl ''back up .env: disk full'' \<and>
      templateForManagedProject demo_codec demo_catalog demo_project s' = Inl ''project compose has local changes after catalog deployment''"
  by code_simp

text \<open>Mounts in long syntax that do not begin with their type are compared by their first line only.\<close>

lemma long_syntax_mounts_unseen:
  "\<not> persistentMountsChanged
     (''services:'' @ [newline] @ ''  db:'' @ [newline] @ ''    volumes:'' @ [newline] @ ''      - source: data'' @ [newline] @ ''        target: /var/lib/mysql'' @ [newline])
     (''services:'' @ [newline] @ ''  db:'' @ [newline] @ ''    volumes:'' @ [newline] @ ''      - source: data'' @ [newline] @ ''        target: /elsewhere'' @ [newline])"
  by code_simp

end
