(* ===== verification/ProjectFiles.thy ===== *)
theory ProjectFiles
  imports Files
begin

text \<open>
  The files of a project in the browser: the editor (\<^verbatim>\<open>internal/handlers/project_files.go\<close>) that lists,
  reads and saves files of the project directory, and the project documents
  (\<^verbatim>\<open>internal/core/docs.go\<close>) that are found below it and shown. Every path that is read or written is
  below the project directory, saving and reading are inverse, and the list of documents is exactly
  the set that its specification describes.
\<close>

section \<open>Definitions\<close>

subsection \<open>The editor\<close>

definition editableNames :: "string list" where
  "editableNames = [''compose.yml'', ''compose.yaml'', ''docker-compose.yml'', ''docker-compose.yaml'',
     ''compose.override.yml'', ''.env'', ''Dockerfile'', ''Caddyfile'', ''nginx.conf'', ''Makefile'']"

definition editableExts :: "string list" where
  "editableExts = [''.yml'', ''.yaml'', ''.env'', ''.conf'', ''.cfg'', ''.ini'', ''.toml'', ''.json'', ''.sh'', ''.txt'',
     ''.md'', ''.xml'', ''.properties'']"

definition maxEditableSize :: int where
  "maxEditableSize = 1048576"

record projectFile =
  pf_Name :: string
  pf_Path :: string
  pf_Size :: int
  pf_ModTime :: instant
  pf_Editable :: bool

text \<open>An entry of \<^verbatim>\<open>os.ReadDir\<close>: its name, whether it is a directory, and the size and time of its \<^verbatim>\<open>Info\<close>.\<close>

record dirent =
  de_Name :: string
  de_IsDir :: bool
  de_Info :: "(int \<times> instant) option"

definition isEditable :: "string \<Rightarrow> int \<Rightarrow> bool" where
  "isEditable name sz =
     (if sz > maxEditableSize then False
      else name \<in> set editableNames \<or> to_lower (path_ext name) \<in> set editableExts)"

definition list_entry :: "dirent \<Rightarrow> projectFile option" where
  "list_entry e =
     (if de_IsDir e then None
      else map_option (\<lambda>(sz, mtime). \<lparr> pf_Name = de_Name e, pf_Path = de_Name e, pf_Size = sz, pf_ModTime = mtime,
        pf_Editable = isEditable (de_Name e) sz \<rparr>) (de_Info e))"

text \<open>The project is what \<^verbatim>\<open>GetProject\<close> answered.\<close>

definition ListFiles :: "core_error + Project \<Rightarrow> (string \<Rightarrow> dirent list result) \<Rightarrow> projectFile list response" where
  "ListFiles found readdir =
     (case found of
        Inl e \<Rightarrow> write_error 404 (core_text e)
      | Inr project \<Rightarrow>
          (case readdir (pr_Dir project) of
             Inl e \<Rightarrow> write_error 500 e
           | Inr es \<Rightarrow> write_json 200 (List.map_filter list_entry es)))"

definition safePath :: "string \<Rightarrow> string \<Rightarrow> string result" where
  "safePath projectDir relPath =
     (let rel = trim_space relPath in
      if rel = [] then Inl ''path is required''
      else if contains rel ''..'' \<or> is_abs rel then Inl (''path must be relative and cannot contain '' @ [CHR 0x27] @ ''..'' @ [CHR 0x27])
      else
        (let absClean = path_clean (join_path projectDir rel) in
         if \<not> has_prefix absClean (path_clean projectDir @ ''/'') \<and> absClean \<noteq> path_clean projectDir
         then Inl ''path escapes project directory''
         else Inr absClean))"

fun node_size :: "node \<Rightarrow> int" where
  "node_size (File c) = int (length c)"
| "node_size _ = 0"

definition ReadFile :: "core_error + Project \<Rightarrow> string \<Rightarrow> fsys \<Rightarrow> (string \<times> string \<times> int) response" where
  "ReadFile found filePath s =
     (case found of
        Inl e \<Rightarrow> write_error 404 (core_text e)
      | Inr project \<Rightarrow>
          (case safePath (pr_Dir project) filePath of
             Inl e \<Rightarrow> write_error 400 e
           | Inr absPath \<Rightarrow>
               (case fs_stat absPath s of
                  Inl _ \<Rightarrow> write_error 404 ''file not found''
                | Inr info \<Rightarrow>
                    if info = Folder \<or> node_size info > maxEditableSize
                    then write_error 400 ''file is a directory or too large to edit''
                    else
                      (case read_node s absPath of
                         Inl e \<Rightarrow> write_error 500 (fs_text e)
                       | Inr content \<Rightarrow> write_json 200 (filePath, content, node_size info)))))"

definition copyFileSimple :: "string \<Rightarrow> string \<Rightarrow> fsys \<Rightarrow> (fs_error + unit) \<times> fsys" where
  "copyFileSimple src dst s =
     (case read_node s src of Inl e \<Rightarrow> (Inl e, s) | Inr data \<Rightarrow> fs_write dst data s)"

text \<open>The body of the request is decoded already (\<open>None\<close> when that failed); the answer is the saved path.\<close>

definition WriteFile :: "core_error + Project \<Rightarrow> (string \<times> string) option \<Rightarrow> fsys \<Rightarrow> string response \<times> fsys" where
  "WriteFile found body s =
     (case found of
        Inl e \<Rightarrow> (write_error 404 (core_text e), s)
      | Inr project \<Rightarrow>
          (case body of
             None \<Rightarrow> (write_error 400 ''invalid request body'', s)
           | Some (path, content) \<Rightarrow>
               if int (length content) > maxEditableSize then (write_error 413 ''content too large'', s)
               else
                 (case safePath (pr_Dir project) path of
                    Inl e \<Rightarrow> (write_error 400 e, s)
                  | Inr absPath \<Rightarrow>
                      (let s1 = (case fs_stat absPath s of
                                   Inl _ \<Rightarrow> s
                                 | Inr _ \<Rightarrow> snd (copyFileSimple absPath (absPath @ ''.bak'') s)) in
                       case fs_write absPath content s1 of
                         (Inl e, s2) \<Rightarrow> (write_error 500 (fs_text e), s2)
                       | (Inr _, s2) \<Rightarrow> (write_json 200 path, s2)))))"

subsection \<open>Documents\<close>

definition generatedProjectDocPath :: string where
  "generatedProjectDocPath = ''_stack-manager/project-guide.md''"

definition maxProjectDocBytes :: int where
  "maxProjectDocBytes = 2 * 1024 * 1024"

definition projectDocExtensions :: "string list" where
  "projectDocExtensions = [''.adoc'', ''.md'', ''.mdown'', ''.markdown'', ''.rst'', ''.txt'']"

definition rootProjectDocPrefixes :: "string list" where
  "rootProjectDocPrefixes = [''readme'', ''changelog'', ''install'', ''upgrade'', ''deploy'', ''deployment'', ''operations'', ''runbook'']"

definition projectDocDirs :: "string list" where
  "projectDocDirs = [''docs'', ''doc'', ''documentation'']"

text \<open>
  What the project directory holds: files with size and time, symbolic links (that lead to a directory
  or not), and directories with the entries that reading them gave.
\<close>

datatype doc_node = DocFile int instant | DocLink bool | DocDir "(string \<times> doc_node) list"

definition isProjectDocFile :: "string \<Rightarrow> bool" where
  "isProjectDocFile name = (to_lower (path_ext name) \<in> set projectDocExtensions)"

definition isRootProjectDoc :: "string \<Rightarrow> bool" where
  "isRootProjectDoc name =
     (let ext = path_ext name; low = to_lower name in
      if ext \<noteq> [] \<and> \<not> isProjectDocFile name then False
      else if ext = [] \<and> contains low ''.'' then False
      else
        (let base = (if ext \<noteq> [] then trim_suffix low (to_lower ext) else low) in
         \<exists>p \<in> set rootProjectDocPrefixes. base = p \<or> has_prefix base (p @ ''-'') \<or> has_prefix base (p @ ''_'')))"

text \<open>\<^verbatim>\<open>strings.Fields\<close>, and the first byte in upper case: a byte that is no ASCII character becomes U+FFFD.\<close>

function words_from :: "string \<Rightarrow> string \<Rightarrow> string list" where
  "words_from cur s =
     (if s = [] then (if cur = [] then [] else [rev cur])
      else if lead_space s = 0 then words_from (hd s # cur) (tl s)
      else (if cur = [] then [] else [rev cur]) @ words_from [] (drop (lead_space s) s))"
  by pat_completeness auto
termination
  by (relation "measure (\<lambda>(cur, s). length s)") auto

declare words_from.simps [simp del]

definition upper_first :: "string \<Rightarrow> string" where
  "upper_first w = (case w of [] \<Rightarrow> [] | c # cs \<Rightarrow> if c < CHR 0x80 then upper_char c # cs else [CHR 0xEF, CHR 0xBF, CHR 0xBD] @ cs)"

definition title_word :: "string \<Rightarrow> string" where
  "title_word w = (if to_lower w = ''readme'' then ''README'' else upper_first w)"

definition projectDocTitle :: "string \<Rightarrow> string" where
  "projectDocTitle rel =
     (let stem = trim_suffix (base_name rel) (path_ext rel);
          base = trim_space (map (\<lambda>c. if c = CHR ''_'' \<or> c = CHR ''-'' then CHR '' '' else c) stem)
      in if base = [] then rel else join '' '' (map title_word (words_from [] base)))"

text \<open>\<^verbatim>\<open>Truncate(time.Second)\<close>.\<close>

definition to_second :: "instant \<Rightarrow> instant" where
  "to_second t = t - t mod second"

definition outside :: "string \<Rightarrow> bool" where
  "outside rel = (rel = ''.'' \<or> has_prefix rel ''../'' \<or> rel = ''..'' \<or> is_abs rel)"

definition projectDocFromPath :: "string \<Rightarrow> string \<times> doc_node \<Rightarrow> ProjectDoc option" where
  "projectDocFromPath projectDir = (\<lambda>(fullPath, x).
     (case x of
        DocFile sz mtime \<Rightarrow>
          (let rel = path_rel (path_clean projectDir) (path_clean fullPath) in
           if outside rel then None
           else Some \<lparr> pd_Title = projectDocTitle rel, pd_Path = rel, pd_FileName = base_name fullPath,
                  pd_SizeBytes = sz, pd_UpdatedAt = to_second mtime \<rparr>)
      | _ \<Rightarrow> None))"

text \<open>\<^verbatim>\<open>filepath.WalkDir\<close> with the callback of \<^verbatim>\<open>discoverProjectDocs\<close>: the files it adds, in order.\<close>

fun walk_doc :: "bool \<Rightarrow> string \<Rightarrow> string \<Rightarrow> doc_node \<Rightarrow> (string \<times> doc_node) list"
  and walk_docs :: "string \<Rightarrow> (string \<times> doc_node) list \<Rightarrow> (string \<times> doc_node) list" where
  "walk_doc start full name (DocDir es) = (if \<not> start \<and> has_prefix name ''.'' then [] else walk_docs full es)"
| "walk_doc start full name x = (if isProjectDocFile name then [(full, x)] else [])"
| "walk_docs full [] = []"
| "walk_docs full ((n, x) # es) = walk_doc False (join_path full n) n x @ walk_docs full es"

fun leads_to_dir :: "doc_node \<Rightarrow> bool" where
  "leads_to_dir (DocFile _ _) = False"
| "leads_to_dir (DocLink d) = d"
| "leads_to_dir (DocDir _) = True"

fun is_doc_dir :: "doc_node \<Rightarrow> bool" where
  "is_doc_dir (DocDir _) = True"
| "is_doc_dir _ = False"

definition walk_root :: "string \<Rightarrow> (string \<times> doc_node) list \<Rightarrow> string \<Rightarrow> (string \<times> doc_node) list" where
  "walk_root projectDir es dirName =
     (case map_of es dirName of
        None \<Rightarrow> []
      | Some x \<Rightarrow> if leads_to_dir x then walk_doc True (join_path projectDir dirName) dirName x else [])"

definition root_docs :: "string \<Rightarrow> (string \<times> doc_node) list \<Rightarrow> (string \<times> doc_node) list" where
  "root_docs projectDir es =
     map (\<lambda>(n, x). (join_path projectDir n, x))
       (filter (\<lambda>(n, x). \<not> is_doc_dir x \<and> \<not> has_prefix n ''.'' \<and> isRootProjectDoc n) es)"

definition add_doc :: "string \<Rightarrow> string \<times> doc_node \<Rightarrow> ProjectDoc list \<Rightarrow> ProjectDoc list" where
  "add_doc projectDir c docs =
     (case projectDocFromPath projectDir c of
        None \<Rightarrow> docs
      | Some d \<Rightarrow> if pd_Path d \<in> set (map pd_Path docs) then docs else docs @ [d])"

text \<open>\<open>readable\<close>: whether the project directory itself can be listed.\<close>

definition discoverProjectDocs :: "string \<Rightarrow> bool \<Rightarrow> (string \<times> doc_node) list \<Rightarrow> ProjectDoc list" where
  "discoverProjectDocs projectDir readable es =
     sort_key pd_Path (fold (add_doc projectDir)
       ((if readable then root_docs projectDir es else []) @ concat (map (walk_root projectDir es) projectDocDirs)) [])"

definition line :: "string \<Rightarrow> string" where "line s = s @ [newline]"

definition container_line :: "Container \<Rightarrow> string" where
  "container_line c = line (''- `'' @ ct_Name c @ ''`: `'' @ ct_Image c @ ''` ('' @ ct_State c @ '')'' @
     (if ct_Ports c \<noteq> [] then '' ports `'' @ ct_Ports c @ ''`'' else []))"

definition source_line :: "ImageSource \<Rightarrow> string" where
  "source_line src = line (''- `'' @ is_Service src @ ''`: '' @ is_SourceType src @ '' `'' @
     (if is_Image src = [] then is_BuildContext src else is_Image src) @ ''`'' @
     (if is_Registry src \<noteq> [] then '' via `'' @ is_Registry src @ ''`'' else []))"

definition policy_lines :: "ProjectUpdatePolicy \<Rightarrow> string" where
  "policy_lines p =
     (if pp_EffectivePolicy p \<noteq> [] \<or> pp_Mode p \<noteq> [] then
        line (''- Update policy: `'' @ (if pp_EffectivePolicy p = [] then pp_Mode p else pp_EffectivePolicy p) @ ''`'') @
        (if pp_NoUpdatesReason p \<noteq> [] then line (''- Update note: '' @ pp_NoUpdatesReason p) else [])
      else [])"

definition yes_no :: "bool \<Rightarrow> string" where
  "yes_no b = (if b then ''yes'' else ''no'')"

definition generatedProjectDocContent :: "Project \<Rightarrow> ProjectDoc list \<Rightarrow> string" where
  "generatedProjectDocContent project docs =
     line (''# '' @ pr_Name project) @ line [] @
     line ''Generated by Stack Manager from the current project metadata.'' @ line [] @
     line ''## Overview'' @ line [] @
     line (''- Directory: `'' @ pr_Dir project @ ''`'') @
     line (''- Compose file: `'' @ pr_ComposeFile project @ ''`'') @
     line (''- State: `'' @ (if pr_Running project then ''running'' else ''stopped'') @ ''`'') @
     line (''- Inactive: `'' @ yes_no (pr_Inactive project) @ ''`'') @
     line (''- Git checkout: `'' @ yes_no (pr_IsGit project) @ ''`'') @
     policy_lines (pr_UpdatePolicy project) @
     line [] @ line ''## Common Operations'' @ line [] @
     line (''- Start: `docker compose -f '' @ pr_ComposeFile project @ '' up -d`'') @
     line (''- Stop: `docker compose -f '' @ pr_ComposeFile project @ '' down`'') @
     line (''- Logs: `docker compose -f '' @ pr_ComposeFile project @ '' logs --tail 200 --timestamps`'') @
     line (''- Status: `docker compose -f '' @ pr_ComposeFile project @ '' ps`'') @
     line [] @ line ''## Containers'' @ line [] @
     (if pr_Containers project = [] then line ''No running containers were found for this project.''
      else concat (map container_line (pr_Containers project))) @
     line [] @ line ''## Image Sources'' @ line [] @
     (if pr_ImageSources project = [] then line ''No image metadata was parsed.''
      else concat (map source_line (pr_ImageSources project))) @
     line [] @ line ''## Project Files'' @ line [] @
     (if docs = [] then line ''No README or docs directory files were found in the project directory. Add `README.md` or files under `docs/`, `doc/`, or `documentation/` to extend this generated guide.''
      else concat (map (\<lambda>d. line (''- `'' @ pd_Path d @ ''` ('' @ pd_Title d @ '')'')) docs))"

text \<open>\<open>docs\<close> is what \<^verbatim>\<open>discoverProjectDocs\<close> finds, \<open>composeTime\<close> the time of the compose file when it can be read.\<close>

definition generatedProjectDoc :: "Project \<Rightarrow> ProjectDoc list \<Rightarrow> instant option \<Rightarrow> ProjectDoc" where
  "generatedProjectDoc project docs composeTime =
     \<lparr> pd_Title = ''Project Guide'', pd_Path = generatedProjectDocPath, pd_FileName = ''project-guide.md'',
       pd_SizeBytes = int (length (generatedProjectDocContent project docs)),
       pd_UpdatedAt = (case composeTime of Some t \<Rightarrow> if pr_ComposeFile project \<noteq> [] then to_second t else zero_time | None \<Rightarrow> zero_time) \<rparr>"

definition ProjectDocs :: "bool \<Rightarrow> (string \<times> doc_node) list \<Rightarrow> Project \<Rightarrow> instant option \<Rightarrow> ProjectDoc list" where
  "ProjectDocs readable es project composeTime =
     (let docs = discoverProjectDocs (pr_Dir project) readable es
      in generatedProjectDoc project docs composeTime # docs)"

definition cleanProjectDocPath :: "string \<Rightarrow> string result" where
  "cleanProjectDocPath docPath =
     (let p = trim_space (map (\<lambda>c. if c = CHR 0x5C then CHR ''/'' else c) docPath) in
      if p = [] then Inl ''documentation path is required''
      else if has_prefix p ''/'' then Inl ''documentation path must be relative''
      else
        (let cleaned = path_clean p in
         if cleaned = ''.'' \<or> cleaned = ''..'' \<or> has_prefix cleaned ''../'' then Inl ''documentation path is outside the project''
         else Inr cleaned))"

text \<open>For an absolute project directory, where \<^verbatim>\<open>filepath.Abs\<close> is \<^verbatim>\<open>filepath.Clean\<close>.\<close>

definition projectRelativePath :: "string \<Rightarrow> string \<Rightarrow> string result" where
  "projectRelativePath projectDir rel =
     (let fullAbs = path_clean (join_path projectDir rel); relative = path_rel (path_clean projectDir) fullAbs
      in if outside relative then Inl ''documentation path is outside the project'' else Inr fullAbs)"

definition ReadProjectDoc :: "bool \<Rightarrow> (string \<times> doc_node) list \<Rightarrow> Project \<Rightarrow> instant option \<Rightarrow> string \<Rightarrow> fsys \<Rightarrow>
    core_error + ProjectDoc \<times> string" where
  "ReadProjectDoc readable es project composeTime docPath s =
     (case cleanProjectDocPath docPath of
        Inl e \<Rightarrow> Inl (CoreError e)
      | Inr cleaned \<Rightarrow>
          (let docs = discoverProjectDocs (pr_Dir project) readable es in
           if cleaned = generatedProjectDocPath
           then Inr (generatedProjectDoc project docs composeTime, generatedProjectDocContent project docs)
           else
             (case find (\<lambda>d. pd_Path d = cleaned) docs of
                None \<Rightarrow> Inl (NotFound (''project documentation not found: '' @ cleaned))
              | Some doc \<Rightarrow>
                  if pd_SizeBytes doc > maxProjectDocBytes
                  then Inl (CoreError ''project documentation file is too large to display'')
                  else
                    (case projectRelativePath (pr_Dir project) (pd_Path doc) of
                       Inl e \<Rightarrow> Inl (CoreError e)
                     | Inr fullPath \<Rightarrow>
                         (case read_node s fullPath of
                            Inl e \<Rightarrow> Inl (CoreError (fs_text e))
                          | Inr content \<Rightarrow> Inr (doc, content))))))"

section \<open>The editor\<close>

text \<open>The paths that \<^verbatim>\<open>safePath\<close> accepts; its last check never fails for a directory below the root.\<close>

lemma safePath_Inr:
  assumes "is_abs d" "clean_components d \<noteq> []"
  shows "safePath d rel = Inr p \<longleftrightarrow>
    trim_space rel \<noteq> [] \<and> \<not> contains (trim_space rel) ''..'' \<and> \<not> is_abs (trim_space rel) \<and>
    p = path_clean d @ concat (map (\<lambda>c. CHR ''/'' # c) (plain_components (trim_space rel)))"
proof (cases "trim_space rel = [] \<or> contains (trim_space rel) ''..'' \<or> is_abs (trim_space rel)")
  case False
  then have p: "path_clean (join_path d (trim_space rel)) = path_clean d @ concat (map (\<lambda>c. CHR ''/'' # c) (plain_components (trim_space rel)))"
    using join_path_below(1)[OF assms] by blast
  then have "has_prefix (path_clean (join_path d (trim_space rel))) (path_clean d @ ''/'') \<or>
      path_clean (join_path d (trim_space rel)) = path_clean d"
    by (cases "plain_components (trim_space rel)") (auto simp: has_prefix_iff)
  then show ?thesis using False p by (auto simp: safePath_def Let_def)
qed (auto simp: safePath_def Let_def)

lemma below_bak:
  assumes "below d p"
  shows "below d (p @ ''.bak'')"
proof -
  obtain cs where cs: "cs \<noteq> []" "\<forall>c \<in> set cs. c \<noteq> [] \<and> c \<noteq> ''.'' \<and> c \<noteq> ''..'' \<and> CHR ''/'' \<notin> set c"
    "p = d @ concat (map (\<lambda>c. CHR ''/'' # c) cs)"
    using assms by (auto simp: below_def)
  let ?ds = "butlast cs @ [List.last cs @ ''.bak'']"
  have "List.last cs \<in> set cs" using cs(1) by simp
  then have long: "List.last cs \<noteq> []" "CHR ''/'' \<notin> set (List.last cs)" using cs(2) by blast+
  have "\<forall>c \<in> set (butlast cs). c \<noteq> [] \<and> c \<noteq> ''.'' \<and> c \<noteq> ''..'' \<and> CHR ''/'' \<notin> set c"
    using cs(2) in_set_butlastD by fastforce
  moreover have "List.last cs @ ''.bak'' \<noteq> ''.'' \<and> List.last cs @ ''.bak'' \<noteq> ''..''" by (cases "List.last cs") auto
  ultimately have "\<forall>c \<in> set ?ds. c \<noteq> [] \<and> c \<noteq> ''.'' \<and> c \<noteq> ''..'' \<and> CHR ''/'' \<notin> set c" using long by auto
  moreover have "p @ ''.bak'' = d @ concat (map (\<lambda>c. CHR ''/'' # c) ?ds)"
  proof -
    have "cs = butlast cs @ [List.last cs]" using cs(1) by simp
    then have "concat (map (\<lambda>c. CHR ''/'' # c) cs) = concat (map (\<lambda>c. CHR ''/'' # c) (butlast cs @ [List.last cs]))" by presburger
    then show ?thesis using cs(3) by simp
  qed
  ultimately show ?thesis unfolding below_def by blast
qed

lemma safePath_below:
  assumes "is_abs d" "clean_components d \<noteq> []" "safePath d rel = Inr p"
  shows "p = path_clean d \<or> below (path_clean d) p"
proof -
  let ?r = "trim_space rel"
  have r: "?r \<noteq> []" "\<not> contains ?r ''..''" "p = path_clean d @ concat (map (\<lambda>c. CHR ''/'' # c) (plain_components ?r))"
    using assms safePath_Inr by auto
  show ?thesis
    using r(3) join_path_plain(2)[OF assms(1) r(1,2)]
    by (cases "plain_components ?r = []") (auto simp: below_def)
qed

lemma dir_of_bak [simp]: "dir_of (p @ ''.bak'') = dir_of p"
  by (simp add: dir_of_def)

lemma dir_of_not_bak: "dir_of p \<noteq> p @ ''.bak''"
proof -
  have "length (dir_of p) \<le> length p + 1"
    using length_dropWhile_le[of "\<lambda>c. c \<noteq> CHR ''/''" "rev p"] by (auto simp: dir_of_def Let_def)
  moreover have "length (p @ ''.bak'') = length p + 4" by simp
  ultimately show ?thesis by force
qed

lemma fs_write_Inr:
  "fs_write p c s = (Inr u, s') \<Longrightarrow> linkless s \<Longrightarrow>
    fs_nodes s p \<noteq> Some Folder \<and> fs_nodes s (dir_of p) = Some Folder \<and> fs_nodes s' = (fs_nodes s)(p \<mapsto> File c)"
  using put_file_linkless[of s p c] put_file_linkless[of "s \<lparr> fs_faults := fs \<rparr>" p c for fs]
  by (auto simp: fs_write_def sys_def linkless_def split: list.splits option.splits fault.splits sum.splits if_splits)

lemma fs_write_directory:
  "linkless s \<Longrightarrow> fs_nodes s p = Some Folder \<Longrightarrow> fs_nodes (snd (fs_write p c s)) = fs_nodes s"
  using put_file_linkless[of s p] put_file_linkless[of "s \<lparr> fs_faults := fs \<rparr>" p c for fs]
  by (auto simp: fs_write_def sys_def linkless_def split: list.splits option.splits fault.splits sum.splits)

lemma copy_effect:
  assumes "linkless s"
  shows "linkless (snd (copyFileSimple src dst s)) \<and> fs_unreadable (snd (copyFileSimple src dst s)) = fs_unreadable s \<and>
    (\<forall>q. q \<noteq> dst \<longrightarrow> fs_nodes (snd (copyFileSimple src dst s)) q = fs_nodes s q)"
proof (cases "read_node s src")
  case (Inr c)
  obtain r s1 where w: "fs_write dst c s = (r, s1)" by (rule prod.exhaust)
  from fs_write_wrote[OF w assms] have "wrote dst c s s1 (\<not> isl r)" .
  from wrote_other[OF this] wrote_linkless[OF this] show ?thesis using Inr w by (simp add: copyFileSimple_def)
qed (use assms in \<open>simp add: copyFileSimple_def\<close>)

lemma copy_done:
  assumes "linkless s" "fs_faults s = []" "fs_nodes s src = Some (File c)" "\<not> fs_unreadable s src"
    "fs_nodes s dst \<noteq> Some Folder" "fs_nodes s (dir_of dst) = Some Folder"
  shows "fs_nodes (snd (copyFileSimple src dst s)) dst = Some (File c)"
  using assms read_node_File[of s src c] put_file_linkless[of s dst c]
  by (simp add: copyFileSimple_def fs_write_def sys_def)

text \<open>A saved request in steps: the backup, then the file.\<close>

lemma WriteFile_steps:
  assumes "WriteFile (Inr project) (Some (path, content)) s = (resp, s')"
  shows "(\<exists>e. s' = s \<and> resp = write_error (fst resp) e \<and> fst resp \<noteq> 200) \<or>
    (\<exists>p s1 r. int (length content) \<le> maxEditableSize \<and> safePath (pr_Dir project) path = Inr p \<and>
      s1 = (case fs_stat p s of Inl _ \<Rightarrow> s | Inr _ \<Rightarrow> snd (copyFileSimple p (p @ ''.bak'') s)) \<and>
      fs_write p content s1 = (r, s') \<and> (fst resp = 200 \<longleftrightarrow> \<not> isl r))"
  using assms by (auto simp: WriteFile_def Let_def split: if_splits sum.splits prod.splits)


subsection \<open>An example\<close>

definition editor_project :: Project where
  "editor_project = blank_project \<lparr> pr_Name := ''web'', pr_Dir := ''/srv/web'' \<rparr>"

definition editor_fs :: "fault option list \<Rightarrow> fsys" where
  "editor_fs faults = \<lparr> fs_nodes = map_of
     [(''/srv'', Folder), (''/srv/web'', Folder), (''/srv/web/.env'', File ''A=0''), (''/srv/web/data.db'', File ''rows'')],
     fs_unreadable = (\<lambda>_. False), fs_faults = faults \<rparr>"


text \<open>
  The header of the editor promises no traversal to the host. A link inside the project leads out of it
  nevertheless, for reading and for saving.
\<close>

lemma link_leaves_project:
  "let s = (editor_fs []) \<lparr> fs_nodes := (fs_nodes (editor_fs []))(''/srv/web/notes.txt'' \<mapsto> Link ''/etc/passwd'', ''/etc'' \<mapsto> Folder,
         ''/etc/passwd'' \<mapsto> File ''root'') \<rparr>;
       w = WriteFile (Inr editor_project) (Some (''notes.txt'', ''mine'')) s
   in ReadFile (Inr editor_project) ''notes.txt'' s = write_json 200 (''notes.txt'', ''root'', 4) \<and>
      fst w = write_json 200 ''notes.txt'' \<and> fs_nodes (snd w) ''/etc/passwd'' = Some (File ''mine'')"
  by code_simp

text \<open>Files that the list shows as not editable are read and saved all the same.\<close>

lemma uneditable_files_are_served:
  "\<not> isEditable ''data.db'' 4 \<and>
   ReadFile (Inr editor_project) ''data.db'' (editor_fs []) = write_json 200 (''data.db'', ''rows'', 4) \<and>
   fst (WriteFile (Inr editor_project) (Some (''data.db'', [])) (editor_fs [])) = write_json 200 ''data.db''"
  by code_simp

text \<open>The error of the backup is dropped: with a full disk both the file and its backup can be lost.\<close>

lemma failed_backup_is_ignored:
  "let s = snd (WriteFile (Inr editor_project) (Some (''.env'', ''A=1'')) (editor_fs [Some (Refuse ''disk full''), Some (Torn ''disk full'' 0)]))
   in fs_nodes s ''/srv/web/.env'' = Some (File []) \<and> fs_nodes s ''/srv/web/.env.bak'' = None"
  by code_simp

section \<open>Documents\<close>

text \<open>
  The specification: the files below a document directory whose names have an extension of documents,
  in directories that are not hidden, and the documents of the project directory itself.
\<close>

inductive walked :: "(string \<times> doc_node) list \<Rightarrow> string list \<Rightarrow> doc_node \<Rightarrow> bool" where
  here: "(n, x) \<in> set es \<Longrightarrow> \<not> is_doc_dir x \<Longrightarrow> isProjectDocFile n \<Longrightarrow> walked es [n] x"
| deeper: "(n, DocDir ds) \<in> set es \<Longrightarrow> \<not> has_prefix n ''.'' \<Longrightarrow> walked ds cs x \<Longrightarrow> walked es (n # cs) x"

inductive_simps walked_Nil: "walked [] cs x"

definition documented :: "(string \<times> doc_node) list \<Rightarrow> string list \<Rightarrow> int \<Rightarrow> instant \<Rightarrow> bool" where
  "documented es cs sz t =
     ((\<exists>n. cs = [n] \<and> (n, DocFile sz t) \<in> set es \<and> \<not> has_prefix n ''.'' \<and> isRootProjectDoc n) \<or>
      (\<exists>d ds rest. cs = d # rest \<and> d \<in> set projectDocDirs \<and> map_of es d = Some (DocDir ds) \<and> walked ds rest (DocFile sz t)))"

text \<open>Names as a directory has them.\<close>

definition plain_name :: "string \<Rightarrow> bool" where
  "plain_name c = (c \<noteq> [] \<and> c \<noteq> ''.'' \<and> c \<noteq> ''..'' \<and> CHR ''/'' \<notin> set c)"

fun plain_node :: "doc_node \<Rightarrow> bool" and plain_nodes :: "(string \<times> doc_node) list \<Rightarrow> bool" where
  "plain_node (DocDir es) = plain_nodes es"
| "plain_node _ = True"
| "plain_nodes [] = True"
| "plain_nodes ((n, x) # es) = (plain_name n \<and> plain_node x \<and> plain_nodes es)"

lemma plain_nodes_in: "plain_nodes es \<Longrightarrow> (n, x) \<in> set es \<Longrightarrow> plain_name n \<and> plain_node x"
  by (induction es) auto

subsection \<open>Full paths\<close>

definition clean_dir :: "string \<Rightarrow> bool" where
  "clean_dir d = (is_abs d \<and> path_clean d = d \<and> clean_components d \<noteq> [])"

abbreviation tail_path :: "string list \<Rightarrow> string" where
  "tail_path cs \<equiv> concat (map (\<lambda>c. CHR ''/'' # c) cs)"

lemma plain_components_plain: "plain_name n \<Longrightarrow> plain_components n = [n]"
  by (simp add: plain_name_def plain_components_def split_on_no_sep_id)

text \<open>A plain name may hold two dots, so joining it is not an instance of \<open>join_path_below\<close>.\<close>

lemma join_path_name:
  assumes "clean_dir d" "plain_name n"
  shows "join_path d n = d @ CHR ''/'' # n" "clean_dir (d @ CHR ''/'' # n)"
proof -
  have d: "d \<noteq> []" "is_abs d" "n \<noteq> []" using assms by (auto simp: clean_dir_def is_abs_def plain_name_def)
  then have a: "is_abs (d @ ''/'' @ n)" by (cases d) (auto simp: is_abs_def)
  have "\<forall>c \<in> set (split_on CHR ''/'' n). c \<noteq> ''..''"
    using assms(2) by (simp add: plain_name_def split_on_no_sep_id)
  then have cc: "clean_components (d @ ''/'' @ n) = clean_components d @ [n]"
    using clean_below[OF d(1)] assms(2) by (simp add: plain_name_def split_on_no_sep_id)
  have "path_clean (d @ ''/'' @ n) = path_of True (clean_components d @ [n])" using a cc by (simp add: path_clean_abs)
  also have "\<dots> = path_clean d @ CHR ''/'' # n"
    using assms(1) path_of_append[of "clean_components d" "[n]" True] path_clean_abs[OF d(2)] by (simp add: clean_dir_def)
  finally have p: "path_clean (d @ ''/'' @ n) = d @ CHR ''/'' # n" using assms(1) by (simp add: clean_dir_def)
  then show "join_path d n = d @ CHR ''/'' # n" using d by (simp add: join_path_def)
  show "clean_dir (d @ CHR ''/'' # n)" using p a cc by (simp add: clean_dir_def)
qed

lemma components_append: "components (d @ CHR ''/'' # p) = components d @ components p"
  using split_on_append_sep[of "CHR ''/''" d p] by (simp add: components_def)

lemma components_tail: "\<forall>c \<in> set cs. plain_name c \<Longrightarrow> components (d @ tail_path cs) = components d @ cs"
proof (induction cs arbitrary: d)
  case (Cons c cs)
  have "components (d @ tail_path (c # cs)) = components ((d @ CHR ''/'' # c) @ tail_path cs)" by simp
  also have "\<dots> = components (d @ CHR ''/'' # c) @ cs" using Cons by (metis list.set_intros(2))
  finally show ?case
    using Cons.prems by (simp add: components_append) (simp add: components_def split_on_no_sep_id plain_name_def)
qed simp

lemma common_append: "common bs (bs @ cs) = length bs"
  by (induction bs) auto

lemma path_rel_tail:
  "cs \<noteq> [] \<Longrightarrow> \<forall>c \<in> set cs. plain_name c \<Longrightarrow> path_rel d (d @ tail_path cs) = join ''/'' cs"
  by (simp add: path_rel_def components_tail common_append Let_def)

lemma join_first: "\<exists>r. join ''/'' (c # cs) = c @ r \<and> (r = [] \<or> hd r = CHR ''/'')"
  by (cases cs) (auto simp: join_Cons)

lemma join_nonempty: "cs \<noteq> [] \<Longrightarrow> \<forall>c \<in> set cs. plain_name c \<Longrightarrow> join ''/'' cs \<noteq> []"
proof -
  assume cs: "cs \<noteq> []" "\<forall>c \<in> set cs. plain_name c"
  then obtain c cs' where e: "cs = c # cs'" by (cases cs) auto
  obtain r where "join ''/'' cs = c @ r" using join_first e by blast
  moreover have "c \<noteq> []" using cs(2) e by (simp add: plain_name_def)
  ultimately show ?thesis by simp
qed

lemma plain_not_outside:
  assumes "cs \<noteq> []" "\<forall>c \<in> set cs. plain_name c"
  shows "\<not> outside (join ''/'' cs)"
proof -
  obtain c cs' where cs: "cs = c # cs'" using assms(1) by (cases cs) auto
  then have c: "plain_name c" using assms(2) by simp
  obtain r where r: "join ''/'' cs = c @ r" "r = [] \<or> hd r = CHR ''/''" using join_first cs by blast
  then have split: "hd (split_on CHR ''/'' (join ''/'' cs)) = c"
    using split_on_join[of cs "CHR ''/''"] assms cs by (simp add: plain_name_def)
  show ?thesis
  proof
    assume "outside (join ''/'' cs)"
    then consider "join ''/'' cs = ''.''" | b where "join ''/'' cs = ''../'' @ b" | "join ''/'' cs = ''..''" | b where "join ''/'' cs = ''/'' @ b"
      by (auto simp: outside_def has_prefix_iff is_abs_def)
    then show False
    proof cases
      case 1
      then show ?thesis using split c by (simp add: plain_name_def)
    next
      case (2 b)
      have "split_on CHR ''/'' (''..'' @ CHR ''/'' # b) = ''..'' # split_on CHR ''/'' b" by (rule split_on_append) simp
      then have "''..'' = c" using split 2 by (metis append.simps list.sel(1))
      then show ?thesis using c by (simp add: plain_name_def)
    next
      case 3
      then show ?thesis using split c by (simp add: plain_name_def)
    next
      case (4 b)
      then show ?thesis using split c by (simp add: plain_name_def)
    qed
  qed
qed

subsection \<open>The walk\<close>

lemma walked_Cons:
  "walked ((n, y) # es) cs x \<longleftrightarrow>
     (cs = [n] \<and> x = y \<and> \<not> is_doc_dir y \<and> isProjectDocFile n) \<or>
     (\<exists>ds rest. y = DocDir ds \<and> cs = n # rest \<and> \<not> has_prefix n ''.'' \<and> walked ds rest x) \<or> walked es cs x"
  (is "?l \<longleftrightarrow> ?r")
proof
  assume ?l
  then show ?r by cases (auto intro: walked.intros)
next
  assume ?r
  moreover have "walked ((n, y) # es) cs x" if "walked es cs x"
    using that by cases (auto intro: walked.intros)
  ultimately show ?l by (auto intro: walked.intros)
qed

lemma in_walk:
  "clean_dir full \<Longrightarrow> plain_node y \<Longrightarrow>
     (p, x) \<in> set (walk_doc start full name y) \<longleftrightarrow>
       (case y of DocDir ds \<Rightarrow> (start \<or> \<not> has_prefix name ''.'') \<and> (\<exists>cs. walked ds cs x \<and> p = full @ tail_path cs)
        | _ \<Rightarrow> isProjectDocFile name \<and> p = full \<and> x = y)"
  "clean_dir full \<Longrightarrow> plain_nodes es \<Longrightarrow>
     (p, x) \<in> set (walk_docs full es) \<longleftrightarrow> (\<exists>cs. walked es cs x \<and> p = full @ tail_path cs)"
proof (induction start full name y and full es rule: walk_doc_walk_docs.induct)
  case (4 full n y es)
  have n: "plain_name n" "plain_node y" "plain_nodes es" using 4(4) by auto
  note j = join_path_name[OF 4(3) n(1)]
  have "(p, x) \<in> set (walk_doc False (join_path full n) n y) \<longleftrightarrow>
      (\<exists>cs. p = full @ tail_path cs \<and> ((cs = [n] \<and> x = y \<and> \<not> is_doc_dir y \<and> isProjectDocFile n) \<or>
        (\<exists>ds rest. y = DocDir ds \<and> cs = n # rest \<and> \<not> has_prefix n ''.'' \<and> walked ds rest x)))"
  proof (cases y)
    case (DocDir ds)
    have "(p, x) \<in> set (walk_doc False (join_path full n) n y) \<longleftrightarrow>
        \<not> has_prefix n ''.'' \<and> (\<exists>rest. walked ds rest x \<and> p = full @ tail_path (n # rest))"
      using 4(1) j n(2) DocDir by simp
    moreover have "(\<exists>cs. P cs \<and> (\<exists>rest. cs = n # rest \<and> Q rest)) = (\<exists>rest. Q rest \<and> P (n # rest))" for P Q by blast
    ultimately show ?thesis using DocDir by simp
  qed (use 4(1) j n(2) in auto)
  then show ?case using 4(2)[OF 4(3) n(3)] by (auto simp: walked_Cons)
qed (auto simp: walked_Nil)

lemma walked_plain: "walked es cs x \<Longrightarrow> plain_nodes es \<Longrightarrow> cs \<noteq> [] \<and> (\<forall>c \<in> set cs. plain_name c)"
  by (induction rule: walked.induct) (auto dest: plain_nodes_in)

lemma dirs_not_docs: "d \<in> set projectDocDirs \<Longrightarrow> \<not> isProjectDocFile d"
  by (auto simp: projectDocDirs_def isProjectDocFile_def path_ext_def projectDocExtensions_def to_lower_def)

definition candidates :: "string \<Rightarrow> (string \<times> doc_node) list \<Rightarrow> (string \<times> doc_node) list" where
  "candidates d es = root_docs d es @ concat (map (walk_root d es) projectDocDirs)"

text \<open>The regular files among the candidates are the documented ones.\<close>

lemma candidate_files:
  assumes "clean_dir d" "plain_nodes es"
  shows "(p, DocFile sz t) \<in> set (candidates d es) \<longleftrightarrow> (\<exists>cs. documented es cs sz t \<and> p = d @ tail_path cs)"
proof -
  have root: "(p, DocFile sz t) \<in> set (root_docs d es) \<longleftrightarrow>
      (\<exists>n. (n, DocFile sz t) \<in> set es \<and> \<not> has_prefix n ''.'' \<and> isRootProjectDoc n \<and> p = d @ tail_path [n])"
    using join_path_name(1)[OF assms(1)] plain_nodes_in[OF assms(2)]
    by (fastforce simp: root_docs_def image_iff)
  have walk: "(p, DocFile sz t) \<in> set (walk_root d es n) \<longleftrightarrow>
      (\<exists>ds rest. map_of es n = Some (DocDir ds) \<and> walked ds rest (DocFile sz t) \<and> p = d @ tail_path (n # rest))"
    if n: "n \<in> set projectDocDirs" for n
  proof (cases "map_of es n")
    case (Some y)
    then have y: "plain_name n" "plain_node y" using plain_nodes_in[OF assms(2)] map_of_SomeD by fastforce+
    note j = join_path_name[OF assms(1) y(1)]
    show ?thesis
      using Some in_walk(1)[OF _ y(2), of "join_path d n" p "DocFile sz t" True n] j dirs_not_docs[OF n]
      by (cases y) (auto simp: walk_root_def)
  qed (simp add: walk_root_def)
  have "(p, DocFile sz t) \<in> set (candidates d es) \<longleftrightarrow>
      (p, DocFile sz t) \<in> set (root_docs d es) \<or> (\<exists>n \<in> set projectDocDirs. (p, DocFile sz t) \<in> set (walk_root d es n))"
    by (simp add: candidates_def)
  also have "\<dots> \<longleftrightarrow> (\<exists>cs. documented es cs sz t \<and> p = d @ tail_path cs)" (is "?l \<longleftrightarrow> ?r")
  proof
    assume ?l
    then show ?r
    proof
      assume "(p, DocFile sz t) \<in> set (root_docs d es)"
      then obtain n where "(n, DocFile sz t) \<in> set es \<and> \<not> has_prefix n ''.'' \<and> isRootProjectDoc n" "p = d @ tail_path [n]"
        using root by blast
      then show ?r by (intro exI[of _ "[n]"]) (simp add: documented_def)
    next
      assume "\<exists>n \<in> set projectDocDirs. (p, DocFile sz t) \<in> set (walk_root d es n)"
      then obtain n ds rest where "n \<in> set projectDocDirs" "map_of es n = Some (DocDir ds)"
        "walked ds rest (DocFile sz t)" "p = d @ tail_path (n # rest)" using walk by blast
      then show ?r by (intro exI[of _ "n # rest"]) (auto simp: documented_def)
    qed
  next
    assume ?r
    then obtain cs where "documented es cs sz t" and p: "p = d @ tail_path cs" by blast
    then show ?l unfolding documented_def
    proof (elim disjE exE conjE)
      fix n assume "cs = [n]" "(n, DocFile sz t) \<in> set es" "\<not> has_prefix n ''.''" "isRootProjectDoc n"
      then show ?l using root p by blast
    next
      fix n ds rest assume "cs = n # rest" "n \<in> set projectDocDirs" "map_of es n = Some (DocDir ds)" "walked ds rest (DocFile sz t)"
      then show ?l using walk p by blast
    qed
  qed
  finally show ?thesis .
qed

definition doc_of :: "string list \<Rightarrow> int \<Rightarrow> instant \<Rightarrow> ProjectDoc" where
  "doc_of cs sz t = \<lparr> pd_Title = projectDocTitle (join ''/'' cs), pd_Path = join ''/'' cs, pd_FileName = List.last cs,
     pd_SizeBytes = sz, pd_UpdatedAt = to_second t \<rparr>"

lemma clean_dir_tail: "clean_dir d \<Longrightarrow> \<forall>c \<in> set cs. plain_name c \<Longrightarrow> clean_dir (d @ tail_path cs)"
proof (induction cs arbitrary: d)
  case (Cons c cs)
  then have "clean_dir ((d @ CHR ''/'' # c) @ tail_path cs)" using join_path_name(2)[of d c] by (metis list.set_intros)
  then show ?case by simp
qed simp

lemma base_name_tail: "cs \<noteq> [] \<Longrightarrow> \<forall>c \<in> set cs. plain_name c \<Longrightarrow> base_name (d @ tail_path cs) = List.last cs"
  by (cases cs rule: rev_cases) (simp_all add: base_name_def components_tail del: map_append concat_append)

lemma projectDocFromPath_documented:
  assumes "clean_dir d" "cs \<noteq> []" "\<forall>c \<in> set cs. plain_name c"
  shows "projectDocFromPath d (d @ tail_path cs, DocFile sz t) = Some (doc_of cs sz t)"
proof -
  have "path_clean d = d" "path_clean (d @ tail_path cs) = d @ tail_path cs"
    using assms(1) clean_dir_tail[OF assms(1,3)] by (auto simp: clean_dir_def)
  then show ?thesis
    using path_rel_tail[OF assms(2,3), of d] plain_not_outside[OF assms(2,3)] base_name_tail[OF assms(2,3), of d]
    by (simp add: projectDocFromPath_def doc_of_def Let_def)
qed

lemma documented_plain:
  assumes "documented es cs sz t" "plain_nodes es"
  shows "cs \<noteq> [] \<and> (\<forall>c \<in> set cs. plain_name c)"
  using assms(1) unfolding documented_def
proof (elim disjE exE conjE)
  fix d ds rest assume cs: "cs = d # rest" "map_of es d = Some (DocDir ds)" "walked ds rest (DocFile sz t)"
  then have "plain_name d" "plain_nodes ds" using plain_nodes_in[OF assms(2)] map_of_SomeD by fastforce+
  then show ?thesis using walked_plain[OF cs(3)] cs(1) by simp
qed (use plain_nodes_in[OF assms(2)] in auto)

lemma fold_add_doc:
  assumes "distinct (map pd_Path docs)"
  shows "distinct (map pd_Path (fold (add_doc d) cs docs)) \<and> set docs \<subseteq> set (fold (add_doc d) cs docs) \<and>
    set (fold (add_doc d) cs docs) \<subseteq> set docs \<union> {x. \<exists>c \<in> set cs. projectDocFromPath d c = Some x} \<and>
    (\<forall>c \<in> set cs. \<forall>x. projectDocFromPath d c = Some x \<longrightarrow> pd_Path x \<in> pd_Path ` set (fold (add_doc d) cs docs))"
  using assms
proof (induction cs arbitrary: docs)
  case (Cons c cs)
  have step: "distinct (map pd_Path (add_doc d c docs))" "set docs \<subseteq> set (add_doc d c docs)"
    "set (add_doc d c docs) \<subseteq> set docs \<union> {x. projectDocFromPath d c = Some x}"
    "\<forall>x. projectDocFromPath d c = Some x \<longrightarrow> pd_Path x \<in> pd_Path ` set (add_doc d c docs)"
    using Cons.prems by (auto simp: add_doc_def split: option.splits)
  from Cons.IH[OF step(1)] step show ?case
    by (simp only: fold.simps comp_apply list.set) blast
qed simp

lemma sorted_by_path:
  "distinct (map pd_Path docs) \<Longrightarrow> sorted_wrt (<) (map pd_Path (sort_key pd_Path docs))"
  by (simp add: strict_sorted_iff distinct_map inj_on_def)

lemma discover_candidates: "discoverProjectDocs d True es = sort_key pd_Path (fold (add_doc d) (candidates d es) [])"
  by (simp add: discoverProjectDocs_def candidates_def)

lemma discovered_from:
  assumes "clean_dir d" "plain_nodes es" "doc \<in> set (discoverProjectDocs d True es)"
  shows "\<exists>cs sz t. documented es cs sz t \<and> doc = doc_of cs sz t"
proof -
  have "doc \<in> {x. \<exists>c \<in> set (candidates d es). projectDocFromPath d c = Some x}"
    using assms(3) fold_add_doc[of "[]" d "candidates d es"] unfolding discover_candidates by (simp add: subset_iff)
  then obtain p x where c: "(p, x) \<in> set (candidates d es)" "projectDocFromPath d (p, x) = Some doc" by auto
  then obtain sz t where x: "x = DocFile sz t" by (auto simp: projectDocFromPath_def split: doc_node.splits)
  then obtain cs where cs: "documented es cs sz t" "p = d @ tail_path cs"
    using c(1) candidate_files[OF assms(1,2)] by blast
  then show ?thesis
    using c(2) x projectDocFromPath_documented[OF assms(1)] documented_plain[OF cs(1) assms(2)] by fastforce
qed

text \<open>
  Property C32. The documents of a project are listed in strictly increasing order of their paths; every
  listed document is a regular file that the specification describes, with its size and time, and every
  file that the specification describes is listed.
\<close>

theorem discoverProjectDocs_exact:
  assumes "clean_dir d" "plain_nodes es"
  shows "sorted_wrt (<) (map pd_Path (discoverProjectDocs d True es)) \<and>
    (\<forall>doc \<in> set (discoverProjectDocs d True es). \<exists>cs sz t. documented es cs sz t \<and> doc = doc_of cs sz t) \<and>
    (\<forall>cs sz t. documented es cs sz t \<longrightarrow> join ''/'' cs \<in> pd_Path ` set (discoverProjectDocs d True es))"
proof -
  let ?f = "fold (add_doc d) (candidates d es) []"
  note f = discover_candidates
  have F: "distinct (map pd_Path ?f)" using fold_add_doc[of "[]" d "candidates d es"] by simp
  have F_all: "c \<in> set (candidates d es) \<Longrightarrow> projectDocFromPath d c = Some x \<Longrightarrow> pd_Path x \<in> pd_Path ` set ?f" for c x
    using fold_add_doc[of "[]" d "candidates d es"] by simp
  have sound: "\<exists>cs sz t. documented es cs sz t \<and> doc = doc_of cs sz t" if "doc \<in> set ?f" for doc
    using discovered_from[OF assms] that unfolding f by simp
  have complete: "join ''/'' cs \<in> pd_Path ` set ?f" if "documented es cs sz t" for cs sz t
  proof -
    have c: "(d @ tail_path cs, DocFile sz t) \<in> set (candidates d es)" using candidate_files[OF assms] \<open>documented es cs sz t\<close> by blast
    have "projectDocFromPath d (d @ tail_path cs, DocFile sz t) = Some (doc_of cs sz t)"
      using projectDocFromPath_documented[OF assms(1)] documented_plain[OF \<open>documented es cs sz t\<close> assms(2)] by blast
    with c have "pd_Path (doc_of cs sz t) \<in> pd_Path ` set ?f" by (rule F_all)
    then show ?thesis by (simp add: doc_of_def)
  qed
  have "sorted_wrt (<) (map pd_Path (sort_key pd_Path ?f))" using F by (rule sorted_by_path)
  then show ?thesis unfolding f using sound complete by simp
qed

subsection \<open>Reading a document\<close>

lemma cleanProjectDocPath_plain:
  assumes "cs \<noteq> []" "\<forall>c \<in> set cs. plain_name c"
    and "CHR 0x5C \<notin> set (join ''/'' cs)" "trim_space (join ''/'' cs) = join ''/'' cs"
  shows "cleanProjectDocPath (join ''/'' cs) = Inr (join ''/'' cs)"
proof -
  let ?p = "join ''/'' cs"
  have o: "\<not> has_prefix ?p ''/''" "\<not> has_prefix ?p ''../''" "?p \<noteq> ''.''" "?p \<noteq> ''..''" "\<not> is_abs ?p"
    using plain_not_outside[OF assms(1,2)] by (auto simp: outside_def is_abs_def)
  have s: "split_on CHR ''/'' ?p = cs" using assms(1,2) by (simp add: split_on_join plain_name_def)
  moreover have "clean_stack False [] cs = cs"
    using assms(2) clean_stack_no_dots[of cs False "[]"] by (simp add: plain_name_def)
  ultimately have "path_clean ?p = ?p" using o(5) assms(1) by (simp add: path_clean_def clean_components_def path_of_def)
  moreover have "map (\<lambda>c. if c = CHR 0x5C then CHR ''/'' else c) ?p = ?p"
    using assms(3) by (intro map_idI) auto
  moreover have "?p \<noteq> []" using assms(1,2) by (rule join_nonempty)
  ultimately show ?thesis using o assms(4) by (simp add: cleanProjectDocPath_def)
qed

lemma projectRelativePath_plain:
  assumes "clean_dir d" "cs \<noteq> []" "\<forall>c \<in> set cs. plain_name c"
  shows "projectRelativePath d (join ''/'' cs) = Inr (d @ tail_path cs)"
proof -
  have c: "path_clean (d @ tail_path cs) = d @ tail_path cs" "path_clean d = d"
    using clean_dir_tail[OF assms(1,3)] assms(1) by (simp_all add: clean_dir_def)
  have "d \<noteq> []" using assms(1) by (auto simp: clean_dir_def is_abs_def)
  moreover have "join ''/'' cs \<noteq> []" using assms(2,3) by (rule join_nonempty)
  ultimately have "join_path d (join ''/'' cs) = d @ tail_path cs"
    using c join_slashes[OF assms(2)] by (simp add: join_path_def)
  then show ?thesis
    using c path_rel_tail[OF assms(2,3)] plain_not_outside[OF assms(2,3)] by (simp add: projectRelativePath_def Let_def)
qed

lemma generated_not_documented:
  assumes "documented es cs sz t" "plain_nodes es"
  shows "join ''/'' cs \<noteq> generatedProjectDocPath"
proof
  assume "join ''/'' cs = generatedProjectDocPath"
  then have "split_on CHR ''/'' (join ''/'' cs) = [''_stack-manager'', ''project-guide.md'']"
    by (simp add: generatedProjectDocPath_def)
  then have "cs = [''_stack-manager'', ''project-guide.md'']"
    using documented_plain[OF assms] by (simp add: split_on_join plain_name_def)
  then show False using assms(1) by (auto simp: documented_def projectDocDirs_def)
qed

lemma find_distinct:
  "distinct (map f xs) \<Longrightarrow> x \<in> set xs \<Longrightarrow> find (\<lambda>y. f y = f x) xs = Some x"
  by (induction xs) auto

lemma discovered_documented:
  assumes "clean_dir d" "plain_nodes es" "doc \<in> set (discoverProjectDocs d True es)"
  obtains cs t where "documented es cs (pd_SizeBytes doc) t" "pd_Path doc = join ''/'' cs"
    "cs \<noteq> []" "\<forall>c \<in> set cs. plain_name c" "pd_Path doc \<noteq> generatedProjectDocPath"
proof -
  from discovered_from[OF assms] obtain cs sz t where cs: "documented es cs sz t" "doc = doc_of cs sz t" by blast
  then show ?thesis
    using that[of cs t] cs(1) documented_plain[OF cs(1) assms(2)] generated_not_documented[OF cs(1) assms(2)]
    by (simp add: doc_of_def)
qed

lemma distinct_docs: "distinct (map pd_Path (discoverProjectDocs d r es))"
  using fold_add_doc[of "[]" d "(if r then root_docs d es else []) @ concat (map (walk_root d es) projectDocDirs)"]
  by (simp add: discoverProjectDocs_def distinct_map)

text \<open>
  Reading a document gives the generated guide or the contents of a file that the
  specification describes, at its own path below the project directory and within the limit of 2 MiB;
  and every listed document whose path has no backslash and no space around it reads back.
\<close>

theorem project_docs_served:
  assumes "clean_dir (pr_Dir project)" "plain_nodes es"
  defines "docs \<equiv> discoverProjectDocs (pr_Dir project) True es"
  shows "(\<forall>docPath doc content. ReadProjectDoc True es project ct docPath s = Inr (doc, content) \<longrightarrow>
       doc \<in> set (ProjectDocs True es project ct) \<and>
       (pd_Path doc = generatedProjectDocPath \<and> content = generatedProjectDocContent project docs \<or>
        pd_SizeBytes doc \<le> 2097152 \<and>
        (\<exists>cs t. documented es cs (pd_SizeBytes doc) t \<and> read_node s (pr_Dir project @ tail_path cs) = Inr content))) \<and>
    (\<forall>doc content. doc \<in> set docs \<and> pd_SizeBytes doc \<le> 2097152 \<and> CHR 0x5C \<notin> set (pd_Path doc) \<and> trim_space (pd_Path doc) = pd_Path doc \<and>
       read_node s (pr_Dir project @ ''/'' @ pd_Path doc) = Inr content
       \<longrightarrow> ReadProjectDoc True es project ct (pd_Path doc) s = Inr (doc, content))"
proof (intro conjI allI impI)
  fix docPath doc content
  assume read: "ReadProjectDoc True es project ct docPath s = Inr (doc, content)"
  obtain cleaned where c: "cleanProjectDocPath docPath = Inr cleaned" using read by (cases "cleanProjectDocPath docPath") (auto simp: ReadProjectDoc_def)
  have "doc \<in> set (ProjectDocs True es project ct) \<and>
       (pd_Path doc = generatedProjectDocPath \<and> content = generatedProjectDocContent project docs \<or>
        pd_SizeBytes doc \<le> 2097152 \<and>
        (\<exists>cs t. documented es cs (pd_SizeBytes doc) t \<and> read_node s (pr_Dir project @ tail_path cs) = Inr content))"
  proof (cases "cleaned = generatedProjectDocPath")
    case True
    then show ?thesis using read c by (auto simp: ReadProjectDoc_def ProjectDocs_def Let_def docs_def generatedProjectDoc_def)
  next
    case False
    then have f: "find (\<lambda>d. pd_Path d = cleaned) docs = Some doc" "pd_SizeBytes doc \<le> 2097152"
      "\<exists>fullPath. projectRelativePath (pr_Dir project) (pd_Path doc) = Inr fullPath \<and> read_node s fullPath = Inr content"
      using read c by (auto simp: ReadProjectDoc_def Let_def docs_def maxProjectDocBytes_def split: option.splits if_splits sum.splits)
    from f(1) have d: "doc \<in> set docs" by (auto simp: find_Some_iff)
    obtain cs t where cs: "documented es cs (pd_SizeBytes doc) t" "pd_Path doc = join ''/'' cs" "cs \<noteq> []" "\<forall>c \<in> set cs. plain_name c"
      using d unfolding docs_def by (rule discovered_documented[OF assms(1,2)])
    then have "read_node s (pr_Dir project @ tail_path cs) = Inr content"
      using f(3) projectRelativePath_plain[OF assms(1) cs(3,4)] by simp
    then show ?thesis using f(2) d cs(1) by (auto simp: ProjectDocs_def Let_def docs_def)
  qed
  then show "doc \<in> set (ProjectDocs True es project ct)"
    "pd_Path doc = generatedProjectDocPath \<and> content = generatedProjectDocContent project docs \<or>
        pd_SizeBytes doc \<le> 2097152 \<and>
        (\<exists>cs t. documented es cs (pd_SizeBytes doc) t \<and> read_node s (pr_Dir project @ tail_path cs) = Inr content)" by blast+
next
  fix doc content
  assume a: "doc \<in> set docs \<and> pd_SizeBytes doc \<le> 2097152 \<and> CHR 0x5C \<notin> set (pd_Path doc) \<and> trim_space (pd_Path doc) = pd_Path doc \<and>
       read_node s (pr_Dir project @ ''/'' @ pd_Path doc) = Inr content"
  then have d: "doc \<in> set (discoverProjectDocs (pr_Dir project) True es)" by (simp add: docs_def)
  obtain cs t where cs: "documented es cs (pd_SizeBytes doc) t" "pd_Path doc = join ''/'' cs" "cs \<noteq> []" "\<forall>c \<in> set cs. plain_name c"
    "pd_Path doc \<noteq> generatedProjectDocPath" using d by (rule discovered_documented[OF assms(1,2)])
  have "find (\<lambda>y. pd_Path y = pd_Path doc) (discoverProjectDocs (pr_Dir project) True es) = Some doc"
    using distinct_docs d by (rule find_distinct)
  moreover have "pr_Dir project @ ''/'' @ pd_Path doc = pr_Dir project @ tail_path cs" using cs(2) join_slashes[OF cs(3)] by simp
  ultimately show "ReadProjectDoc True es project ct (pd_Path doc) s = Inr (doc, content)"
    using a cs(2,5) cleanProjectDocPath_plain[OF cs(3,4)] projectRelativePath_plain[OF assms(1) cs(3,4)]
    by (simp add: ReadProjectDoc_def Let_def maxProjectDocBytes_def)
qed

subsection \<open>An example\<close>

definition demo_tree :: "(string \<times> doc_node) list" where
  "demo_tree = [(''.git'', DocDir []), (''README.md'', DocFile 5 0), (''compose.yml'', DocFile 9 0),
     (''docs'', DocDir [(''.drafts'', DocDir [(''a.md'', DocFile 1 0)]), (''link.md'', DocLink False), (''set_up.md'', DocFile 4 second)])]"

definition demo_docs_fs :: fsys where
  "demo_docs_fs = \<lparr> fs_nodes = map_of [(''/srv/web/README.md'', File ''hello''), (''/srv/web/docs/set_up.md'', File ''text'')],
     fs_unreadable = (\<lambda>_. False), fs_faults = [] \<rparr>"

lemma demo_tree_plain: "clean_dir ''/srv/web''" "plain_nodes demo_tree"
  by code_simp+

theorem discoverProjectDocs_exact_witness:
  "''docs/set_up.md'' \<in> pd_Path ` set (discoverProjectDocs ''/srv/web'' True demo_tree)"
proof -
  have "walked [(''.drafts'', DocDir [(''a.md'', DocFile 1 0)]), (''link.md'', DocLink False), (''set_up.md'', DocFile 4 second)]
      [''set_up.md''] (DocFile 4 second)"
    by (rule walked.here) (simp, simp, code_simp)
  then have "documented demo_tree [''docs'', ''set_up.md''] 4 second"
    by (simp add: documented_def demo_tree_def projectDocDirs_def)
  then have "join ''/'' [''docs'', ''set_up.md''] \<in> pd_Path ` set (discoverProjectDocs ''/srv/web'' True demo_tree)"
    using discoverProjectDocs_exact[OF demo_tree_plain] by blast
  then show ?thesis by simp
qed

theorem project_docs_served_witness:
  "ReadProjectDoc True demo_tree editor_project None ''docs/set_up.md'' demo_docs_fs =
     Inr (doc_of [''docs'', ''set_up.md''] 4 second, ''text'')"
proof -
  let ?doc = "doc_of [''docs'', ''set_up.md''] 4 second"
  have p: "clean_dir (pr_Dir editor_project)" by code_simp
  have "?doc \<in> set (discoverProjectDocs (pr_Dir editor_project) True demo_tree)" by code_simp
  moreover have "pd_SizeBytes ?doc \<le> 2097152" "pd_Path ?doc = ''docs/set_up.md''" by (simp_all add: doc_of_def)
  moreover have "trim_space ''docs/set_up.md'' = ''docs/set_up.md''" by code_simp
  moreover have "read_node demo_docs_fs (pr_Dir editor_project @ ''/'' @ ''docs/set_up.md'') = Inr ''text''" by code_simp
  moreover note conjunct2[OF project_docs_served[OF p demo_tree_plain(2), of None demo_docs_fs], rule_format, of ?doc "''text''"]
  ultimately show ?thesis by simp
qed

text \<open>
  The title of a name that begins with a letter outside ASCII loses its first byte: U+00FC, the two bytes
  C3 BC, becomes U+FFFD and a stray BC. A listed name with a backslash is looked up as a path with a
  slash, and is not found.
\<close>

lemma title_of_umlaut_is_garbled:
  "projectDocTitle (''docs/'' @ [CHR 0xC3, CHR 0xBC] @ ''ber.md'') = [CHR 0xEF, CHR 0xBF, CHR 0xBD, CHR 0xBC] @ ''ber''"
  by code_simp

lemma backslash_name_is_not_found:
  "let name = ''readme-a'' @ [CHR 0x5C] @ ''b.md''; es = [(name, DocFile 1 0)]
   in map pd_Path (discoverProjectDocs ''/srv/web'' True es) = [name] \<and>
      isl (ReadProjectDoc True es editor_project None name demo_docs_fs)"
  by code_simp

end
