(* ===== verification/NetAddr.thy ===== *)
theory NetAddr
  imports Prelude
begin

text \<open>
  Addresses as the server reads them: \<^verbatim>\<open>net.ParseIP\<close> of Go's standard library (through
  \<^verbatim>\<open>netip.ParseAddr\<close>), which gives sixteen bytes, and the kinds of addresses the firewall asks about.
\<close>

section \<open>Definitions\<close>

text \<open>Four decimal fields without leading zeros.\<close>

definition v4_field :: "string \<Rightarrow> nat option" where
  "v4_field s =
     (if length s = 1 \<or> (length s \<in> {2, 3} \<and> hd s \<noteq> CHR ''0'')
      then (case digits_val 0 s of Some v \<Rightarrow> if v \<le> 255 then Some (nat v) else None | None \<Rightarrow> None)
      else None)"

definition parse_v4 :: "string \<Rightarrow> nat list option" where
  "parse_v4 s =
     (let fs = map v4_field (split_on CHR ''.'' s)
      in if length fs = 4 \<and> None \<notin> set fs then Some (map the fs) else None)"

definition hex_val :: "char \<Rightarrow> nat option" where
  "hex_val c =
     (if is_digit c then Some (of_char c - 48)
      else if CHR ''a'' \<le> c \<and> c \<le> CHR ''f'' then Some (of_char c - 87)
      else if CHR ''A'' \<le> c \<and> c \<le> CHR ''F'' then Some (of_char c - 55)
      else None)"

definition hex_group :: "string \<Rightarrow> nat" where
  "hex_group h = foldl (\<lambda>v c. v * 16 + the (hex_val c)) 0 h"

text \<open>
  The loop of the IPv6 parser over the bytes found so far, the position of the ellipsis and the rest of
  the text. Each group has one to four digits; a dot after a group makes the rest an IPv4 address.
\<close>

function v6_loop :: "nat list \<Rightarrow> nat option \<Rightarrow> string \<Rightarrow> (nat list \<times> nat option \<times> string) option" where
  "v6_loop acc ell s =
     (if 16 \<le> length acc then Some (acc, ell, s)
      else
        (let h = takeWhile (\<lambda>c. hex_val c \<noteq> None) s;
             rest = drop (length h) s;
             acc' = acc @ [hex_group h div 256, hex_group h mod 256]
         in if h = [] \<or> length h > 4 then None
            else if has_prefix rest ''.'' then
              (if ell = None \<and> length acc \<noteq> 12 \<or> length acc + 4 > 16 then None
               else map_option (\<lambda>bs. (acc @ bs, ell, [])) (parse_v4 s))
            else
              (case rest of
                 [] \<Rightarrow> Some (acc', ell, [])
               | [c] \<Rightarrow> None
               | c # d # more \<Rightarrow>
                   if c \<noteq> CHR '':'' then None
                   else if d \<noteq> CHR '':'' then v6_loop acc' ell (d # more)
                   else if ell \<noteq> None then None
                   else if more = [] then Some (acc', Some (length acc'), [])
                   else v6_loop acc' (Some (length acc')) more)))"
  by pat_completeness auto
termination
  by (relation "measure (\<lambda>(acc, ell, s). 16 - length acc)") auto

declare v6_loop.simps [simp del]

definition v6_finish :: "(nat list \<times> nat option \<times> string) option \<Rightarrow> nat list option" where
  "v6_finish r =
     (case r of
        Some (acc, ell, []) \<Rightarrow>
          (case ell of
             None \<Rightarrow> if length acc = 16 then Some acc else None
           | Some e \<Rightarrow> if length acc < 16 then Some (take e acc @ replicate (16 - length acc) 0 @ drop e acc) else None)
      | _ \<Rightarrow> None)"

definition parse_v6 :: "string \<Rightarrow> nat list option" where
  "parse_v6 s =
     (if has_prefix s ''::''
      then (if s = ''::'' then Some (replicate 16 0) else v6_finish (v6_loop [] (Some 0) (drop 2 s)))
      else v6_finish (v6_loop [] None s))"

definition v4_mapped :: "nat list \<Rightarrow> nat list" where
  "v4_mapped bs = replicate 10 0 @ [255, 255] @ bs"

text \<open>\<^verbatim>\<open>net.ParseIP\<close>: the first dot or colon decides; zones are refused.\<close>

definition parse_ip :: "string \<Rightarrow> nat list option" where
  "parse_ip s =
     (case find (\<lambda>c. c \<in> set ''.:%'') s of
        Some c \<Rightarrow>
          if c = CHR ''.'' then map_option v4_mapped (parse_v4 s)
          else if CHR ''%'' \<in> set s then None
          else parse_v6 s
      | None \<Rightarrow> None)"

definition to4 :: "nat list \<Rightarrow> nat list option" where
  "to4 ip = (if take 12 ip = replicate 10 0 @ [255, 255] then Some (drop 12 ip) else None)"

definition is_loopback :: "nat list \<Rightarrow> bool" where
  "is_loopback ip = (case to4 ip of Some bs \<Rightarrow> hd bs = 127 | None \<Rightarrow> ip = replicate 15 0 @ [1])"

definition is_unspecified :: "nat list \<Rightarrow> bool" where
  "is_unspecified ip = (ip = v4_mapped (replicate 4 0) \<or> ip = replicate 16 0)"

definition is_link_local :: "nat list \<Rightarrow> bool" where
  "is_link_local ip =
     (case to4 ip of
        Some bs \<Rightarrow> bs ! 0 = 169 \<and> bs ! 1 = 254
      | None \<Rightarrow> ip ! 0 = 254 \<and> ip ! 1 div 64 = 2)"

section \<open>An address has sixteen bytes\<close>

lemma v4_field_range: "v4_field s = Some v \<Longrightarrow> v < 256"
  by (auto simp: v4_field_def split: if_splits option.splits)

lemma parse_v4_bytes:
  assumes "parse_v4 s = Some bs"
  shows "length bs = 4 \<and> (\<forall>b \<in> set bs. b < 256)"
proof -
  let ?fs = "map v4_field (split_on CHR ''.'' s)"
  have fs: "length ?fs = 4" "None \<notin> set ?fs" "bs = map the ?fs"
    using assms by (auto simp: parse_v4_def Let_def split: if_splits)
  then have "b < 256" if b: "b \<in> set bs" for b
  proof -
    obtain l where l: "l \<in> set (split_on CHR ''.'' s)" "b = the (v4_field l)" using b unfolding fs(3) by auto
    then have "v4_field l \<noteq> None" using fs(2) by (metis image_eqI list.set_map)
    then have "v4_field l = Some b" using l(2) by auto
    then show ?thesis by (rule v4_field_range)
  qed
  then show ?thesis using fs by simp
qed

lemma hex_val_range: "hex_val c = Some v \<Longrightarrow> v < 16"
proof (cases "is_digit c")
  case True
  then show "hex_val c = Some v \<Longrightarrow> v < 16"
    by (auto simp: hex_val_def is_digit_def less_eq_char_def)
next
  case False
  then show "hex_val c = Some v \<Longrightarrow> v < 16"
    by (auto simp: hex_val_def less_eq_char_def split: if_splits)
qed

lemma hex_group_range:
  "\<forall>c \<in> set h. hex_val c \<noteq> None \<Longrightarrow> hex_group h < 16 ^ length h"
proof (induction h rule: rev_induct)
  case (snoc c h)
  obtain v where v: "hex_val c = Some v" "v < 16" using snoc.prems hex_val_range by fastforce
  have "hex_group h < 16 ^ length h" using snoc by simp
  then have "hex_group h * 16 + 16 \<le> 16 ^ length h * 16" by linarith
  then show ?case using v by (simp add: hex_group_def)
qed (simp add: hex_group_def)

lemma hex_group_small: "\<forall>c \<in> set h. hex_val c \<noteq> None \<Longrightarrow> length h \<le> 4 \<Longrightarrow> hex_group h < 65536"
  using hex_group_range[of h] power_increasing[of "length h" 4 "16 :: nat"] by simp

lemma v6_loop_step:
  assumes "v6_loop acc ell s = Some r" "length acc < 16"
  defines "h \<equiv> takeWhile (\<lambda>c. hex_val c \<noteq> None) s"
  defines "acc' \<equiv> acc @ [hex_group h div 256, hex_group h mod 256]"
  shows "length h \<le> 4 \<and>
    ((\<exists>bs. parse_v4 s = Some bs \<and> length acc + 4 \<le> 16 \<and> r = (acc @ bs, ell, [])) \<or>
     r = (acc', ell, []) \<or> r = (acc', Some (length acc'), []) \<or>
     (\<exists>ell' s'. (ell' = ell \<or> ell' = Some (length acc')) \<and> v6_loop acc' ell' s' = Some r))"
proof -
  have step: "v6_loop acc ell s = (let rest = drop (length h) s in
       if h = [] \<or> length h > 4 then None
       else if has_prefix rest ''.'' then
         (if ell = None \<and> length acc \<noteq> 12 \<or> length acc + 4 > 16 then None
          else map_option (\<lambda>bs. (acc @ bs, ell, [])) (parse_v4 s))
       else
         (case rest of
            [] \<Rightarrow> Some (acc', ell, [])
          | [c] \<Rightarrow> None
          | c # d # more \<Rightarrow>
              if c \<noteq> CHR '':'' then None
              else if d \<noteq> CHR '':'' then v6_loop acc' ell (d # more)
              else if ell \<noteq> None then None
              else if more = [] then Some (acc', Some (length acc'), [])
              else v6_loop acc' (Some (length acc')) more))"
    using assms(2) unfolding h_def acc'_def by (subst v6_loop.simps) (simp only: not_le[symmetric] if_False Let_def)
  have short: "h \<noteq> [] \<and> length h \<le> 4" using assms(1) step by (auto simp: Let_def split: if_splits)
  show ?thesis
  proof (cases "has_prefix (drop (length h) s) ''.''")
    case True
    then show ?thesis using assms(1) step short by (auto simp: Let_def split: if_splits)
  next
    case False
    then show ?thesis using assms(1) step short by (auto simp: Let_def split: if_splits list.splits)
  qed
qed

lemma v6_loop_bytes:
  assumes "v6_loop acc ell s = Some (acc', ell', s')"
    and "\<forall>b \<in> set acc. b < 256" "length acc \<le> 16" "even (length acc)" "\<forall>e. ell = Some e \<longrightarrow> e \<le> length acc"
  shows "(\<forall>b \<in> set acc'. b < 256) \<and> length acc' \<le> 16 \<and> (\<forall>e. ell' = Some e \<longrightarrow> e \<le> length acc')"
  using assms
proof (induction "16 - length acc" arbitrary: acc ell s rule: less_induct)
  case less
  let ?h = "takeWhile (\<lambda>c. hex_val c \<noteq> None) s"
  let ?acc = "acc @ [hex_group ?h div 256, hex_group ?h mod 256]"
  show ?case
  proof (cases "length acc < 16")
    case False
    then show ?thesis using less.prems by (simp add: v6_loop.simps[of acc ell s])
  next
    case True
    then have room: "length acc + 2 \<le> 16" using less.prems(4) by (auto elim!: evenE)
    note step = v6_loop_step[OF less.prems(1) True]
    have "hex_group ?h < 65536" using step by (intro hex_group_small) (auto dest: set_takeWhileD)
    then have acc: "\<forall>b \<in> set ?acc. b < 256" "length ?acc \<le> 16" "even (length ?acc)" "length acc \<le> length ?acc"
      using less.prems(2,4) room by auto
    from step have alt: "(\<exists>bs. parse_v4 s = Some bs \<and> length acc + 4 \<le> 16 \<and> (acc', ell', s') = (acc @ bs, ell, [])) \<or>
      (acc', ell', s') = (?acc, ell, []) \<or> (acc', ell', s') = (?acc, Some (length ?acc), []) \<or>
      (\<exists>e t. (e = ell \<or> e = Some (length ?acc)) \<and> v6_loop ?acc e t = Some (acc', ell', s'))" by blast
    have shorter: "16 - length ?acc < 16 - length acc" using True by simp
    have bound: "\<forall>e. ell = Some e \<longrightarrow> e \<le> length ?acc" using less.prems(5) acc(4) le_trans by blast
    from alt show ?thesis
    proof (elim disjE exE conjE)
      fix bs assume "parse_v4 s = Some bs" "length acc + 4 \<le> 16" "(acc', ell', s') = (acc @ bs, ell, [])"
      then show ?thesis using less.prems parse_v4_bytes[of s bs] by auto
    next
      assume "(acc', ell', s') = (?acc, ell, [])"
      then have "acc' = ?acc" "ell' = ell" by simp_all
      then show ?thesis using acc bound by blast
    next
      assume "(acc', ell', s') = (?acc, Some (length ?acc), [])"
      then have e: "acc' = ?acc" "ell' = Some (length ?acc)" by simp_all
      show ?thesis unfolding e using acc(1,2) by (simp only: option.inject) blast
    next
      fix e t assume e: "e = ell" and l: "v6_loop ?acc e t = Some (acc', ell', s')"
      then show ?thesis using less.hyps[OF shorter l acc(1-3)] bound by blast
    next
      fix e t assume e: "e = Some (length ?acc)" and l: "v6_loop ?acc e t = Some (acc', ell', s')"
      have "\<forall>x. e = Some x \<longrightarrow> x \<le> length ?acc" unfolding e by (simp only: option.inject) blast
      then show ?thesis by (rule less.hyps[OF shorter l acc(1-3)])
    qed
  qed
qed

text \<open>Whatever \<^verbatim>\<open>net.ParseIP\<close> accepts is sixteen bytes.\<close>

lemma parse_ip_bytes:
  assumes "parse_ip s = Some ip"
  shows "length ip = 16 \<and> (\<forall>b \<in> set ip. b < 256)"
proof -
  have v6: "length ip = 16 \<and> (\<forall>b \<in> set ip. b < 256)"
    if fin: "v6_finish (v6_loop [] ell t) = Some ip" and start: "ell = None \<or> ell = Some 0" for ell t
  proof -
    obtain acc ell' r where l: "v6_loop [] ell t = Some (acc, ell', r)"
      using fin by (cases "v6_loop [] ell t") (auto simp: v6_finish_def)
    from v6_loop_bytes[OF l] start
    have "(\<forall>b \<in> set acc. b < 256) \<and> length acc \<le> 16 \<and> (\<forall>e. ell' = Some e \<longrightarrow> e \<le> length acc)" by auto
    then show ?thesis
      using fin l by (auto simp: v6_finish_def split: list.splits option.splits if_splits; metis in_set_takeD in_set_dropD)
  qed
  obtain c where c: "find (\<lambda>c. c \<in> set ''.:%'') s = Some c" using assms by (auto simp: parse_ip_def split: option.splits)
  show ?thesis
  proof (cases "c = CHR ''.''")
    case True
    then obtain bs where "parse_v4 s = Some bs" "ip = v4_mapped bs" using assms c by (auto simp: parse_ip_def)
    then show ?thesis using parse_v4_bytes by (auto simp: v4_mapped_def)
  next
    case False
    then have "parse_v6 s = Some ip" using assms c by (auto simp: parse_ip_def split: if_splits)
    then show ?thesis using v6 by (auto simp: parse_v6_def split: if_splits)
  qed
qed

end
