(* ===== verification/Firewall.thy ===== *)
theory Firewall
  imports Auth NetAddr
begin

text \<open>
  The firewall skill (\<^verbatim>\<open>internal/skills/firewall/firewall.go\<close>): ConfigServer Firewall on the host, driven
  through a root helper script that runs in a throwaway container. Running the container is an argument
  \<open>run\<close> of the operations, on an abstract state \<open>'w\<close>; the lemmas hold for every behaviour of it. The
  patterns the helper script itself checks (\<^verbatim>\<open>scripts/stack-manager-csf.sh\<close>) are modelled as well, as the
  contract of the arguments the server passes.
\<close>

section \<open>Definitions\<close>

subsection \<open>The helper\<close>

text \<open>What a run of the container gives: its two outputs and the text of its error, if any.\<close>

record helper_output =
  hp_stdout :: string
  hp_stderr :: string
  hp_error :: "string option"

type_synonym 'w runner = "string list \<Rightarrow> string option \<Rightarrow> 'w \<Rightarrow> helper_output \<times> 'w"

datatype helper_error = HelperMissing | CsfMissing | HelperFailed string

definition defaultHelperPath :: string where
  "defaultHelperPath = ''/usr/local/sbin/stack-manager-csf''"

fun helper_text :: "helper_error \<Rightarrow> string" where
  "helper_text HelperMissing = ''host helper script not installed at '' @ defaultHelperPath"
| "helper_text CsfMissing = ''csf is not installed on this host''"
| "helper_text (HelperFailed e) = e"

record StatusResult =
  sr_Installed :: bool
  sr_HelperInstalled :: bool
  sr_HelperInstallHint :: string
  sr_TestingMode :: string
  sr_IptablesRules :: int
  sr_LFDActive :: bool
  sr_Version :: string
  sr_Raw :: string

record Skill =
  fw_helperPath :: string
  fw_baseImagePrefix :: string
  fw_lastStatus :: StatusResult
  fw_statusTime :: instant
  fw_allowSkipUntil :: instant

definition blank_status :: StatusResult where
  "blank_status = \<lparr> sr_Installed = False, sr_HelperInstalled = False, sr_HelperInstallHint = [], sr_TestingMode = [],
     sr_IptablesRules = 0, sr_LFDActive = False, sr_Version = [], sr_Raw = [] \<rparr>"

definition New :: Skill where
  "New = \<lparr> fw_helperPath = defaultHelperPath, fw_baseImagePrefix = [], fw_lastStatus = blank_status,
     fw_statusTime = zero_time, fw_allowSkipUntil = zero_time \<rparr>"

text \<open>The two settings of the configuration (empty when they are missing or no text) and the environment variable.\<close>

definition Init :: "string \<Rightarrow> string \<Rightarrow> string \<Rightarrow> Skill \<Rightarrow> Skill" where
  "Init helper_path base_image_prefix env_prefix S =
     (let S1 = (if helper_path \<noteq> [] then S \<lparr> fw_helperPath := helper_path \<rparr> else S)
      in if base_image_prefix \<noteq> [] then S1 \<lparr> fw_baseImagePrefix := base_image_prefix \<rparr>
         else if env_prefix \<noteq> [] then S1 \<lparr> fw_baseImagePrefix := env_prefix \<rparr>
         else S1)"

definition HostHelperEnv :: "string \<Rightarrow> string list" where
  "HostHelperEnv docker_host =
     ''PATH=/usr/local/sbin:/usr/local/bin:/usr/sbin:/usr/bin:/sbin:/bin'' #
       (if docker_host \<noteq> [] then [''DOCKER_HOST='' @ docker_host] else [])"

definition docker_args :: "Skill \<Rightarrow> string option \<Rightarrow> string \<Rightarrow> string list \<Rightarrow> string list" where
  "docker_args S stdin sub args =
     [''run'', ''--rm''] @ (if stdin \<noteq> None then [''-i''] else []) @
     [''--privileged'', ''--network=host'', ''--pid=host'', ''-v'', ''/:/host'',
      ''-e'', ''PATH=/usr/local/sbin:/usr/local/bin:/usr/sbin:/usr/bin:/sbin:/bin'',
      fw_baseImagePrefix S @ ''alpine:3.22'', ''chroot'', ''/host'', fw_helperPath S, sub] @ args"

definition runHelper :: "Skill \<Rightarrow> 'w runner \<Rightarrow> string option \<Rightarrow> string \<Rightarrow> string list \<Rightarrow> 'w \<Rightarrow>
    (string \<times> helper_error option) \<times> 'w" where
  "runHelper S run stdin sub args w =
     (let (r, w1) = run (docker_args S stdin sub args) stdin w; out = hp_stdout r in
      case hp_error r of
        None \<Rightarrow> ((out, None), w1)
      | Some err \<Rightarrow>
          (let combined = hp_stderr r @ '' '' @ out in
           if contains combined (fw_helperPath S) \<and>
              (contains combined ''No such file'' \<or> contains combined (''can'' @ [CHR 0x27] @ ''t execute'') \<or> contains combined ''not found'')
           then ((out, Some HelperMissing), w1)
           else if contains combined ''csf is not installed'' then ((out, Some CsfMissing), w1)
           else ((out, Some (HelperFailed (''helper failed: '' @ err @ '': '' @ trim_space (hp_stderr r)))), w1)))"

subsection \<open>Texts\<close>

definition comment_char :: "char \<Rightarrow> bool" where
  "comment_char c \<longleftrightarrow> (CHR ''A'' \<le> c \<and> c \<le> CHR ''Z'') \<or> (CHR ''a'' \<le> c \<and> c \<le> CHR ''z'') \<or> is_digit c \<or>
     c \<in> set '' ._@:/-''"

definition sanitizeComment :: "string \<Rightarrow> string" where
  "sanitizeComment comment = take 120 (filter comment_char (trim_space comment))"

text \<open>\<^verbatim>\<open>portRe\<close>: its alternatives, with the class of characters of each place.\<close>

definition port_alternatives :: "(char \<times> char) list list" where
  "port_alternatives =
     (let d = (CHR ''0'', CHR ''9''); nz = (CHR ''1'', CHR ''9''); six = (CHR ''6'', CHR ''6''); five = (CHR ''5'', CHR ''5'')
      in [[nz], [nz, d], [nz, d, d], [nz, d, d, d],
          [(CHR ''1'', CHR ''5''), d, d, d, d],
          [six, (CHR ''0'', CHR ''4''), d, d, d],
          [six, five, (CHR ''0'', CHR ''4''), d, d],
          [six, five, five, (CHR ''0'', CHR ''2''), d],
          [six, five, five, (CHR ''3'', CHR ''3''), (CHR ''0'', CHR ''5'')]])"

definition portRe :: "string \<Rightarrow> bool" where
  "portRe p = (\<exists>alt \<in> set port_alternatives. list_all2 (\<lambda>c (lo, hi). lo \<le> c \<and> c \<le> hi) p alt)"

text \<open>One mapping such as \<^verbatim>\<open>0.0.0.0:8080->80/tcp\<close>: the host's port.\<close>

fun cut_arrow :: "string \<Rightarrow> string \<Rightarrow> string option" where
  "cut_arrow acc [] = None"
| "cut_arrow acc (c # cs) = (if has_prefix (c # cs) ''->'' then Some (rev acc) else cut_arrow (c # acc) cs)"

definition mapped_port :: "string \<Rightarrow> string option" where
  "mapped_port mapping =
     (case cut_arrow [] (trim_space mapping) of
        None \<Rightarrow> None
      | Some hostPart \<Rightarrow>
          if hostPart = [] then None
          else
            (case last_colon hostPart of
               None \<Rightarrow> None
             | Some (_, portPart) \<Rightarrow>
                 (let port = trim_space portPart in if port = [] \<or> port = ''0'' then None else Some port)))"

definition ParseProjectPorts :: "string list \<Rightarrow> string list" where
  "ParseProjectPorts portStrings =
     fold (\<lambda>p ports. if p \<in> set ports then ports else ports @ [p])
       (List.map_filter mapped_port (concat (map (split_on CHR '','') portStrings))) []"

definition status_line :: "string \<Rightarrow> StatusResult \<Rightarrow> StatusResult" where
  "status_line l r =
     (case cut_at CHR ''='' (trim_space l) of
        None \<Rightarrow> r
      | Some (k, v) \<Rightarrow>
          (let key = trim_space k; val = trim_space v in
           if key = ''installed'' then r \<lparr> sr_Installed := (val = ''true'') \<rparr>
           else if key = ''testing_mode'' then r \<lparr> sr_TestingMode := val \<rparr>
           else if key = ''iptables_rules'' then
             (if snd (atoi val) then r \<lparr> sr_IptablesRules := fst (atoi val) \<rparr> else r)
           else if key = ''lfd_active'' then r \<lparr> sr_LFDActive := (val = ''true'') \<rparr>
           else r))"

definition parseStatus :: "string \<Rightarrow> string \<Rightarrow> StatusResult" where
  "parseStatus statusOut versionOut =
     (fold status_line (split_on newline statusOut) (blank_status \<lparr> sr_Raw := statusOut \<rparr>))
       \<lparr> sr_Version := trim_space (hd (split_on newline versionOut)) \<rparr>"

record IPEntry =
  ie_IP :: string
  ie_Comment :: string
  ie_Raw :: string

definition ip_line :: "string \<Rightarrow> IPEntry option" where
  "ip_line l =
     (let trimmed = trim_space l in
      if trimmed = [] \<or> has_prefix trimmed ''#'' then None
      else
        (case cut_at CHR ''#'' trimmed of
           Some (a, b) \<Rightarrow> Some \<lparr> ie_IP = trim_space a, ie_Comment = trim_space b, ie_Raw = trimmed \<rparr>
         | None \<Rightarrow> Some \<lparr> ie_IP = trimmed, ie_Comment = [], ie_Raw = trimmed \<rparr>))"

definition parseIPList :: "string \<Rightarrow> IPEntry list" where
  "parseIPList content = List.map_filter ip_line (split_on newline content)"

subsection \<open>The settings of \<^verbatim>\<open>csf.conf\<close>\<close>

definition confKeys :: "string list" where
  "confKeys = [''TESTING'', ''TCP_IN'', ''TCP_OUT'', ''UDP_IN'', ''UDP_OUT'', ''TCP6_IN'', ''TCP6_OUT'', ''UDP6_IN'', ''UDP6_OUT'',
     ''RESTRICT_SYSLOG'', ''SYNFLOOD'', ''CONNLIMIT'', ''PORTFLOOD'', ''DOCKER'']"

definition conf_names :: "(string \<times> string) list" where
  "conf_names = [(''testing'', ''TESTING''), (''tcp_in'', ''TCP_IN''), (''tcp_out'', ''TCP_OUT''),
     (''udp_in'', ''UDP_IN''), (''udp_out'', ''UDP_OUT''), (''tcp6_in'', ''TCP6_IN''), (''tcp6_out'', ''TCP6_OUT''),
     (''udp6_in'', ''UDP6_IN''), (''udp6_out'', ''UDP6_OUT''), (''restrict_syslog'', ''RESTRICT_SYSLOG''),
     (''synflood'', ''SYNFLOOD''), (''connlimit'', ''CONNLIMIT''), (''portflood'', ''PORTFLOOD''), (''docker'', ''DOCKER'')]"

text \<open>The key and the raw value of a line that sets something.\<close>

definition conf_line :: "string \<Rightarrow> (string \<times> string) option" where
  "conf_line l =
     (let t = trim_space l in
      if t = [] \<or> has_prefix t ''#'' then None
      else map_option (\<lambda>(k, v). (trim_space k, v)) (cut_at CHR ''='' t))"

definition unquoted :: "string \<Rightarrow> string" where
  "unquoted v = (let t = trim_space v; quotes = [CHR 0x22, CHR 0x27] in trim_right (trim_left t quotes) quotes)"

definition conf_step :: "string list \<Rightarrow> string \<Rightarrow> (string \<Rightarrow> string option) \<Rightarrow> (string \<Rightarrow> string option)" where
  "conf_step keys l m =
     (case conf_line l of
        None \<Rightarrow> m
      | Some (k, v) \<Rightarrow> if k \<in> set keys then m(k \<mapsto> unquoted v) else m)"

definition parseConfKeys :: "string \<Rightarrow> string list \<Rightarrow> string \<Rightarrow> string option" where
  "parseConfKeys content keys = fold (conf_step keys) (split_on newline content) (\<lambda>_. None)"

text \<open>The changes come as the object of the request; an update is used once.\<close>

fun change_lines :: "(string \<times> string) list \<Rightarrow> string list \<Rightarrow> string list" where
  "change_lines updates [] = []"
| "change_lines updates (l # ls) =
     (case conf_line l of
        None \<Rightarrow> l # change_lines updates ls
      | Some (k, _) \<Rightarrow>
          (case map_of updates k of
             None \<Rightarrow> l # change_lines updates ls
           | Some v \<Rightarrow> (k @ '' = '' @ [CHR 0x22] @ v @ [CHR 0x22]) # change_lines (AList.delete k updates) ls))"

definition conf_updates :: "(string \<times> string) list \<Rightarrow> (string \<times> string) list" where
  "conf_updates changes = List.map_filter (\<lambda>(j, k). map_option (Pair k) (map_of changes j)) conf_names"

definition applyConfChanges :: "string \<Rightarrow> (string \<times> string) list \<Rightarrow> string" where
  "applyConfChanges content changes =
     (if conf_updates changes = [] then content
      else join [newline] (change_lines (conf_updates changes) (split_on newline content)))"

subsection \<open>Logins\<close>

definition allowSkipInterval :: duration where
  "allowSkipInterval = 15 * minute"

text \<open>\<^verbatim>\<open>AllowIP\<close>: \<open>now\<close> is the time of the check, \<open>later\<close> the time after the helper ran. The result is the error.\<close>

definition AllowIP :: "'w runner \<Rightarrow> instant \<Rightarrow> instant \<Rightarrow> string \<Rightarrow> string \<Rightarrow> Skill \<Rightarrow> 'w \<Rightarrow> (string option \<times> Skill) \<times> 'w" where
  "AllowIP run now later ipText comment S w =
     (let ip = trim_space ipText in
      if ip = [] then ((Some ''empty ip'', S), w)
      else
        (case parse_ip ip of
           None \<Rightarrow> ((Some (''invalid ip: '' @ ip), S), w)
         | Some parsed \<Rightarrow>
             if is_loopback parsed \<or> is_unspecified parsed \<or> is_link_local parsed then ((None, S), w)
             else
               (let c = (if sanitizeComment comment = [] then ''Stack Manager'' else sanitizeComment comment) in
                if now < fw_allowSkipUntil S then ((None, S), w)
                else
                  (case runHelper S run None ''allow-ip'' [ip, c] w of
                     ((_, Some HelperMissing), w1) \<Rightarrow> ((None, S \<lparr> fw_allowSkipUntil := later + allowSkipInterval \<rparr>), w1)
                   | ((_, Some CsfMissing), w1) \<Rightarrow> ((None, S \<lparr> fw_allowSkipUntil := later + allowSkipInterval \<rparr>), w1)
                   | ((_, Some (HelperFailed e)), w1) \<Rightarrow> ((Some e, S), w1)
                   | ((_, None), w1) \<Rightarrow> ((None, S), w1)))))"

subsection \<open>Handlers\<close>

record port_result =
  po_port :: string
  po_status :: string
  po_detail :: string

datatype reply =
    RIp string
  | RStatus StatusResult
  | RVersion string
  | ROutput string
  | REntries "IPEntry list"
  | RRaw string
  | RPorts string "port_result list"
  | RConfig string string
  | RLog int string
  | RAllowed string string
  | RSettings "(string \<times> string) list"
  | RSaved

type_synonym 'w answer = "(reply response \<times> Skill) \<times> 'w"

definition helperInstallHint :: string where
  "helperInstallHint = ''Run this on the host once (one-time setup):'' @ [newline] @
     ''sudo install -m 750 scripts/stack-manager-csf.sh '' @ defaultHelperPath"

definition handleStatus :: "'w runner \<Rightarrow> instant \<Rightarrow> Skill \<Rightarrow> 'w \<Rightarrow> 'w answer" where
  "handleStatus run now S w =
     (case runHelper S run None ''status'' [] w of
        ((_, Some HelperMissing), w1) \<Rightarrow>
          ((write_json 200 (RStatus (blank_status \<lparr> sr_HelperInstallHint := helperInstallHint, sr_Version := ''host helper not installed'' \<rparr>)), S), w1)
      | ((_, Some e), w1) \<Rightarrow> ((write_error 500 (helper_text e), S), w1)
      | ((out, None), w1) \<Rightarrow>
          (let ((vout, _), w2) = runHelper S run None ''version'' [] w1;
               result = (parseStatus out vout) \<lparr> sr_HelperInstalled := True \<rparr>
           in ((write_json 200 (RStatus result), S \<lparr> fw_lastStatus := result, fw_statusTime := now \<rparr>), w2)))"

text \<open>The answers of a command: its output, or its error with the output behind it.\<close>

definition writeCommandResult :: "string \<Rightarrow> helper_error option \<Rightarrow> reply response" where
  "writeCommandResult out e =
     (case e of Some err \<Rightarrow> write_error 500 (helper_text err @ '': '' @ out) | None \<Rightarrow> write_json 200 (ROutput out))"

definition command :: "'w runner \<Rightarrow> string option \<Rightarrow> string \<Rightarrow> string list \<Rightarrow> Skill \<Rightarrow> 'w \<Rightarrow> 'w answer" where
  "command run stdin sub args S w =
     (let ((out, e), w1) = runHelper S run stdin sub args w in ((writeCommandResult out e, S), w1))"

text \<open>The answers that only report an error's text.\<close>

definition query :: "'w runner \<Rightarrow> string \<Rightarrow> string list \<Rightarrow> (string \<Rightarrow> reply) \<Rightarrow> Skill \<Rightarrow> 'w \<Rightarrow> 'w answer" where
  "query run sub args f S w =
     (case runHelper S run None sub args w of
        ((_, Some e), w1) \<Rightarrow> ((write_error 500 (helper_text e), S), w1)
      | ((out, None), w1) \<Rightarrow> ((write_json 200 (f out), S), w1))"

definition handleInstall :: "'w runner \<Rightarrow> Skill \<Rightarrow> 'w \<Rightarrow> 'w answer" where
  "handleInstall run S w =
     (let ((out, e), w1) = runHelper S run None ''install'' [] w
      in ((writeCommandResult out e, if e = None then S \<lparr> fw_allowSkipUntil := zero_time \<rparr> else S), w1))"

definition handleUninstall :: "'w runner \<Rightarrow> string \<Rightarrow> Skill \<Rightarrow> 'w \<Rightarrow> 'w answer" where
  "handleUninstall run confirm S w =
     (if to_upper (trim_space confirm) \<noteq> ''UNINSTALL''
      then ((write_error 400 (''confirmation required: {'' @ [CHR 0x22] @ ''confirm'' @ [CHR 0x22] @ '':'' @ [CHR 0x22] @ ''UNINSTALL'' @ [CHR 0x22] @ ''}''), S), w)
      else command run None ''uninstall'' [] S w)"

text \<open>The decoded body is the address and the comment, \<open>None\<close> when it could not be decoded.\<close>

definition before_slash :: "string \<Rightarrow> string" where
  "before_slash ip = hd (split_on CHR ''/'' ip)"

definition decodeIPBody :: "(string \<times> string) option \<Rightarrow> (string \<times> string) result" where
  "decodeIPBody body =
     (case body of
        None \<Rightarrow> Inl ''invalid request body''
      | Some (ipText, c) \<Rightarrow>
          (let ip = trim_space ipText in
           if parse_ip (before_slash ip) = None then Inl ''invalid IP''
           else if sanitizeComment c = [] then Inl ''comment is required''
           else Inr (ip, sanitizeComment c)))"

definition handleIP :: "string \<Rightarrow> 'w runner \<Rightarrow> (string \<times> string) option \<Rightarrow> Skill \<Rightarrow> 'w \<Rightarrow> 'w answer" where
  "handleIP sub run body S w =
     (case decodeIPBody body of
        Inl e \<Rightarrow> ((write_error 400 e, S), w)
      | Inr (ip, c) \<Rightarrow> command run None sub [ip, c] S w)"

fun allow_ports :: "Skill \<Rightarrow> 'w runner \<Rightarrow> string \<Rightarrow> string list \<Rightarrow> 'w \<Rightarrow> port_result list \<times> 'w" where
  "allow_ports S run proto [] w = ([], w)"
| "allow_ports S run proto (text # ps) w =
     (let p = trim_space text in
      if \<not> portRe p then
        (let (rs, w1) = allow_ports S run proto ps w
         in (\<lparr> po_port = p, po_status = ''skipped'', po_detail = ''not a valid port'' \<rparr> # rs, w1))
      else
        (let ((out, e), w1) = runHelper S run None ''allow-port'' [p, proto] w;
             (rs, w2) = allow_ports S run proto ps w1
         in ((case e of
                Some err \<Rightarrow> \<lparr> po_port = p, po_status = ''error'', po_detail = trim_space out @ '' '' @ helper_text err \<rparr>
              | None \<Rightarrow> \<lparr> po_port = p, po_status = ''ok'', po_detail = trim_space out \<rparr>) # rs, w2)))"

definition handleAllowPorts :: "'w runner \<Rightarrow> (string list \<times> string) option \<Rightarrow> Skill \<Rightarrow> 'w \<Rightarrow> 'w answer" where
  "handleAllowPorts run body S w =
     (case body of
        None \<Rightarrow> ((write_error 400 ''invalid request body'', S), w)
      | Some (ports, protoText) \<Rightarrow>
          (let proto = (if to_lower (trim_space protoText) = ''udp'' then ''udp'' else ''tcp'') in
           if ports = [] then ((write_error 400 ''no ports provided'', S), w)
           else (let (results, w1) = allow_ports S run proto ports w in ((write_json 200 (RPorts proto results), S), w1))))"

definition handleRemoveIP :: "'w runner \<Rightarrow> string \<Rightarrow> Skill \<Rightarrow> 'w \<Rightarrow> 'w answer" where
  "handleRemoveIP run ip S w =
     (if parse_ip (before_slash ip) = None then ((write_error 400 ''invalid IP'', S), w)
      else command run None ''remove-ip'' [ip] S w)"

definition allowedConfigs :: "string list" where
  "allowedConfigs = [''csf.conf'', ''csf.allow'', ''csf.deny'', ''csf.ignore'', ''csf.pignore'']"

definition handleReadConfig :: "'w runner \<Rightarrow> string \<Rightarrow> Skill \<Rightarrow> 'w \<Rightarrow> 'w answer" where
  "handleReadConfig run name S w =
     (if name \<notin> set allowedConfigs then ((write_error 400 ''config name not allowed'', S), w)
      else query run ''read-config'' [name] (RConfig name) S w)"

definition without_nul :: "string \<Rightarrow> string" where
  "without_nul s = filter (\<lambda>c. c \<noteq> CHR 0x00) s"

definition handleWriteConfig :: "'w runner \<Rightarrow> string \<Rightarrow> string option \<Rightarrow> Skill \<Rightarrow> 'w \<Rightarrow> 'w answer" where
  "handleWriteConfig run name body S w =
     (if name \<notin> set allowedConfigs then ((write_error 400 ''config name not allowed'', S), w)
      else
        (case body of
           None \<Rightarrow> ((write_error 400 ''invalid request body'', S), w)
         | Some text \<Rightarrow>
             if int (length (without_nul text)) > 512 * 1024 then ((write_error 413 ''config too large'', S), w)
             else command run (Some (without_nul text)) ''write-config'' [name] S w))"

definition handleTailLog :: "'w runner \<Rightarrow> string \<Rightarrow> Skill \<Rightarrow> 'w \<Rightarrow> 'w answer" where
  "handleTailLog run q S w =
     (let lines = (if q \<noteq> [] \<and> snd (atoi q) \<and> fst (atoi q) > 0 \<and> fst (atoi q) \<le> 5000 then fst (atoi q) else 200)
      in query run ''tail-log'' [itoa lines] (RLog lines) S w)"

definition clientIP :: "request \<Rightarrow> string" where
  "clientIP r =
     (let ip = trim_space (rq_real_ip r); xff = rq_forwarded_for r in
      if ip \<noteq> [] then ip
      else if xff \<noteq> [] then
        (case cut_at CHR '','' xff of
           Some (a, _) \<Rightarrow> if a = [] then trim_space xff else trim_space a
         | None \<Rightarrow> trim_space xff)
      else
        (case split_host_port (rq_remote_addr r) of
           Some host \<Rightarrow> if host \<noteq> [] then host else rq_remote_addr r
         | None \<Rightarrow> rq_remote_addr r))"

definition handleAllowMyIP :: "'w runner \<Rightarrow> request \<Rightarrow> PublicUser \<Rightarrow> Skill \<Rightarrow> 'w \<Rightarrow> 'w answer" where
  "handleAllowMyIP run r user S w =
     query run ''allow-ip'' [clientIP r, sanitizeComment (''Stack Manager admin '' @ pu_Username user @ '' manual'')]
       (RAllowed (clientIP r)) S w"

definition handleGetConfSettings :: "'w runner \<Rightarrow> Skill \<Rightarrow> 'w \<Rightarrow> 'w answer" where
  "handleGetConfSettings run S w =
     query run ''read-config'' [''csf.conf'']
       (\<lambda>raw. RSettings (map (\<lambda>(j, k). (j, case parseConfKeys raw confKeys k of Some v \<Rightarrow> v | None \<Rightarrow> [])) conf_names)) S w"

definition handleSaveConfSettings :: "'w runner \<Rightarrow> (string \<times> string) list option \<Rightarrow> Skill \<Rightarrow> 'w \<Rightarrow> 'w answer" where
  "handleSaveConfSettings run body S w =
     (case body of
        None \<Rightarrow> ((write_error 400 ''invalid request body'', S), w)
      | Some changes \<Rightarrow>
          (case runHelper S run None ''read-config'' [''csf.conf''] w of
             ((_, Some e), w1) \<Rightarrow> ((write_error 500 (helper_text e), S), w1)
           | ((raw, None), w1) \<Rightarrow>
               (case runHelper S run (Some (without_nul (applyConfChanges raw changes))) ''write-config'' [''csf.conf''] w1 of
                  ((_, Some e), w2) \<Rightarrow> ((write_error 500 (helper_text e), S), w2)
                | ((_, None), w2) \<Rightarrow> ((write_json 200 RSaved, S), w2))))"

text \<open>The routes: everything except the client's own address is for administrators.\<close>

datatype fw_request =
    ClientIPReq
  | StatusReq | VersionReq | InstallReq | UninstallReq string | RestartReq | ReloadLFDReq
  | ListAllowReq | ListDenyReq | ListTempbansReq
  | AllowIPReq "(string \<times> string) option" | DenyIPReq "(string \<times> string) option"
  | AllowPortsReq "(string list \<times> string) option" | RemoveIPReq string
  | ReadConfigReq string | WriteConfigReq string "string option"
  | GetConfReq | SaveConfReq "(string \<times> string) list option"
  | TailLogReq string | AllowMyIPReq

fun admin_route :: "'w runner \<Rightarrow> instant \<Rightarrow> request \<Rightarrow> PublicUser \<Rightarrow> fw_request \<Rightarrow> Skill \<Rightarrow> 'w \<Rightarrow> 'w answer" where
  "admin_route run now r user ClientIPReq S w = ((write_json 200 (RIp (clientIP r)), S), w)"
| "admin_route run now r user StatusReq S w = handleStatus run now S w"
| "admin_route run now r user VersionReq S w = query run ''version'' [] (\<lambda>out. RVersion (trim_space out)) S w"
| "admin_route run now r user InstallReq S w = handleInstall run S w"
| "admin_route run now r user (UninstallReq c) S w = handleUninstall run c S w"
| "admin_route run now r user RestartReq S w = command run None ''restart'' [] S w"
| "admin_route run now r user ReloadLFDReq S w = command run None ''reload-lfd'' [] S w"
| "admin_route run now r user ListAllowReq S w = query run ''list-allow'' [] (\<lambda>out. REntries (parseIPList out)) S w"
| "admin_route run now r user ListDenyReq S w = query run ''list-deny'' [] (\<lambda>out. REntries (parseIPList out)) S w"
| "admin_route run now r user ListTempbansReq S w = query run ''list-tempbans'' [] RRaw S w"
| "admin_route run now r user (AllowIPReq b) S w = handleIP ''allow-ip'' run b S w"
| "admin_route run now r user (DenyIPReq b) S w = handleIP ''deny-ip'' run b S w"
| "admin_route run now r user (AllowPortsReq b) S w = handleAllowPorts run b S w"
| "admin_route run now r user (RemoveIPReq ip) S w = handleRemoveIP run ip S w"
| "admin_route run now r user (ReadConfigReq n) S w = handleReadConfig run n S w"
| "admin_route run now r user (WriteConfigReq n b) S w = handleWriteConfig run n b S w"
| "admin_route run now r user GetConfReq S w = handleGetConfSettings run S w"
| "admin_route run now r user (SaveConfReq b) S w = handleSaveConfSettings run b S w"
| "admin_route run now r user (TailLogReq q) S w = handleTailLog run q S w"
| "admin_route run now r user AllowMyIPReq S w = handleAllowMyIP run r user S w"

definition firewall_route :: "'w runner \<Rightarrow> instant \<Rightarrow> request \<Rightarrow> PublicUser \<Rightarrow> fw_request \<Rightarrow> Skill \<Rightarrow> 'w \<Rightarrow> 'w answer" where
  "firewall_route run now r user q S w =
     (if q \<noteq> ClientIPReq \<and> \<not> RequireAdmin (Some user) then ((write_error 403 ''admin role required'', S), w)
      else admin_route run now r user q S w)"

section \<open>Ports\<close>

lemma digit_char_le: "a < 10 \<Longrightarrow> b < 10 \<Longrightarrow> digit_char a \<le> digit_char b \<longleftrightarrow> a \<le> b"
  by (simp add: less_eq_char_def of_char_digit_char)

lemma char_of_code: "of_char c = (of_char d :: nat) \<Longrightarrow> c = d"
  by simp

lemma in_class:
  assumes "a < 10" "b < 10"
  shows "digit_char a \<le> c \<and> c \<le> digit_char b \<longleftrightarrow> (\<exists>d. a \<le> d \<and> d \<le> b \<and> c = digit_char d)"
proof
  assume c: "digit_char a \<le> c \<and> c \<le> digit_char b"
  then have n: "48 + a \<le> (of_char c :: nat)" "(of_char c :: nat) \<le> 48 + b"
    using assms by (simp_all add: less_eq_char_def of_char_digit_char)
  let ?d = "(of_char c :: nat) - 48"
  have "of_char c = (of_char (digit_char ?d) :: nat)" using n assms by (simp add: of_char_digit_char)
  then have "c = digit_char ?d" by (rule char_of_code)
  moreover have "a \<le> ?d" "?d \<le> b" using n by linarith+
  ultimately show "\<exists>d. a \<le> d \<and> d \<le> b \<and> c = digit_char d" by blast
qed (use assms digit_char_le in auto)

text \<open>The alternatives over digits: the lowest and the highest digit of each place.\<close>

definition port_digits :: "(nat \<times> nat) list list" where
  "port_digits = [[(1, 9)], [(1, 9), (0, 9)], [(1, 9), (0, 9), (0, 9)], [(1, 9), (0, 9), (0, 9), (0, 9)],
     [(1, 5), (0, 9), (0, 9), (0, 9), (0, 9)], [(6, 6), (0, 4), (0, 9), (0, 9), (0, 9)],
     [(6, 6), (5, 5), (0, 4), (0, 9), (0, 9)], [(6, 6), (5, 5), (5, 5), (0, 2), (0, 9)],
     [(6, 6), (5, 5), (5, 5), (3, 3), (0, 5)]]"

definition between :: "nat list \<Rightarrow> (nat \<times> nat) list \<Rightarrow> bool" where
  "between ds alt = list_all2 (\<lambda>d (lo, hi). lo \<le> d \<and> d \<le> hi) ds alt"

lemma port_alternatives_digits:
  "port_alternatives = map (map (\<lambda>(lo, hi). (digit_char lo, digit_char hi))) port_digits"
  by code_simp

lemma port_digits_small: "alt \<in> set port_digits \<Longrightarrow> (lo, hi) \<in> set alt \<Longrightarrow> lo < 10 \<and> hi < 10"
  by (auto simp: port_digits_def)

lemma class_digits:
  assumes "\<forall>(lo, hi) \<in> set alt. lo < 10 \<and> hi < 10"
  shows "list_all2 (\<lambda>c (lo, hi). lo \<le> c \<and> c \<le> hi) p (map (\<lambda>(lo, hi). (digit_char lo, digit_char hi)) alt) \<longleftrightarrow>
    (\<exists>ds. p = map digit_char ds \<and> between ds alt)"
  using assms
proof (induction alt arbitrary: p)
  case (Cons a alt)
  obtain lo hi where a: "a = (lo, hi)" by (cases a)
  have ab: "lo < 10" "hi < 10" "\<forall>(lo, hi) \<in> set alt. lo < 10 \<and> hi < 10" using Cons.prems a by auto
  show ?case
  proof (cases p)
    case (Cons c cs)
    show ?thesis
      unfolding Cons a using Cons.IH[OF ab(3), of cs] in_class[OF ab(1,2), of c]
      by (auto simp: between_def list_all2_Cons2 Cons_eq_map_conv)
  qed (auto simp: between_def list_all2_Cons2)
qed (simp add: between_def)

lemma portRe_digits: "portRe p \<longleftrightarrow> (\<exists>alt \<in> set port_digits. \<exists>ds. p = map digit_char ds \<and> between ds alt)"
proof -
  have "portRe p \<longleftrightarrow> (\<exists>alt \<in> set port_digits.
      list_all2 (\<lambda>c (lo, hi). lo \<le> c \<and> c \<le> hi) p (map (\<lambda>(lo, hi). (digit_char lo, digit_char hi)) alt))"
    by (simp add: portRe_def port_alternatives_digits)
  also have "\<dots> \<longleftrightarrow> (\<exists>alt \<in> set port_digits. \<exists>ds. p = map digit_char ds \<and> between ds alt)"
  proof (rule bex_cong[OF refl])
    fix alt assume "alt \<in> set port_digits"
    then show "list_all2 (\<lambda>c (lo, hi). lo \<le> c \<and> c \<le> hi) p (map (\<lambda>(lo, hi). (digit_char lo, digit_char hi)) alt) \<longleftrightarrow>
        (\<exists>ds. p = map digit_char ds \<and> between ds alt)"
      using port_digits_small by (intro class_digits) auto
  qed
  finally show ?thesis .
qed

lemma nat_string_snoc: "0 < m \<Longrightarrow> d < 10 \<Longrightarrow> nat_string (10 * m + d) = nat_string m @ [digit_char d]"
  by (subst nat_string.simps) simp

text \<open>A numeral is the text of its digits.\<close>

definition numeral_value :: "nat list \<Rightarrow> nat" where
  "numeral_value ds = foldl (\<lambda>v d. 10 * v + d) 0 ds"

lemma numeral_value_snoc [simp]: "numeral_value (ds @ [d]) = 10 * numeral_value ds + d"
  by (simp add: numeral_value_def)

lemma numeral_value_lower:
  "ds \<noteq> [] \<Longrightarrow> 0 < hd ds \<Longrightarrow> 10 ^ (length ds - 1) \<le> numeral_value ds"
proof (induction ds rule: rev_induct)
  case (snoc d ds)
  show ?case
  proof (cases "ds = []")
    case True
    then show ?thesis using snoc.prems by (simp add: numeral_value_def)
  next
    case False
    then have "10 ^ (length ds - 1) \<le> numeral_value ds" using snoc by simp
    then have "10 * 10 ^ (length ds - 1) \<le> 10 * numeral_value ds" by simp
    moreover have "10 * 10 ^ (length ds - 1) = (10 ^ length ds :: nat)" using False by (cases ds) simp_all
    ultimately show ?thesis by simp
  qed
qed simp

lemma nat_string_of_digits:
  "ds \<noteq> [] \<Longrightarrow> 0 < hd ds \<Longrightarrow> \<forall>d \<in> set ds. d < 10 \<Longrightarrow> nat_string (numeral_value ds) = map digit_char ds"
proof (induction ds rule: rev_induct)
  case (snoc d ds)
  show ?case
  proof (cases "ds = []")
    case True
    then show ?thesis using snoc.prems by (simp add: numeral_value_def nat_string.simps[of d])
  next
    case False
    then have ds: "0 < hd ds" "\<forall>d \<in> set ds. d < 10" "d < 10" using snoc.prems by simp_all
    have "0 < numeral_value ds" using numeral_value_lower[OF False ds(1)] by (metis less_le_trans zero_less_numeral zero_less_power)
    then show ?thesis using snoc.IH[OF False ds(1,2)] nat_string_snoc ds(3) by simp
  qed
qed simp

lemma digits_exist:
  "0 < n \<Longrightarrow> \<exists>ds. ds \<noteq> [] \<and> 0 < hd ds \<and> (\<forall>d \<in> set ds. d < 10) \<and> numeral_value ds = n"
proof (induction n rule: less_induct)
  case (less n)
  show ?case
  proof (cases "n < 10")
    case True
    then show ?thesis using less.prems by (intro exI[of _ "[n]"]) (simp add: numeral_value_def)
  next
    case False
    then obtain ds where ds: "ds \<noteq> []" "0 < hd ds" "\<forall>d \<in> set ds. d < 10" "numeral_value ds = n div 10"
      using less.IH[of "n div 10"] less.prems by (auto simp: div_greater_zero_iff)
    then show ?thesis by (intro exI[of _ "ds @ [n mod 10]"]) auto
  qed
qed

lemma port_digits_range:
  assumes "alt \<in> set port_digits" "between ds alt"
  shows "ds \<noteq> [] \<and> 0 < hd ds \<and> (\<forall>d \<in> set ds. d < 10) \<and> numeral_value ds \<le> 65535"
  using assms
  by (auto simp: port_digits_def between_def list_all2_Cons2 numeral_value_def)

lemma small_numerals_are_ports:
  assumes "ds \<noteq> []" "0 < hd ds" "\<forall>d \<in> set ds. d < 10" "numeral_value ds \<le> 65535"
  shows "\<exists>alt \<in> set port_digits. between ds alt"
proof -
  have "10 ^ (length ds - 1) \<le> (65535 :: nat)" using numeral_value_lower[OF assms(1,2)] assms(4) by linarith
  then have "\<not> 5 \<le> length ds - 1" using power_increasing[of 5 "length ds - 1" "10 :: nat"] by fastforce
  then consider a where "ds = [a]" | a b where "ds = [a, b]" | a b c where "ds = [a, b, c]"
    | a b c d where "ds = [a, b, c, d]" | a b c d e where "ds = [a, b, c, d, e]"
    using assms(1) by (cases ds rule: remdups_adj.cases) (auto simp: neq_Nil_conv length_Suc_conv eval_nat_numeral not_le less_Suc_eq)
  then show ?thesis
  proof cases
    case (5 a b c d e)
    have v: "10000 * a + 1000 * b + 100 * c + 10 * d + e \<le> 65535" and r: "0 < a" "a < 10" "b < 10" "c < 10" "d < 10" "e < 10"
      using assms 5 by (auto simp: numeral_value_def)
    consider "a \<le> 5" | "a = 6" "b \<le> 4" | "a = 6" "b = 5" "c \<le> 4" | "a = 6" "b = 5" "c = 5" "d \<le> 2"
      | "a = 6" "b = 5" "c = 5" "d = 3" "e \<le> 5" using v by linarith
    then show ?thesis by cases (use r in \<open>auto simp: 5 port_digits_def between_def\<close>)
  qed (use assms in \<open>auto simp: port_digits_def between_def\<close>)
qed

text \<open>The pattern accepts exactly the decimal numerals of 1 to 65535, without leading zeros.\<close>

lemma port_numerals: "portRe p \<longleftrightarrow> (\<exists>n \<in> {1..65535}. p = itoa n)"
proof
  assume "portRe p"
  then obtain alt ds where alt: "alt \<in> set port_digits" "p = map digit_char ds" "between ds alt"
    unfolding portRe_digits by blast
  note r = port_digits_range[OF alt(1,3)]
  then have "p = itoa (int (numeral_value ds))" using alt(2) nat_string_of_digits[of ds] by (simp add: itoa_def)
  moreover have "1 \<le> numeral_value ds" using r numeral_value_lower[of ds] by (metis le_trans one_le_numeral one_le_power)
  ultimately show "\<exists>n \<in> {1..65535}. p = itoa n" using r by (intro bexI[of _ "int (numeral_value ds)"]) simp_all
next
  assume "\<exists>n \<in> {1..65535}. p = itoa n"
  then obtain n where n: "1 \<le> n" "n \<le> 65535" "p = nat_string (nat n)" by (auto simp: itoa_def)
  then obtain ds where ds: "ds \<noteq> []" "0 < hd ds" "\<forall>d \<in> set ds. d < 10" "numeral_value ds = nat n"
    using digits_exist[of "nat n"] by auto
  then have "p = map digit_char ds" using n(3) nat_string_of_digits[OF ds(1-3)] by simp
  moreover have "\<exists>alt \<in> set port_digits. between ds alt" using ds n(2) by (intro small_numerals_are_ports) auto
  ultimately show "portRe p" unfolding portRe_digits by blast
qed

section \<open>The commands the server runs\<close>

text \<open>A runner that keeps the commands and the texts given to them.\<close>

definition recorded :: "'w runner \<Rightarrow> ('w \<times> (string list \<times> string option) list) runner" where
  "recorded run args stdin = (\<lambda>(w, l). let (r, w1) = run args stdin w in (r, (w1, l @ [(args, stdin)])))"

text \<open>
  The contract of the helper script: its subcommands and the patterns of their arguments. \<open>own\<close> is the
  address that \<^verbatim>\<open>allow-my-ip\<close> sends without looking at it.
\<close>

definition comment_re :: "string \<Rightarrow> bool" where
  "comment_re c = (c \<noteq> [] \<and> length c \<le> 120 \<and> (\<forall>x \<in> set c. comment_char x))"

definition address_ok :: "string \<Rightarrow> string \<Rightarrow> bool" where
  "address_ok own ip = (parse_ip (before_slash ip) \<noteq> None \<or> ip = own)"

definition helper_contract :: "string \<Rightarrow> string \<Rightarrow> string list \<Rightarrow> bool" where
  "helper_contract own sub args =
     (case args of
        [] \<Rightarrow> sub \<in> set [''version'', ''status'', ''list-allow'', ''list-deny'', ''list-tempbans'', ''restart'', ''reload-lfd'', ''install'', ''uninstall'']
      | [a] \<Rightarrow>
          sub = ''remove-ip'' \<and> address_ok own a \<or>
          sub \<in> set [''read-config'', ''write-config''] \<and> a \<in> set allowedConfigs \<or>
          sub = ''tail-log'' \<and> (\<exists>n \<in> {1..5000}. a = itoa n)
      | [a, b] \<Rightarrow>
          sub \<in> set [''allow-ip'', ''deny-ip''] \<and> address_ok own a \<and> comment_re b \<or>
          sub = ''allow-port'' \<and> (\<exists>n \<in> {1..65535}. a = itoa n) \<and> b \<in> set [''tcp'', ''udp'']
      | _ \<Rightarrow> False)"

definition permitted :: "string \<Rightarrow> Skill \<Rightarrow> string list \<times> string option \<Rightarrow> bool" where
  "permitted own S = (\<lambda>(args, stdin). \<exists>sub as. args = docker_args S stdin sub as \<and> helper_contract own sub as \<and>
     (case stdin of None \<Rightarrow> True | Some text \<Rightarrow> sub = ''write-config'' \<and> CHR 0x00 \<notin> set text))"

definition all_permitted :: "string \<Rightarrow> Skill \<Rightarrow> 'w \<times> (string list \<times> string option) list \<Rightarrow> bool" where
  "all_permitted own S s = (\<forall>e \<in> set (snd s). permitted own S e)"

lemma runHelper_recorded:
  "runHelper S (recorded run) stdin sub args (w, l) =
     (fst (runHelper S run stdin sub args w), (snd (runHelper S run stdin sub args w), l @ [(docker_args S stdin sub args, stdin)]))"
  by (auto simp: runHelper_def recorded_def Let_def split: prod.splits option.splits)

lemma recorded_run:
  obtains out e w1 where "runHelper S (recorded run) stdin sub args (w, l) = ((out, e), (w1, l @ [(docker_args S stdin sub args, stdin)]))"
proof -
  obtain r w1 where r: "runHelper S run stdin sub args w = (r, w1)" by (rule prod.exhaust)
  obtain out e where "r = (out, e)" by (rule prod.exhaust)
  then show thesis using that[of out e w1] r runHelper_recorded[of S run stdin sub args w l] by simp
qed

lemma permitted_run:
  assumes "runHelper S (recorded run) stdin sub args s = (r, s')" "all_permitted own S s" "helper_contract own sub args"
    and "case stdin of None \<Rightarrow> True | Some text \<Rightarrow> sub = ''write-config'' \<and> CHR 0x00 \<notin> set text"
  shows "all_permitted own S s'"
proof -
  have "snd s' = snd s @ [(docker_args S stdin sub args, stdin)]"
    using assms(1) by (cases s) (auto simp: runHelper_def recorded_def Let_def split: prod.splits option.splits if_splits)
  then show ?thesis using assms(2-4) by (auto simp: all_permitted_def permitted_def)
qed

lemma permitted_command:
  "helper_contract own sub args \<Longrightarrow> all_permitted own S s \<Longrightarrow>
   (case stdin of None \<Rightarrow> True | Some text \<Rightarrow> sub = ''write-config'' \<and> CHR 0x00 \<notin> set text) \<Longrightarrow>
   all_permitted own S (snd (command (recorded run) stdin sub args S s))"
  by (auto simp: command_def split: prod.split dest: permitted_run)

lemma permitted_query:
  "helper_contract own sub args \<Longrightarrow> all_permitted own S s \<Longrightarrow> all_permitted own S (snd (query (recorded run) sub args f S s))"
  by (auto simp: query_def split: prod.split option.split dest: permitted_run)

lemma sanitized_comment: "sanitizeComment c \<noteq> [] \<Longrightarrow> comment_re (sanitizeComment c)"
  by (auto simp: comment_re_def sanitizeComment_def dest: in_set_takeD)

lemma own_comment: "comment_re (sanitizeComment (''Stack Manager admin '' @ u @ '' manual''))"
proof (rule sanitized_comment)
  have "trim_space ([] @ CHR ''S'' # ''tack Manager admin '' @ u @ '' manual'') =
      trim_left_space [] @ CHR ''S'' # trim_right_space (''tack Manager admin '' @ u @ '' manual'')"
    by (rule trim_space_barrier) (simp add: plain_def ascii_space_def)
  then obtain r where "trim_space (''Stack Manager admin '' @ u @ '' manual'') = CHR ''S'' # r"
    by (auto simp: trim_left_space_def trim_by.simps)
  moreover have "comment_char CHR ''S''" by code_simp
  ultimately show "sanitizeComment (''Stack Manager admin '' @ u @ '' manual'') \<noteq> []" by (simp add: sanitizeComment_def)
qed

lemma permitted_ports:
  assumes "proto = ''udp'' \<or> proto = ''tcp''" "all_permitted own S s"
  shows "all_permitted own S (snd (allow_ports S (recorded run) proto ps s))"
  using assms(2)
proof (induction ps arbitrary: s)
  case (Cons t ps)
  show ?case
  proof (cases "portRe (trim_space t)")
    case True
    then have "helper_contract own ''allow-port'' [trim_space t, proto]"
      using assms(1) port_numerals by (auto simp: helper_contract_def)
    then have "all_permitted own S (snd (runHelper S (recorded run) None ''allow-port'' [trim_space t, proto] s))"
      using permitted_run[of S run None _ _ s] Cons.prems by (metis option.simps(4) prod.collapse)
    then show ?thesis using Cons.IH True by (simp add: Let_def split_beta)
  qed (use Cons in \<open>simp add: split_beta Let_def\<close>)
qed simp

text \<open>A request that reaches its handler starts only permitted containers.\<close>

lemma permitted_requests:
  assumes "q \<noteq> ClientIPReq"
  shows "all_permitted (clientIP r) S (snd (admin_route (recorded run) now r user q S (w, [])))"
proof -
  let ?own = "clientIP r"
  obtain s' where s': "s' = snd (admin_route (recorded run) now r user q S (w, []))" by simp
  have start: "all_permitted ?own S (w, [])" by (simp add: all_permitted_def)
  note cmd = permitted_command[OF _ start] and qry = permitted_query[OF _ start]
  note plain = cmd[of _ "[]" None run] qry[of _ "[]" run]
  have two: "all_permitted ?own S s2"
    if "runHelper S (recorded run) None sub1 as1 (w, []) = (r1, s1)" "helper_contract ?own sub1 as1"
      "runHelper S (recorded run) stdin sub as s1 = (r2, s2)" "helper_contract ?own sub as"
      "case stdin of None \<Rightarrow> True | Some text \<Rightarrow> sub = ''write-config'' \<and> CHR 0x00 \<notin> set text"
    for sub1 as1 r1 s1 stdin sub as r2 s2
    using permitted_run[OF that(3) permitted_run[OF that(1) start that(2)] that(4,5)] by simp
  have one: "all_permitted ?own S s1"
    if "runHelper S (recorded run) None sub1 as1 (w, []) = (r1, s1)" "helper_contract ?own sub1 as1" for sub1 as1 r1 s1
    using permitted_run[OF that(1) start that(2)] by simp
  have "all_permitted ?own S s'"
  proof (cases q)
    case StatusReq
    then show ?thesis unfolding s'
      by (auto simp: handleStatus_def helper_contract_def Let_def split: prod.split option.split helper_error.split intro: one two)
  next
    case InstallReq
    then show ?thesis unfolding s'
      by (auto simp: handleInstall_def helper_contract_def split: prod.split intro: one)
  next
    case (UninstallReq c)
    then show ?thesis unfolding s'
      using start by (auto simp: handleUninstall_def helper_contract_def intro: plain)
  next
    case (AllowIPReq b)
    then show ?thesis unfolding s'
      using start sanitized_comment
      by (auto simp: handleIP_def decodeIPBody_def Let_def helper_contract_def address_ok_def split: option.split prod.split sum.split intro!: cmd)
  next
    case (DenyIPReq b)
    then show ?thesis unfolding s'
      using start sanitized_comment
      by (auto simp: handleIP_def decodeIPBody_def Let_def helper_contract_def address_ok_def split: option.split prod.split sum.split intro!: cmd)
  next
    case (AllowPortsReq b)
    then show ?thesis unfolding s'
      using start permitted_ports[of _ ?own S "(w, [])" run]
      by (auto simp: handleAllowPorts_def Let_def split: option.split prod.split) (metis snd_conv)+
  next
    case (RemoveIPReq ip)
    then show ?thesis unfolding s'
      using start by (auto simp: handleRemoveIP_def helper_contract_def address_ok_def intro!: cmd)
  next
    case (ReadConfigReq n)
    then show ?thesis unfolding s'
      using start by (auto simp: handleReadConfig_def helper_contract_def intro!: qry)
  next
    case (WriteConfigReq n b)
    then show ?thesis unfolding s'
      using start by (auto simp: handleWriteConfig_def helper_contract_def without_nul_def split: option.split intro!: cmd)
  next
    case GetConfReq
    then show ?thesis unfolding s'
      by (auto simp: handleGetConfSettings_def helper_contract_def allowedConfigs_def intro!: qry)
  next
    case (SaveConfReq b)
    then show ?thesis unfolding s'
      using start
      by (auto simp: handleSaveConfSettings_def helper_contract_def allowedConfigs_def without_nul_def
          split: option.split prod.split intro: one two)
  next
    case (TailLogReq t)
    have "helper_contract ?own ''tail-log'' [itoa (if t \<noteq> [] \<and> snd (atoi t) \<and> fst (atoi t) > 0 \<and> fst (atoi t) \<le> 5000 then fst (atoi t) else 200)]"
      by (auto simp: helper_contract_def)
    then show ?thesis unfolding s' TailLogReq by (simp only: admin_route.simps handleTailLog_def Let_def qry)
  next
    case AllowMyIPReq
    then show ?thesis unfolding s'
      using own_comment by (auto simp: handleAllowMyIP_def helper_contract_def address_ok_def intro!: qry)
  qed (use start assms in \<open>auto simp: s' helper_contract_def intro!: plain\<close>)
  then show ?thesis by (simp add: s')
qed


text \<open>
  Property C35. Opening ports reports every requested port in order; it runs the helper for exactly the
  numerals of 1 to 65535 among them, in order, and skips the others.
\<close>

theorem allow_ports_exact:
  assumes "allow_ports S (recorded run) proto ps (w, []) = (results, (w', log))"
  shows "map po_port results = map trim_space ps \<and>
    (\<forall>r \<in> set results. po_status r = ''skipped'' \<longleftrightarrow> \<not> (\<exists>n \<in> {1..65535}. po_port r = itoa n)) \<and>
    map fst log = map (\<lambda>p. docker_args S None ''allow-port'' [p, proto])
      (filter (\<lambda>p. \<exists>n \<in> {1..65535}. p = itoa n) (map trim_space ps))"
proof -
  have "map po_port (fst (allow_ports S (recorded run) proto ps (w, l))) = map trim_space ps \<and>
    (\<forall>r \<in> set (fst (allow_ports S (recorded run) proto ps (w, l))). po_status r = ''skipped'' \<longleftrightarrow> \<not> portRe (po_port r)) \<and>
    map fst (snd (snd (allow_ports S (recorded run) proto ps (w, l)))) =
      map fst l @ map (\<lambda>p. docker_args S None ''allow-port'' [p, proto]) (filter portRe (map trim_space ps))" for l
  proof (induction ps arbitrary: w l)
    case (Cons t ps)
    show ?case
    proof (cases "portRe (trim_space t)")
      case True
      obtain out e w1 where run: "runHelper S (recorded run) None ''allow-port'' [trim_space t, proto] (w, l) =
          ((out, e), (w1, l @ [(docker_args S None ''allow-port'' [trim_space t, proto], None)]))"
        by (rule recorded_run)
      show ?thesis
        using True Cons.IH[of w1 "l @ [(docker_args S None ''allow-port'' [trim_space t, proto], None)]"]
        by (auto simp: Let_def run split_beta split: option.split)
    qed (use Cons.IH[of w l] in \<open>simp add: split_beta Let_def\<close>)
  qed simp
  from this[of "[]"] assms show ?thesis unfolding port_numerals by simp
qed

section \<open>Logins\<close>

text \<open>
  A login asks for at most one address, a valid one that is neither a loopback, an unspecified
  nor a link-local address, with a comment the helper accepts, and for none while allowlisting is
  suspended.
\<close>

theorem login_allows_own_address:
  assumes "AllowIP (recorded run) now later ipText comment S (w, []) = ((e, S'), (w', log))"
  shows "log = [] \<or> (fw_allowSkipUntil S \<le> now \<and>
    (\<exists>ip parsed c. log = [(docker_args S None ''allow-ip'' [ip, c], None)] \<and> ip = trim_space ipText \<and>
       parse_ip ip = Some parsed \<and> \<not> is_loopback parsed \<and> \<not> is_unspecified parsed \<and> \<not> is_link_local parsed \<and> comment_re c))"
proof (cases "log = []")
  case False
  let ?ip = "trim_space ipText" and ?c = "if sanitizeComment comment = [] then ''Stack Manager'' else sanitizeComment comment"
  obtain parsed where p: "parse_ip ?ip = Some parsed" "\<not> is_loopback parsed" "\<not> is_unspecified parsed" "\<not> is_link_local parsed"
    "\<not> now < fw_allowSkipUntil S"
    using assms False by (auto simp: AllowIP_def Let_def split: if_splits option.splits)
  obtain out err w1 where run: "runHelper S (recorded run) None ''allow-ip'' [?ip, ?c] (w, []) =
      ((out, err), (w1, [] @ [(docker_args S None ''allow-ip'' [?ip, ?c], None)]))"
    by (rule recorded_run)
  have "?ip \<noteq> []" using p(1) by (auto simp: parse_ip_def)
  then have "log = [(docker_args S None ''allow-ip'' [?ip, ?c], None)]"
    using assms p run by (auto simp: AllowIP_def Let_def split: option.splits helper_error.splits)
  moreover have "comment_re ''Stack Manager''" by code_simp
  then have "comment_re ?c" using sanitized_comment by simp
  ultimately show ?thesis using p by auto
qed simp

datatype fw_event =
    Login string string instant instant
  | Request request PublicUser fw_request instant

fun fw_step :: "'w runner \<Rightarrow> fw_event \<Rightarrow> Skill \<times> 'w \<Rightarrow> Skill \<times> 'w" where
  "fw_step run (Login ip c now later) (S, w) = (let ((_, S1), w1) = AllowIP run now later ip c S w in (S1, w1))"
| "fw_step run (Request r user q now) (S, w) = (let ((_, S1), w1) = firewall_route run now r user q S w in (S1, w1))"

text \<open>Events before a time that do not install the firewall.\<close>

fun quiet :: "instant \<Rightarrow> fw_event \<Rightarrow> bool" where
  "quiet t (Login ip c now later) = (now < t)"
| "quiet t (Request r user q now) = (q \<noteq> InstallReq)"

lemma skipped_login:
  assumes "now < fw_allowSkipUntil S"
  shows "\<exists>e. AllowIP run now later ip c S w = ((e, S), w)"
  using assms by (auto simp: AllowIP_def Let_def split: option.splits)

lemma request_keeps_skip:
  assumes "q \<noteq> InstallReq"
  shows "fw_allowSkipUntil (snd (fst (firewall_route run now r user q S w))) = fw_allowSkipUntil S"
  using assms
  by (cases q) (auto simp: firewall_route_def handleStatus_def command_def query_def handleUninstall_def handleIP_def
      handleAllowPorts_def handleRemoveIP_def handleReadConfig_def handleWriteConfig_def handleTailLog_def
      handleAllowMyIP_def handleGetConfSettings_def handleSaveConfSettings_def Let_def split_beta
      split: option.split sum.split helper_error.split)

lemma quiet_keeps_skip:
  "\<forall>ev \<in> set evs. quiet (fw_allowSkipUntil S) ev \<Longrightarrow>
   fw_allowSkipUntil (fst (fold (fw_step run) evs (S, w))) = fw_allowSkipUntil S"
proof (induction evs arbitrary: S w)
  case (Cons ev evs)
  obtain S1 w1 where s: "fw_step run ev (S, w) = (S1, w1)" by (rule prod.exhaust)
  have "fw_allowSkipUntil S1 = fw_allowSkipUntil S"
  proof (cases ev)
    case (Login ip c now later)
    then have "now < fw_allowSkipUntil S" using Cons.prems by simp
    then show ?thesis using s Login skipped_login[of now S run later ip c w] by auto
  next
    case (Request r user q now)
    then show ?thesis using s Cons.prems request_keeps_skip[of q run now r user S w] by (auto simp: split_beta)
  qed
  then show ?case using Cons.IH[of S1 w1] Cons.prems s by simp
qed simp

text \<open>
  Property C34. Once a login has found no usable firewall, no login within the next fifteen minutes starts a
  container, whatever requests come in between, unless the firewall is installed; a successful
  installation ends the suspension at once.
\<close>

theorem login_allowlist_suspended:
  assumes "AllowIP run now later ip c S w = ((e, S1), w1)" "S1 \<noteq> S"
    and "\<forall>ev \<in> set evs. quiet (later + 15 * minute) ev"
    and "fold (fw_step run) evs (S1, w1) = (S2, w2)" "now2 < later + 15 * minute"
  shows "e = None \<and> (\<exists>e2. AllowIP run now2 later2 ip2 c2 S2 w2 = ((e2, S2), w2)) \<and>
    (fst (fst (fst (handleInstall run S2 w2))) = 200 \<longrightarrow> fw_allowSkipUntil (snd (fst (handleInstall run S2 w2))) = zero_time)"
proof -
  have "e = None" "fw_allowSkipUntil S1 = later + 15 * minute"
    using assms(1,2) by (auto simp: AllowIP_def Let_def allowSkipInterval_def split: if_splits option.splits prod.splits helper_error.splits)
  moreover have "fw_allowSkipUntil S2 = fw_allowSkipUntil S1"
    using quiet_keeps_skip[of evs S1 run w1] assms(3,4) calculation by simp
  ultimately show ?thesis
    using skipped_login[of now2 S2 run later2 ip2 c2 w2] assms(5)
    by (auto simp: handleInstall_def writeCommandResult_def split_beta split: option.splits if_splits)
qed

section \<open>The settings as a map\<close>

text \<open>All the values a key is given in a list of lines, in order; the last one counts.\<close>

definition settings_of :: "string \<Rightarrow> string list \<Rightarrow> string list" where
  "settings_of k ls = map (\<lambda>(_, v). unquoted v) (filter (\<lambda>(k', _). k' = k) (List.map_filter conf_line ls))"

lemma settings_of_simps [simp]:
  "settings_of k [] = []"
  "settings_of k (l # ls) = (case conf_line l of
     None \<Rightarrow> settings_of k ls
   | Some (k', v) \<Rightarrow> if k' = k then unquoted v # settings_of k ls else settings_of k ls)"
  by (auto simp: settings_of_def List.map_filter_simps split: option.split)

lemma conf_fold:
  "fold (conf_step keys) ls m k =
     (if k \<in> set keys \<and> settings_of k ls \<noteq> [] then Some (List.last (settings_of k ls)) else m k)"
proof (induction ls arbitrary: m)
  case (Cons l ls)
  show ?case
    unfolding fold.simps comp_apply Cons.IH
    by (auto simp: conf_step_def split: option.split)
qed simp

lemma parseConfKeys_last:
  "k \<in> set keys \<Longrightarrow> parseConfKeys content keys k =
     (case settings_of k (split_on newline content) of [] \<Rightarrow> None | v # vs \<Rightarrow> Some (List.last (v # vs)))"
  by (auto simp: parseConfKeys_def conf_fold split: list.split)

text \<open>A value that can be written: one line, no quotes at its ends.\<close>

definition plain_value :: "string \<Rightarrow> bool" where
  "plain_value v = (newline \<notin> set v \<and> (v = [] \<or> hd v \<notin> {CHR 0x22, CHR 0x27} \<and> List.last v \<notin> {CHR 0x22, CHR 0x27}))"

definition setting_line :: "string \<Rightarrow> string \<Rightarrow> string" where
  "setting_line k v = k @ '' = '' @ [CHR 0x22] @ v @ [CHR 0x22]"

lemma confKeys_plain:
  "k \<in> set confKeys \<Longrightarrow> k \<noteq> [] \<and> CHR ''='' \<notin> set k \<and> plain (hd k) \<and> hd k \<noteq> CHR ''#'' \<and> newline \<notin> set k \<and> trim_space (k @ '' '') = k"
proof -
  have "\<forall>k \<in> set confKeys. k \<noteq> [] \<and> CHR ''='' \<notin> set k \<and> plain (hd k) \<and> hd k \<noteq> CHR ''#'' \<and> newline \<notin> set k \<and> trim_space (k @ '' '') = k"
    by code_simp
  then show "k \<in> set confKeys \<Longrightarrow> ?thesis" by blast
qed

lemma trim_one_side [simp]: "trim_left_space [] = []" "trim_right_space [] = []"
  by (simp_all add: trim_left_space_def trim_right_space_def trim_by.simps)

lemma trim_space_both: "plain a \<Longrightarrow> plain b \<Longrightarrow> trim_space (a # s @ [b]) = a # s @ [b]"
  using trim_space_barrier[of a "[]" "s @ [b]"] trim_right_space_barrier[of b s "[]"] by simp

lemma setting_line_parsed:
  assumes "k \<in> set confKeys"
  shows "conf_line (setting_line k v) = Some (k, '' '' @ [CHR 0x22] @ v @ [CHR 0x22])"
proof -
  note k = confKeys_plain[OF assms]
  obtain c r where c: "k = c # r" using k by (cases k) auto
  have q: "plain CHR 0x22" by code_simp
  have line: "setting_line k v = c # (r @ '' = '' @ [CHR 0x22] @ v) @ [CHR 0x22]" by (simp add: setting_line_def c)
  have t: "trim_space (setting_line k v) = setting_line k v"
    unfolding line using k c q by (intro trim_space_both) simp_all
  have "\<not> has_prefix (setting_line k v) ''#''" using k c by (simp add: setting_line_def)
  moreover have "setting_line k v = (k @ '' '') @ CHR ''='' # ('' '' @ [CHR 0x22] @ v @ [CHR 0x22])" by (simp add: setting_line_def)
  then have "cut_at CHR ''='' (setting_line k v) = Some (k @ '' '', '' '' @ [CHR 0x22] @ v @ [CHR 0x22])"
    using k cut_at_append[of "CHR ''=''" "k @ '' ''"] by simp
  moreover have "setting_line k v \<noteq> []" using line by simp
  ultimately show ?thesis using k t by (simp add: conf_line_def)
qed

lemma unquoted_setting:
  assumes "plain_value v"
  shows "unquoted ('' '' @ [CHR 0x22] @ v @ [CHR 0x22]) = v"
proof -
  have q: "plain CHR 0x22" by code_simp
  have "trim_space ('' '' @ CHR 0x22 # v @ [CHR 0x22]) = trim_left_space '' '' @ CHR 0x22 # trim_right_space (v @ CHR 0x22 # [])"
    using trim_space_barrier[OF q, of "'' ''" "v @ [CHR 0x22]"] by simp
  moreover have "trim_left_space '' '' = []" by code_simp
  ultimately have t: "trim_space ('' '' @ CHR 0x22 # v @ [CHR 0x22]) = CHR 0x22 # v @ [CHR 0x22]"
    using trim_right_space_barrier[OF q, of v "[]"] by simp
  show ?thesis
  proof (cases "v = []")
    case True
    then show ?thesis using t by (simp add: unquoted_def trim_left_def trim_right_def)
  next
    case False
    then have ends: "hd v \<noteq> CHR 0x22" "hd v \<noteq> CHR 0x27" "List.last v \<noteq> CHR 0x22" "List.last v \<noteq> CHR 0x27"
      using assms by (auto simp: plain_value_def)
    have "dropWhile (\<lambda>c. c \<in> set [CHR 0x22, CHR 0x27]) (CHR 0x22 # v @ [CHR 0x22]) = v @ [CHR 0x22]"
      using False ends by (cases v) auto
    moreover have "dropWhile (\<lambda>c. c \<in> set [CHR 0x22, CHR 0x27]) (rev (v @ [CHR 0x22])) = rev v"
      using False ends by (cases v rule: rev_cases) auto
    ultimately show ?thesis using t by (simp add: unquoted_def trim_left_def trim_right_def Let_def del: dropWhile.simps)
  qed
qed

text \<open>What the changed lines set.\<close>

lemma settings_of_change:
  assumes "distinct (map fst u)" "\<forall>(k, v) \<in> set u. k \<in> set confKeys \<and> plain_value v"
  shows "settings_of k (change_lines u ls) =
    (case map_of u k of
       None \<Rightarrow> settings_of k ls
     | Some v \<Rightarrow> (case settings_of k ls of [] \<Rightarrow> [] | _ # vs \<Rightarrow> v # vs))"
  using assms
proof (induction u ls rule: change_lines.induct)
  case (2 u l ls)
  show ?case
  proof (cases "conf_line l")
    case None
    then show ?thesis using 2 by (cases "map_of u k") simp_all
  next
    case (Some kv)
    obtain k0 v0 where kv: "kv = (k0, v0)" by (cases kv)
    show ?thesis
    proof (cases "map_of u k0")
      case None
      then show ?thesis using 2(2)[OF Some[unfolded kv] refl None 2(4,5)] Some kv by (auto split: option.split)
    next
      case (Some v)
      have in_u: "k0 \<in> set confKeys" "plain_value v" using map_of_SomeD[OF Some] 2(5) by auto
      have d: "distinct (map fst (AList.delete k0 u))" "\<forall>(k, v) \<in> set (AList.delete k0 u). k \<in> set confKeys \<and> plain_value v"
        using AList.distinct_delete[OF 2(4)] 2(5) by (auto simp: AList.delete_eq)
      have IH: "settings_of k (change_lines (AList.delete k0 u) ls) =
          (case map_of (AList.delete k0 u) k of None \<Rightarrow> settings_of k ls
           | Some v \<Rightarrow> (case settings_of k ls of [] \<Rightarrow> [] | _ # vs \<Rightarrow> v # vs))"
        using 2(3)[OF \<open>conf_line l = Some kv\<close>[unfolded kv] refl Some d] .
      have line: "change_lines u (l # ls) = setting_line k0 v # change_lines (AList.delete k0 u) ls"
        using \<open>conf_line l = Some kv\<close> kv Some by (simp add: setting_line_def)
      show ?thesis
        unfolding line using IH \<open>conf_line l = Some kv\<close> kv Some setting_line_parsed[OF in_u(1), of v] unquoted_setting[OF in_u(2)]
        by (auto simp: AList.delete_conv split: option.split)
    qed
  qed
qed (simp split: option.split)

lemma conf_updates_known:
  "distinct (map fst (conf_updates changes)) \<and> (\<forall>(k, v) \<in> set (conf_updates changes). k \<in> set confKeys \<and> v \<in> snd ` set changes)"
proof -
  have d: "distinct (map fst (List.map_filter (\<lambda>(j, k). map_option (Pair k) (f j)) xs)) \<and>
      fst ` set (List.map_filter (\<lambda>(j, k). map_option (Pair k) (f j)) xs) \<subseteq> snd ` set xs"
    if "distinct (map snd xs)" for f :: "string \<Rightarrow> string option" and xs :: "(string \<times> string) list"
    using that
  proof (induction xs)
    case (Cons x xs)
    then show ?case by (cases x) (auto simp: List.map_filter_simps image_subset_iff split: option.split)
  qed (simp add: List.map_filter_simps)
  have "distinct (map snd conf_names)" "snd ` set conf_names = set confKeys" by code_simp+
  then have "distinct (map fst (conf_updates changes))" "fst ` set (conf_updates changes) \<subseteq> set confKeys"
    using d[of conf_names "map_of changes"] by (simp_all add: conf_updates_def)
  moreover have "v \<in> snd ` set changes" if kv: "(k, v) \<in> set (conf_updates changes)" for k v
  proof -
    obtain j where "map_of changes j = Some v" using kv by (auto simp: conf_updates_def List.map_filter_def)
    then show ?thesis by (metis image_eqI map_of_SomeD snd_conv)
  qed
  ultimately show ?thesis by fastforce
qed

lemma change_lines_shape:
  "length (change_lines u ls) = length ls \<and>
   (\<forall>l' \<in> set (change_lines u ls). l' \<in> set ls \<or> (\<exists>(k, v) \<in> set u. l' = setting_line k v)) \<and>
   (\<forall>i < length ls. conf_line (ls ! i) = None \<longrightarrow> change_lines u ls ! i = ls ! i)"
proof (induction u ls rule: change_lines.induct)
  case (2 u l ls)
  show ?case
  proof (cases "conf_line l")
    case None
    then show ?thesis using 2(1) by (auto simp: nth_Cons split: nat.split)
  next
    case (Some kv)
    obtain k v0 where kv: "kv = (k, v0)" by (cases kv)
    note l = Some[unfolded kv]
    show ?thesis
    proof (cases "map_of u k")
      case None
      then show ?thesis using 2(2)[OF l refl None] l by (auto simp: nth_Cons split: nat.split)
    next
      case (Some v)
      have "(k, v) \<in> set u" using Some by (rule map_of_SomeD)
      then show ?thesis using 2(3)[OF l refl Some] l Some
        by (auto simp: nth_Cons setting_line_def AList.delete_eq split: nat.split)
    qed
  qed
qed simp


subsection \<open>An example\<close>

text \<open>A host whose state is \<^verbatim>\<open>csf.conf\<close>, or nothing when the firewall is not installed.\<close>

definition demo_runner :: "string option runner" where
  "demo_runner args stdin w =
     (let sub = (case rev args of a # b # c # _ \<Rightarrow> if b = defaultHelperPath then a else if c = defaultHelperPath then b else ''allow-ip'' | _ \<Rightarrow> [])
      in case w of
           None \<Rightarrow> if sub = ''install'' then (\<lparr> hp_stdout = ''done'', hp_stderr = [], hp_error = None \<rparr>, Some [])
                   else (\<lparr> hp_stdout = [], hp_stderr = ''csf is not installed at /usr/sbin/csf'', hp_error = Some ''exit status 2'' \<rparr>, None)
         | Some conf \<Rightarrow>
             if sub = ''write-config'' then (\<lparr> hp_stdout = [], hp_stderr = [], hp_error = None \<rparr>, stdin)
             else (\<lparr> hp_stdout = conf, hp_stderr = [], hp_error = None \<rparr>, Some conf))"

definition demo_admin :: PublicUser where
  "demo_admin = \<lparr> pu_Username = ''olga'', pu_Role = RoleAdmin, pu_TOTPEnabled = False, pu_CreatedAt = 0 \<rparr>"

definition demo_conf :: string where
  "demo_conf = ''# ports'' @ [newline] @ ''TCP_IN = '' @ [CHR 0x22] @ ''22'' @ [CHR 0x22] @ [newline]"

definition demo_fw_request :: request where
  "demo_fw_request = \<lparr> rq_authorization = [], rq_api_key = [], rq_query_token = [], rq_query_api_key = [],
     rq_real_ip = ''203.0.113.9'', rq_forwarded_for = [], rq_remote_addr = ''172.18.0.2:5000'' \<rparr>"


theorem allow_ports_exact_witness:
  "map fst (snd (snd (allow_ports New (recorded demo_runner) ''tcp'' [''8080'', ''0'', ''65536'', '' 443''] (Some [], [])))) =
     [docker_args New None ''allow-port'' [''8080'', ''tcp''], docker_args New None ''allow-port'' [''443'', ''tcp'']]"
proof -
  let ?r = "allow_ports New (recorded demo_runner) ''tcp'' [''8080'', ''0'', ''65536'', '' 443''] (Some [], [])"
  have "?r = (fst ?r, (fst (snd ?r), snd (snd ?r)))" by simp
  from conjunct2[OF conjunct2[OF allow_ports_exact[OF this]]]
  have "map fst (snd (snd ?r)) = map (\<lambda>p. docker_args New None ''allow-port'' [p, ''tcp''])
      (filter (\<lambda>p. \<exists>n \<in> {1..65535}. p = itoa n) (map trim_space [''8080'', ''0'', ''65536'', '' 443'']))" .
  moreover have "filter portRe (map trim_space [''8080'', ''0'', ''65536'', '' 443'']) = [''8080'', ''443'']" by code_simp
  ultimately show ?thesis unfolding port_numerals by simp
qed

theorem login_allows_own_address_witness:
  "\<exists>c. snd (snd (AllowIP (recorded demo_runner) 5 6 '' 203.0.113.9'' ''login'' New (Some [], []))) =
     [(docker_args New None ''allow-ip'' [''203.0.113.9'', c], None)] \<and> comment_re c"
proof -
  let ?r = "AllowIP (recorded demo_runner) 5 6 '' 203.0.113.9'' ''login'' New (Some [], [])"
  have "?r = ((fst (fst ?r), snd (fst ?r)), (fst (snd ?r), snd (snd ?r)))" by simp
  moreover have "snd (snd ?r) \<noteq> []" "trim_space '' 203.0.113.9'' = ''203.0.113.9''" by code_simp+
  ultimately show ?thesis using login_allows_own_address[of demo_runner 5 6 "'' 203.0.113.9''" "''login''" New "Some []"] by metis
qed

theorem login_allowlist_suspended_witness:
  "\<exists>e2 S1. S1 = snd (fst (AllowIP demo_runner 5 6 ''203.0.113.9'' ''login'' New None)) \<and>
     AllowIP demo_runner 7 8 ''203.0.113.10'' ''login'' S1 None = ((e2, S1), None)"
proof -
  let ?r = "AllowIP demo_runner 5 6 ''203.0.113.9'' ''login'' New None"
  have "fw_allowSkipUntil (snd (fst ?r)) \<noteq> fw_allowSkipUntil New" "snd ?r = None" by code_simp+
  then have "snd (fst ?r) \<noteq> New" "?r = ((fst (fst ?r), snd (fst ?r)), None)" by (metis, metis prod.collapse)
  then show ?thesis
    using login_allowlist_suspended[of demo_runner 5 6 "''203.0.113.9''" "''login''" New None "fst (fst ?r)" "snd (fst ?r)" None "[]" "snd (fst ?r)" None 7 8 "''203.0.113.10''" "''login''"]
    by simp
qed


text \<open>
  The answer to saving is the same when nothing was saved: a key that the file does not have is dropped,
  and of a key that the file sets twice the value that counts stays.
\<close>

lemma missing_setting_is_dropped:
  "let ((resp, S), w) = handleSaveConfSettings demo_runner (Some [(''udp_in'', ''53'')]) New (Some demo_conf)
   in resp = write_json 200 RSaved \<and> w = Some demo_conf"
  by code_simp

lemma second_setting_wins:
  "let conf = demo_conf @ demo_conf; ((resp, S), w) = handleSaveConfSettings demo_runner (Some [(''tcp_in'', ''443'')]) New (Some conf)
   in resp = write_json 200 RSaved \<and> parseConfKeys (the w) confKeys ''TCP_IN'' = Some ''22''"
  by code_simp

text \<open>A value is written as it comes, so a line break in it sets another key of the file.\<close>

lemma setting_injects_line:
  "let ((resp, S), w) = handleSaveConfSettings demo_runner
         (Some [(''tcp_in'', ''22'' @ [CHR 0x22, newline] @ ''TESTING = '' @ [CHR 0x22] @ ''1'')]) New (Some demo_conf)
   in resp = write_json 200 RSaved \<and> parseConfKeys (the w) confKeys ''TESTING'' = Some ''1''"
  by code_simp

text \<open>
  An IPv6 address that ends in an IPv4 address is valid for Go, and a colon is all the helper's pattern for IPv6 allows
  beside hexadecimal digits: the helper refuses the dots. The address of \<^verbatim>\<open>allow-my-ip\<close> is not looked at.
\<close>

lemma dotted_address_is_accepted:
  "parse_ip ''64::1.2.3.4'' = Some ([0, 100] @ replicate 10 0 @ [1, 2, 3, 4]) \<and>
   parse_ip (before_slash ''192.0.2.1/x y'') \<noteq> None"
  by code_simp

lemma own_address_is_not_checked:
  "snd (snd (firewall_route (recorded demo_runner) 0 (demo_fw_request \<lparr> rq_real_ip := ''--help'' \<rparr>) demo_admin AllowMyIPReq New (Some [], []))) =
     [(docker_args New None ''allow-ip'' [''--help'', ''Stack Manager admin olga manual''], None)]"
  by code_simp

end
