(* ===== verification/AuditLog.thy ===== *)
theory AuditLog
  imports Auth Jobs "HOL-Library.Multiset"
begin

text \<open>
  The audit log: the middleware that records every mutating call (\<^verbatim>\<open>internal/middleware/audit.go\<close>) and the
  handlers that read the log (\<^verbatim>\<open>internal/handlers/audit.go\<close>), over the store of theory \<open>Storage\<close>. A
  handler is what it writes to its response, in order, and the database it leaves behind.
\<close>

section \<open>Definitions\<close>

subsection \<open>The middleware\<close>

definition mutating :: "string \<Rightarrow> bool" where
  "mutating m = (m \<in> set [''POST'', ''PUT'', ''PATCH'', ''DELETE''])"

definition skipPrefixes :: "string list" where
  "skipPrefixes = [''/api/v1/auth/login'', ''/api/v1/auth/logout'', ''/api/v1/audit'', ''/api/v1/metrics/refresh'']"

definition skipAudit :: "string \<Rightarrow> bool" where
  "skipAudit path = (\<exists>p \<in> set skipPrefixes. has_prefix path p)"

text \<open>A call: method and path, the matched route with its parameters (empty when absent), headers and user.\<close>

record api_call =
  ac_method :: string
  ac_path :: string
  ac_pattern :: string
  ac_params :: "string \<Rightarrow> string"
  ac_headers :: request
  ac_user :: "PublicUser option"

definition friendlyAction :: "string \<Rightarrow> string \<Rightarrow> string \<Rightarrow> string" where
  "friendlyAction m path pat =
     (let p = (if trim_space pat = [] \<or> contains pat ''/*'' then path else pat)
      in m @ '' '' @ trim_suffix (trim_prefix p ''/api/v1/'') ''/'')"

definition route_target :: "(string \<Rightarrow> string) \<Rightarrow> string" where
  "route_target params =
     (case find (\<lambda>k. params k \<noteq> []) [''jobId'', ''scheduleID'', ''agentID'', ''registry'', ''skillName'', ''action'', ''username''] of
        Some k \<Rightarrow> params k | None \<Rightarrow> [])"

definition parseAuditRoute :: "api_call \<Rightarrow> string \<times> string \<times> string" where
  "parseAuditRoute c =
     (friendlyAction (ac_method c) (ac_path c) (ac_pattern c),
      (if ac_params c ''name'' \<noteq> [] then ac_params c ''name'' else ac_params c ''projectName''),
      route_target (ac_params c))"

definition audit_client_ip :: "request \<Rightarrow> string" where
  "audit_client_ip r =
     (if rq_real_ip r \<noteq> [] then rq_real_ip r
      else if rq_forwarded_for r \<noteq> [] then
        (case cut_at CHR '','' (rq_forwarded_for r) of
           Some (a, _) \<Rightarrow> if a = [] then trim_space (rq_forwarded_for r) else trim_space a
         | None \<Rightarrow> trim_space (rq_forwarded_for r))
      else rq_remote_addr r)"

text \<open>The part before the last \<^verbatim>\<open>-server-\<close>, when that is not at the front.\<close>

fun last_server :: "string \<Rightarrow> string option" where
  "last_server [] = None"
| "last_server (c # cs) =
     (case last_server cs of
        Some p \<Rightarrow> Some (c # p)
      | None \<Rightarrow> if has_prefix (c # cs) ''-server-'' then Some [] else None)"

definition defaultAuditNode :: "string \<Rightarrow> string option \<Rightarrow> string" where
  "defaultAuditNode env hostname =
     (if trim_space env \<noteq> [] then trim_space env
      else
        (case hostname of
           Some host \<Rightarrow>
             if host = [] then ''controller''
             else (case last_server host of Some (c # cs) \<Rightarrow> c # cs | _ \<Rightarrow> host)
         | None \<Rightarrow> ''controller''))"

text \<open>What a handler writes to its response, and the recorder in between.\<close>

datatype write_op = WriteHeader int | WriteBody string

record auditRecorder =
  ar_status :: int
  ar_wrote :: bool
  ar_body :: string

definition auditBodyLimit :: nat where
  "auditBodyLimit = 65536"

fun recorder_step :: "write_op \<Rightarrow> auditRecorder \<Rightarrow> auditRecorder" where
  "recorder_step (WriteHeader code) a = (if ar_wrote a then a else a \<lparr> ar_status := code, ar_wrote := True \<rparr>)"
| "recorder_step (WriteBody b) a =
     (let a1 = a \<lparr> ar_wrote := True \<rparr> in
      if 400 \<le> ar_status a1 \<and> length (ar_body a1) < auditBodyLimit
      then a1 \<lparr> ar_body := ar_body a1 @ take (auditBodyLimit - length (ar_body a1)) b \<rparr>
      else a1)"

definition new_recorder :: auditRecorder where
  "new_recorder = \<lparr> ar_status = 200, ar_wrote = False, ar_body = [] \<rparr>"

text \<open>\<open>decode\<close> is \<^verbatim>\<open>json.Unmarshal\<close> into the error and the results, each a project and its success.\<close>

definition auditFailureDetails :: "(string \<Rightarrow> (string \<times> (string \<times> bool) list) option) \<Rightarrow> int \<Rightarrow> string \<Rightarrow> string" where
  "auditFailureDetails decode status body =
     (if status < 400 then []
      else
        (case decode body of
           None \<Rightarrow> ''HTTP '' @ itoa status
         | Some (err, results) \<Rightarrow>
             if err = [] then ''HTTP '' @ itoa status
             else
               (let failed = map fst (filter (\<lambda>(p, ok). \<not> ok \<and> p \<noteq> []) results);
                    shown = take 10 failed;
                    names = (if failed = [] then []
                             else ''; failed: '' @ join '', '' shown @
                               (if length failed > length shown
                                then '' and '' @ itoa (int (length failed - length shown)) @ '' more'' else []))
                in take 500 (err @ names))))"

text \<open>
  The middleware around a handler: \<open>store\<close> tells whether a store is given, \<open>duration\<close> is the time the handler
  took in milliseconds.
\<close>

definition AuditRecorder ::
  "(string \<Rightarrow> (string \<times> (string \<times> bool) list) option) \<Rightarrow> bool \<Rightarrow> string \<Rightarrow> int \<Rightarrow> instant \<Rightarrow> api_call \<Rightarrow>
     (db \<Rightarrow> write_op list \<times> db) \<Rightarrow> db \<Rightarrow> write_op list \<times> db" where
  "AuditRecorder decode store node duration now c handler d =
     (let (ops, d1) = handler d in
      if \<not> mutating (ac_method c) \<or> skipAudit (ac_path c) \<or> \<not> store then (ops, d1)
      else
        (let rec = fold recorder_step ops new_recorder;
             (action, project, tgt) = parseAuditRoute c;
             actor = (case ac_user c of Some u \<Rightarrow> if pu_Username u \<noteq> [] then pu_Username u else ''anonymous'' | None \<Rightarrow> ''anonymous'')
         in (ops, snd (InsertAuditEntry now
              \<lparr> au_ID = 0, au_Node = node, au_Actor = actor, au_Action = action, au_Project = project, au_Target = tgt,
                au_Success = (ar_status rec < 400), au_DurationMs = duration,
                au_Details = auditFailureDetails decode (ar_status rec) (ar_body rec),
                au_RemoteIP = audit_client_ip (ac_headers c), au_CreatedAt = zero_time \<rparr> d1))))"

subsection \<open>The handlers\<close>

text \<open>The parameters of the query as given; \<open>parse_time\<close> is \<^verbatim>\<open>time.Parse\<close> for RFC 3339.\<close>

definition audit_params :: "(string \<Rightarrow> instant option) \<Rightarrow> (string \<Rightarrow> string) \<Rightarrow> AuditListParams" where
  "audit_params parse_time q =
     (let time = (\<lambda>s. if s = [] then zero_time else (case parse_time s of Some t \<Rightarrow> t | None \<Rightarrow> zero_time));
          number = (\<lambda>s. if s \<noteq> [] \<and> snd (atoi s) then fst (atoi s) else 0)
      in \<lparr> alp_Node = trim_space (q ''node''), alp_Actor = trim_space (q ''actor''), alp_Action = trim_space (q ''action''),
           alp_Q = trim_space (q ''q''), alp_Project = trim_space (q ''project''),
           alp_Since = time (q ''since''), alp_Until = time (q ''until''),
           alp_Success = (if q ''success'' = [] then None else Some (to_lower (q ''success'') = ''true'' \<or> q ''success'' = ''1'')),
           alp_Limit = number (q ''limit''), alp_Offset = number (q ''offset'') \<rparr>)"

definition List ::
  "(string \<Rightarrow> string \<Rightarrow> bool) \<Rightarrow> (string \<Rightarrow> instant option) \<Rightarrow> (string \<Rightarrow> string) \<Rightarrow> db \<Rightarrow> (AuditEntry list \<times> int \<times> int) response \<times> db" where
  "List like parse_time q d =
     (let p = audit_params parse_time q in
      case ListAuditEntries like p d of
        (Inl e, d1) \<Rightarrow> (write_error 500 (store_text e), d1)
      | (Inr entries, d1) \<Rightarrow> (write_json 200 (entries, alp_Limit p, alp_Offset p), d1))"

definition distinct_handler :: "string \<Rightarrow> db \<Rightarrow> string list response \<times> db" where
  "distinct_handler col d =
     (case distinctAuditColumn col d of
        (Inl e, d1) \<Rightarrow> (write_error 500 (store_text e), d1)
      | (Inr vs, d1) \<Rightarrow> (write_json 200 vs, d1))"

definition Nodes :: "db \<Rightarrow> string list response \<times> db" where
  "Nodes d = distinct_handler ''node'' d"

definition Actions :: "db \<Rightarrow> string list response \<times> db" where
  "Actions d = distinct_handler ''action'' d"

section \<open>What the recorder sees\<close>

text \<open>The status that \<^verbatim>\<open>net/http\<close> sends: the first final one, 200 before the first body; informational ones do not count.\<close>

fun sent_status :: "write_op list \<Rightarrow> int" where
  "sent_status [] = 200"
| "sent_status (WriteHeader c # ops) = (if 100 \<le> c \<and> c < 200 \<and> c \<noteq> 101 then sent_status ops else c)"
| "sent_status (WriteBody b # ops) = 200"

fun sent_body :: "write_op list \<Rightarrow> string" where
  "sent_body [] = []"
| "sent_body (WriteHeader c # ops) = sent_body ops"
| "sent_body (WriteBody b # ops) = b @ sent_body ops"

lemma recorder_wrote:
  "ar_wrote a \<Longrightarrow> length (ar_body a) \<le> auditBodyLimit \<Longrightarrow>
   ar_status (fold recorder_step ops a) = ar_status a \<and>
   ar_body (fold recorder_step ops a) =
     (if 400 \<le> ar_status a then take auditBodyLimit (ar_body a @ sent_body ops) else ar_body a)"
proof (induction ops arbitrary: a)
  case (Cons p ops)
  show ?case
  proof (cases p)
    case (WriteBody b)
    note IH = Cons.prems Cons.IH[of "recorder_step p a"] WriteBody
    show ?thesis
    proof (cases "length (ar_body a) < auditBodyLimit")
      case True
      then show ?thesis using IH
        by (cases "length (ar_body a) + length b \<le> auditBodyLimit") (auto simp: Let_def min_def)
    next
      case False
      then have "length (ar_body a) = auditBodyLimit" using Cons.prems by simp
      then show ?thesis using IH by (auto simp: Let_def)
    qed
  qed (use Cons in simp)
qed simp

lemma recorder_sees:
  assumes "\<forall>c. WriteHeader c \<in> set ops \<longrightarrow> 200 \<le> c"
  shows "ar_status (fold recorder_step ops new_recorder) = sent_status ops \<and>
    ar_body (fold recorder_step ops new_recorder) = (if 400 \<le> sent_status ops then take auditBodyLimit (sent_body ops) else [])"
proof (cases ops)
  case (Cons p rest)
  show ?thesis
  proof (cases p)
    case (WriteHeader c)
    then have "200 \<le> c" using assms Cons by simp
    then show ?thesis
      using Cons WriteHeader recorder_wrote[of "recorder_step p new_recorder" rest] by (simp add: new_recorder_def)
  next
    case (WriteBody b)
    then show ?thesis
      using Cons recorder_wrote[of "recorder_step p new_recorder" rest] by (simp add: new_recorder_def)
  qed
qed (simp add: new_recorder_def)

section \<open>Every mutating call leaves one row\<close>

definition audited :: "bool \<Rightarrow> api_call \<Rightarrow> bool" where
  "audited store c = (mutating (ac_method c) \<and> \<not> skipAudit (ac_path c) \<and> store)"

definition audit_actor :: "api_call \<Rightarrow> string" where
  "audit_actor c = (case ac_user c of Some u \<Rightarrow> if pu_Username u \<noteq> [] then pu_Username u else ''anonymous'' | None \<Rightarrow> ''anonymous'')"

lemma action_not_blank:
  assumes "mutating m"
  shows "trim_space (friendlyAction m path pat) \<noteq> []"
proof -
  have "\<forall>m \<in> set [''POST'', ''PUT'', ''PATCH'', ''DELETE'']. m \<noteq> [] \<and> plain (hd m)" by code_simp
  then have "m \<noteq> []" "plain (hd m)" using assms unfolding mutating_def by blast+
  then obtain c r where m: "m = c # r" "plain c" by (cases m) auto
  then have "\<exists>s. friendlyAction m path pat = [] @ c # s" by (simp add: friendlyAction_def Let_def)
  then obtain s where "friendlyAction m path pat = [] @ c # s" by blast
  then show ?thesis using trim_space_barrier[OF m(2), of "[]" s] by simp
qed

text \<open>The row of a call whose response had the given operations.\<close>

definition audit_row ::
  "(string \<Rightarrow> (string \<times> (string \<times> bool) list) option) \<Rightarrow> string \<Rightarrow> int \<Rightarrow> instant \<Rightarrow> api_call \<Rightarrow> write_op list \<Rightarrow> int \<Rightarrow> AuditEntry" where
  "audit_row decode node duration now c ops i =
     (let (action, project, tgt) = parseAuditRoute c in
      \<lparr> au_ID = i, au_Node = trimShort node 128, au_Actor = trimShort (audit_actor c) 128, au_Action = trimShort action 64,
        au_Project = trimShort project 255, au_Target = trimShort tgt 255, au_Success = (sent_status ops < 400),
        au_DurationMs = duration,
        au_Details = trimLong (auditFailureDetails decode (sent_status ops)
          (if 400 \<le> sent_status ops then take auditBodyLimit (sent_body ops) else [])) 8192,
        au_RemoteIP = trimShort (audit_client_ip (ac_headers c)) 64, au_CreatedAt = now \<rparr>)"

text \<open>One call: the response is the handler's, and the row is written when the statement works.\<close>

lemma mutating_call_rows:
  assumes "AuditRecorder decode store node duration now c handler d = (ops, d')" "handler d = (ops', d1)"
    and "\<forall>code. WriteHeader code \<in> set ops' \<longrightarrow> 200 \<le> code"
  shows "ops = ops' \<and>
    db_audit d' =
      (if audited store c \<and> (db_faults d1 = [] \<or> hd (db_faults d1) = None)
       then db_audit d1 @ [audit_row decode node duration now c ops (db_next_audit d1)] else db_audit d1)"
proof (cases "audited store c")
  case False
  then show ?thesis using assms by (auto simp: AuditRecorder_def audited_def)
next
  case True
  then have act: "trim_space (fst (parseAuditRoute c)) \<noteq> []" using action_not_blank by (simp add: parseAuditRoute_def audited_def)
  obtain action project tgt where route: "parseAuditRoute c = (action, project, tgt)" by (cases "parseAuditRoute c")
  note rec = recorder_sees[OF assms(3)]
  have d': "(ops, d') = (ops', snd (InsertAuditEntry now
      \<lparr> au_ID = 0, au_Node = node, au_Actor = audit_actor c, au_Action = action, au_Project = project, au_Target = tgt,
        au_Success = (sent_status ops' < 400), au_DurationMs = duration,
        au_Details = auditFailureDetails decode (sent_status ops') (if 400 \<le> sent_status ops' then take auditBodyLimit (sent_body ops') else []),
        au_RemoteIP = audit_client_ip (ac_headers c), au_CreatedAt = zero_time \<rparr> d1))"
    using assms(1,2) True rec route
    by (cases "400 \<le> sent_status ops'") (auto simp: AuditRecorder_def audited_def audit_actor_def Let_def)
  show ?thesis
    using d' act route True
    by (cases "db_faults d1")
      (auto simp: InsertAuditEntry_def sql_def audit_row_def is_zero_def split: option.split)
qed

section \<open>A history of calls\<close>

type_synonym served_call = "api_call \<times> int \<times> instant \<times> (db \<Rightarrow> write_op list \<times> db)"

fun serve_calls ::
  "(string \<Rightarrow> (string \<times> (string \<times> bool) list) option) \<Rightarrow> string \<Rightarrow> served_call list \<Rightarrow> db \<Rightarrow> write_op list list \<times> db" where
  "serve_calls decode node [] d = ([], d)"
| "serve_calls decode node ((c, duration, now, handler) # calls) d =
     (let (ops, d1) = AuditRecorder decode True node duration now c handler d;
          (rs, d2) = serve_calls decode node calls d1
      in (ops # rs, d2))"

text \<open>Handlers that do not touch the log, on a database that works.\<close>

definition log_neutral :: "served_call \<Rightarrow> bool" where
  "log_neutral = (\<lambda>(c, duration, now, handler). \<forall>d. db_audit (snd (handler d)) = db_audit d \<and>
     (db_faults d = [] \<longrightarrow> db_faults (snd (handler d)) = []) \<and> (\<forall>code. WriteHeader code \<in> set (fst (handler d)) \<longrightarrow> 200 \<le> code))"

definition who_what :: "AuditEntry \<Rightarrow> string \<times> string \<times> bool \<times> instant" where
  "who_what e = (au_Actor e, au_Action e, au_Success e, au_CreatedAt e)"

lemma insert_keeps_faults: "db_faults d = [] \<Longrightarrow> db_faults (snd (InsertAuditEntry now e d)) = []"
  by (simp add: InsertAuditEntry_def sql_def)

lemma recorder_keeps_faults:
  "db_faults (snd (handler d)) = [] \<Longrightarrow> db_faults (snd (AuditRecorder decode store node duration now c handler d)) = []"
  by (auto simp: AuditRecorder_def Let_def split_beta insert_keeps_faults)


section \<open>Reading the log\<close>

lemma sort_key_max_last:
  assumes "\<forall>y \<in> set ys. f y \<le> (f x :: 'k :: linorder)"
  shows "sort_key f (ys @ [x]) = sort_key f ys @ [x]"
proof -
  have ins: "insort_key f y (zs @ [x]) = insort_key f y zs @ [x]" if "f y \<le> f x" for y zs
    using that by (induction zs) auto
  show ?thesis using assms by (induction ys) (auto simp: ins)
qed

lemma pages_concat: "concat (map (\<lambda>i. take L (drop (i * L) xs)) [0..<n]) = take (n * L) xs"
proof (induction n)
  case (Suc n)
  have "take (n * L) xs @ take L (drop (n * L) xs) = take (n * L + L) xs" by (simp add: take_add)
  then show ?case using Suc by (simp add: add.commute)
qed simp

definition newest_first :: "AuditEntry list \<Rightarrow> AuditEntry list" where
  "newest_first rows = rev (sort_key au_CreatedAt (sort_key au_ID rows))"

lemma ListAuditEntries_page:
  assumes "db_faults d = []" "1 \<le> alp_Limit p" "alp_Limit p \<le> 500" "0 \<le> alp_Offset p"
  shows "ListAuditEntries like p d =
    (Inr (take (nat (alp_Limit p)) (drop (nat (alp_Offset p)) (newest_first (filter (audit_matches like p) (db_audit d))))), d)"
  using assms by (simp add: ListAuditEntries_def sql_def newest_first_def)

text \<open>The \<open>i\<close>-th page of \<open>L\<close> entries.\<close>

definition audit_page :: "(string \<Rightarrow> string \<Rightarrow> bool) \<Rightarrow> AuditListParams \<Rightarrow> nat \<Rightarrow> nat \<Rightarrow> db \<Rightarrow> store_error + AuditEntry list" where
  "audit_page like p L i d = fst (ListAuditEntries like (p \<lparr> alp_Limit := int L, alp_Offset := int (i * L) \<rparr>) d)"

text \<open>
  Reading the log page by page gives exactly the matching entries, each once and newest first:
  the pages of any size up to 500, one after the other, are a prefix of that list, and all of it when
  there are enough of them.
\<close>

theorem audit_pages_complete:
  assumes "db_faults d = []" "1 \<le> L" "L \<le> 500"
  shows "\<exists>pages. map (\<lambda>i. audit_page like p L i d) [0..<n] = map Inr pages \<and>
    concat pages = take (n * L) (newest_first (filter (audit_matches like p) (db_audit d))) \<and>
    sorted_wrt (\<lambda>a b. au_CreatedAt b \<le> au_CreatedAt a) (concat pages) \<and>
    (length (filter (audit_matches like p) (db_audit d)) \<le> n * L \<longrightarrow> mset (concat pages) = mset (filter (audit_matches like p) (db_audit d)))"
proof -
  let ?all = "newest_first (filter (audit_matches like p) (db_audit d))"
  let ?pages = "map (\<lambda>i. take L (drop (i * L) ?all)) [0..<n]"
  have "audit_matches like (p \<lparr> alp_Limit := l, alp_Offset := k \<rparr>) = audit_matches like p" for l k
    by (simp add: fun_eq_iff audit_matches_def)
  then have "audit_page like p L i d = Inr (take L (drop (i * L) ?all))" for i
    using ListAuditEntries_page[OF assms(1), of "p \<lparr> alp_Limit := int L, alp_Offset := int (i * L) \<rparr>" like] assms(2,3)
    by (simp add: audit_page_def flip: of_nat_mult)
  then have "map (\<lambda>i. audit_page like p L i d) [0..<n] = map Inr ?pages" by simp
  moreover have "sorted_wrt (\<lambda>a b. au_CreatedAt b \<le> au_CreatedAt a) ?all"
  proof -
    have "sorted_wrt (\<lambda>a b. au_CreatedAt a \<le> au_CreatedAt b) (sort_key au_CreatedAt (sort_key au_ID (filter (audit_matches like p) (db_audit d))))"
      using sorted_sort_key[of au_CreatedAt] by (simp add: sorted_wrt_map)
    then show ?thesis by (simp add: newest_first_def sorted_wrt_rev)
  qed
  moreover have "mset ?all = mset (filter (audit_matches like p) (db_audit d))" "length ?all = length (filter (audit_matches like p) (db_audit d))"
    by (simp_all add: newest_first_def)
  ultimately show ?thesis
    unfolding pages_concat[of L ?all n, symmetric]
    by (intro exI[of _ ?pages]) (simp add: pages_concat sorted_wrt_take)
qed

text \<open>
  A call that was recorded is the first entry that the log shows without filters, as long as no
  older row lies in the future.
\<close>

theorem audited_call_is_listed:
  assumes "AuditRecorder decode True node duration now c handler d = (ops, d')" "handler d = (ops', d1)"
    and "\<forall>code. WriteHeader code \<in> set ops' \<longrightarrow> 200 \<le> code" "audited True c" "db_faults d1 = []"
    and "\<forall>e \<in> set (db_audit d1). au_ID e < db_next_audit d1 \<and> au_CreatedAt e \<le> now"
  shows "\<exists>rest. fst (List like parse_time (\<lambda>_. []) d') =
    write_json 200 (audit_row decode node duration now c ops (db_next_audit d1) # rest, 0, 0)"
proof -
  let ?row = "audit_row decode node duration now c ops (db_next_audit d1)"
  have rows: "db_audit d' = db_audit d1 @ [?row]"
    using mutating_call_rows[OF assms(1,2,3)] assms(4,5) by simp
  have faults: "db_faults d' = []"
    using assms(1,2,4,5) by (auto simp: AuditRecorder_def audited_def InsertAuditEntry_def sql_def Let_def split: prod.splits if_splits)
  have "au_ID ?row = db_next_audit d1" "au_CreatedAt ?row = now" by (simp_all add: audit_row_def split_beta Let_def)
  then have "newest_first (db_audit d') = ?row # newest_first (db_audit d1)"
    unfolding rows newest_first_def
    using sort_key_max_last[of "db_audit d1" au_ID ?row] sort_key_max_last[of "sort_key au_ID (db_audit d1)" au_CreatedAt ?row] assms(6)
    by (simp add: less_imp_le)
  moreover have "audit_matches like (audit_params parse_time (\<lambda>_. [])) e" for e
    by (simp add: audit_matches_def audit_params_def Let_def is_zero_def)
  moreover have "alp_Limit (audit_params parse_time (\<lambda>_. [])) = 0" "alp_Offset (audit_params parse_time (\<lambda>_. [])) = 0"
    by (simp_all add: audit_params_def Let_def)
  ultimately show ?thesis
    using faults by (simp add: List_def ListAuditEntries_def sql_def newest_first_def Let_def)
qed

subsection \<open>An example\<close>

definition demo_call :: api_call where
  "demo_call = \<lparr> ac_method = ''POST'', ac_path = ''/api/v1/projects/web/update'', ac_pattern = ''/api/v1/projects/{name}/update'',
     ac_params = (\<lambda>k. if k = ''name'' then ''web'' else []),
     ac_headers = \<lparr> rq_authorization = [], rq_api_key = [], rq_query_token = [], rq_query_api_key = [],
       rq_real_ip = ''203.0.113.9'', rq_forwarded_for = [], rq_remote_addr = [] \<rparr>, ac_user = None \<rparr>"

definition demo_audit_db :: db where
  "demo_audit_db = \<lparr> db_agents = [], db_snapshots = [], db_commands = [], db_schedules = [], db_runs = [], db_jobs = [], db_audit = [],
     db_next_agent = 1, db_next_command = 1, db_next_schedule = 1, db_next_run = 1, db_next_audit = 1, db_redis = False,
     db_cache_agents = None, db_cache_schedules = None, db_cache_jobs = None, db_cache_job = (\<lambda>_. None), db_faults = [] \<rparr>"

definition demo_failure :: "write_op list" where
  "demo_failure = [WriteHeader 500, WriteBody ''{error: pull failed}'']"


theorem audited_call_is_listed_witness:
  "\<exists>rest. fst (List (\<lambda>_ _. False) (\<lambda>_. None) (\<lambda>_. [])
      (snd (AuditRecorder (\<lambda>_. None) True ''n'' 7 5 demo_call (\<lambda>d. (demo_failure, d)) demo_audit_db))) =
    write_json 200 (audit_row (\<lambda>_. None) ''n'' 7 5 demo_call demo_failure 1 # rest, 0, 0)"
proof -
  let ?r = "AuditRecorder (\<lambda>_. None) True ''n'' 7 5 demo_call (\<lambda>d. (demo_failure, d)) demo_audit_db"
  have "?r = (demo_failure, snd ?r)" by (simp add: AuditRecorder_def split_beta Let_def)
  moreover have "\<forall>code. WriteHeader code \<in> set demo_failure \<longrightarrow> 200 \<le> code" by (simp add: demo_failure_def)
  moreover have "audited True demo_call" by code_simp
  moreover have "db_audit demo_audit_db = []" "db_faults demo_audit_db = []" "db_next_audit demo_audit_db = 1" by (simp_all add: demo_audit_db_def)
  ultimately show ?thesis
    using audited_call_is_listed[of "\<lambda>_. None" "''n''" 7 5 demo_call "\<lambda>d. (demo_failure, d)" demo_audit_db demo_failure "snd ?r" demo_failure demo_audit_db]
    by simp
qed

theorem audit_pages_complete_witness:
  "\<exists>pages. map (\<lambda>i. audit_page (\<lambda>_ _. False) (audit_params (\<lambda>_. None) (\<lambda>_. [])) 2 i demo_audit_db) [0..<3] = map Inr pages \<and> mset (concat pages) = {#}"
proof -
  have "db_audit demo_audit_db = []" "db_faults demo_audit_db = []" by (simp_all add: demo_audit_db_def)
  then show ?thesis
    using audit_pages_complete[of demo_audit_db 2 "\<lambda>_ _. False" "audit_params (\<lambda>_. None) (\<lambda>_. [])" 3] by auto
qed

text \<open>
  The reason of a failure is cut after 500 bytes, which may split a character (here U+00E9, C3 A9): the text is no valid
  UTF-8 any more, and MySQL in strict mode refuses the row. An interactive shell is a \<^verbatim>\<open>GET\<close> request, so
  commands typed into a container leave no trace in the log.
\<close>

lemma audit_details_split_a_character:
  "List.last (auditFailureDetails (\<lambda>b. Some (b, [])) 500 (replicate 499 (CHR ''x'') @ [CHR 0xC3, CHR 0xA9])) = CHR 0xC3"
proof -
  have "take 500 (replicate 499 (CHR ''x'') @ [CHR 0xC3, CHR 0xA9]) = replicate 499 (CHR ''x'') @ [CHR 0xC3]" by simp
  then show ?thesis by (simp add: auditFailureDetails_def)
qed

lemma shell_session_is_not_audited:
  "snd (AuditRecorder decode True node duration now
      (c \<lparr> ac_method := ''GET'', ac_path := ''/api/v1/projects/web/shell/exec'' \<rparr>) handler d) = snd (handler d)"
  by (simp add: AuditRecorder_def mutating_def split_beta Let_def)

end
