(* ===== verification/Peers.thy ===== *)
theory Peers
  imports Scheduler
begin

text \<open>
  Project lists of other controllers (\<^verbatim>\<open>server/internal/handlers/peer.go\<close>): the request to a peer, its
  repetition, and the last good answer that bridges a failure. The HTTP client is the argument \<open>http\<close> of
  theory \<open>Scheduler\<close> (it also fails for an address that is no URL), and \<open>decode\<close> is \<^verbatim>\<open>json.Decode\<close> of the
  answer's envelope into its projects. A query is a list of keys, each with its values.
\<close>

section \<open>Definitions\<close>

type_synonym url_query = "(string \<times> string list) list"
type_synonym 'w http_client =
  "string \<Rightarrow> string \<Rightarrow> (string \<times> string) list \<Rightarrow> string \<Rightarrow> 'w \<Rightarrow> http_reply result \<times> 'w"

text \<open>\<^verbatim>\<open>url.Values\<close>: \<^verbatim>\<open>Get\<close>, \<^verbatim>\<open>Set\<close> and \<^verbatim>\<open>Encode\<close> with \<^verbatim>\<open>url.QueryEscape\<close>.\<close>

definition query_all :: "string \<Rightarrow> url_query \<Rightarrow> string list" where
  "query_all k q = (case map_of q k of None \<Rightarrow> [] | Some vs \<Rightarrow> vs)"

definition query_get :: "string \<Rightarrow> url_query \<Rightarrow> string" where
  "query_get k q = (case query_all k q of [] \<Rightarrow> [] | v # _ \<Rightarrow> v)"

definition query_set :: "string \<Rightarrow> string \<Rightarrow> url_query \<Rightarrow> url_query" where
  "query_set k v q = (k, [v]) # filter (\<lambda>(k', _). k' \<noteq> k) q"

definition query_char :: "char \<Rightarrow> bool" where
  "query_char c \<longleftrightarrow> alnum_char (lower_char c) \<or> c \<in> set ''-_.~''"

definition query_escape :: "string \<Rightarrow> string" where
  "query_escape s = concat (map (\<lambda>c. if query_char c then [c] else if c = CHR '' '' then ''+''
     else [CHR ''%'', upper_hex (of_char c div 16), upper_hex (of_char c mod 16)]) s)"

definition query_encode :: "url_query \<Rightarrow> string" where
  "query_encode q =
     join ''&'' (concat (map (\<lambda>(k, vs). map (\<lambda>v. query_escape k @ ''='' @ query_escape v) vs) (sort_key fst q)))"

text \<open>\<^verbatim>\<open>url.ParseQuery\<close>: pieces that are malformed or hold a semicolon are dropped.\<close>

definition unhex :: "char \<Rightarrow> nat option" where
  "unhex c =
     (if is_digit c then Some (of_char c - 48)
      else if CHR ''A'' \<le> c \<and> c \<le> CHR ''F'' then Some (of_char c - 55)
      else if CHR ''a'' \<le> c \<and> c \<le> CHR ''f'' then Some (of_char c - 87) else None)"

fun query_unescape :: "string \<Rightarrow> string option" where
  "query_unescape [] = Some []"
| "query_unescape (c # cs) =
     (if c = CHR ''%'' then
        (case cs of
           a # b # rest \<Rightarrow>
             (case (unhex a, unhex b) of
                (Some x, Some y) \<Rightarrow> map_option ((#) (char_of (16 * x + y))) (query_unescape rest)
              | _ \<Rightarrow> None)
         | _ \<Rightarrow> None)
      else map_option ((#) (if c = CHR ''+'' then CHR '' '' else c)) (query_unescape cs))"

definition query_piece :: "string \<Rightarrow> (string \<times> string) option" where
  "query_piece s =
     (if s = [] \<or> CHR '';'' \<in> set s then None
      else
        (let (k, v) = (case cut_at (CHR ''='') s of None \<Rightarrow> (s, []) | Some kv \<Rightarrow> kv)
         in (case (query_unescape k, query_unescape v) of (Some k', Some v') \<Rightarrow> Some (k', v') | _ \<Rightarrow> None)))"

definition query_add :: "string \<times> string \<Rightarrow> url_query \<Rightarrow> url_query" where
  "query_add = (\<lambda>(k, v) q. AList.update k (query_all k q @ [v]) q)"

definition query_parse :: "string \<Rightarrow> url_query" where
  "query_parse s = fold query_add (List.map_filter query_piece (split_on (CHR ''&'') s)) []"

text \<open>The memory of the last good answers, by the name of the peer.\<close>

type_synonym peer_cache = "string \<Rightarrow> (Project list \<times> instant) option"

definition peerSnapshotTTL :: duration where
  "peerSnapshotTTL = 5 * minute"

definition storePeerSnapshot :: "string \<Rightarrow> Project list \<Rightarrow> instant \<Rightarrow> peer_cache \<Rightarrow> peer_cache" where
  "storePeerSnapshot name projects now c = c(name \<mapsto> (projects, now))"

definition lastPeerSnapshot :: "string \<Rightarrow> instant \<Rightarrow> peer_cache \<Rightarrow> Project list option" where
  "lastPeerSnapshot name now c =
     (case c name of
        None \<Rightarrow> None
      | Some (projects, at) \<Rightarrow> if now - at > peerSnapshotTTL then None else Some projects)"

definition peerAPIBase :: "string \<Rightarrow> string" where
  "peerAPIBase baseURL =
     (let b = trim_right (trim_space baseURL) ''/'' in if has_suffix b ''/api/v1'' then b else b @ ''/api/v1'')"

definition peer_url :: "ComposeAgent \<Rightarrow> url_query \<Rightarrow> string" where
  "peer_url agent q = peerAPIBase (ag_BaseURL agent) @ ''/projects?'' @ query_encode (query_set ''source'' ''local'' q)"

definition peer_headers :: "ComposeAgent \<Rightarrow> (string \<times> string) list" where
  "peer_headers agent = (if ag_Token agent \<noteq> [] then [(''X-API-Key'', ag_Token agent)] else [])"

text \<open>Only the peer's own projects are kept, tagged with its name.\<close>

definition own_projects :: "string \<Rightarrow> Project list \<Rightarrow> Project list" where
  "own_projects name ps =
     map (\<lambda>p. p \<lparr> pr_SourceHost := name \<rparr>) (filter (\<lambda>p. pr_SourceHost p = [] \<or> pr_SourceHost p = ''local'') ps)"

definition fetchPeerProjectsOnce ::
  "'w http_client \<Rightarrow> (string \<Rightarrow> Project list result) \<Rightarrow> ComposeAgent \<Rightarrow> url_query \<Rightarrow> 'w \<Rightarrow> Project list result \<times> 'w" where
  "fetchPeerProjectsOnce http decode agent q w =
     (if trim_space (ag_BaseURL agent) = [] then (Inl (''peer '' @ ag_Name agent @ '' has no base URL''), w)
      else
        (let (resp, w1) = http ''GET'' (peer_url agent q) (peer_headers agent) [] w
         in (case resp of
               Inl e \<Rightarrow> Inl e
             | Inr r \<Rightarrow>
                 if hr_StatusCode r \<noteq> 200
                 then Inl (''peer '' @ ag_Name agent @ '' returned HTTP '' @ itoa (hr_StatusCode r))
                 else map_sum id (own_projects (ag_Name agent)) (decode (hr_Body r)), w1)))"

text \<open>The loop over the attempts, and the last error when all of them fail.\<close>

fun fetch_attempts ::
  "nat \<Rightarrow> 'w http_client \<Rightarrow> (string \<Rightarrow> Project list result) \<Rightarrow> ComposeAgent \<Rightarrow> url_query \<Rightarrow> string \<Rightarrow> 'w \<Rightarrow> Project list result \<times> 'w" where
  "fetch_attempts 0 http decode agent q lastErr w = (Inl lastErr, w)"
| "fetch_attempts (Suc n) http decode agent q lastErr w =
     (case fetchPeerProjectsOnce http decode agent q w of
        (Inr projects, w1) \<Rightarrow> (Inr projects, w1)
      | (Inl e, w1) \<Rightarrow> fetch_attempts n http decode agent q e w1)"

definition fetchPeerProjects ::
  "'w http_client \<Rightarrow> (string \<Rightarrow> Project list result) \<Rightarrow> ('w \<Rightarrow> instant) \<Rightarrow> ComposeAgent \<Rightarrow> url_query \<Rightarrow> peer_cache \<Rightarrow> 'w \<Rightarrow>
     (Project list result \<times> peer_cache) \<times> 'w" where
  "fetchPeerProjects http decode clock agent q c w =
     (case fetch_attempts 2 http decode agent q [] w of
        (Inr projects, w1) \<Rightarrow> ((Inr projects, storePeerSnapshot (ag_Name agent) projects (clock w1) c), w1)
      | (Inl lastErr, w1) \<Rightarrow>
          (case lastPeerSnapshot (ag_Name agent) (clock w1) c of
             Some cached \<Rightarrow> ((Inr cached, c), w1)
           | None \<Rightarrow> ((Inl lastErr, c), w1)))"

section \<open>Queries survive their encoding\<close>

lemma unhex_upper: "d < 16 \<Longrightarrow> unhex (upper_hex d) = Some d"
proof -
  have "\<forall>d \<in> {0..<16}. unhex (upper_hex d) = Some d" by code_simp
  then show "d < 16 \<Longrightarrow> ?thesis" by simp
qed

definition escape_char :: "char \<Rightarrow> string" where
  "escape_char c = (if query_char c then [c] else if c = CHR '' '' then ''+''
     else [CHR ''%'', upper_hex (of_char c div 16), upper_hex (of_char c mod 16)])"

lemma query_escape_Cons: "query_escape (c # cs) = escape_char c @ query_escape cs"
  by (simp add: query_escape_def escape_char_def)

lemma nibbles: "(of_char c :: nat) div 16 < 16" "(of_char c :: nat) mod 16 < 16"
  using less_mult_imp_div_less[of "of_char c :: nat" 16 16] nat_of_char_less_256[of c] by simp_all

lemma unescape_char: "query_unescape (escape_char c @ s) = map_option ((#) c) (query_unescape s)"
proof -
  have char: "char_of (16 * (of_char c div 16) + of_char c mod 16 :: nat) = c" by (simp add: mult_div_mod_eq)
  consider "query_char c" | "\<not> query_char c" "c = CHR '' ''" | "\<not> query_char c" "c \<noteq> CHR '' ''" by blast
  then show ?thesis
  proof cases
    case 1
    then have "c \<noteq> CHR ''%''" "c \<noteq> CHR ''+''" by (auto simp: query_char_def alnum_char_def lower_char_def is_digit_def)
    then show ?thesis using 1 by (simp add: escape_char_def)
  next
    case 2
    then show ?thesis by (simp add: escape_char_def)
  next
    case 3
    then show ?thesis using unhex_upper[OF nibbles(1)] unhex_upper[OF nibbles(2)] char by (simp add: escape_char_def)
  qed
qed

lemma unescape_escape: "query_unescape (query_escape s) = Some s"
proof (induction s)
  case Nil
  show ?case by (simp add: query_escape_def)
next
  case (Cons c cs)
  then show ?case by (simp add: query_escape_Cons unescape_char)
qed

definition query_mark :: "char \<Rightarrow> bool" where
  "query_mark c \<longleftrightarrow> c = CHR ''&'' \<or> c = CHR ''='' \<or> c = CHR '';''"

lemma query_char_plain: "query_char c \<Longrightarrow> \<not> query_mark c"
proof -
  have "\<not> query_char (CHR ''&'')" "\<not> query_char (CHR ''='')" "\<not> query_char (CHR '';'')" by code_simp+
  then show "query_char c \<Longrightarrow> ?thesis" by (auto simp: query_mark_def)
qed

lemma upper_hex_plain: "d < 16 \<Longrightarrow> \<not> query_mark (upper_hex d)"
proof -
  have "unhex (CHR ''&'') = None" "unhex (CHR ''='') = None" "unhex (CHR '';'') = None" by code_simp+
  then show "d < 16 \<Longrightarrow> ?thesis" using unhex_upper[of d] by (auto simp: query_mark_def)
qed

lemma escape_char_plain: "c \<in> set (escape_char a) \<Longrightarrow> \<not> query_mark c"
proof -
  assume c: "c \<in> set (escape_char a)"
  note hex = nibbles[of a, THEN upper_hex_plain]
  have other: "\<not> query_mark (CHR ''+'')" "\<not> query_mark (CHR ''%'')" by code_simp+
  consider "query_char a" "c = a" | "c = CHR ''+''" | "c \<in> {CHR ''%'', upper_hex (of_char a div 16), upper_hex (of_char a mod 16)}"
    using c by (simp only: escape_char_def set_simps split: if_splits) auto
  then show ?thesis using query_char_plain hex other by cases auto
qed

lemma escape_plain: "c \<in> set (query_escape s) \<Longrightarrow> \<not> query_mark c"
proof (induction s)
  case Nil
  then show ?case by (simp add: query_escape_def)
next
  case (Cons a s)
  then show ?case using escape_char_plain[of c a] by (auto simp: query_escape_Cons)
qed

definition query_pair :: "string \<times> string \<Rightarrow> string" where
  "query_pair = (\<lambda>(k, v). query_escape k @ ''='' @ query_escape v)"

lemma piece_pair: "query_piece (query_pair kv) = Some kv"
proof -
  obtain k v where kv: "kv = (k, v)" by (rule prod.exhaust)
  have plain: "CHR '';'' \<notin> set (query_escape s)" "CHR ''='' \<notin> set (query_escape s)" for s
    using escape_plain[of "CHR '';''" s] escape_plain[of "CHR ''=''" s] by (auto simp: query_mark_def)
  have "cut_at (CHR ''='') (query_pair kv) = Some (query_escape k, query_escape v)"
    using cut_at_append[OF plain(2), of k "query_escape v"] by (simp add: query_pair_def kv)
  moreover have "query_pair kv \<noteq> []" "CHR '';'' \<notin> set (query_pair kv)" using plain by (auto simp: query_pair_def kv)
  ultimately show ?thesis by (simp add: query_piece_def kv unescape_escape)
qed

lemma query_add_all: "query_all k' (query_add (k, v) q) = query_all k' q @ (if k' = k then [v] else [])"
  by (auto simp: query_add_def query_all_def update_conv')

lemma query_adds_all: "query_all k (fold query_add kvs q) = query_all k q @ map snd (filter (\<lambda>kv. fst kv = k) kvs)"
proof (induction kvs arbitrary: q)
  case (Cons kv kvs)
  then show ?case by (cases kv) (simp add: query_add_all)
qed simp

definition query_pairs :: "url_query \<Rightarrow> (string \<times> string) list" where
  "query_pairs q = concat (map (\<lambda>(k, vs). map (Pair k) vs) (sort_key fst q))"

lemma encode_pairs: "query_encode q = join ''&'' (map query_pair (query_pairs q))"
  by (simp add: query_encode_def query_pairs_def query_pair_def map_concat comp_def case_prod_unfold)

lemma pieces_of_encode: "List.map_filter query_piece (split_on (CHR ''&'') (query_encode q)) = query_pairs q"
proof (cases "query_pairs q = []")
  case True
  then show ?thesis by (simp add: encode_pairs query_piece_def List.map_filter_def)
next
  case False
  have "CHR ''&'' \<notin> set (query_escape s)" for s using escape_plain[of "CHR ''&''" s] by (auto simp: query_mark_def)
  then have "\<forall>l \<in> set (map query_pair (query_pairs q)). CHR ''&'' \<notin> set l" by (auto simp: query_pair_def)
  then have "split_on (CHR ''&'') (query_encode q) = map query_pair (query_pairs q)"
    using False by (simp add: encode_pairs split_on_join)
  then show ?thesis by (simp add: List.map_filter_def piece_pair comp_def)
qed

lemma pairs_of_key:
  assumes "distinct (map fst q)"
  shows "map snd (filter (\<lambda>kv. fst kv = k) (query_pairs q)) = query_all k q"
proof -
  have one: "filter (\<lambda>p. fst p = k) q = (case map_of q k of None \<Rightarrow> [] | Some vs \<Rightarrow> [(k, vs)])"
    using assms
  proof (induction q)
    case (Cons p q)
    have "fst p = k \<Longrightarrow> filter (\<lambda>p. fst p = k) q = []"
      using Cons.prems by (metis (mono_tags, lifting) distinct.simps(2) filter_False image_eqI list.set_map list.simps(9))
    then show ?case using Cons by (cases p) (auto split: option.splits)
  qed simp
  have "map snd (filter (\<lambda>kv. fst kv = k) (concat (map (\<lambda>(k, vs). map (Pair k) vs) ps))) =
      concat (map snd (filter (\<lambda>p. fst p = k) ps))" for ps :: url_query
    by (induction ps) (auto simp: comp_def)
  then have "map snd (filter (\<lambda>kv. fst kv = k) (query_pairs q)) = concat (map snd (sort_key fst (filter (\<lambda>p. fst p = k) q)))"
    by (simp add: query_pairs_def filter_sort)
  also have "\<dots> = query_all k q" unfolding one by (simp add: query_all_def split: option.split)
  finally show ?thesis .
qed

text \<open>Parsing an encoded query gives back the values of every key.\<close>

lemma query_round_trip:
  assumes "distinct (map fst q)"
  shows "query_all k (query_parse (query_encode q)) = query_all k q"
proof -
  have "query_all k [] = []" by (simp add: query_all_def)
  then show ?thesis using pairs_of_key[OF assms, of k] by (simp only: query_parse_def pieces_of_encode query_adds_all append_Nil)
qed

lemma parsed_keys_distinct: "distinct (map fst (query_parse s))"
proof -
  have "distinct (map fst q) \<Longrightarrow> distinct (map fst (fold query_add kvs q))" for kvs q
    by (induction kvs arbitrary: q) (auto simp: query_add_def distinct_update split: prod.splits)
  then show ?thesis by (simp add: query_parse_def)
qed

lemma query_set_distinct: "distinct (map fst q) \<Longrightarrow> distinct (map fst (query_set k v q))"
  by (auto simp: query_set_def distinct_map inj_on_def)

section \<open>Requests to a peer\<close>

text \<open>A client that keeps what is sent: the method, the address and the headers.\<close>

type_synonym sent = "string \<times> string \<times> (string \<times> string) list"

definition sending :: "'w http_client \<Rightarrow> ('w \<times> sent list) http_client" where
  "sending http verb url hs body = (\<lambda>(w, l). let (r, w1) = http verb url hs body w in (r, (w1, l @ [(verb, url, hs)])))"

lemma fetch_once_sends:
  "snd (snd (fetchPeerProjectsOnce (sending http) decode agent q (w, l))) =
     l @ (if trim_space (ag_BaseURL agent) = [] then [] else [(''GET'', peer_url agent q, peer_headers agent)])"
  by (simp add: fetchPeerProjectsOnce_def sending_def Let_def split_beta)

lemma attempts_send:
  "\<exists>k \<le> n. snd (snd (fetch_attempts n (sending http) decode agent q e (w, l))) =
     l @ replicate k (''GET'', peer_url agent q, peer_headers agent)"
proof (induction n arbitrary: e w l)
  case (Suc n)
  let ?req = "(''GET'', peer_url agent q, peer_headers agent)"
  obtain r w1 l1 where o: "fetchPeerProjectsOnce (sending http) decode agent q (w, l) = (r, (w1, l1))" by (metis prod.exhaust)
  then obtain j where j: "j \<le> 1" "l1 = l @ replicate j ?req"
    using fetch_once_sends[of http decode agent q w l] by (cases "trim_space (ag_BaseURL agent) = []") fastforce+
  show ?case
  proof (cases r)
    case (Inl e1)
    obtain k where "k \<le> n" "snd (snd (fetch_attempts n (sending http) decode agent q e1 (w1, l1))) = l1 @ replicate k ?req"
      using Suc.IH by blast
    then have "j + k \<le> Suc n" "snd (snd (fetch_attempts (Suc n) (sending http) decode agent q e (w, l))) = l @ replicate (j + k) ?req"
      using o j Inl by (simp_all add: replicate_add)
    then show ?thesis by blast
  next
    case (Inr ps)
    then have "snd (snd (fetch_attempts (Suc n) (sending http) decode agent q e (w, l))) = l @ replicate j ?req"
      using o j by simp
    then show ?thesis using j(1) by (intro exI[of _ j]) simp
  qed
qed simp

lemma query_set_all: "query_all k' (query_set k v q) = (if k' = k then [v] else query_all k' q)"
  by (induction q) (auto simp: query_set_def query_all_def)

lemma map_sum_Inr: "map_sum id f x = Inr y \<longleftrightarrow> (\<exists>z. x = Inr z \<and> y = f z)"
  by (cases x) auto

lemma attempts_tag:
  "fetch_attempts n http decode agent q e w = (Inr ps, w1) \<Longrightarrow> p \<in> set ps \<Longrightarrow> pr_SourceHost p = ag_Name agent"
proof (induction n arbitrary: e w)
  case (Suc n)
  then show ?case
    by (auto simp: fetchPeerProjectsOnce_def own_projects_def map_sum_Inr Let_def split: prod.splits sum.splits if_splits)
qed simp

text \<open>What the memory holds is what earlier fetches have returned.\<close>

definition tagged_cache :: "peer_cache \<Rightarrow> bool" where
  "tagged_cache c = (\<forall>n ps t. c n = Some (ps, t) \<longrightarrow> (\<forall>p \<in> set ps. pr_SourceHost p = n))"

lemma fetch_tagged:
  assumes "tagged_cache c" and "fetchPeerProjects http decode clock agent q c w = ((r, c'), w')"
  shows "(\<forall>ps. r = Inr ps \<longrightarrow> (\<forall>p \<in> set ps. pr_SourceHost p = ag_Name agent)) \<and> tagged_cache c'"
  using assms
  by (auto simp: fetchPeerProjects_def tagged_cache_def storePeerSnapshot_def lastPeerSnapshot_def
      split: prod.splits sum.splits option.splits if_splits dest: attempts_tag)

text \<open>
  What a fetch asks and returns. Fetching the projects of a
  peer sends at most two requests, each a \<^verbatim>\<open>GET\<close> with the peer's own key and the query of the caller in
  which \<^verbatim>\<open>source\<close> is \<^verbatim>\<open>local\<close>; every project that comes back carries the name of the peer, from the
  memory too, and the memory keeps that property.
\<close>

theorem peer_fetch_stays_local:
  assumes "tagged_cache c"
    and "fetchPeerProjects (sending http) decode clock agent q c (w, []) = ((r, c'), (w', log))"
  shows "length log \<le> 2 \<and>
    (\<forall>(verb, url, hs) \<in> set log. verb = ''GET'' \<and> hs = peer_headers agent \<and>
       (\<exists>q'. url = peerAPIBase (ag_BaseURL agent) @ ''/projects?'' @ query_encode q' \<and>
         (\<forall>k. query_all k q' = (if k = ''source'' then [''local''] else query_all k q)))) \<and>
    (\<forall>ps. r = Inr ps \<longrightarrow> (\<forall>p \<in> set ps. pr_SourceHost p = ag_Name agent)) \<and> tagged_cache c'"
proof -
  obtain r1 w1 l1 where f: "fetch_attempts 2 (sending http) decode agent q [] (w, []) = (r1, (w1, l1))" by (metis prod.exhaust)
  obtain k where "k \<le> 2" "l1 = replicate k (''GET'', peer_url agent q, peer_headers agent)"
    using attempts_send[of 2 http decode agent q "[]" w "[]"] f by auto
  moreover have "log = l1" using assms(2) f
    by (auto simp: fetchPeerProjects_def split: sum.splits option.splits)
  moreover have "\<exists>q'. peer_url agent q = peerAPIBase (ag_BaseURL agent) @ ''/projects?'' @ query_encode q' \<and>
      (\<forall>k. query_all k q' = (if k = ''source'' then [''local''] else query_all k q))"
    using query_set_all[of _ "''source''" "''local''" q] by (auto simp: peer_url_def)
  moreover have "(\<forall>ps. r = Inr ps \<longrightarrow> (\<forall>p \<in> set ps. pr_SourceHost p = ag_Name agent)) \<and> tagged_cache c'"
    by (rule fetch_tagged[OF assms])
  ultimately show ?thesis by auto
qed

text \<open>
  One bad poll does not blank a peer. After a successful fetch, a fetch that fails at most
  five minutes later answers with the projects of the last success, whatever other peers were fetched
  in between; later it reports the error. The client is only asked whether it answers.
\<close>

theorem last_good_answer_bridges:
  assumes "fetchPeerProjects http decode clock agent q c w = ((Inr ps, c1), w1)"
    and "fst (fetch_attempts 2 http decode agent q [] w) = Inr ps"
    and "c2 (ag_Name agent) = c1 (ag_Name agent)"
    and "fetch_attempts 2 http decode agent q2 [] w2 = (Inl e, w3)"
  shows "fst (fst (fetchPeerProjects http decode clock agent q2 c2 w2)) =
    (if clock w3 - clock w1 \<le> 5 * minute then Inr ps else Inl e)"
proof -
  have "c1 (ag_Name agent) = Some (ps, clock w1)"
    using assms(1,2) by (auto simp: fetchPeerProjects_def storePeerSnapshot_def split: prod.splits)
  then show ?thesis
    using assms(3,4) by (auto simp: fetchPeerProjects_def lastPeerSnapshot_def peerSnapshotTTL_def)
qed

lemma other_peers_keep:
  "ag_Name b \<noteq> ag_Name agent \<Longrightarrow> (snd (fst (fetchPeerProjects http decode clock b q c w))) (ag_Name agent) = c (ag_Name agent)"
  by (auto simp: fetchPeerProjects_def storePeerSnapshot_def split: sum.splits option.splits prod.splits)

text \<open>A peer that answers while the flag is set, on a clock that the requests advance.\<close>

definition demo_peer :: ComposeAgent where
  "demo_peer = \<lparr> ag_ID = 4, ag_Name = ''east'', ag_BaseURL = ''https://east:8443/'', ag_Mode = ''peer'', ag_Enabled = True,
     ag_LastSeen = None, ag_CreatedAt = 0, ag_UpdatedAt = 0, ag_Token = ''key'' \<rparr>"

definition demo_client :: "(bool \<times> instant) http_client" where
  "demo_client verb url hs body = (\<lambda>(up, t).
     (if up \<and> hs = [(''X-API-Key'', ''key'')]
      then Inr \<lparr> hr_StatusCode = 200, hr_Status = ''200 OK'', hr_Body = ''projects'' \<rparr>
      else Inr \<lparr> hr_StatusCode = 401, hr_Status = ''401 Unauthorized'', hr_Body = [] \<rparr>, (up, t + 1)))"

definition demo_peer_decode :: "string \<Rightarrow> Project list result" where
  "demo_peer_decode body = Inr [blank_project \<lparr> pr_Name := ''web'' \<rparr>,
     blank_project \<lparr> pr_Name := ''far'', pr_SourceHost := ''west'' \<rparr>]"

definition demo_web :: Project where
  "demo_web = blank_project \<lparr> pr_Name := ''web'', pr_SourceHost := ''east'' \<rparr>"

lemma demo_url:
  "peer_url demo_peer [(''source'', [''all'']), (''running_only'', [''true''])] =
     ''https://east:8443/api/v1/projects?running_only=true&source=local''"
  by code_simp

theorem peer_fetch_stays_local_witness:
  "fst (fst (fetchPeerProjects (sending demo_client) demo_peer_decode (snd \<circ> fst) demo_peer [(''source'', [''all''])] (\<lambda>_. None) ((True, 0), [])))
     = Inr [demo_web] \<and> pr_SourceHost demo_web = ''east''"
proof -
  let ?f = "fetchPeerProjects (sending demo_client) demo_peer_decode (snd \<circ> fst) demo_peer [(''source'', [''all''])] (\<lambda>_. None) ((True, 0), [])"
  have r: "fst (fst ?f) = Inr [demo_web]" by code_simp
  obtain r' c w l where f: "?f = ((r', c), (w, l))" by (metis prod.exhaust)
  have "tagged_cache (\<lambda>_. None)" by (simp add: tagged_cache_def)
  then have "\<forall>ps. r' = Inr ps \<longrightarrow> (\<forall>p \<in> set ps. pr_SourceHost p = ag_Name demo_peer)"
    using peer_fetch_stays_local[OF _ f] by blast
  then have "pr_SourceHost demo_web = ag_Name demo_peer" using r unfolding f by simp
  then show ?thesis using r by (simp add: demo_peer_def)
qed

theorem last_good_answer_bridges_witness:
  "fst (fst (fetchPeerProjects demo_client demo_peer_decode snd demo_peer [] (\<lambda>n. if n = ''east'' then Some ([demo_web], 1) else None) (False, 100)))
     = Inr [demo_web]"
proof -
  have a: "fetch_attempts 2 demo_client demo_peer_decode demo_peer [] [] (True, 0) = (Inr [demo_web], (True, 1))"
    "fetch_attempts 2 demo_client demo_peer_decode demo_peer [] [] (False, 100) = (Inl ''peer east returned HTTP 401'', (False, 102))"
    by code_simp+
  define c :: peer_cache where "c = (\<lambda>n. if n = ''east'' then Some ([demo_web], 1) else None)"
  have name: "ag_Name demo_peer = ''east''" by (simp add: demo_peer_def)
  have stored: "c = storePeerSnapshot ''east'' [demo_web] 1 (\<lambda>_. None)" by (auto simp: c_def storePeerSnapshot_def)
  have f: "fetchPeerProjects demo_client demo_peer_decode snd demo_peer [] (\<lambda>_. None) (True, 0) = ((Inr [demo_web], c), (True, 1))"
    unfolding fetchPeerProjects_def a(1) stored name by simp
  have ok: "fst (fetch_attempts 2 demo_client demo_peer_decode demo_peer [] [] (True, 0)) = Inr [demo_web]" unfolding a(1) by simp
  have same: "c (ag_Name demo_peer) = c (ag_Name demo_peer)" ..
  have "fst (fst (fetchPeerProjects demo_client demo_peer_decode snd demo_peer [] c (False, 100))) = Inr [demo_web]"
    by (subst last_good_answer_bridges[where http = demo_client and decode = demo_peer_decode and clock = snd
          and agent = demo_peer and ?c1.0 = c and ?c2.0 = c, OF f ok same a(2)]) simp
  then show ?thesis unfolding c_def .
qed

end
