(* ===== verification/Volumes.thy ===== *)
theory Volumes
  imports Engine
begin

text \<open>
  The volumes and networks of a project (\<^verbatim>\<open>server/internal/core/volumes.go\<close>, \<^verbatim>\<open>networks.go\<close>): listing
  what Compose has labelled for the project, and removing one of them. The machine is the record
  \<open>host\<close> of theory \<open>Engine\<close>; the thirty seconds a listing shares with its inspections are part of what
  its commands answer.
\<close>

section \<open>Definitions\<close>

definition tab :: char where "tab = CHR 0x09"

record VolumeInfo =
  vi_Name :: string
  vi_Driver :: string
  vi_Mountpoint :: string
  vi_CreatedAt :: string
  vi_InUseBy :: "string list"

text \<open>\<^verbatim>\<open>Output()\<close> of a Docker command: its standard output, or nothing after an error.\<close>

definition docker_output :: "'w host \<Rightarrow> string list \<Rightarrow> 'w \<Rightarrow> (exec_error + string) \<times> 'w" where
  "docker_output H args w =
     (let (r, w1) = ho_exec H ''docker'' args w
      in (case cm_error r of Some e \<Rightarrow> Inl e | None \<Rightarrow> Inr (cm_stdout r), w1))"

definition project_objects :: "string \<Rightarrow> string \<Rightarrow> string list" where
  "project_objects kind pname =
     [kind, ''ls'', ''--filter'', ''label=com.docker.compose.project='' @ pname, ''--format'', ''{{.Name}}'']"

definition volume_format :: string where
  "volume_format = ''{{.Driver}}'' @ [tab] @ ''{{.Mountpoint}}'' @ [tab] @ ''{{.CreatedAt}}''"

definition volume_parts :: "string \<Rightarrow> (string \<times> string \<times> string) option" where
  "volume_parts out =
     (case cut_at tab (trim_space out) of
        None \<Rightarrow> None
      | Some (driver, rest) \<Rightarrow> map_option (Pair driver) (cut_at tab rest))"

definition volume_info :: "'w host \<Rightarrow> string \<Rightarrow> 'w \<Rightarrow> VolumeInfo \<times> 'w" where
  "volume_info H name w =
     (let vi = \<lparr> vi_Name = name, vi_Driver = [], vi_Mountpoint = [], vi_CreatedAt = [], vi_InUseBy = [] \<rparr>;
          (insp, w1) = docker_output H [''volume'', ''inspect'', name, ''--format'', volume_format] w;
          vi1 = (case insp of Inl _ \<Rightarrow> vi
            | Inr out \<Rightarrow> (case volume_parts out of
                None \<Rightarrow> vi
              | Some (d, p, c) \<Rightarrow> vi \<lparr> vi_Driver := d, vi_Mountpoint := p, vi_CreatedAt := c \<rparr>));
          (ps, w2) = docker_output H [''ps'', ''-a'', ''--filter'', ''volume='' @ name, ''--format'', ''{{.Names}}''] w1
      in (case ps of Inl _ \<Rightarrow> vi1 | Inr out \<Rightarrow> vi1 \<lparr> vi_InUseBy := str_fields out \<rparr>, w2))"

text \<open>One entry after the other, as the loops of both files do.\<close>

fun each :: "(string \<Rightarrow> 'w \<Rightarrow> 'a \<times> 'w) \<Rightarrow> string list \<Rightarrow> 'w \<Rightarrow> 'a list \<times> 'w" where
  "each f [] w = ([], w)"
| "each f (n # ns) w = (let (a, w1) = f n w; (as, w2) = each f ns w1 in (a # as, w2))"

definition ListProjectVolumes :: "'w host \<Rightarrow> Project \<Rightarrow> 'w \<Rightarrow> VolumeInfo list result \<times> 'w" where
  "ListProjectVolumes H project w =
     (let (pname, w1) = getProjectName H (pr_Name project) w;
          (out, w2) = docker_output H (project_objects ''volume'' pname) w1
      in (case out of
            Inl e \<Rightarrow> (Inl (''list volumes: '' @ exec_text e), w2)
          | Inr names \<Rightarrow> (let (vols, w3) = each (volume_info H) (str_fields names) w2 in (Inr vols, w3))))"

text \<open>The removal itself: Docker's own words are the error, unless it has none.\<close>

definition docker_remove :: "'w host \<Rightarrow> string \<Rightarrow> string \<Rightarrow> 'w \<Rightarrow> string option \<times> 'w" where
  "docker_remove H kind name w =
     (let (r, w1) = ho_exec H ''docker'' [kind, ''rm'', name] w;
          msg = trim_space (cm_combined r)
      in (case cm_error r of
            None \<Rightarrow> None
          | Some e \<Rightarrow> Some (if msg = [] then exec_text e else msg), w1))"

definition RemoveProjectVolume :: "'w host \<Rightarrow> Project \<Rightarrow> string \<Rightarrow> 'w \<Rightarrow> string option \<times> 'w" where
  "RemoveProjectVolume H project volumeName w =
     (case ListProjectVolumes H project w of
        (Inl e, w1) \<Rightarrow> (Some e, w1)
      | (Inr vols, w1) \<Rightarrow>
          if \<not> (\<exists>v \<in> set vols. vi_Name v = volumeName)
          then (Some (''volume '' @ quoted volumeName @ '' is not part of project '' @ quoted (pr_Name project)), w1)
          else docker_remove H ''volume'' volumeName w1)"

record NetworkInfo =
  ni_Name :: string
  ni_Driver :: string
  ni_Scope :: string
  ni_InUseBy :: "string list"

definition network_info :: "'w host \<Rightarrow> string \<Rightarrow> 'w \<Rightarrow> NetworkInfo \<times> 'w" where
  "network_info H name w =
     (let ni = \<lparr> ni_Name = name, ni_Driver = [], ni_Scope = [], ni_InUseBy = [] \<rparr>;
          (insp, w1) = docker_output H [''network'', ''inspect'', name, ''--format'', ''{{.Driver}}'' @ [tab] @ ''{{.Scope}}''] w;
          ni1 = (case insp of Inl _ \<Rightarrow> ni
            | Inr out \<Rightarrow> (case cut_at tab (trim_space out) of
                None \<Rightarrow> ni
              | Some (d, s) \<Rightarrow> ni \<lparr> ni_Driver := d, ni_Scope := s \<rparr>));
          (cs, w2) = docker_output H [''network'', ''inspect'', name, ''--format'', ''{{range .Containers}}{{.Name}} {{end}}''] w1
      in (case cs of Inl _ \<Rightarrow> ni1 | Inr out \<Rightarrow> ni1 \<lparr> ni_InUseBy := str_fields out \<rparr>, w2))"

definition ListProjectNetworks :: "'w host \<Rightarrow> Project \<Rightarrow> 'w \<Rightarrow> NetworkInfo list result \<times> 'w" where
  "ListProjectNetworks H project w =
     (let (pname, w1) = getProjectName H (pr_Name project) w;
          (out, w2) = docker_output H (project_objects ''network'' pname) w1
      in (case out of
            Inl e \<Rightarrow> (Inl (''list networks: '' @ exec_text e), w2)
          | Inr names \<Rightarrow> (let (nets, w3) = each (network_info H) (str_fields names) w2 in (Inr nets, w3))))"

definition RemoveProjectNetwork :: "'w host \<Rightarrow> Project \<Rightarrow> string \<Rightarrow> 'w \<Rightarrow> string option \<times> 'w" where
  "RemoveProjectNetwork H project networkName w =
     (case ListProjectNetworks H project w of
        (Inl e, w1) \<Rightarrow> (Some e, w1)
      | (Inr nets, w1) \<Rightarrow>
          if \<not> (\<exists>n \<in> set nets. ni_Name n = networkName)
          then (Some (''network '' @ quoted networkName @ '' is not part of project '' @ quoted (pr_Name project)), w1)
          else docker_remove H ''network'' networkName w1)"

section \<open>What a removal does\<close>

text \<open>Commands that only look, and a machine where only such commands followed a given log.\<close>

definition looking :: "event \<Rightarrow> bool" where
  "looking ev = (case ev of Slept _ \<Rightarrow> False | Ran cmd args \<Rightarrow> cmd = ''docker'' \<and>
     (take 1 args \<in> {[''ps''], [''inspect'']} \<or>
      take 2 args \<in> {[''volume'', ''ls''], [''volume'', ''inspect''], [''network'', ''ls''], [''network'', ''inspect'']}))"

definition looked :: "event list \<Rightarrow> 'w \<times> event list \<Rightarrow> bool" where
  "looked l s \<longleftrightarrow> (\<exists>m. snd s = l @ m \<and> (\<forall>ev \<in> set m. looking ev))"

lemma looked_start [intro]: "looked l (w, l)"
  by (simp add: looked_def)

lemma looked_exec:
  assumes "looked l s" and "looking (Ran cmd args)"
  shows "looked l (snd (ho_exec (logged H) cmd args s))"
proof -
  obtain m where m: "snd s = l @ m" "\<forall>ev \<in> set m. looking ev" using assms(1) by (auto simp: looked_def)
  have "snd (snd (ho_exec (logged H) cmd args s)) = l @ (m @ [Ran cmd args])"
    using m(1) by (cases s) (simp add: logged_exec)
  then show ?thesis using m(2) assms(2) by (auto simp: looked_def)
qed

interpretation looks: observed "logged H" "looked l" for H l
  by unfold_locales (auto intro!: looked_exec simp: looking_def)

lemma looked_output:
  assumes "looked l s" and "looking (Ran ''docker'' args)"
  shows "looked l (snd (docker_output (logged H) args s))"
  using looked_exec[OF assms] by (simp add: docker_output_def Let_def split_beta)

lemma looked_each:
  assumes "\<And>n s. looked l s \<Longrightarrow> looked l (snd (f n s))"
  shows "looked l s \<Longrightarrow> looked l (snd (each f ns s))"
  by (induction ns arbitrary: s) (auto simp: Let_def split_beta assms)

lemma each_names: "(\<And>n w. key (fst (f n w)) = n) \<Longrightarrow> map key (fst (each f ns w)) = ns"
  by (induction ns arbitrary: w) (auto simp: Let_def split_beta)

lemma looked_info:
  assumes "looked l s"
  shows "looked l (snd (volume_info (logged H) n s))" "looked l (snd (network_info (logged H) n s))"
  using assms by (auto simp: volume_info_def network_info_def Let_def split_beta looking_def intro!: looked_output)

lemma info_names: "vi_Name (fst (volume_info H n w)) = n" "ni_Name (fst (network_info H n w)) = n"
  by (simp_all add: volume_info_def network_info_def Let_def split_beta split: sum.split option.split)

text \<open>
  The contract that both kinds of objects share. A listing only looks at the machine; a removal lists
  first, and runs \<^verbatim>\<open>rm\<close> on the given name exactly if the listing has it.
\<close>

locale project_object =
  fixes kind :: string
    and names_of :: "'w \<times> event list \<Rightarrow> string list result \<times> 'w \<times> event list"
    and remove :: "string \<Rightarrow> 'w \<times> event list \<Rightarrow> string option \<times> 'w \<times> event list"
  assumes listing_looks: "looked l s \<Longrightarrow> looked l (snd (names_of s))"
    and listed_is_removed:
      "names_of s = (Inr ns, s1) \<Longrightarrow> n \<in> set ns \<Longrightarrow> snd (snd (remove n s)) = snd s1 @ [Ran ''docker'' [kind, ''rm'', n]]"
    and unlisted_is_refused:
      "names_of s = (r, s1) \<Longrightarrow> \<not> (\<exists>ns. r = Inr ns \<and> n \<in> set ns) \<Longrightarrow> (\<exists>e. fst (remove n s) = Some e) \<and> snd (remove n s) = s1"
begin

lemma removal_confined:
  "(\<exists>m. snd (snd (remove n (w, []))) =
      m @ (if \<exists>ns. fst (names_of (w, [])) = Inr ns \<and> n \<in> set ns then [Ran ''docker'' [kind, ''rm'', n]] else []) \<and>
      (\<forall>ev \<in> set m. looking ev)) \<and>
   (fst (remove n (w, [])) = None \<longrightarrow> (\<exists>ns. fst (names_of (w, [])) = Inr ns \<and> n \<in> set ns))"
proof -
  obtain r s1 where r: "names_of (w, []) = (r, s1)" by (rule prod.exhaust)
  have l: "\<forall>ev \<in> set (snd s1). looking ev"
    using listing_looks[of "[]" "(w, [])"] r by (auto simp: looked_def)
  show ?thesis
  proof (cases "\<exists>ns. r = Inr ns \<and> n \<in> set ns")
    case True
    then show ?thesis using listed_is_removed[of "(w, [])" _ s1 n] r l by auto
  next
    case False
    then show ?thesis using unlisted_is_refused[OF r False] r l by auto
  qed
qed

end

lemma removed_last: "snd (snd (docker_remove (logged H) kind name s)) = snd s @ [Ran ''docker'' [kind, ''rm'', name]]"
  by (cases s) (simp add: docker_remove_def Let_def split_beta logged_exec)

definition volume_names :: "'w host \<Rightarrow> Project \<Rightarrow> 'w \<Rightarrow> string list result \<times> 'w" where
  "volume_names H project w = map_prod (map_sum id (map vi_Name)) id (ListProjectVolumes H project w)"

definition network_names :: "'w host \<Rightarrow> Project \<Rightarrow> 'w \<Rightarrow> string list result \<times> 'w" where
  "network_names H project w = map_prod (map_sum id (map ni_Name)) id (ListProjectNetworks H project w)"

lemma looking_list: "kind = ''volume'' \<or> kind = ''network'' \<Longrightarrow> looking (Ran ''docker'' (project_objects kind pname))"
  by (auto simp: looking_def project_objects_def)

lemma looked_lists:
  assumes "looked l s"
  shows "looked l (snd (ListProjectVolumes (logged H) project s))"
    and "looked l (snd (ListProjectNetworks (logged H) project s))"
  using assms
  by (auto simp: ListProjectVolumes_def ListProjectNetworks_def Let_def split_beta looking_list
      intro!: looked_output looked_each looked_info looks.getProjectName_keeps split: sum.split)

interpretation volumes: project_object "''volume''" "volume_names (logged H) project"
    "RemoveProjectVolume (logged H) project" for H project
proof unfold_locales
  fix l and s :: "'a \<times> event list"
  show "looked l s \<Longrightarrow> looked l (snd (volume_names (logged H) project s))"
    by (simp add: volume_names_def looked_lists)
qed (auto simp: volume_names_def RemoveProjectVolume_def removed_last map_prod_def split: prod.splits sum.splits, blast+)

interpretation networks: project_object "''network''" "network_names (logged H) project"
    "RemoveProjectNetwork (logged H) project" for H project
proof unfold_locales
  fix l and s :: "'a \<times> event list"
  show "looked l s \<Longrightarrow> looked l (snd (network_names (logged H) project s))"
    by (simp add: network_names_def looked_lists)
qed (auto simp: network_names_def RemoveProjectNetwork_def removed_last map_prod_def split: prod.splits sum.splits, blast+)

text \<open>What Docker lists for the project's label, by kind of object.\<close>

definition labelled_objects :: "'w host \<Rightarrow> string \<Rightarrow> Project \<Rightarrow> 'w \<Rightarrow> string list" where
  "labelled_objects H kind project w =
     (let (pname, w1) = getProjectName H (pr_Name project) w
      in (case fst (docker_output H (project_objects kind pname) w1) of Inl _ \<Rightarrow> [] | Inr out \<Rightarrow> str_fields out))"

lemma listed_labelled:
  "(case fst (volume_names H project w) of Inl _ \<Rightarrow> [] | Inr ns \<Rightarrow> ns) = labelled_objects H ''volume'' project w"
  "(case fst (network_names H project w) of Inl _ \<Rightarrow> [] | Inr ns \<Rightarrow> ns) = labelled_objects H ''network'' project w"
  by (auto simp: labelled_objects_def volume_names_def network_names_def ListProjectVolumes_def ListProjectNetworks_def
      each_names[where key = vi_Name and f = "volume_info H", OF info_names(1)]
      each_names[where key = ni_Name and f = "network_info H", OF info_names(2)] Let_def split_beta split: sum.split)

lemma listed_iff:
  "(\<exists>ns. r = Inr ns \<and> n \<in> set ns) \<longleftrightarrow> n \<in> set (case r of Inl _ \<Rightarrow> [] | Inr ns \<Rightarrow> ns)" for r :: "'e + 'a list"
  by (cases r) auto

text \<open>
  Property C36. A removal stays within the project. Whatever name the request gives and whatever Docker
  answers, removing a volume or a network only looks at the machine, except for one \<^verbatim>\<open>rm\<close> of that name
  at the end; that command runs exactly if Docker has listed the name under the label of the project, and
  only then can the removal report success.
\<close>

theorem project_removal_confined:
  assumes "kind = ''volume'' \<and> remove = RemoveProjectVolume (logged H) project
    \<or> kind = ''network'' \<and> remove = RemoveProjectNetwork (logged H) project"
    and "remove n (w, []) = (err, (w', log))"
  defines "mine \<equiv> n \<in> set (labelled_objects (logged H) kind project (w, []))"
  shows "(\<exists>m. log = m @ (if mine then [Ran ''docker'' [kind, ''rm'', n]] else []) \<and> (\<forall>ev \<in> set m. looking ev))
    \<and> (err = None \<longrightarrow> mine)"
  using assms volumes.removal_confined[of H project n w] networks.removal_confined[of H project n w]
  unfolding listed_iff listed_labelled by auto

text \<open>A machine with one volume labelled for the project, and a container that uses it.\<close>

definition volume_host :: "unit host" where
  "volume_host = demo_host \<lparr> ho_exec := (\<lambda>cmd args w. (answer
     (if take 2 args = [''volume'', ''ls''] then ''web_data'' @ [newline]
      else if take 2 args = [''volume'', ''inspect''] then ''local'' @ [tab] @ ''/var/lib/docker/web_data'' @ [tab] @ ''2026'' @ [newline]
      else if take 4 args = [''ps'', ''-a'', ''--filter'', ''volume=web_data''] then ''web-db-1'' @ [newline]
      else []), w)) \<rparr>"

theorem project_removal_confined_witness:
  "(\<exists>m. snd (snd (RemoveProjectVolume (logged volume_host) web_project ''web_data'' ((), []))) =
       m @ [Ran ''docker'' [''volume'', ''rm'', ''web_data'']] \<and> (\<forall>ev \<in> set m. looking ev))
   \<and> list_all looking (snd (snd (RemoveProjectVolume (logged volume_host) web_project ''host_data'' ((), []))))
   \<and> fst (RemoveProjectVolume (logged volume_host) web_project ''host_data'' ((), [])) \<noteq> None"
proof -
  have l: "set (labelled_objects (logged volume_host) ''volume'' web_project ((), [])) = {''web_data''}" by code_simp
  obtain e1 w1 l1 where r1: "RemoveProjectVolume (logged volume_host) web_project ''web_data'' ((), []) = (e1, (w1, l1))"
    by (metis prod.exhaust)
  obtain e2 w2 l2 where r2: "RemoveProjectVolume (logged volume_host) web_project ''host_data'' ((), []) = (e2, (w2, l2))"
    by (metis prod.exhaust)
  have "\<exists>m. l1 = m @ [Ran ''docker'' [''volume'', ''rm'', ''web_data'']] \<and> (\<forall>ev \<in> set m. looking ev)"
    using project_removal_confined[OF disjI1[OF conjI[OF refl refl]] r1] l by simp
  moreover have "(\<forall>ev \<in> set l2. looking ev) \<and> e2 \<noteq> None"
    using project_removal_confined[OF disjI1[OF conjI[OF refl refl]] r2] l by simp
  ultimately show ?thesis using r1 r2 by (simp add: list_all_iff)
qed

text \<open>The listing shows what uses the volume.\<close>

lemma volume_listing_example:
  "fst (ListProjectVolumes volume_host web_project ()) =
     Inr [\<lparr> vi_Name = ''web_data'', vi_Driver = ''local'', vi_Mountpoint = ''/var/lib/docker/web_data'',
            vi_CreatedAt = ''2026'', vi_InUseBy = [''web-db-1''] \<rparr>]"
  by code_simp

end
