(* ===== verification/RegistryLogins.thy ===== *)
theory RegistryLogins
  imports UpdateChecks Files Peers
begin

text \<open>
  Logging Docker in to a registry and out again: the rest of \<^verbatim>\<open>server/internal/core/registry.go\<close> (its
  listing of saved logins is in \<open>UpdateChecks\<close>) and the three handlers of
  \<^verbatim>\<open>server/internal/handlers/projects.go\<close> about them. Docker's \<^verbatim>\<open>config.json\<close> is a file of the file system
  of theory \<open>Files\<close>, whose calls may fail or stop half-way; \<^verbatim>\<open>encoding/json\<close> is an argument.
\<close>

section \<open>Definitions\<close>

datatype json = JNull | JBool bool | JNumber string | JText string | JArray "json list"
  | JObject "(string \<times> json) list"

text \<open>
  The machine: \<open>va_stdin\<close> runs a command with a text on its standard input, \<open>va_home\<close> is
  \<^verbatim>\<open>os.UserHomeDir\<close>, \<open>va_fs\<close> and \<open>va_put\<close> give the file system inside the machine's state.
\<close>

record 'w vault =
  va_host :: "'w host"
  va_stdin :: "string \<Rightarrow> string list \<Rightarrow> string \<Rightarrow> 'w \<Rightarrow> cmd_result \<times> 'w"
  va_home :: "string result"
  va_fs :: "'w \<Rightarrow> fsys"
  va_put :: "fsys \<Rightarrow> 'w \<Rightarrow> 'w"
  va_decode :: "string \<Rightarrow> json result"
  va_encode :: "json \<Rightarrow> string result"
  va_base64 :: "string \<Rightarrow> string option"

text \<open>\<^verbatim>\<open>os.Rename\<close> of a file: a link is renamed or replaced itself.\<close>

definition fs_rename :: "string \<Rightarrow> string \<Rightarrow> fsys \<Rightarrow> (fs_error + unit) \<times> fsys" where
  "fs_rename old new s = sys s (\<lambda>s.
     (case fs_nodes s old of
        None \<Rightarrow> (Inl NotExist, s)
      | Some x \<Rightarrow>
          if fs_nodes s new = Some Folder then (Inl (FsError ''file exists''), s)
          else (Inr (), s \<lparr> fs_nodes := (fs_nodes s)(old := None, new := Some x) \<rparr>)))"

text \<open>The runes of a text without spaces and control characters (\<^verbatim>\<open>unicode.IsControl\<close>, in UTF-8).\<close>

fun control_free :: "string \<Rightarrow> bool" where
  "control_free [] = True"
| "control_free (c # cs) =
     (let n = (of_char c :: nat) in
      \<not> (n < 32 \<or> n = 127 \<or> (n = 194 \<and> cs \<noteq> [] \<and> 128 \<le> (of_char (hd cs) :: nat) \<and> (of_char (hd cs) :: nat) < 160))
      \<and> lead_space (c # cs) = 0 \<and> control_free cs)"

definition validRegistryName :: "string \<Rightarrow> bool" where
  "validRegistryName registry \<longleftrightarrow> CHR ''/'' \<notin> set registry \<and> control_free registry"

definition sanitizeLoginOutput :: "string \<Rightarrow> string" where
  "sanitizeLoginOutput out =
     join [newline] (map (\<lambda>line. if contains (to_lower line) ''password'' then filter (\<lambda>c. c \<noteq> CHR 0x0D) line else line)
       (split_on newline out))"

definition resolveDockerConfigPath :: "'w vault \<Rightarrow> string" where
  "resolveDockerConfigPath V =
     (let dir = ho_getenv (va_host V) ''DOCKER_CONFIG'' in
      if dir \<noteq> [] then join_path dir ''config.json''
      else
        (case va_home V of
           Inl _ \<Rightarrow> ''/root/.docker/config.json''
         | Inr home \<Rightarrow>
             if home = [] then ''/root/.docker/config.json''
             else join_path (join_path home ''.docker'') ''config.json''))"

definition without_auth :: "string \<Rightarrow> json \<Rightarrow> json" where
  "without_auth registry cfg =
     (case cfg of
        JObject members \<Rightarrow>
          (case map_of members ''auths'' of
             Some (JObject auths) \<Rightarrow> JObject (AList.update ''auths'' (JObject (filter (\<lambda>(k, _). k \<noteq> registry) auths)) members)
           | _ \<Rightarrow> cfg)
      | _ \<Rightarrow> cfg)"

definition replace_config :: "string \<Rightarrow> string \<Rightarrow> fsys \<Rightarrow> string option \<times> fsys" where
  "replace_config path out fs =
     (case fs_write (path @ ''.tmp'') out fs of
        (Inl e, fs1) \<Rightarrow> (Some (fs_text e), fs1)
      | (Inr _, fs1) \<Rightarrow>
          (case fs_rename (path @ ''.tmp'') path fs1 of
             (Inl e, fs2) \<Rightarrow> (Some (fs_text e), fs2)
           | (Inr _, fs2) \<Rightarrow> (None, fs2)))"

definition removeAuthFromConfig :: "'w vault \<Rightarrow> string \<Rightarrow> 'w \<Rightarrow> string option \<times> 'w" where
  "removeAuthFromConfig V registry w =
     (let path = resolveDockerConfigPath V in
      case read_node (va_fs V w) path of
        Inl e \<Rightarrow> (Some (fs_text e), w)
      | Inr raw \<Rightarrow>
          (case va_decode V raw of
             Inl e \<Rightarrow> (Some e, w)
           | Inr cfg \<Rightarrow>
               (case va_encode V (without_auth registry cfg) of
                  Inl e \<Rightarrow> (Some e, w)
                | Inr out \<Rightarrow>
                    (let (err, fs) = replace_config path out (va_fs V w) in (err, va_put V fs w)))))"

definition hub_key :: string where
  "hub_key = ''https://index.docker.io/v1/''"

definition registry_result :: "string \<Rightarrow> bool \<Rightarrow> int \<Rightarrow> string \<Rightarrow> string \<Rightarrow> OpResult" where
  "registry_result action ok code out dur =
     \<lparr> op_Project = ''(registry)'', op_Action = action, op_Success = ok, op_Output = out, op_ExitCode = code, op_Duration = dur \<rparr>"

definition DeleteSavedRegistryLogin :: "'w vault \<Rightarrow> string \<Rightarrow> 'w \<Rightarrow> OpResult \<times> 'w" where
  "DeleteSavedRegistryLogin V registry w =
     (if \<not> validRegistryName (trim_prefix (trim_prefix registry ''https://'') ''http://'') \<and> registry \<noteq> hub_key
      then (registry_result ''logout'' False 1 ''invalid registry name'' [], w)
      else
        (let hub = (registry = [] \<or> registry = hub_key);
             (r, w1) = ho_exec (va_host V) ''docker'' ([''logout''] @ (if hub then [] else [registry])) w;
             out = trim_space (cm_stdout r @ cm_stderr r);
             ok = registry_result (if hub then ''logout docker-hub'' else ''logout '' @ registry) True 0 out []
         in case cm_error r of
              None \<Rightarrow> (ok, w1)
            | Some _ \<Rightarrow>
                (case removeAuthFromConfig V registry w1 of
                   (Some e, w2) \<Rightarrow>
                     (registry_result ''logout'' False 1 (out @ [newline] @ ''fallback edit failed: '' @ e) [], w2)
                 | (None, w2) \<Rightarrow> (ok, w2))))"

record RegistryLoginRequest =
  rq_Registry :: string
  rq_Username :: string
  rq_Password :: string

definition login_args :: "string \<Rightarrow> string \<Rightarrow> string list" where
  "login_args registry username =
     [''login''] @ (if registry \<noteq> [] then [registry] else []) @ [''-u'', username, ''--password-stdin'']"

definition DockerLogin :: "'w vault \<Rightarrow> RegistryLoginRequest \<Rightarrow> 'w \<Rightarrow> OpResult \<times> 'w" where
  "DockerLogin V req w =
     (let registry = trim_space (rq_Registry req); username = trim_space (rq_Username req) in
      if username = [] \<or> rq_Password req = []
      then (registry_result ''login'' False 1 ''username and password are required'' [], w)
      else if \<not> validRegistryName registry
      then (registry_result ''login'' False 1 ''registry must be a Docker registry host without a URL scheme or path'' [], w)
      else
        (let (r, w1) = va_stdin V ''docker'' (login_args registry username) (rq_Password req) w;
             result = registry_result (if registry \<noteq> [] then ''login '' @ registry else ''login'')
         in ((case cm_error r of
                None \<Rightarrow> result True 0
              | Some e \<Rightarrow> result False (commandExitCode e))
             (sanitizeLoginOutput (cm_stdout r @ cm_stderr r)) (elapsed (va_host V) w w1), w1)))"


text \<open>\<^verbatim>\<open>url.PathUnescape\<close>: as in a query, but a plus sign stands for itself.\<close>

fun path_unescape :: "string \<Rightarrow> string option" where
  "path_unescape [] = Some []"
| "path_unescape (c # cs) =
     (if c = CHR ''%'' then
        (case cs of
           a # b # rest \<Rightarrow>
             (case (unhex a, unhex b) of
                (Some x, Some y) \<Rightarrow> map_option ((#) (char_of (16 * x + y))) (path_unescape rest)
              | _ \<Rightarrow> None)
         | _ \<Rightarrow> None)
      else map_option ((#) c) (path_unescape cs))"

section \<open>The configuration file\<close>

text \<open>The saved logins of a decoded configuration, and those of the file.\<close>

definition auth_entries :: "json \<Rightarrow> (string \<times> json) list" where
  "auth_entries cfg =
     (case cfg of
        JObject members \<Rightarrow> (case map_of members ''auths'' of Some (JObject auths) \<Rightarrow> auths | _ \<Rightarrow> [])
      | _ \<Rightarrow> [])"

definition saved_auths :: "'w vault \<Rightarrow> 'w \<Rightarrow> (string \<times> json) list result" where
  "saved_auths V w =
     (case read_node (va_fs V w) (resolveDockerConfigPath V) of
        Inl NotExist \<Rightarrow> Inr []
      | Inl (FsError e) \<Rightarrow> Inl e
      | Inr raw \<Rightarrow> map_sum id auth_entries (va_decode V raw))"

lemma without_auth_entries [simp]:
  "auth_entries (without_auth registry cfg) = filter (\<lambda>(k, _). k \<noteq> registry) (auth_entries cfg)"
  by (auto simp: auth_entries_def without_auth_def update_conv' split: json.splits option.splits)

lemma without_auth_others:
  "cfg = JObject members \<Longrightarrow> k \<noteq> ''auths'' \<Longrightarrow>
   \<exists>members'. without_auth registry cfg = JObject members' \<and> map_of members' k = map_of members k"
  by (auto simp: without_auth_def update_conv' split: json.splits option.splits)

definition no_link :: "fsys \<Rightarrow> string \<Rightarrow> bool" where
  "no_link s p \<longleftrightarrow> (\<forall>t. fs_nodes s p \<noteq> Some (Link t))"

lemma follow_no_link: "no_link s p \<Longrightarrow> follow (fs_nodes s) p = Inr p"
proof -
  assume "no_link s p"
  then have "target (Suc n) (fs_nodes s) p = Some p" for n
    by (auto simp: no_link_def split: option.splits node.splits)
  from this [of 39] show ?thesis by (simp add: follow_def eval_nat_numeral del: target.simps)
qed

lemma write_touches:
  assumes "fs_write p c s = (r, s')" "no_link s p"
  shows "fs_nodes s' = (if r = Inr () then (fs_nodes s)(p \<mapsto> File c) else fs_nodes s)
      \<or> (\<exists>n e. r = Inl e \<and> fs_nodes s' = (fs_nodes s)(p \<mapsto> File (take n c)))"
  using assms(1) follow_no_link [OF assms(2)]
  by (auto simp: fs_write_def sys_def put_file_def split: list.splits option.splits fault.splits if_splits)

lemma rename_effect:
  assumes "fs_rename p q s = (r, s')"
  shows "(r = Inr () \<longrightarrow> fs_nodes s' = (fs_nodes s)(p := None, q := fs_nodes s p)) \<and>
    (r \<noteq> Inr () \<longrightarrow> fs_nodes s' = fs_nodes s)"
  using assms by (auto simp: fs_rename_def sys_def split: list.splits option.splits fault.splits if_splits)

lemma replace_config_effect:
  assumes "replace_config path out s = (err, s')" "no_link s (path @ ''.tmp'')"
  shows "(err = None \<longrightarrow> fs_nodes s' path = Some (File out)) \<and> (err \<noteq> None \<longrightarrow> fs_nodes s' path = fs_nodes s path) \<and>
    (\<forall>p. p \<noteq> path \<and> p \<noteq> path @ ''.tmp'' \<longrightarrow> fs_nodes s' p = fs_nodes s p)"
proof -
  obtain r1 s1 where w: "fs_write (path @ ''.tmp'') out s = (r1, s1)" by fastforce
  obtain r2 s2 where m: "fs_rename (path @ ''.tmp'') path s1 = (r2, s2)" by fastforce
  from write_touches [OF w assms(2)] rename_effect [OF m] assms(1) w m show ?thesis
    by (cases r1; cases r2) (auto simp: replace_config_def)
qed

text \<open>
  Property C39. The edit of Docker's configuration that stands in for a failed \<^verbatim>\<open>docker logout\<close> loses nothing. Whichever
  system call fails, and however far a write got, the configuration is the old file or the complete new
  one; no file but it and its \<^verbatim>\<open>.tmp\<close> changes; and after a success the saved logins are the old ones without
  the given registry.
\<close>

theorem saved_login_removed:
  assumes put: "\<And>fs u. va_fs V (va_put V fs u) = fs"
    and codec: "\<And>raw cfg out. va_decode V raw = Inr cfg \<Longrightarrow> va_encode V (without_auth registry cfg) = Inr out \<Longrightarrow>
      va_decode V out = Inr (without_auth registry cfg)"
    and path: "path = resolveDockerConfigPath V" "fs_nodes (va_fs V w) path = Some (File raw)"
      "no_link (va_fs V w) (path @ ''.tmp'')" "fs_unreadable (va_fs V w) = (\<lambda>_. False)"
    and run: "removeAuthFromConfig V registry w = (err, w')"
  shows "(err \<noteq> None \<longrightarrow> fs_nodes (va_fs V w') path = Some (File raw)) \<and>
    (err = None \<longrightarrow> (\<exists>auths. saved_auths V w = Inr auths \<and>
       (\<exists>out. fs_nodes (va_fs V w') path = Some (File out) \<and>
          map_sum id auth_entries (va_decode V out) = Inr (filter (\<lambda>(k, _). k \<noteq> registry) auths)))) \<and>
    (\<forall>p. p \<noteq> path \<and> p \<noteq> path @ ''.tmp'' \<longrightarrow> fs_nodes (va_fs V w') p = fs_nodes (va_fs V w) p)"
proof -
  have "no_link (va_fs V w) path" using path(2) by (simp add: no_link_def)
  then have read: "read_node (va_fs V w) path = Inr raw"
    using path(2,4) by (simp add: read_node_def follow_no_link)
  show ?thesis
  proof (cases "\<exists>cfg out. va_decode V raw = Inr cfg \<and> va_encode V (without_auth registry cfg) = Inr out")
    case False
    then have "err \<noteq> None \<and> w' = w"
      using run read path(1) by (auto simp: removeAuthFromConfig_def Let_def split: sum.splits)
    then show ?thesis using path(2) by auto
  next
    case True
    then obtain cfg out where c: "va_decode V raw = Inr cfg" "va_encode V (without_auth registry cfg) = Inr out" by blast
    obtain e fs where r: "replace_config path out (va_fs V w) = (e, fs)" by fastforce
    have "err = e" "va_fs V w' = fs"
      using run read path(1) c r put by (auto simp: removeAuthFromConfig_def Let_def)
    moreover have "saved_auths V w = Inr (auth_entries cfg)"
      using read path(1) c(1) by (simp add: saved_auths_def)
    moreover have "map_sum id auth_entries (va_decode V out) = Inr (filter (\<lambda>(k, _). k \<noteq> registry) (auth_entries cfg))"
      using codec [OF c] by simp
    ultimately show ?thesis using replace_config_effect [OF r path(3)] path(2) by auto
  qed
qed


text \<open>
  A login whose key has a path, such as the ones Docker stores for some registries, is listed but never
  removed: its name is refused, whatever the machine.
\<close>

lemma listed_login_cannot_be_deleted:
  "fst (DeleteSavedRegistryLogin V ''https://ghcr.io/v2/'' w) = registry_result ''logout'' False 1 ''invalid registry name'' []"
  "snd (DeleteSavedRegistryLogin V ''https://ghcr.io/v2/'' w) = w"
proof -
  have "\<not> validRegistryName (trim_prefix (trim_prefix ''https://ghcr.io/v2/'' ''https://'') ''http://'') \<and>
      ''https://ghcr.io/v2/'' \<noteq> hub_key" by code_simp
  then show "fst (DeleteSavedRegistryLogin V ''https://ghcr.io/v2/'' w) = registry_result ''logout'' False 1 ''invalid registry name'' []"
    "snd (DeleteSavedRegistryLogin V ''https://ghcr.io/v2/'' w) = w"
    by (simp_all only: DeleteSavedRegistryLogin_def if_True simp_thms fst_conv snd_conv)
qed

text \<open>A registry that is an option reaches Docker as one: \<^verbatim>\<open>docker login --help\<close> succeeds without a login.\<close>

lemma login_registry_as_option:
  "validRegistryName ''--help'' \<and> login_args ''--help'' ''ann'' = [''login'', ''--help'', ''-u'', ''ann'', ''--password-stdin'']"
  by code_simp

section \<open>A concrete machine\<close>

text \<open>A host without a working \<^verbatim>\<open>docker\<close> command, and a configuration with two saved logins.\<close>

definition demo_config :: json where
  "demo_config = JObject [(''auths'', JObject [(''ghcr.io'', JText ''YQ=''), (hub_key, JText ''Yg='')]), (''credsStore'', JText ''pass'')]"

definition config_host :: "fsys host" where
  "config_host = \<lparr> ho_exec = (\<lambda>_ _ w. ((answer []) \<lparr> cm_error := Some (ExitError 1 ''exit status 1'') \<rparr>, w)),
     ho_exec_in = (\<lambda>_ _ _ _ w. (answer [], w)), ho_tempconfig = (\<lambda>w. (Inr ''/tmp'', w)),
     ho_auths = (\<lambda>_. Inr []), ho_sleep = (\<lambda>_ w. w), ho_now = (\<lambda>_. 0), ho_file = (\<lambda>_ _. False), ho_executable = (\<lambda>_ _. False),
     ho_getenv = (\<lambda>_. []), ho_hostname = ''manager'' \<rparr>"

definition demo_vault :: "fsys vault" where
  "demo_vault = \<lparr> va_host = config_host, va_stdin = (\<lambda>_ _ _ w. (answer [], w)), va_home = Inr ''/root'',
     va_fs = (\<lambda>w. w), va_put = (\<lambda>fs _. fs),
     va_decode = (\<lambda>t. if t = ''old'' then Inr demo_config else if t = ''new'' then Inr (without_auth hub_key demo_config) else Inl ''bad''),
     va_encode = (\<lambda>j. if j = without_auth hub_key demo_config then Inr ''new'' else Inl ''bad''),
     va_base64 = (\<lambda>_. None) \<rparr>"

definition config_fs :: "fault option list \<Rightarrow> fsys" where
  "config_fs faults = \<lparr> fs_nodes = [''/root/.docker'' \<mapsto> Folder, ''/root/.docker/config.json'' \<mapsto> File ''old''],
     fs_unreadable = (\<lambda>_. False), fs_faults = faults \<rparr>"

theorem saved_login_removed_witness:
  "\<exists>err w'. removeAuthFromConfig demo_vault hub_key (config_fs [Some (Torn ''disk full'' 1)]) = (Some err, w') \<and>
     fs_nodes w' ''/root/.docker/config.json'' = Some (File ''old'')"
proof -
  let ?r = "removeAuthFromConfig demo_vault hub_key (config_fs [Some (Torn ''disk full'' 1)])"
  have e: "fst ?r = Some ''disk full''" "resolveDockerConfigPath demo_vault = ''/root/.docker/config.json''" by code_simp+
  then have r: "?r = (Some ''disk full'', snd ?r)" by (simp add: prod_eq_iff)
  have put: "va_fs demo_vault (va_put demo_vault fs u) = fs" "va_fs demo_vault u = u" for fs u
    by (simp_all add: demo_vault_def)
  have codec: "va_decode demo_vault out = Inr (without_auth hub_key cfg)"
    if "va_decode demo_vault raw = Inr cfg" "va_encode demo_vault (without_auth hub_key cfg) = Inr out" for raw cfg out
    using that by (auto simp: demo_vault_def split: if_splits)
  have files: "fs_nodes (config_fs fs) ''/root/.docker/config.json'' = Some (File ''old'')"
    "no_link (config_fs fs) (''/root/.docker/config.json'' @ ''.tmp'')" "fs_unreadable (config_fs fs) = (\<lambda>_. False)" for fs
    by (simp_all add: config_fs_def no_link_def)
  have "fs_nodes (snd ?r) ''/root/.docker/config.json'' = Some (File ''old'')"
    using saved_login_removed [OF put(1) codec e(2) [symmetric] _ _ _ r] put(2) files by auto
  with r show ?thesis by blast
qed

end
