(* ===== verification/ProjectApi.thy ===== *)
theory ProjectApi
  imports Peers TemplateUpdate ProjectFiles Volumes RegistryLogins
begin

text \<open>
  The HTTP handlers of projects (\<^verbatim>\<open>server/internal/handlers/projects.go\<close>), which put the engine, the jobs,
  the store, the update checks and the peers together. A handler is a function of the decoded request
  and the state of the server; the record \<open>api\<close> holds what does not change while the server runs.
  \<open>ap_list\<close> and \<open>ap_images\<close> are the entries \<^verbatim>\<open>projects:list\<close> and \<^verbatim>\<open>project_images:...\<close> of the cache; an entry that
  expires is gone in a later state, and without Redis there is none. The goroutine of \<open>syncPorts\<close> is a
  name in \<open>ap_syncing\<close> that \<open>sync_step\<close> works off at any later time.
\<close>

section \<open>Definitions\<close>

subsection \<open>The server\<close>

text \<open>
  \<open>api_fs\<close> and \<open>api_put_fs\<close> read and replace the files of the machine for the code that is modelled over
  \<open>fsys\<close>; \<open>api_tree\<close> is the directory of a project as the search for documents sees it, with the time of
  its compose file; \<open>api_decode\<close> and \<open>api_snapshot\<close> decode the answer of a peer and the snapshot of an agent;
  \<open>api_vault\<close> is the machine as logging in to registries sees it; \<open>api_syncer\<close> is the firewall skill, when
  there is one.
\<close>

record 'w api =
  api_site :: "'w site"
  api_codec :: codec
  api_catalog :: "StackTemplate list"
  api_compose :: compose_config
  api_ids :: "int \<times> int"
  api_fs :: "'w \<Rightarrow> fsys"
  api_put_fs :: "fsys \<Rightarrow> 'w \<Rightarrow> 'w"
  api_tree :: "'w \<Rightarrow> Project \<Rightarrow> bool \<times> (string \<times> doc_node) list \<times> instant option"
  api_stamp :: "instant \<Rightarrow> string"
  api_checker :: bool
  api_decode :: "string \<Rightarrow> Project list result"
  api_snapshot :: "string \<Rightarrow> Project list result"
  api_vault :: "'w vault"
  api_syncer :: "(string list \<Rightarrow> 'w \<Rightarrow> 'w) option"

record 'w app =
  ap_world :: 'w
  ap_jobs :: JobManager
  ap_projects :: project_db
  ap_list :: "Project list option"
  ap_images :: "string \<Rightarrow> ImageSource list option"
  ap_manifests :: "((string \<times> bool) \<times> (bool \<times> string \<times> instant)) list"
  ap_locals :: "(string \<times> (bool \<times> instant)) list"
  ap_peers :: peer_cache
  ap_lastRunAt :: instant
  ap_lastSummary :: ProjectUpdateStatus
  ap_syncing :: "string list"

record BulkRequest =
  br_Projects :: "string list"
  br_Exclude :: "string list"
  br_Timeout :: int

record BulkResult =
  bk_Results :: "OpResult list"
  bk_Total :: nat
  bk_Success :: nat
  bk_Failed :: nat

datatype payload =
    PProject Project | PProjects "Project list" | POp OpResult | POps "OpResult list" | PBulk BulkResult
  | PJob ActionJob | PJobs "ActionJob list" | PPolicy ProjectUpdatePolicy | PStatus ProjectUpdateStatus
  | PDocs "ProjectDoc list" | PDoc ProjectDoc string | PImages string "ImageSource list"
  | PVolumes string "VolumeInfo list" | PNetworks string "NetworkInfo list" | PDeleted string
  | PDismissed string | PInactive string bool | PPreview TemplateUpdatePreview
  | PApplied TemplateUpdatePreview OpResult | PLogins "RegistryLogin list" | PNull

text \<open>\<open>writeJSON\<close>, \<open>writeError\<close> and \<open>writeErrorWithData\<close>.\<close>

datatype api_answer = Answered int payload | Failed int string | FailedWith int string payload

abbreviation api_host :: "'w api \<Rightarrow> 'w host" where "api_host A \<equiv> si_host (api_site A)"
abbreviation api_disk :: "'w api \<Rightarrow> 'w disk" where "api_disk A \<equiv> si_disk (api_site A)"
abbreviation api_views :: "'w api \<Rightarrow> 'w views" where "api_views A \<equiv> si_views (api_site A)"
abbreviation api_decoders :: "'w api \<Rightarrow> decoders" where "api_decoders A \<equiv> si_decoders (api_site A)"
abbreviation api_engine :: "'w api \<Rightarrow> Engine" where "api_engine A \<equiv> si_engine (api_site A)"
abbreviation api_now :: "'w api \<Rightarrow> 'w app \<Rightarrow> instant" where "api_now A s \<equiv> ho_now (api_host A) (ap_world s)"

definition on_world :: "('w \<Rightarrow> 'a \<times> 'w) \<Rightarrow> 'w app \<Rightarrow> 'a \<times> 'w app" where
  "on_world f s = (let (a, w) = f (ap_world s) in (a, s \<lparr> ap_world := w \<rparr>))"

definition on_store :: "(db \<Rightarrow> 'a reply) \<Rightarrow> 'w app \<Rightarrow> (store_error + 'a) \<times> 'w app" where
  "on_store f s = (let (r, d) = f (jm_db (ap_jobs s)) in (r, s \<lparr> ap_jobs := (ap_jobs s) \<lparr> jm_db := d \<rparr> \<rparr>))"

definition on_jobs :: "(JobManager \<Rightarrow> 'a \<times> JobManager) \<Rightarrow> 'w app \<Rightarrow> 'a \<times> 'w app" where
  "on_jobs f s = (let (a, m) = f (ap_jobs s) in (a, s \<lparr> ap_jobs := m \<rparr>))"

definition on_projects :: "(project_db \<Rightarrow> 'a \<times> project_db) \<Rightarrow> 'w app \<Rightarrow> 'a \<times> 'w app" where
  "on_projects f s = (let (a, d) = f (ap_projects s) in (a, s \<lparr> ap_projects := d \<rparr>))"

definition on_files :: "'w api \<Rightarrow> (fsys \<Rightarrow> 'a \<times> fsys) \<Rightarrow> 'w app \<Rightarrow> 'a \<times> 'w app" where
  "on_files A f = on_world (\<lambda>w. let (a, fs) = f (api_fs A w) in (a, api_put_fs A fs w))"

definition drop_list :: "'w app \<Rightarrow> 'w app" where
  "drop_list s = s \<lparr> ap_list := None \<rparr>"

text \<open>A stored status or policy drops the cached list of projects as well.\<close>

definition save_status :: "string \<Rightarrow> ProjectUpdateStatus \<Rightarrow> 'w app \<Rightarrow> unit result \<times> 'w app" where
  "save_status name status s =
     (let (r, s1) = on_projects (SaveProjectUpdateStatus name status) s
      in (r, if isl r then s1 else drop_list s1))"

subsection \<open>Policies\<close>

definition resolve_update_policy :: "'w api \<Rightarrow> Project \<Rightarrow> 'w app \<Rightarrow> ProjectUpdatePolicy \<times> 'w app" where
  "resolve_update_policy A project s =
     (let (detected, s1) = on_world (DetectProjectUpdatePolicy (api_host A) project) s
      in on_projects (ResolveUpdatePolicy (pr_Name project) detected) s1)"

definition applyPolicy :: "'w api \<Rightarrow> Project \<Rightarrow> 'w app \<Rightarrow> Project \<times> 'w app" where
  "applyPolicy A project s =
     (let (policy, s1) = resolve_update_policy A project s;
          p = project \<lparr> pr_UpdatePolicy := policy, pr_Controller := IsControllerProject (api_host A) project \<rparr>
      in if pr_Controller p then (p \<lparr> pr_UpdateStatus := no_status \<rparr>, s1)
         else
           (let (r, s2) = on_projects (ProjectUpdateStatusOf (pr_Name p)) s1
            in (case r of Inl _ \<Rightarrow> p | Inr status \<Rightarrow> p \<lparr> pr_UpdateStatus := status \<rparr>, s2)))"

fun apply_policies :: "'w api \<Rightarrow> Project list \<Rightarrow> 'w app \<Rightarrow> Project list \<times> 'w app" where
  "apply_policies A [] s = ([], s)"
| "apply_policies A (p # ps) s =
     (let (p', s1) = applyPolicy A p s; (ps', s2) = apply_policies A ps s1 in (p' # ps', s2))"

definition discoverProjects :: "'w api \<Rightarrow> 'w app \<Rightarrow> Project list result \<times> 'w app" where
  "discoverProjects A s =
     (case ap_list s of
        Some cached \<Rightarrow> (Inr cached, s)
      | None \<Rightarrow>
          (case on_world (DiscoverProjects (api_host A) (api_disk A) (api_views A) (api_decoders A) (api_engine A)) s of
             (Inl e, s1) \<Rightarrow> (Inl (core_text e), s1)
           | (Inr found, s1) \<Rightarrow>
               (let (projects, s2) = apply_policies A found s1
                in (Inr projects, if pj_redis (ap_projects s2) then s2 \<lparr> ap_list := Some projects \<rparr> else s2))))"

definition core_failure :: "core_error \<Rightarrow> int \<Rightarrow> api_answer" where
  "core_failure e code = (case e of NotFound m \<Rightarrow> Failed 404 m | CoreError m \<Rightarrow> Failed code m)"

definition getProject :: "'w api \<Rightarrow> string \<Rightarrow> 'w app \<Rightarrow> (api_answer + Project) \<times> 'w app" where
  "getProject A name s =
     (case on_world (GetProject (api_host A) (api_disk A) (api_views A) (api_decoders A) (api_engine A) name) s of
        (Inl e, s1) \<Rightarrow> (Inl (core_failure e 500), s1)
      | (Inr project, s1) \<Rightarrow> map_prod Inr id (applyPolicy A project s1))"

text \<open>What the handlers of one project begin with.\<close>

definition with_project :: "'w api \<Rightarrow> string \<Rightarrow> (Project \<Rightarrow> 'w app \<Rightarrow> api_answer \<times> 'w app) \<Rightarrow> 'w app \<Rightarrow> api_answer \<times> 'w app" where
  "with_project A name f s = (case getProject A name s of (Inl a, s1) \<Rightarrow> (a, s1) | (Inr p, s1) \<Rightarrow> f p s1)"

definition getTimeout :: "url_query \<Rightarrow> int" where
  "getTimeout q =
     (let t = query_get ''timeout'' q in if t \<noteq> [] \<and> snd (atoi t) then fst (atoi t) else 0)"

definition rejectControllerImageAction :: "'w api \<Rightarrow> Project \<Rightarrow> api_answer option" where
  "rejectControllerImageAction A project =
     (if IsControllerProject (api_host A) project then Some (Failed 409 ControllerImageActionMessage) else None)"

definition noUpdates :: "'w api \<Rightarrow> Project \<Rightarrow> 'w app \<Rightarrow> (bool \<times> Project) \<times> 'w app" where
  "noUpdates A project s =
     (let (policy, s1) = resolve_update_policy A project s
      in ((pp_EffectivePolicy policy = ''no_updates'', project \<lparr> pr_UpdatePolicy := policy \<rparr>), s1))"

definition skippedUpdateResults :: "Project \<Rightarrow> OpResult list" where
  "skippedUpdateResults project =
     (let why = pp_NoUpdatesReason (pr_UpdatePolicy project);
          reason = (if why \<noteq> [] then why else ''updates disabled'')
      in [\<lparr> op_Project = pr_Name project, op_Action = ''update'', op_Success = True,
            op_Output = ''updates skipped: '' @ reason @ [newline], op_ExitCode = 0, op_Duration = [] \<rparr>])"

definition opResultsSucceeded :: "OpResult list \<Rightarrow> bool" where
  "opResultsSucceeded results = (results \<noteq> [] \<and> (\<forall>r \<in> set results. op_Success r))"

definition syncPorts :: "'w api \<Rightarrow> string \<Rightarrow> 'w app \<Rightarrow> 'w app" where
  "syncPorts A name s = (if api_syncer A = None then s else s \<lparr> ap_syncing := ap_syncing s @ [name] \<rparr>)"

text \<open>The goroutine that \<open>syncPorts\<close> has started for the project \<open>name\<close>.\<close>

definition sync_step :: "'w api \<Rightarrow> string \<Rightarrow> 'w app \<Rightarrow> 'w app" where
  "sync_step A name s =
     (case api_syncer A of
        None \<Rightarrow> s
      | Some SyncProjectPorts \<Rightarrow>
          (case on_world (GetProject (api_host A) (api_disk A) (api_views A) (api_decoders A) (api_engine A) name) s of
             (Inl _, s1) \<Rightarrow> s1 \<lparr> ap_syncing := remove1 name (ap_syncing s1) \<rparr>
           | (Inr project, s1) \<Rightarrow>
               s1 \<lparr> ap_world := SyncProjectPorts (filter (\<lambda>p. p \<noteq> []) (map ct_Ports (pr_Containers project))) (ap_world s1),
                    ap_syncing := remove1 name (ap_syncing s1) \<rparr>))"

subsection \<open>One project\<close>

definition CreateHandler :: "'w api \<Rightarrow> CreateProjectRequest option \<Rightarrow> 'w app \<Rightarrow> api_answer \<times> 'w app" where
  "CreateHandler A body s =
     (case body of
        None \<Rightarrow> (Failed 400 ''invalid request body'', s)
      | Some req \<Rightarrow>
          (case on_files A (CreateProject (api_codec A) (api_catalog A) (api_compose A) (fst (api_ids A)) (snd (api_ids A))
                  (dk_abs (api_disk A) (en_RootDir (api_engine A))) req) s of
             (Inl e, s1) \<Rightarrow> (Failed 400 e, s1)
           | (Inr (dir, cf), s1) \<Rightarrow>
               (let (project, s2) = on_world (buildProject (api_host A) (api_disk A) (api_views A) (api_decoders A) (api_engine A) dir cf) s1;
                    (p, s3) = applyPolicy A project (drop_list s2)
                in (Answered 201 (PProject p), s3))))"

text \<open>The schedules of a deleted project, and what the answer says about them.\<close>

definition disable_schedules :: "'w api \<Rightarrow> string \<Rightarrow> OpResult \<Rightarrow> 'w app \<Rightarrow> OpResult \<times> 'w app" where
  "disable_schedules A name result s =
     (let (r, s1) = on_store (DisableLocalSchedulesForProject (api_now A s) name
            (''disabled automatically: project '' @ name @ '' was deleted'')) s
      in (case r of
            Inl e \<Rightarrow> result \<lparr> op_Output := op_Output result @ ''warning: could not disable schedules for this project: '' @ store_text e @ [newline] \<rparr>
          | Inr n \<Rightarrow> if 0 < n
              then result \<lparr> op_Output := op_Output result @ ''disabled '' @ itoa (int n) @ '' schedule(s) for this project'' @ [newline] \<rparr>
              else result, s1))"

definition DeleteHandler :: "'w api \<Rightarrow> string \<Rightarrow> DeleteProjectRequest option \<Rightarrow> 'w app \<Rightarrow> api_answer \<times> 'w app" where
  "DeleteHandler A name body s =
     (case body of
        None \<Rightarrow> (Failed 400 ''invalid request body'', s)
      | Some req \<Rightarrow>
          (let ((result, err), s1) = on_world (DeleteProject (api_host A) (api_disk A) (api_views A) (api_decoders A) (api_engine A) name req) s;
               s2 = drop_list s1
           in (case err of
                 Some (NotFound m) \<Rightarrow> (Failed 404 m, s2)
               | Some (CoreError m) \<Rightarrow>
                   ((case result of
                       Some r \<Rightarrow> if op_Success r then Failed 400 m else FailedWith 400 m (POp r)
                     | None \<Rightarrow> Failed 400 m), s2)
               | None \<Rightarrow>
                   (case result of
                      None \<Rightarrow> (Answered 200 PNull, s2)
                    | Some r \<Rightarrow>
                        (let (r', s3) = (if op_Success r then disable_schedules A name r s2 else (r, s2))
                         in (Answered 200 (POp r'), s3))))))"

definition checkImageSources :: "'w api \<Rightarrow> Project \<Rightarrow> 'w app \<Rightarrow> ImageSource list \<times> 'w app" where
  "checkImageSources A project s =
     (case ap_images s (pr_Name project) of
        Some cached \<Rightarrow> (cached, s)
      | None \<Rightarrow>
          (let (images, pb) = CheckImageSources (api_host A) (api_decoders A) project
                 \<lparr> pb_world = ap_world s, pb_manifests = ap_manifests s, pb_locals = ap_locals s \<rparr>;
               s1 = s \<lparr> ap_world := pb_world pb, ap_manifests := pb_manifests pb, ap_locals := pb_locals pb \<rparr>
           in (images, if pj_redis (ap_projects s1)
                 then s1 \<lparr> ap_images := (ap_images s1)(pr_Name project \<mapsto> images) \<rparr> else s1)))"

definition ImagesHandler :: "'w api \<Rightarrow> string \<Rightarrow> 'w app \<Rightarrow> api_answer \<times> 'w app" where
  "ImagesHandler A name = with_project A name (\<lambda>p s.
     let (images, s1) = checkImageSources A p s in (Answered 200 (PImages (pr_Name p) images), s1))"

text \<open>\<^verbatim>\<open>^[a-zA-Z0-9][a-zA-Z0-9_.-]*$\<close>.\<close>

definition dockerObjectNameRe :: "string \<Rightarrow> bool" where
  "dockerObjectNameRe s =
     (case s of [] \<Rightarrow> False | c # cs \<Rightarrow>
        alnum_char (lower_char c) \<and> (\<forall>d \<in> set cs. alnum_char (lower_char d) \<or> d \<in> set ''_.-''))"

definition VolumesHandler :: "'w api \<Rightarrow> string \<Rightarrow> 'w app \<Rightarrow> api_answer \<times> 'w app" where
  "VolumesHandler A name = with_project A name (\<lambda>p s.
     case on_world (ListProjectVolumes (api_host A) p) s of
       (Inl e, s1) \<Rightarrow> (Failed 500 e, s1)
     | (Inr vols, s1) \<Rightarrow> (Answered 200 (PVolumes (pr_Name p) vols), s1))"

definition DeleteVolumeHandler :: "'w api \<Rightarrow> string \<Rightarrow> string \<Rightarrow> 'w app \<Rightarrow> api_answer \<times> 'w app" where
  "DeleteVolumeHandler A name vol = with_project A name (\<lambda>p s.
     if \<not> dockerObjectNameRe vol then (Failed 400 ''invalid volume name'', s)
     else
       (let (err, s1) = on_world (RemoveProjectVolume (api_host A) p vol) s
        in (case err of Some e \<Rightarrow> Failed 409 e | None \<Rightarrow> Answered 200 (PDeleted vol), s1)))"

definition NetworksHandler :: "'w api \<Rightarrow> string \<Rightarrow> 'w app \<Rightarrow> api_answer \<times> 'w app" where
  "NetworksHandler A name = with_project A name (\<lambda>p s.
     case on_world (ListProjectNetworks (api_host A) p) s of
       (Inl e, s1) \<Rightarrow> (Failed 500 e, s1)
     | (Inr nets, s1) \<Rightarrow> (Answered 200 (PNetworks (pr_Name p) nets), s1))"

definition DeleteNetworkHandler :: "'w api \<Rightarrow> string \<Rightarrow> string \<Rightarrow> 'w app \<Rightarrow> api_answer \<times> 'w app" where
  "DeleteNetworkHandler A name net = with_project A name (\<lambda>p s.
     if \<not> dockerObjectNameRe net then (Failed 400 ''invalid network name'', s)
     else
       (let (err, s1) = on_world (RemoveProjectNetwork (api_host A) p net) s
        in (case err of Some e \<Rightarrow> Failed 409 e | None \<Rightarrow> Answered 200 (PDeleted net), s1)))"

definition DocsHandler :: "'w api \<Rightarrow> string \<Rightarrow> 'w app \<Rightarrow> api_answer \<times> 'w app" where
  "DocsHandler A name = with_project A name (\<lambda>p s.
     let (readable, es, time) = api_tree A (ap_world s) p in (Answered 200 (PDocs (ProjectDocs readable es p time)), s))"

definition DocContentHandler :: "'w api \<Rightarrow> string \<Rightarrow> url_query \<Rightarrow> 'w app \<Rightarrow> api_answer \<times> 'w app" where
  "DocContentHandler A name q = with_project A name (\<lambda>p s.
     let (readable, es, time) = api_tree A (ap_world s) p
     in (case ReadProjectDoc readable es p time (query_get ''path'' q) (api_fs A (ap_world s)) of
           Inl e \<Rightarrow> core_failure e 400
         | Inr (doc, content) \<Rightarrow> Answered 200 (PDoc doc content), s))"

text \<open>\<open>Get\<close> does by itself what \<open>getProject\<close> does.\<close>

definition GetHandler :: "'w api \<Rightarrow> string \<Rightarrow> 'w app \<Rightarrow> api_answer \<times> 'w app" where
  "GetHandler A name s =
     (case on_world (GetProject (api_host A) (api_disk A) (api_views A) (api_decoders A) (api_engine A) name) s of
        (Inl e, s1) \<Rightarrow> (core_failure e 500, s1)
      | (Inr project, s1) \<Rightarrow> (let (p, s2) = applyPolicy A project s1 in (Answered 200 (PProject p), s2)))"

definition StatusHandler :: "'w api \<Rightarrow> string \<Rightarrow> 'w app \<Rightarrow> api_answer \<times> 'w app" where
  "StatusHandler A name = with_project A name (\<lambda>p s.
     let (r, s1) = on_world (Status (api_host A) p) s in (Answered 200 (POp r), s1))"

definition PullHandler :: "'w api \<Rightarrow> string \<Rightarrow> 'w app \<Rightarrow> api_answer \<times> 'w app" where
  "PullHandler A name = with_project A name (\<lambda>p s.
     case rejectControllerImageAction A p of
       Some a \<Rightarrow> (a, s)
     | None \<Rightarrow> (let (r, s1) = on_world (Pull (api_host A) p) s in (Answered 200 (POp r), s1)))"

definition UpHandler :: "'w api \<Rightarrow> string \<Rightarrow> 'w app \<Rightarrow> api_answer \<times> 'w app" where
  "UpHandler A name = with_project A name (\<lambda>p s.
     let (r, s1) = on_world (Up (api_host A) p) s in (Answered 200 (POp r), syncPorts A (pr_Name p) s1))"

definition TemplateUpdateStatus :: "'w api \<Rightarrow> string \<Rightarrow> 'w app \<Rightarrow> api_answer \<times> 'w app" where
  "TemplateUpdateStatus A name = with_project A name (\<lambda>p s.
     (Answered 200 (PPreview (PreviewTemplateUpdate (api_codec A) (api_catalog A) p (api_fs A (ap_world s)))), s))"

text \<open>\<open>body\<close> is \<^verbatim>\<open>confirm_compose_replacement\<close> of the request, when it decodes.\<close>

definition ApplyTemplateUpdateHandler :: "'w api \<Rightarrow> string \<Rightarrow> bool option \<Rightarrow> 'w app \<Rightarrow> api_answer \<times> 'w app" where
  "ApplyTemplateUpdateHandler A name body = with_project A name (\<lambda>p s.
     if body \<noteq> Some True
     then (Failed 400 ''catalog template replacement requires explicit confirmation after reviewing compose changes'', s)
     else
       (case on_files A (ApplyTemplateUpdate (api_codec A) (api_catalog A) (api_stamp A (api_now A s)) p) s of
          (Inl e, s1) \<Rightarrow> (Failed 400 e, s1)
        | (Inr applied, s1) \<Rightarrow>
            (let (r, s2) = on_world (ExecCompose (api_host A) p [''up'', ''-d'', ''--force-recreate'']) s1
             in (Answered 200 (PApplied applied r), syncPorts A (pr_Name p) s2))))"

definition DownHandler :: "'w api \<Rightarrow> string \<Rightarrow> 'w app \<Rightarrow> api_answer \<times> 'w app" where
  "DownHandler A name = with_project A name (\<lambda>p s.
     let (r, s1) = on_world (Down (api_host A) p) s in (Answered 200 (POp r), s1))"

text \<open>An update clears the stored check when everything succeeded.\<close>

definition clear_if_updated :: "Project \<Rightarrow> OpResult list \<Rightarrow> 'w app \<Rightarrow> 'w app" where
  "clear_if_updated p results s =
     (if opResultsSucceeded results then snd (save_status (pr_Name p) no_status s) else s)"

definition UpdateHandler :: "'w api \<Rightarrow> string \<Rightarrow> 'w app \<Rightarrow> api_answer \<times> 'w app" where
  "UpdateHandler A name = with_project A name (\<lambda>p s.
     case rejectControllerImageAction A p of
       Some a \<Rightarrow> (a, s)
     | None \<Rightarrow>
         (let ((skip, p1), s1) = noUpdates A p s
          in if skip then (Answered 200 (POps (skippedUpdateResults p1)), s1)
             else
               (let (results, s2) = on_world (Update (api_host A) (api_engine A) p1) s1
                in (Answered 200 (POps results), syncPorts A (pr_Name p1) (clear_if_updated p1 results s2)))))"

definition RestartHandler :: "'w api \<Rightarrow> string \<Rightarrow> 'w app \<Rightarrow> api_answer \<times> 'w app" where
  "RestartHandler A name = with_project A name (\<lambda>p s.
     let (r, s1) = on_world (Restart (api_host A) p) s in (Answered 200 (POp r), s1))"

text \<open>\<open>fresh\<close> is the random id of the new job.\<close>

definition StartJobHandler :: "'w api \<Rightarrow> string result \<Rightarrow> string \<Rightarrow> string \<Rightarrow> url_query \<Rightarrow> 'w app \<Rightarrow> api_answer \<times> 'w app" where
  "StartJobHandler A fresh name action q = with_project A name (\<lambda>p s.
     case (if action \<in> {''check'', ''update'', ''pull''} then rejectControllerImageAction A p else None) of
       Some a \<Rightarrow> (a, s)
     | None \<Rightarrow>
         (let timeout = getTimeout q;
              ((skip, p1), s1) = (if action \<in> {''check'', ''update''} then noUpdates A p s else ((False, p), s))
          in if skip
             then
               (let (policy, s2) = resolve_update_policy A p1 s1;
                    out = action @ '' skipped: '' @ pp_NoUpdatesReason policy @ [newline];
                    (r, s3) = on_jobs (StartSkipped fresh (api_now A s2) p1 action out) s2
                in (case r of Inl e \<Rightarrow> Failed 500 e | Inr job \<Rightarrow> Answered 202 (PJob job), s3))
             else
               (let (r, s2) = on_jobs (StartJob fresh (api_now A s1) p1 action timeout) s1
                in (case r of Inl e \<Rightarrow> Failed 400 e | Inr job \<Rightarrow> Answered 202 (PJob job), s2))))"

definition GetUpdatePolicy :: "'w api \<Rightarrow> string \<Rightarrow> 'w app \<Rightarrow> api_answer \<times> 'w app" where
  "GetUpdatePolicy A name = with_project A name (\<lambda>p s.
     let (detected, s1) = on_world (DetectProjectUpdatePolicy (api_host A) p) s;
         (r, s2) = on_projects (loadProjectPolicy (pr_Name p) detected) s1
     in (case r of Inl e \<Rightarrow> Failed 500 e | Inr policy \<Rightarrow> Answered 200 (PPolicy policy), s2))"

definition SetUpdatePolicy :: "'w api \<Rightarrow> string \<Rightarrow> (string \<times> string) option \<Rightarrow> 'w app \<Rightarrow> api_answer \<times> 'w app" where
  "SetUpdatePolicy A name body = with_project A name (\<lambda>p s.
     case body of
       None \<Rightarrow> (Failed 400 ''invalid request body'', s)
     | Some (mode, notes) \<Rightarrow>
         (let valid = ValidProjectUpdatePolicyMode (if mode = [] then ''auto'' else mode);
              (detected, s1) = (if valid then on_world (DetectProjectUpdatePolicy (api_host A) p) s
                else (detected_policy [] [], s));
              (r, s2) = on_projects (SetProjectPolicy (pr_Name p) detected mode notes) s1
          in (case r of Inl e \<Rightarrow> (Failed 400 e, s2) | Inr policy \<Rightarrow> (Answered 200 (PPolicy policy), drop_list s2))))"

definition DismissUpdateStatus :: "'w api \<Rightarrow> string \<Rightarrow> 'w app \<Rightarrow> api_answer \<times> 'w app" where
  "DismissUpdateStatus A name = with_project A name (\<lambda>p s.
     case save_status (pr_Name p) no_status s of
       (Inl e, s1) \<Rightarrow> (Failed 500 e, s1)
     | (Inr _, s1) \<Rightarrow> (Answered 200 (PDismissed (pr_Name p)), drop_list s1))"

definition SetInactiveHandler :: "'w api \<Rightarrow> string \<Rightarrow> bool option \<Rightarrow> 'w app \<Rightarrow> api_answer \<times> 'w app" where
  "SetInactiveHandler A name body s =
     (case body of
        None \<Rightarrow> (Failed 400 ''invalid request body'', s)
      | Some inactive \<Rightarrow>
          (case on_world (SetInactive (api_host A) (api_disk A) (api_views A) (api_decoders A) (api_engine A) name inactive) s of
             (Inl e, s1) \<Rightarrow> (core_failure e 500, s1)
           | (Inr _, s1) \<Rightarrow> (Answered 200 (PInactive name inactive), drop_list s1)))"

subsection \<open>All projects\<close>

definition fleet_of :: "'w app \<Rightarrow> 'w fleet" where
  "fleet_of s = \<lparr> fl_world = ap_world s, fl_db = jm_db (ap_jobs s), fl_projects = ap_projects s,
     fl_lastRunAt = ap_lastRunAt s, fl_lastSummary = ap_lastSummary s \<rparr>"

definition with_fleet :: "'w fleet \<Rightarrow> 'w app \<Rightarrow> 'w app" where
  "with_fleet fl s = s \<lparr> ap_world := fl_world fl, ap_jobs := (ap_jobs s) \<lparr> jm_db := fl_db fl \<rparr>,
     ap_projects := fl_projects fl, ap_lastRunAt := fl_lastRunAt fl, ap_lastSummary := fl_lastSummary fl \<rparr>"

definition CheckUpdates :: "'w api \<Rightarrow> 'w app \<Rightarrow> api_answer \<times> 'w app" where
  "CheckUpdates A s =
     (if \<not> api_checker A then (Failed 503 ''update checker is not configured'', s)
      else
        (let discover = (\<lambda>w. map_prod (map_sum core_text id) id
               (DiscoverProjects (api_host A) (api_disk A) (api_views A) (api_decoders A) (api_engine A) w));
             (status, fl) = Run (api_host A) (api_decoders A) discover (fleet_of s)
         in (Answered 200 (PStatus status), drop_list (with_fleet fl s))))"

definition GetJobHandler :: "string \<Rightarrow> 'w app \<Rightarrow> api_answer \<times> 'w app" where
  "GetJobHandler i s =
     (let (job, s1) = on_jobs (GetJob i) s
      in (case job of None \<Rightarrow> Failed 404 (''job not found: '' @ i) | Some j \<Rightarrow> Answered 200 (PJob j), s1))"

definition ListJobsHandler :: "'w app \<Rightarrow> api_answer \<times> 'w app" where
  "ListJobsHandler s = (let (jobs, s1) = on_jobs ListAllJobs s in (Answered 200 (PJobs jobs), s1))"

definition PruneHandler :: "'w api \<Rightarrow> string option \<Rightarrow> url_query \<Rightarrow> 'w app \<Rightarrow> api_answer \<times> 'w app" where
  "PruneHandler A body q s =
     (let mode = (case body of Some m \<Rightarrow> m | None \<Rightarrow> []);
          (r, s1) = on_world (Prune (api_host A) (if mode = [] then query_get ''mode'' q else mode)) s
      in (Answered 200 (POp r), s1))"

definition local_row :: "'w api \<Rightarrow> 'w app \<Rightarrow> Project \<Rightarrow> Project" where
  "local_row A s p0 =
     (let p = p0 \<lparr> pr_SourceHost := ''local'' \<rparr>;
          t = PreviewTemplateUpdate (api_codec A) (api_catalog A) p (api_fs A (ap_world s))
      in if tu_HasTemplate t \<and> tu_ComposeChanged t then p \<lparr> pr_TemplateUpdateAvailable := True \<rparr> else p)"

text \<open>The rows of one agent: live from a peer, from the last check-in otherwise.\<close>

definition agent_rows :: "'w api \<Rightarrow> url_query \<Rightarrow> ComposeAgent \<Rightarrow> 'w app \<Rightarrow> Project list \<times> 'w app" where
  "agent_rows A q agent s =
     (if ag_Mode agent = ''peer'' then
        (let ((r, c), w1) = fetchPeerProjects (si_http (api_site A)) (api_decode A) (ho_now (api_host A)) agent q (ap_peers s) (ap_world s);
             s1 = s \<lparr> ap_world := w1, ap_peers := c \<rparr>
         in (case r of
               Inl _ \<Rightarrow> ([], s1)
             | Inr ps \<Rightarrow> (ps, snd (on_store (TouchAgent (api_now A s1) (ag_ID agent)) s1))))
      else
        (case on_store (GetAgentProjectSnapshot (api_snapshot A) (ag_ID agent)) s of
           (Inl _, s1) \<Rightarrow> ([], s1)
         | (Inr (_, ps, _), s1) \<Rightarrow> (map (\<lambda>p. p \<lparr> pr_SourceHost := ag_Name agent \<rparr>) ps, s1)))"

fun agents_rows :: "'w api \<Rightarrow> url_query \<Rightarrow> string \<Rightarrow> ComposeAgent list \<Rightarrow> 'w app \<Rightarrow> Project list \<times> 'w app" where
  "agents_rows A q source [] s = ([], s)"
| "agents_rows A q source (agent # agents) s =
     (if \<not> ag_Enabled agent \<or> (source \<noteq> [] \<and> source \<noteq> ''all'' \<and> source \<noteq> ag_Name agent)
      then agents_rows A q source agents s
      else
        (let (rows, s1) = agent_rows A q agent s;
             (rest, s2) = agents_rows A q source agents s1
         in (rows @ rest, s2)))"

definition remote_projects :: "'w api \<Rightarrow> url_query \<Rightarrow> 'w app \<Rightarrow> Project list \<times> 'w app" where
  "remote_projects A q s =
     (let source = query_get ''source'' q in
      if source = ''local'' then ([], s)
      else
        (let (r, s1) = on_store ListAgents s
         in agents_rows A q source (case r of Inl _ \<Rightarrow> [] | Inr agents \<Rightarrow> agents) s1))"

definition list_filter :: "url_query \<Rightarrow> Project list \<Rightarrow> Project list" where
  "list_filter q projects = FilterProjects projects (query_all ''only'' q) (query_all ''exclude'' q)
     (query_get ''include_inactive'' q = ''true'') (query_get ''only_inactive'' q = ''true'') (query_get ''running_only'' q = ''true'')"

definition ListHandler :: "'w api \<Rightarrow> url_query \<Rightarrow> 'w app \<Rightarrow> api_answer \<times> 'w app" where
  "ListHandler A q s =
     (let source = query_get ''source'' q;
          (mine, s1) = (if source \<in> {[], ''all'', ''local''} then discoverProjects A s else (Inr [], s))
      in (case mine of
            Inl e \<Rightarrow> (Failed 500 e, s1)
          | Inr found \<Rightarrow>
              (let rows = map (local_row A s1) found;
                   (remote, s2) = remote_projects A q s1
               in (Answered 200 (PProjects (list_filter q (rows @ remote))), s2))))"

subsection \<open>Bulk actions\<close>

text \<open>One project of a bulk action: its results, or the error that ends the request.\<close>

definition bulk_one :: "'w api \<Rightarrow> string \<Rightarrow> Project \<Rightarrow> 'w app \<Rightarrow> OpResult list result \<times> 'w app" where
  "bulk_one A action p s =
     (let single = (\<lambda>f. let (r, s1) = on_world (f (api_host A) p) s in (Inr [r], s1)) in
      if (action = ''update'' \<or> action = ''pull'') \<and> IsControllerProject (api_host A) p
      then (Inr [controllerImageActionResult p action], s)
      else if action = ''pull'' then single Pull
      else if action = ''up'' then single Up
      else if action = ''down'' then single Down
      else if action = ''restart'' then single Restart
      else if action = ''update'' then
        (let ((skip, p1), s1) = noUpdates A p s
         in if skip then (Inr (skippedUpdateResults p1), s1)
            else
              (let (results, s2) = on_world (Update (api_host A) (api_engine A) p1) s1
               in (Inr results, clear_if_updated p1 results s2)))
      else (Inl (''invalid action: '' @ action), s))"

fun bulk_all :: "'w api \<Rightarrow> string \<Rightarrow> Project list \<Rightarrow> 'w app \<Rightarrow> OpResult list result \<times> 'w app" where
  "bulk_all A action [] s = (Inr [], s)"
| "bulk_all A action (p # ps) s =
     (case bulk_one A action p s of
        (Inl e, s1) \<Rightarrow> (Inl e, s1)
      | (Inr rs, s1) \<Rightarrow>
          (case bulk_all A action ps s1 of (Inl e, s2) \<Rightarrow> (Inl e, s2) | (Inr rest, s2) \<Rightarrow> (Inr (rs @ rest), s2)))"

text \<open>Every result becomes a job of the history; a failure to record it is ignored.\<close>

fun record_results :: "'w api \<Rightarrow> (nat \<Rightarrow> string result) \<Rightarrow> nat \<Rightarrow> OpResult list \<Rightarrow> 'w app \<Rightarrow> 'w app" where
  "record_results A fresh k [] s = s"
| "record_results A fresh k (r # rs) s =
     record_results A fresh (Suc k) rs (snd (on_jobs (RecordResult (fresh k) (api_now A s) r) s))"

definition bulk_result :: "OpResult list \<Rightarrow> BulkResult" where
  "bulk_result results = \<lparr> bk_Results = results, bk_Total = length results,
     bk_Success = length (filter op_Success results), bk_Failed = length (filter (\<lambda>r. \<not> op_Success r) results) \<rparr>"

definition BulkAction :: "'w api \<Rightarrow> (nat \<Rightarrow> string result) \<Rightarrow> string \<Rightarrow> BulkRequest option \<Rightarrow> 'w app \<Rightarrow> api_answer \<times> 'w app" where
  "BulkAction A fresh action body s =
     (case body of
        None \<Rightarrow> (Failed 400 ''invalid request body'', s)
      | Some req \<Rightarrow>
          (case discoverProjects A s of
             (Inl e, s1) \<Rightarrow> (Failed 500 e, s1)
           | (Inr projects, s1) \<Rightarrow>
               (case bulk_all A action (FilterProjects projects (br_Projects req) (br_Exclude req) False False False) s1 of
                  (Inl e, s2) \<Rightarrow> (Failed 400 e, s2)
                | (Inr results, s2) \<Rightarrow>
                    (let s3 = record_results A fresh 0 results s2; bulk = bulk_result results
                     in (if 0 < bk_Failed bulk then FailedWith 409 ''one or more project actions failed'' (PBulk bulk)
                         else Answered 200 (PBulk bulk), s3)))))"

definition RegistryLoginHandler :: "'w api \<Rightarrow> RegistryLoginRequest option \<Rightarrow> 'w app \<Rightarrow> api_answer \<times> 'w app" where
  "RegistryLoginHandler A body s =
     (case body of
        None \<Rightarrow> (Failed 400 ''invalid request body'', s)
      | Some req \<Rightarrow>
          (let (result, s1) = on_world (DockerLogin (api_vault A) req) s
           in (Answered (if op_Success result then 200 else 400) (POp result), s1)))"

definition ListRegistryLogins :: "'w api \<Rightarrow> 'w app \<Rightarrow> api_answer \<times> 'w app" where
  "ListRegistryLogins A s =
     (case ListSavedRegistryLogins (va_host (api_vault A)) (va_base64 (api_vault A)) (ap_world s) of
        Inl e \<Rightarrow> (Failed 500 e, s)
      | Inr logins \<Rightarrow> (Answered 200 (PLogins logins), s))"

definition DeleteRegistryLogin :: "'w api \<Rightarrow> string \<Rightarrow> 'w app \<Rightarrow> api_answer \<times> 'w app" where
  "DeleteRegistryLogin A raw s =
     (case path_unescape raw of
        None \<Rightarrow> (Failed 400 ''registry parameter is not valid URL encoding'', s)
      | Some registry \<Rightarrow>
          (let (result, s1) = on_world (DeleteSavedRegistryLogin (api_vault A) registry) s
           in (if op_Success result then Answered 200 (POp result)
               else FailedWith 400 ''docker logout failed'' (POp result), s1)))"

subsection \<open>Routes\<close>

text \<open>The requests of \<^verbatim>\<open>main.go\<close> that these handlers answer; \<open>fresh\<close> are the random ids of a request.\<close>

datatype project_request =
    CreateReq "CreateProjectRequest option" | ListReq url_query | GetReq string
  | DeleteReq string "DeleteProjectRequest option" | DocsReq string | DocReq string url_query | ImagesReq string
  | VolumesReq string | DeleteVolumeReq string string | NetworksReq string | DeleteNetworkReq string string
  | PsReq string | PullReq string | UpReq string | PreviewReq string | TemplateReq string "bool option"
  | DownReq string | UpdateReq string | RestartReq string | JobReq string string url_query
  | PolicyReq string | SetPolicyReq string "(string \<times> string) option" | DismissReq string
  | InactiveReq string "bool option" | BulkReq string "BulkRequest option" | CheckReq
  | PruneReq "string option" url_query | JobsReq | OneJobReq string
  | LoginReq "RegistryLoginRequest option" | LoginsReq | LogoutReq string

fun project_route :: "'w api \<Rightarrow> (nat \<Rightarrow> string result) \<Rightarrow> project_request \<Rightarrow> 'w app \<Rightarrow> api_answer \<times> 'w app" where
  "project_route A fresh (CreateReq b) = CreateHandler A b"
| "project_route A fresh (ListReq q) = ListHandler A q"
| "project_route A fresh (GetReq n) = GetHandler A n"
| "project_route A fresh (DeleteReq n b) = DeleteHandler A n b"
| "project_route A fresh (DocsReq n) = DocsHandler A n"
| "project_route A fresh (DocReq n q) = DocContentHandler A n q"
| "project_route A fresh (ImagesReq n) = ImagesHandler A n"
| "project_route A fresh (VolumesReq n) = VolumesHandler A n"
| "project_route A fresh (DeleteVolumeReq n v) = DeleteVolumeHandler A n v"
| "project_route A fresh (NetworksReq n) = NetworksHandler A n"
| "project_route A fresh (DeleteNetworkReq n v) = DeleteNetworkHandler A n v"
| "project_route A fresh (PsReq n) = StatusHandler A n"
| "project_route A fresh (PullReq n) = PullHandler A n"
| "project_route A fresh (UpReq n) = UpHandler A n"
| "project_route A fresh (PreviewReq n) = TemplateUpdateStatus A n"
| "project_route A fresh (TemplateReq n b) = ApplyTemplateUpdateHandler A n b"
| "project_route A fresh (DownReq n) = DownHandler A n"
| "project_route A fresh (UpdateReq n) = UpdateHandler A n"
| "project_route A fresh (RestartReq n) = RestartHandler A n"
| "project_route A fresh (JobReq n a q) = StartJobHandler A (fresh 0) n a q"
| "project_route A fresh (PolicyReq n) = GetUpdatePolicy A n"
| "project_route A fresh (SetPolicyReq n b) = SetUpdatePolicy A n b"
| "project_route A fresh (DismissReq n) = DismissUpdateStatus A n"
| "project_route A fresh (InactiveReq n b) = SetInactiveHandler A n b"
| "project_route A fresh (BulkReq a b) = BulkAction A fresh a b"
| "project_route A fresh CheckReq = CheckUpdates A"
| "project_route A fresh (PruneReq b q) = PruneHandler A b q"
| "project_route A fresh JobsReq = ListJobsHandler"
| "project_route A fresh (OneJobReq i) = GetJobHandler i"
| "project_route A fresh (LoginReq b) = RegistryLoginHandler A b"
| "project_route A fresh LoginsReq = ListRegistryLogins A"
| "project_route A fresh (LogoutReq r) = DeleteRegistryLogin A r"

end
