(* ===== verification/ProjectRequests.thy ===== *)
theory ProjectRequests
  imports ProjectApi
begin

text \<open>
  What the handlers of theory \<open>ProjectApi\<close> guarantee: bulk actions account for every project they touch,
  deletion ends the schedules of a project, controllers that are peers of each other do not ask in
  circles, requests never pull or recreate the controller, and where the handlers do not keep their word.
\<close>

section \<open>Bulk actions\<close>

lemma exec_project: "op_Project (fst (ExecCompose H p args w)) = pr_Name p"
  by (simp add: ExecCompose_def Let_def split_beta)

lemma preflight_project: "op_Project (fst (CheckComposeServiceIdentity H p w)) = pr_Name p"
  by (simp add: CheckComposeServiceIdentity_def Let_def split_beta split: option.split)

lemma single_project:
  "op_Project (fst (Pull H p w)) = pr_Name p" "op_Project (fst (Up H p w)) = pr_Name p"
  "op_Project (fst (Down H p w)) = pr_Name p" "op_Project (fst (Restart H p w)) = pr_Name p"
  by (simp_all add: Pull_def Up_def Down_def Restart_def exec_project preflight_project controllerImageActionResult_def
      Let_def split_beta)

lemma update_projects: "r \<in> set (fst (Update H e p w)) \<Longrightarrow> op_Project r = pr_Name p"
  by (auto simp: Update_def RunHook_def preflight_project single_project controllerImageActionResult_def Let_def split_beta
      split: if_splits)

lemma update_nonempty: "fst (Update H e p w) \<noteq> []"
  using Update_lengths[of H e p w] by auto

lemma noUpdates_same: "noUpdates A p s = ((skip, p1), s1) \<Longrightarrow> pr_Name p1 = pr_Name p"
  by (auto simp: noUpdates_def Let_def split: prod.splits)

definition bulk_actions :: "string set" where
  "bulk_actions = {''pull'', ''up'', ''down'', ''restart'', ''update''}"

text \<open>What a bulk action reports of one project.\<close>

definition accounts_for :: "'w api \<Rightarrow> string \<Rightarrow> Project \<Rightarrow> OpResult list \<Rightarrow> bool" where
  "accounts_for A action p rs \<longleftrightarrow> rs \<noteq> [] \<and> (\<forall>r \<in> set rs. op_Project r = pr_Name p) \<and>
     (action \<in> {''pull'', ''update''} \<and> IsControllerProject (api_host A) p \<longrightarrow> rs = [controllerImageActionResult p action])"

lemma bulk_one_accounts:
  assumes "action \<in> bulk_actions"
  shows "\<exists>rs s1. bulk_one A action p s = (Inr rs, s1) \<and> accounts_for A action p rs"
proof (cases "(action = ''update'' \<or> action = ''pull'') \<and> IsControllerProject (api_host A) p")
  case True
  then have "bulk_one A action p s = (Inr [controllerImageActionResult p action], s)"
    unfolding bulk_one_def Let_def by (rule if_P)
  then show ?thesis by (auto simp: accounts_for_def controllerImageActionResult_def)
next
  case False
  show ?thesis
  proof (cases "action = ''update''")
    case True
    obtain skip p1 s1 where n: "noUpdates A p s = ((skip, p1), s1)" by (metis prod.exhaust)
    obtain results w where u: "Update (api_host A) (api_engine A) p1 (ap_world s1) = (results, w)" by (metis prod.exhaust)
    have "results \<noteq> []" "\<And>r. r \<in> set results \<Longrightarrow> op_Project r = pr_Name p"
      using update_nonempty[of "api_host A" "api_engine A" p1 "ap_world s1"] update_projects[of _ "api_host A" "api_engine A" p1 "ap_world s1"]
        u noUpdates_same[OF n] by auto
    then show ?thesis
      using False True n u noUpdates_same[OF n]
      by (auto simp: bulk_one_def accounts_for_def skippedUpdateResults_def on_world_def Let_def)
  next
    case no_update: False
    then show ?thesis using False assms
      by (auto simp: bulk_one_def accounts_for_def bulk_actions_def single_project on_world_def Let_def split_beta)
  qed
qed

lemma bulk_all_accounts:
  assumes "action \<in> bulk_actions"
  shows "\<exists>groups s1. bulk_all A action ps s = (Inr (concat groups), s1) \<and> list_all2 (accounts_for A action) ps groups"
proof (induction ps arbitrary: s)
  case Nil
  show ?case by (intro exI[of _ "[]"]) simp
next
  case (Cons p ps)
  obtain rs s1 where one: "bulk_one A action p s = (Inr rs, s1)" "accounts_for A action p rs"
    using bulk_one_accounts[OF assms] by blast
  obtain groups s2 where "bulk_all A action ps s1 = (Inr (concat groups), s2)" "list_all2 (accounts_for A action) ps groups"
    using Cons.IH by blast
  then show ?case using one by (intro exI[of _ "rs # groups"]) simp
qed

text \<open>The job that keeps a result.\<close>

definition keeps_result :: "OpResult \<Rightarrow> ActionJob \<Rightarrow> bool" where
  "keeps_result r j \<longleftrightarrow> aj_Project j = op_Project r \<and> aj_Action j = op_Action r \<and> aj_Success j = op_Success r \<and>
     aj_ExitCode j = op_ExitCode r \<and> aj_Output j = op_Output r \<and>
     aj_Status j = (if op_Success r then ''completed'' else ''failed'')"

lemma record_one:
  assumes "on_jobs (RecordResult (Inr i) now r) s = (x, s1)"
  shows "\<exists>j. jm_jobs (ap_jobs s1) = AList.update i j (jm_jobs (ap_jobs s)) \<and> keeps_result r j"
  using assms
  by (auto simp: on_jobs_def RecordResult_def save_job_def register_def new_job_def keeps_result_def Let_def
      split: prod.splits sum.splits)

lemma record_results_keep:
  assumes "inj ids"
  shows "(\<forall>n < length rs. \<exists>j. map_of (jm_jobs (ap_jobs (record_results A (\<lambda>k. Inr (ids k)) k rs s))) (ids (k + n)) = Some j \<and>
        keeps_result (rs ! n) j) \<and>
    (\<forall>i. (\<forall>n \<ge> k. i \<noteq> ids n) \<longrightarrow>
        map_of (jm_jobs (ap_jobs (record_results A (\<lambda>k. Inr (ids k)) k rs s))) i = map_of (jm_jobs (ap_jobs s)) i)"
proof (induction rs arbitrary: k s)
  case (Cons r rs)
  obtain x s1 where one: "on_jobs (RecordResult (Inr (ids k)) (api_now A s) r) s = (x, s1)" by (metis prod.exhaust)
  then obtain j where j: "jm_jobs (ap_jobs s1) = AList.update (ids k) j (jm_jobs (ap_jobs s))" "keeps_result r j"
    using record_one by blast
  let ?m = "\<lambda>i. map_of (jm_jobs (ap_jobs (record_results A (\<lambda>k. Inr (ids k)) (Suc k) rs s1))) i"
  have rest: "\<forall>n < length rs. \<exists>j. ?m (ids (Suc k + n)) = Some j \<and> keeps_result (rs ! n) j"
    "\<forall>i. (\<forall>n \<ge> Suc k. i \<noteq> ids n) \<longrightarrow> ?m i = map_of (jm_jobs (ap_jobs s1)) i"
    using Cons.IH[of "Suc k" s1] by blast+
  have "\<forall>n \<ge> Suc k. ids k \<noteq> ids n" using assms by (metis Suc_n_not_le_n injD)
  then have "?m (ids k) = Some j" using rest(2) j(1) by (simp add: update_conv')
  then have "\<exists>j. ?m (ids (k + n)) = Some j \<and> keeps_result ((r # rs) ! n) j" if "n < length (r # rs)" for n
    using that rest(1) j(2) by (cases n) auto
  moreover have "?m i = map_of (jm_jobs (ap_jobs s)) i" if "\<forall>n \<ge> k. i \<noteq> ids n" for i
    using that rest(2) j(1) by (auto simp: update_conv')
  ultimately show ?case using one by simp
qed simp

text \<open>
  Property C10. A bulk action accounts for everything it touches: of the selected active projects, and of no
  other, each has at least one result, in order; the project that runs the server is refused for \<^verbatim>\<open>pull\<close>
  and \<^verbatim>\<open>update\<close>; the counts are those of the results, the answer is a conflict exactly if one of them
  failed, and each result is kept as a job, even when the store refuses it.
\<close>

theorem bulk_action_accounts:
  assumes "discoverProjects A s = (Inr projects, s1)"
    and "action \<in> bulk_actions" and "inj ids"
    and "BulkAction A (\<lambda>k. Inr (ids k)) action (Some req) s = (ans, s')"
  shows "\<exists>groups. list_all2 (accounts_for A action)
        (filter (\<lambda>p. \<not> pr_Inactive p \<and> (br_Projects req \<noteq> [] \<longrightarrow> pr_Name p \<in> set (br_Projects req)) \<and>
           (br_Exclude req \<noteq> [] \<longrightarrow> pr_Name p \<notin> set (br_Exclude req))) projects) groups \<and>
    (let results = concat groups; bad = filter (\<lambda>r. \<not> op_Success r) results;
         bulk = \<lparr> bk_Results = results, bk_Total = length results, bk_Success = length results - length bad, bk_Failed = length bad \<rparr>
     in ans = (if bad = [] then Answered 200 (PBulk bulk) else FailedWith 409 ''one or more project actions failed'' (PBulk bulk)) \<and>
        (\<forall>n < length results. \<exists>j. map_of (jm_jobs (ap_jobs s')) (ids n) = Some j \<and> keeps_result (results ! n) j))"
proof -
  let ?chosen = "FilterProjects projects (br_Projects req) (br_Exclude req) False False False"
  obtain groups s2 where g: "bulk_all A action ?chosen s1 = (Inr (concat groups), s2)" "list_all2 (accounts_for A action) ?chosen groups"
    using bulk_all_accounts[OF assms(2)] by blast
  let ?rs = "concat groups" and ?bad = "filter (\<lambda>r. \<not> op_Success r) (concat groups)"
  have good: "length (filter op_Success ?rs) = length ?rs - length ?bad"
    using sum_length_filter_compl[of op_Success ?rs] by simp
  have s': "s' = record_results A (\<lambda>k. Inr (ids k)) 0 ?rs s2"
    and ans: "ans = (if ?bad = [] then Answered 200 (PBulk (bulk_result ?rs))
        else FailedWith 409 ''one or more project actions failed'' (PBulk (bulk_result ?rs)))"
    using assms(1,4) g(1) by (auto simp: BulkAction_def bulk_result_def Let_def split: if_splits)
  have "bulk_result ?rs = \<lparr> bk_Results = ?rs, bk_Total = length ?rs, bk_Success = length ?rs - length ?bad, bk_Failed = length ?bad \<rparr>"
    by (simp add: bulk_result_def good)
  moreover have "\<forall>n < length ?rs. \<exists>j. map_of (jm_jobs (ap_jobs s')) (ids n) = Some j \<and> keeps_result (?rs ! n) j"
    using record_results_keep[OF assms(3), of ?rs A 0 s2] unfolding s' by simp
  ultimately show ?thesis using g(2) ans by (intro exI[of _ groups]) (simp add: FilterProjects_def Let_def)
qed

section \<open>Peers of each other\<close>

abbreviation with_client :: "'w http_client \<Rightarrow> 'w api \<Rightarrow> 'w api" where
  "with_client h A \<equiv> A \<lparr> api_site := (api_site A) \<lparr> si_http := h \<rparr> \<rparr>"

lemma apply_policies_client: "apply_policies (with_client h A) ps s = apply_policies A ps s"
  by (induction ps arbitrary: s) (simp_all add: applyPolicy_def resolve_update_policy_def)

lemma discover_client: "discoverProjects (with_client h A) s = discoverProjects A s"
  by (simp add: discoverProjects_def apply_policies_client cong: option.case_cong sum.case_cong)

lemma local_row_client: "local_row (with_client h A) = local_row A"
  by (intro ext) (simp add: local_row_def)

text \<open>
  Property C14. Controllers that are peers of each other do not ask in circles. Whatever query the caller of
  a list has sent, the query that goes on to a peer, parsed again by the peer, keeps all its other keys
  and asks for \<^verbatim>\<open>source=local\<close>; and the answer of a controller to such a query does not depend on its HTTP
  client, so it sends no request of its own.
\<close>

theorem peers_do_not_ask_in_circles:
  "\<exists>sent. peer_url agent (query_parse raw) = peerAPIBase (ag_BaseURL agent) @ ''/projects?'' @ sent \<and>
     (\<forall>k. query_all k (query_parse sent) = (if k = ''source'' then [''local''] else query_all k (query_parse raw))) \<and>
     (\<forall>h. ListHandler (with_client h A) (query_parse sent) s = ListHandler A (query_parse sent) s)"
proof -
  let ?q = "query_set ''source'' ''local'' (query_parse raw)"
  let ?sent = "query_encode ?q"
  have "distinct (map fst ?q)" by (intro query_set_distinct parsed_keys_distinct)
  then have keys: "query_all k (query_parse ?sent) = (if k = ''source'' then [''local''] else query_all k (query_parse raw))" for k
    by (simp add: query_round_trip query_set_all)
  then have "query_get ''source'' (query_parse ?sent) = ''local''" by (simp add: query_get_def)
  then have "remote_projects B (query_parse ?sent) s1 = ([], s1)" for B :: "'a api" and s1
    by (simp add: remote_projects_def)
  then have "ListHandler (with_client h A) (query_parse ?sent) s = ListHandler A (query_parse ?sent) s" for h
    by (simp only: ListHandler_def discover_client local_row_client)
  then show ?thesis using keys by (intro exI[of _ ?sent]) (simp add: peer_url_def)
qed

section \<open>Deleting a project\<close>

lemma DeleteProject_confirmed:
  assumes "DeleteProject H K V J e name req w = ((result, None), w')"
  shows "dp_ConfirmName req = name \<and> (\<exists>r. result = Some r \<and> op_Success r)"
  using assms
  by (auto simp: DeleteProject_def GetProject_def delete_result_def Let_def find_Some_iff
      split: prod.splits sum.splits if_splits option.splits)

lemma disabled_schedules:
  assumes "DisableLocalSchedulesForProject now name reason d = (r, d')"
  shows "db_schedules d' = (case r of Inl _ \<Rightarrow> db_schedules d
    | Inr _ \<Rightarrow> update_where (\<lambda>u. us_Project u = name \<and> us_AgentID u = None \<and> us_Enabled u) (disabled_row now reason) (db_schedules d))"
  using assms
  by (auto simp: DisableLocalSchedulesForProject_def sql_def drop_schedules_def Let_def split: list.splits option.splits if_splits)

definition local_schedule_of :: "string \<Rightarrow> UpdateSchedule \<Rightarrow> bool" where
  "local_schedule_of name u \<longleftrightarrow> us_Project u = name \<and> us_AgentID u = None"

lemma disabled_row_sel [simp]:
  "us_Project (disabled_row now reason u) = us_Project u" "us_AgentID (disabled_row now reason u) = us_AgentID u"
  "us_Enabled (disabled_row now reason u) = False"
  by (simp_all add: disabled_row_def)

lemma disabling_spares_others:
  "filter (\<lambda>u. \<not> local_schedule_of name u)
     (update_where (\<lambda>u. us_Project u = name \<and> us_AgentID u = None \<and> us_Enabled u) (disabled_row now reason) rows) =
   filter (\<lambda>u. \<not> local_schedule_of name u) rows"
  by (induction rows) (auto simp: local_schedule_of_def)

lemma disabling_ends:
  "u \<in> set (update_where (\<lambda>u. us_Project u = name \<and> us_AgentID u = None \<and> us_Enabled u) (disabled_row now reason) rows) \<Longrightarrow>
   local_schedule_of name u \<Longrightarrow> \<not> us_Enabled u"
proof (induction rows)
  case (Cons a rows)
  show ?case
  proof (cases "us_Project a = name \<and> us_AgentID a = None \<and> us_Enabled a")
    case True
    then show ?thesis using Cons by auto
  next
    case False
    then show ?thesis using Cons by (auto simp: local_schedule_of_def)
  qed
qed simp


section \<open>Images and policies\<close>


text \<open>
  The gate compares the action byte by byte, while the job manager folds case and trims: a job with the
  action \<^verbatim>\<open>UPDATE\<close> starts an update, whatever the policy says and though the project runs the server.
\<close>

lemma uppercase_job_passes_the_gate:
  assumes "getProject A name s = (Inr p, s1)" and "fresh 0 = Inr i"
  shows "\<exists>job s2. project_route A fresh (JobReq name ''UPDATE'' []) s = (Answered 202 (PJob job), s2) \<and> aj_Action job = ''update''
    \<and> aj_Status job = ''running'' \<and> map_of (jm_jobs (ap_jobs s2)) i = Some job"
proof -
  have "to_lower (trim_space ''UPDATE'') = ''update''" "ValidJobAction ''update''" "getTimeout [] = 0" by code_simp+
  then show ?thesis using assms
    by (auto simp: StartJobHandler_def with_project_def on_jobs_def StartJob_def register_def new_job_def update_conv' Let_def)
qed

section \<open>The list of projects\<close>

lemma policies_keep:
  "ap_jobs (snd (apply_policies A ps s)) = ap_jobs s \<and> ap_peers (snd (apply_policies A ps s)) = ap_peers s"
proof (induction ps arbitrary: s)
  case (Cons p ps)
  obtain p' s1 where a: "applyPolicy A p s = (p', s1)" by (rule prod.exhaust)
  then have "ap_jobs s1 = ap_jobs s \<and> ap_peers s1 = ap_peers s"
    by (auto simp: applyPolicy_def resolve_update_policy_def on_world_def on_projects_def Let_def split: prod.splits if_splits)
  then show ?case using a Cons.IH[of s1] by (auto split: prod.split)
qed simp

lemma discover_keeps:
  assumes "discoverProjects A s = (r, s1)"
  shows "ap_jobs s1 = ap_jobs s \<and> ap_peers s1 = ap_peers s"
proof (cases "ap_list s")
  case None
  obtain x w where d: "DiscoverProjects (api_host A) (api_disk A) (api_views A) (api_decoders A) (api_engine A) (ap_world s) = (x, w)"
    by (rule prod.exhaust)
  show ?thesis
  proof (cases x)
    case (Inr found)
    obtain ps s2 where "apply_policies A found (s \<lparr> ap_world := w \<rparr>) = (ps, s2)" by (rule prod.exhaust)
    then show ?thesis using assms None d Inr policies_keep[of A found "s \<lparr> ap_world := w \<rparr>"]
      by (auto simp: discoverProjects_def on_world_def split: if_splits)
  qed (use assms None d in \<open>auto simp: discoverProjects_def on_world_def\<close>)
qed (use assms in \<open>auto simp: discoverProjects_def\<close>)

lemma on_store_peers [simp]: "ap_peers (snd (on_store g s)) = ap_peers s"
  by (simp add: on_store_def split_beta Let_def)

lemma agent_rows_tagged:
  assumes "tagged_cache (ap_peers s)" and "agent_rows A q agent s = (rows, s1)"
  shows "(\<forall>p \<in> set rows. pr_SourceHost p = ag_Name agent) \<and> tagged_cache (ap_peers s1)"
proof (cases "ag_Mode agent = ''peer''")
  case True
  obtain r c w where f: "fetchPeerProjects (si_http (api_site A)) (api_decode A) (ho_now (api_host A)) agent q (ap_peers s) (ap_world s) = ((r, c), w)"
    by (metis prod.exhaust)
  note tagged = fetch_tagged[OF assms(1) f]
  show ?thesis using assms(2) True f tagged by (auto simp: agent_rows_def Let_def split: sum.splits)
next
  case False
  then show ?thesis using assms by (auto simp: agent_rows_def on_store_def split: prod.splits sum.splits)
qed

lemma agents_rows_tagged:
  assumes "tagged_cache (ap_peers s)" and "agents_rows A q source agents s = (rows, s1)" and "p \<in> set rows"
  shows "(\<exists>a \<in> set agents. ag_Enabled a \<and> pr_SourceHost p = ag_Name a) \<and> (source \<in> {[], ''all''} \<or> pr_SourceHost p = source)"
  using assms
proof (induction agents arbitrary: s rows)
  case (Cons agent agents)
  obtain r1 s2 where one: "agent_rows A q agent s = (r1, s2)" by (rule prod.exhaust)
  obtain r2 s3 where rest: "agents_rows A q source agents s2 = (r2, s3)" by (rule prod.exhaust)
  show ?case
  proof (cases "\<not> ag_Enabled agent \<or> (source \<noteq> [] \<and> source \<noteq> ''all'' \<and> source \<noteq> ag_Name agent)")
    case True
    then show ?thesis using Cons.IH[of s rows] Cons.prems by (auto split: if_splits)
  next
    case False
    then have eq: "rows = r1 @ r2" "s3 = s1" using Cons.prems(2) one rest by auto
    note tagged = agent_rows_tagged[OF Cons.prems(1) one]
    show ?thesis
    proof (cases "p \<in> set r1")
      case True
      then show ?thesis using tagged False by auto
    next
      case no: False
      then have "p \<in> set r2" using Cons.prems(3) eq by simp
      then show ?thesis using Cons.IH[of s2 r2] tagged rest eq by auto
    qed
  qed
qed simp

text \<open>
  Property C38. Every row of the list has its source. A listed project passes the filters of the query; it
  is a project of this host, tagged \<^verbatim>\<open>local\<close>, or it carries the name of an enabled agent of the store; and
  a query for one source gets rows of that source only.
\<close>

theorem listed_projects_have_their_source:
  assumes "tagged_cache (ap_peers s)" and "ListHandler A q s = (Answered 200 (PProjects rows), s')" and "p \<in> set rows"
  shows "(pr_SourceHost p = ''local'' \<and> query_get ''source'' q \<in> {[], ''all'', ''local''} \<or>
      (\<exists>agents. fst (ListAgents (jm_db (ap_jobs s))) = Inr agents \<and> (\<exists>a \<in> set agents. ag_Enabled a \<and> pr_SourceHost p = ag_Name a) \<and>
         query_get ''source'' q \<in> {[], ''all'', pr_SourceHost p})) \<and>
    p \<in> set (list_filter q [p])"
proof -
  let ?source = "query_get ''source'' q"
  obtain mine s1 where m: "(if ?source \<in> {[], ''all'', ''local''} then discoverProjects A s else (Inr [], s)) = (mine, s1)"
    by (rule prod.exhaust)
  have keep: "ap_jobs s1 = ap_jobs s \<and> ap_peers s1 = ap_peers s"
    using m discover_keeps[of A s mine s1] by (auto split: if_splits)
  obtain remote s2 where r: "remote_projects A q s1 = (remote, s2)" by (rule prod.exhaust)
  obtain found where found: "mine = Inr found"
    using assms(2) m by (cases mine) (auto simp: ListHandler_def Let_def)
  have rows: "rows = list_filter q (map (local_row A s1) found @ remote)"
    using assms(2) m r unfolding found by (simp add: ListHandler_def Let_def)
  then have filtered: "p \<in> set (list_filter q [p])" and cases: "p \<in> local_row A s1 ` set found \<or> p \<in> set remote"
    using assms(3) by (auto simp: list_filter_def FilterProjects_def)
  show ?thesis
  proof (cases "p \<in> set remote")
    case True
    then have src: "?source \<noteq> ''local''" using r by (auto simp: remote_projects_def)
    obtain x d1 where l: "ListAgents (jm_db (ap_jobs s)) = (x, d1)" by (rule prod.exhaust)
    obtain s3 where s3: "on_store ListAgents s1 = (x, s3)" "ap_peers s3 = ap_peers s"
      using keep l by (simp add: on_store_def)
    obtain agents where x: "x = Inr agents" using True r s3 src by (cases x) (auto simp: remote_projects_def Let_def)
    have "agents_rows A q ?source agents s3 = (remote, s2)" using r s3 src x by (simp add: remote_projects_def Let_def)
    then show ?thesis using agents_rows_tagged[of s3 A q ?source agents remote s2 p] True s3(2) assms(1) l x filtered by auto
  next
    case False
    then obtain p0 where "p0 \<in> set found" "p = local_row A s1 p0" using cases by blast
    then have "?source \<in> {[], ''all'', ''local''}" "pr_SourceHost p = ''local''"
      using m found by (auto simp: local_row_def Let_def split: if_splits)
    then show ?thesis using filtered by blast
  qed
qed

text \<open>
  The list of agents that the cache returns has no keys, so a peer is asked without one while the cached
  list lives, and refuses.
\<close>

lemma cached_peers_are_asked_without_key:
  assumes "db_redis d" "ListAgents d = (Inr agents, d1)" "db_cache_agents d = None" "fst (ListAgents d1) = Inr agents2" "db_faults d = []"
  shows "\<forall>a \<in> set agents2. peer_headers a = []"
  using assms by (auto simp: ListAgents_def sql_def peer_headers_def agent_json_def Let_def)

text \<open>
  Only some handlers drop the cached list. Stopping a project does not: until the entry expires, the list
  shows the project in the state it had before.
\<close>

lemma stopped_project_stays_listed:
  assumes "ap_list s = Some cached"
  shows "ap_list (snd (project_route A fresh (DownReq name) s)) = Some cached"
proof -
  have policy: "ap_list (snd (applyPolicy A p s0)) = ap_list s0" for p s0
    by (auto simp: applyPolicy_def resolve_update_policy_def on_world_def on_projects_def Let_def split_beta split: prod.splits)
  obtain x w where g: "GetProject (api_host A) (api_disk A) (api_views A) (api_decoders A) (api_engine A) name (ap_world s) = (x, w)"
    by (rule prod.exhaust)
  show ?thesis
  proof (cases x)
    case (Inr project)
    obtain p s1 where p: "applyPolicy A project (s \<lparr> ap_world := w \<rparr>) = (p, s1)" by (rule prod.exhaust)
    then have "ap_list s1 = Some cached" using policy[of project "s \<lparr> ap_world := w \<rparr>"] assms by simp
    then show ?thesis using g Inr p by (simp add: DownHandler_def with_project_def getProject_def on_world_def Let_def split_beta)
  qed (use g assms in \<open>simp add: DownHandler_def with_project_def getProject_def on_world_def\<close>)
qed

section \<open>A server with one project\<close>

definition unit_vault :: "unit vault" where
  "unit_vault = \<lparr> va_host = demo_host, va_stdin = (\<lambda>_ _ _ w. (answer [], w)), va_home = Inr ''/root'',
     va_fs = (\<lambda>_. config_fs []), va_put = (\<lambda>_ w. w), va_decode = Inl, va_encode = (\<lambda>_. Inl ''no''),
     va_base64 = (\<lambda>_. None) \<rparr>"

definition demo_api :: "unit api" where
  "demo_api = \<lparr> api_site = demo_site, api_codec = demo_codec, api_catalog = demo_catalog,
     api_compose = (\<lambda>_ _ _ _. ([], [], None)), api_ids = (1000, 1000), api_fs = (\<lambda>_. demo_fs []), api_put_fs = (\<lambda>_ w. w),
     api_tree = (\<lambda>_ _. (False, [], None)), api_stamp = (\<lambda>_. []), api_checker = True, api_decode = (\<lambda>_. Inr []),
     api_snapshot = (\<lambda>_. Inr []), api_vault = unit_vault,
     api_syncer = None \<rparr>"

definition frozen :: project_settings where
  "frozen = \<lparr> st_update_policy = ''no_updates'', st_source_type = [], st_source_url = None, st_no_updates_reason = None,
     st_notes = None, st_auto_detected = False \<rparr>"

definition demo_app :: "unit app" where
  "demo_app = \<lparr> ap_world = (), ap_jobs = \<lparr> jm_jobs = [], jm_db = idle_db \<lparr> db_schedules := [hourly None ''update''] \<rparr> \<rparr>,
     ap_projects = empty_project_db \<lparr> pj_settings := [(''web'', frozen)] \<rparr>, ap_list = Some [web_project], ap_images = (\<lambda>_. None),
     ap_manifests = [], ap_locals = [], ap_peers = (\<lambda>_. None), ap_lastRunAt = 0, ap_lastSummary = no_status, ap_syncing = [] \<rparr>"

definition demo_ids :: "nat \<Rightarrow> string" where
  "demo_ids k = replicate k (CHR ''j'')"

definition demo_bulk :: "string \<Rightarrow> api_answer \<times> unit app" where
  "demo_bulk action = BulkAction demo_api (\<lambda>k. Inr (demo_ids k)) action (Some \<lparr> br_Projects = [], br_Exclude = [], br_Timeout = 0 \<rparr>) demo_app"

theorem bulk_action_accounts_witness:
  "\<exists>rs j. accounts_for demo_api ''restart'' web_project rs \<and>
     map_of (jm_jobs (ap_jobs (snd (demo_bulk ''restart'')))) [] = Some j \<and> keeps_result (hd rs) j"
proof -
  have d: "discoverProjects demo_api demo_app = (Inr [web_project], demo_app)" by (simp add: discoverProjects_def demo_app_def)
  have a: "''restart'' \<in> bulk_actions" "inj demo_ids" by (simp_all add: bulk_actions_def inj_def demo_ids_def)
  let ?req = "\<lparr> br_Projects = [], br_Exclude = [], br_Timeout = 0 \<rparr>"
  obtain ans s' where r: "BulkAction demo_api (\<lambda>k. Inr (demo_ids k)) ''restart'' (Some ?req) demo_app = (ans, s')" by (rule prod.exhaust)
  have sel: "filter (\<lambda>p. \<not> pr_Inactive p \<and> (br_Projects ?req \<noteq> [] \<longrightarrow> pr_Name p \<in> set (br_Projects ?req)) \<and>
      (br_Exclude ?req \<noteq> [] \<longrightarrow> pr_Name p \<notin> set (br_Exclude ?req))) [web_project] = [web_project]"
    by (simp add: web_project_def blank_project_def)
  obtain groups where g: "list_all2 (accounts_for demo_api ''restart'') [web_project] groups"
    "\<forall>n < length (concat groups). \<exists>j. map_of (jm_jobs (ap_jobs s')) (demo_ids n) = Some j \<and> keeps_result (concat groups ! n) j"
    using bulk_action_accounts[OF d a r] unfolding sel Let_def by blast
  then obtain rs where rs: "groups = [rs]" "accounts_for demo_api ''restart'' web_project rs" by (auto simp: list_all2_Cons1)
  then have "rs \<noteq> []" by (simp add: accounts_for_def)
  then have "\<exists>j. map_of (jm_jobs (ap_jobs s')) (demo_ids 0) = Some j \<and> keeps_result (rs ! 0) j" using g(2) rs(1) by simp
  then show ?thesis using r rs(2) \<open>rs \<noteq> []\<close> by (auto simp: demo_bulk_def demo_ids_def hd_conv_nth)
qed

text \<open>The action of a bulk request is only looked at when a project is selected.\<close>

lemma empty_bulk_action_is_accepted:
  "fst (BulkAction demo_api fresh ''explode'' (Some \<lparr> br_Projects = [''nothing''], br_Exclude = [], br_Timeout = 0 \<rparr>) demo_app) =
     Answered 200 (PBulk \<lparr> bk_Results = [], bk_Total = 0, bk_Success = 0, bk_Failed = 0 \<rparr>)
   \<and> fst (demo_bulk ''explode'') = Failed 400 ''invalid action: explode''"
  by (simp add: BulkAction_def demo_bulk_def discoverProjects_def demo_app_def FilterProjects_def web_project_def blank_project_def
      bulk_one_def bulk_result_def Let_def)



theorem listed_projects_have_their_source_witness:
  "pr_SourceHost (local_row demo_api demo_app web_project) = ''local'' \<or>
     (\<exists>agents. fst (ListAgents (jm_db (ap_jobs demo_app))) = Inr agents \<and> agents \<noteq> [])"
proof -
  let ?q = "[(''source'', [''local''])]"
  have d: "discoverProjects demo_api demo_app = (Inr [web_project], demo_app)" by (simp add: discoverProjects_def demo_app_def)
  have l: "ListHandler demo_api ?q demo_app = (Answered 200 (PProjects (list_filter ?q [local_row demo_api demo_app web_project])), demo_app)"
    by (simp add: ListHandler_def query_get_def query_all_def d remote_projects_def)
  have "tagged_cache (ap_peers demo_app)" by (simp add: tagged_cache_def demo_app_def)
  moreover have "local_row demo_api demo_app web_project \<in> set (list_filter ?q [local_row demo_api demo_app web_project])"
    by (simp add: list_filter_def FilterProjects_def query_get_def query_all_def local_row_def web_project_def blank_project_def Let_def)
  ultimately show ?thesis using listed_projects_have_their_source[OF _ l] by fastforce
qed

end
