(* ===== verification/AgentRuntime.thy ===== *)
theory AgentRuntime
  imports ProjectApi AgentApi Auth
begin

text \<open>
  The HTTP interface of an inbound agent, \<^verbatim>\<open>server/internal/handlers/agent_runtime.go\<close> with its routes in
  \<^verbatim>\<open>main.go\<close>, and the controller's proxy to it, \<^verbatim>\<open>server/internal/handlers/agent_proxy.go\<close>. An agent has
  no store: its jobs are the ones in memory, and \<open>jm_db\<close> of its \<open>JobManager\<close> is never used. The goroutine
  of a started job is a later step, as in \<open>Jobs\<close>.
\<close>

section \<open>Definitions\<close>

subsection \<open>The agent's handlers\<close>

text \<open>\<open>ru_valid\<close> is \<^verbatim>\<open>json.Unmarshal\<close> of a text into a \<^verbatim>\<open>json.RawMessage\<close>.\<close>

record 'w runtime =
  ru_site :: "'w site"
  ru_vault :: "'w vault"
  ru_token :: string
  ru_name :: string
  ru_valid :: "string \<Rightarrow> bool"

record 'w agent_state =
  as_world :: 'w
  as_jobs :: JobManager
  as_manifests :: "((string \<times> bool) \<times> (bool \<times> string \<times> instant)) list"
  as_locals :: "(string \<times> (bool \<times> instant)) list"

datatype agent_answer = AOk int payload | AHealth string | ALogs "(string \<times> string \<times> string) list"
  | AStats string "string list" | ARefused int string

definition on_agent :: "('w \<Rightarrow> 'a \<times> 'w) \<Rightarrow> 'w agent_state \<Rightarrow> 'a \<times> 'w agent_state" where
  "on_agent f s = (let (a, w) = f (as_world s) in (a, s \<lparr> as_world := w \<rparr>))"

text \<open>\<open>Auth\<close>; \<^verbatim>\<open>subtle.ConstantTimeCompare\<close> compares the bytes.\<close>

definition agent_auth ::
  "'w runtime \<Rightarrow> string \<Rightarrow> string \<Rightarrow> ('w agent_state \<Rightarrow> agent_answer \<times> 'w agent_state) \<Rightarrow> 'w agent_state \<Rightarrow> agent_answer \<times> 'w agent_state" where
  "agent_auth R authorization agent_token next s =
     (let token = bearer_token authorization agent_token in
      if token = [] \<or> token \<noteq> ru_token R then (ARefused 401 ''unauthorized'', s) else next s)"

definition projectFromRequest :: "'w runtime \<Rightarrow> string \<Rightarrow> 'w agent_state \<Rightarrow> (agent_answer + Project) \<times> 'w agent_state" where
  "projectFromRequest R name s =
     (let S = ru_site R in
      case on_agent (GetProject (si_host S) (si_disk S) (si_views S) (si_decoders S) (si_engine S) name) s of
        (Inl (NotFound e), s1) \<Rightarrow> (Inl (ARefused 404 e), s1)
      | (Inl (CoreError e), s1) \<Rightarrow> (Inl (ARefused 500 e), s1)
      | (Inr project, s1) \<Rightarrow> (Inr project, s1))"

definition with_agent_project ::
  "'w runtime \<Rightarrow> string \<Rightarrow> (Project \<Rightarrow> 'w agent_state \<Rightarrow> agent_answer \<times> 'w agent_state) \<Rightarrow> 'w agent_state \<Rightarrow> agent_answer \<times> 'w agent_state" where
  "with_agent_project R name f s = (case projectFromRequest R name s of (Inl a, s1) \<Rightarrow> (a, s1) | (Inr p, s1) \<Rightarrow> f p s1)"

definition AgentListProjects :: "'w runtime \<Rightarrow> 'w agent_state \<Rightarrow> agent_answer \<times> 'w agent_state" where
  "AgentListProjects R s =
     (let S = ru_site R in
      case on_agent (DiscoverProjects (si_host S) (si_disk S) (si_views S) (si_decoders S) (si_engine S)) s of
        (Inl e, s1) \<Rightarrow> (ARefused 500 (core_text e), s1)
      | (Inr projects, s1) \<Rightarrow> (AOk 200 (PProjects projects), s1))"

definition AgentGetProject :: "'w runtime \<Rightarrow> string \<Rightarrow> 'w agent_state \<Rightarrow> agent_answer \<times> 'w agent_state" where
  "AgentGetProject R name = with_agent_project R name (\<lambda>p s. (AOk 200 (PProject p), s))"

definition AgentImages :: "'w runtime \<Rightarrow> string \<Rightarrow> 'w agent_state \<Rightarrow> agent_answer \<times> 'w agent_state" where
  "AgentImages R name = with_agent_project R name (\<lambda>p s.
     let (images, pb) = CheckImageSources (si_host (ru_site R)) (si_decoders (ru_site R)) p
           \<lparr> pb_world = as_world s, pb_manifests = as_manifests s, pb_locals = as_locals s \<rparr>
     in (AOk 200 (PImages (pr_Name p) images),
         s \<lparr> as_world := pb_world pb, as_manifests := pb_manifests pb, as_locals := pb_locals pb \<rparr>))"

definition AgentStatus :: "'w runtime \<Rightarrow> string \<Rightarrow> 'w agent_state \<Rightarrow> agent_answer \<times> 'w agent_state" where
  "AgentStatus R name = with_agent_project R name (\<lambda>p s.
     let (r, s1) = on_agent (Status (si_host (ru_site R)) p) s in (AOk 200 (POp r), s1))"

definition AgentVolumes :: "'w runtime \<Rightarrow> string \<Rightarrow> 'w agent_state \<Rightarrow> agent_answer \<times> 'w agent_state" where
  "AgentVolumes R name = with_agent_project R name (\<lambda>p s.
     case on_agent (ListProjectVolumes (si_host (ru_site R)) p) s of
       (Inl e, s1) \<Rightarrow> (ARefused 500 e, s1)
     | (Inr vols, s1) \<Rightarrow> (AOk 200 (PVolumes (pr_Name p) vols), s1))"

definition AgentDeleteVolume :: "'w runtime \<Rightarrow> string \<Rightarrow> string \<Rightarrow> 'w agent_state \<Rightarrow> agent_answer \<times> 'w agent_state" where
  "AgentDeleteVolume R name vol = with_agent_project R name (\<lambda>p s.
     if \<not> dockerObjectNameRe vol then (ARefused 400 ''invalid volume name'', s)
     else
       (let (err, s1) = on_agent (RemoveProjectVolume (si_host (ru_site R)) p vol) s
        in (case err of Some e \<Rightarrow> ARefused 409 e | None \<Rightarrow> AOk 200 (PDeleted vol), s1)))"

definition AgentNetworks :: "'w runtime \<Rightarrow> string \<Rightarrow> 'w agent_state \<Rightarrow> agent_answer \<times> 'w agent_state" where
  "AgentNetworks R name = with_agent_project R name (\<lambda>p s.
     case on_agent (ListProjectNetworks (si_host (ru_site R)) p) s of
       (Inl e, s1) \<Rightarrow> (ARefused 500 e, s1)
     | (Inr nets, s1) \<Rightarrow> (AOk 200 (PNetworks (pr_Name p) nets), s1))"

definition AgentDeleteNetwork :: "'w runtime \<Rightarrow> string \<Rightarrow> string \<Rightarrow> 'w agent_state \<Rightarrow> agent_answer \<times> 'w agent_state" where
  "AgentDeleteNetwork R name net = with_agent_project R name (\<lambda>p s.
     if \<not> dockerObjectNameRe net then (ARefused 400 ''invalid network name'', s)
     else
       (let (err, s1) = on_agent (RemoveProjectNetwork (si_host (ru_site R)) p net) s
        in (case err of Some e \<Rightarrow> ARefused 409 e | None \<Rightarrow> AOk 200 (PDeleted net), s1)))"

definition agent_now :: "'w runtime \<Rightarrow> 'w agent_state \<Rightarrow> instant" where
  "agent_now R s = ho_now (si_host (ru_site R)) (as_world s)"

definition on_agent_jobs :: "(JobManager \<Rightarrow> ActionJob result \<times> JobManager) \<Rightarrow> 'w agent_state \<Rightarrow> agent_answer \<times> 'w agent_state" where
  "on_agent_jobs f s =
     (let (r, m) = f (as_jobs s)
      in (case r of Inl e \<Rightarrow> ARefused 400 e | Inr job \<Rightarrow> AOk 202 (PJob job), s \<lparr> as_jobs := m \<rparr>))"

text \<open>\<open>timeoutFromRequest\<close> reads the query as \<open>getTimeout\<close> does.\<close>

definition timeoutFromRequest :: "url_query \<Rightarrow> int" where
  "timeoutFromRequest q =
     (let t = query_get ''timeout'' q in if t \<noteq> [] \<and> snd (atoi t) then fst (atoi t) else 0)"

definition AgentStartJob :: "'w runtime \<Rightarrow> string result \<Rightarrow> string \<Rightarrow> string \<Rightarrow> url_query \<Rightarrow> 'w agent_state \<Rightarrow> agent_answer \<times> 'w agent_state" where
  "AgentStartJob R fresh name action q = with_agent_project R name (\<lambda>p s.
     on_agent_jobs (StartJob fresh (agent_now R s) p action (timeoutFromRequest q)) s)"

definition AgentStartSystemJob :: "'w runtime \<Rightarrow> string result \<Rightarrow> string \<Rightarrow> 'w agent_state \<Rightarrow> agent_answer \<times> 'w agent_state" where
  "AgentStartSystemJob R fresh action s =
     (if action \<noteq> ''prune-system-all'' then (ARefused 400 ''invalid system action'', s)
      else on_agent_jobs (StartSystemPrune fresh (agent_now R s)) s)"

definition AgentListJobs :: "'w agent_state \<Rightarrow> agent_answer \<times> 'w agent_state" where
  "AgentListJobs s = (AOk 200 (PJobs (map snd (jm_jobs (as_jobs s)))), s)"

definition AgentGetJob :: "string \<Rightarrow> 'w agent_state \<Rightarrow> agent_answer \<times> 'w agent_state" where
  "AgentGetJob i s =
     (case map_of (jm_jobs (as_jobs s)) i of
        None \<Rightarrow> (ARefused 404 (''job not found: '' @ i), s)
      | Some job \<Rightarrow> (AOk 200 (PJob job), s))"

definition agentProjectHasContainer :: "Project \<Rightarrow> string \<Rightarrow> bool" where
  "agentProjectHasContainer project name \<longleftrightarrow> (\<exists>c \<in> set (pr_Containers project). ct_Name c = name \<or> ct_ID c = name)"

text \<open>\<^verbatim>\<open>core.DockerExec\<close> always returns a result; its error is dropped.\<close>

definition DockerExec :: "'w host \<Rightarrow> string list \<Rightarrow> 'w \<Rightarrow> ExecResult \<times> 'w" where
  "DockerExec H args w = (let ((r, _), w1) = DockerExecWithTimeout H (2 * minute) args w in (r, w1))"

definition AgentLogs :: "'w runtime \<Rightarrow> string \<Rightarrow> url_query \<Rightarrow> 'w agent_state \<Rightarrow> agent_answer \<times> 'w agent_state" where
  "AgentLogs R name q = with_agent_project R name (\<lambda>p s.
     let tail = (let t = query_get ''tail'' q in if t = [] then ''100'' else t);
         container = query_get ''container'' q
     in if container \<noteq> [] then
          (if \<not> agentProjectHasContainer p container
           then (ARefused 400 (''container does not belong to project: '' @ container), s)
           else
             (let (r, s1) = on_agent (DockerExec (si_host (ru_site R)) [''logs'', ''--tail'', tail, ''--timestamps'', container]) s
              in (ALogs [(''container'', container, ex_Stdout r @ ex_Stderr r)], s1)))
        else
          (let (r, s1) = on_agent (ExecCompose (si_host (ru_site R)) p [''logs'', ''--tail'', tail, ''--timestamps'']) s
           in (ALogs [(''project'', pr_Name p, op_Output r)], s1)))"

definition stats_format :: string where
  "stats_format = (let quote = (\<lambda>s. [CHR 0x22] @ s @ [CHR 0x22]); field = (\<lambda>(k, v). quote k @ '':'' @ quote (''{{.'' @ v @ ''}}''))
     in ''{'' @ join '','' (map field [(''container'', ''Name''), (''cpu'', ''CPUPerc''), (''memory'', ''MemUsage''),
          (''mem_percent'', ''MemPerc''), (''net_io'', ''NetIO''), (''block_io'', ''BlockIO''), (''pids'', ''PIDs'')]) @ ''}'')"

definition AgentStatsHandler :: "'w runtime \<Rightarrow> string \<Rightarrow> 'w agent_state \<Rightarrow> agent_answer \<times> 'w agent_state" where
  "AgentStatsHandler R name = with_agent_project R name (\<lambda>p s.
     if pr_Containers p = [] then (AStats (pr_Name p) [], s)
     else
       (let (r, s1) = on_agent (DockerExec (si_host (ru_site R))
              ([''stats'', ''--no-stream'', ''--format'', stats_format] @ map ct_Name (pr_Containers p))) s
        in (AStats (pr_Name p) (filter (\<lambda>l. l \<noteq> [] \<and> ru_valid R l) (split_on newline (trim_space (ex_Stdout r)))), s1)))"

definition login_answer :: "OpResult \<Rightarrow> agent_answer" where
  "login_answer result = AOk (if op_Success result then 200 else 400) (POp result)"

definition AgentRegistryLogin :: "'w runtime \<Rightarrow> RegistryLoginRequest option \<Rightarrow> 'w agent_state \<Rightarrow> agent_answer \<times> 'w agent_state" where
  "AgentRegistryLogin R body s =
     (case body of
        None \<Rightarrow> (ARefused 400 ''invalid request body'', s)
      | Some req \<Rightarrow> map_prod login_answer id (on_agent (DockerLogin (ru_vault R) req) s))"

definition AgentRegistryLogins :: "'w runtime \<Rightarrow> 'w agent_state \<Rightarrow> agent_answer \<times> 'w agent_state" where
  "AgentRegistryLogins R s =
     (case ListSavedRegistryLogins (va_host (ru_vault R)) (va_base64 (ru_vault R)) (as_world s) of
        Inl e \<Rightarrow> (ARefused 500 e, s)
      | Inr logins \<Rightarrow> (AOk 200 (PLogins logins), s))"

definition AgentDeleteLogin :: "'w runtime \<Rightarrow> string \<Rightarrow> 'w agent_state \<Rightarrow> agent_answer \<times> 'w agent_state" where
  "AgentDeleteLogin R registry s = map_prod login_answer id (on_agent (DeleteSavedRegistryLogin (ru_vault R) registry) s)"

definition AgentPrune :: "'w runtime \<Rightarrow> string option \<Rightarrow> 'w agent_state \<Rightarrow> agent_answer \<times> 'w agent_state" where
  "AgentPrune R body s =
     (let (r, s1) = on_agent (Prune (si_host (ru_site R)) (case body of Some m \<Rightarrow> m | None \<Rightarrow> [])) s in (AOk 200 (POp r), s1))"

datatype agent_request =
    AgHealth | AgProjects | AgProject string | AgImages string | AgVolumes string | AgDeleteVolume string string
  | AgNetworks string | AgDeleteNetwork string string | AgStatus string | AgJob string string url_query
  | AgSystemJob string | AgJobs | AgOneJob string | AgLogs string url_query | AgStats string
  | AgLogin "RegistryLoginRequest option" | AgLogins | AgLogout string | AgPrune "string option"

text \<open>The routes below \<^verbatim>\<open>/agent/v1\<close>, all behind \<open>Auth\<close>.\<close>

fun agent_route :: "'w runtime \<Rightarrow> string result \<Rightarrow> agent_request \<Rightarrow> 'w agent_state \<Rightarrow> agent_answer \<times> 'w agent_state" where
  "agent_route R fresh AgHealth s = (AHealth (ru_name R), s)"
| "agent_route R fresh AgProjects s = AgentListProjects R s"
| "agent_route R fresh (AgProject n) s = AgentGetProject R n s"
| "agent_route R fresh (AgImages n) s = AgentImages R n s"
| "agent_route R fresh (AgVolumes n) s = AgentVolumes R n s"
| "agent_route R fresh (AgDeleteVolume n v) s = AgentDeleteVolume R n v s"
| "agent_route R fresh (AgNetworks n) s = AgentNetworks R n s"
| "agent_route R fresh (AgDeleteNetwork n v) s = AgentDeleteNetwork R n v s"
| "agent_route R fresh (AgStatus n) s = AgentStatus R n s"
| "agent_route R fresh (AgJob n a q) s = AgentStartJob R fresh n a q s"
| "agent_route R fresh (AgSystemJob a) s = AgentStartSystemJob R fresh a s"
| "agent_route R fresh AgJobs s = AgentListJobs s"
| "agent_route R fresh (AgOneJob i) s = AgentGetJob i s"
| "agent_route R fresh (AgLogs n q) s = AgentLogs R n q s"
| "agent_route R fresh (AgStats n) s = AgentStatsHandler R n s"
| "agent_route R fresh (AgLogin b) s = AgentRegistryLogin R b s"
| "agent_route R fresh AgLogins s = AgentRegistryLogins R s"
| "agent_route R fresh (AgLogout r) s = AgentDeleteLogin R r s"
| "agent_route R fresh (AgPrune b) s = AgentPrune R b s"

definition agent_serve ::
  "'w runtime \<Rightarrow> string result \<Rightarrow> string \<Rightarrow> string \<Rightarrow> agent_request \<Rightarrow> 'w agent_state \<Rightarrow> agent_answer \<times> 'w agent_state" where
  "agent_serve R fresh authorization agent_token req = agent_auth R authorization agent_token (agent_route R fresh req)"


subsection \<open>The controller's proxy\<close>

text \<open>
  \<open>send\<close> is the HTTP client (method, URL, headers, body) with the reply's code, headers and body; \<open>bad_url\<close>
  is the error of \<^verbatim>\<open>http.NewRequestWithContext\<close>, if any.
\<close>

datatype proxy_answer = ProxyFailed int string | ProxyReply int "(string \<times> string) list" string

definition dash :: string where "dash = [CHR 0xE2, CHR 0x80, CHR 0x94]"

definition proxy_url :: "ComposeAgent \<Rightarrow> string \<Rightarrow> string \<Rightarrow> string" where
  "proxy_url agent remaining rawQuery =
     (if ag_Mode agent = ''peer'' then peerAPIBase (ag_BaseURL agent) @ ''/'' @ remaining
      else trim_right (ag_BaseURL agent) ''/'' @ ''/agent/v1/'' @ remaining) @
     (if rawQuery \<noteq> [] then ''?'' @ rawQuery else [])"

definition proxy_headers :: "ComposeAgent \<Rightarrow> string \<Rightarrow> (string \<times> string) list" where
  "proxy_headers agent ctype =
     (if ag_Mode agent = ''peer'' then (''X-API-Key'', ag_Token agent) else (''Authorization'', ''Bearer '' @ ag_Token agent)) #
     (if ctype \<noteq> [] then [(''Content-Type'', ctype)] else [])"

definition Proxy ::
  "(string \<Rightarrow> string \<Rightarrow> (string \<times> string) list \<Rightarrow> string \<Rightarrow> 'w \<Rightarrow> (int \<times> (string \<times> string) list \<times> string) result \<times> 'w) \<Rightarrow>
   (string \<Rightarrow> string \<Rightarrow> string option) \<Rightarrow> PublicUser option \<Rightarrow> string \<Rightarrow> string \<Rightarrow> string \<Rightarrow> string \<Rightarrow> string \<Rightarrow> string \<Rightarrow>
   db \<times> 'w \<Rightarrow> proxy_answer \<times> db \<times> 'w" where
  "Proxy send bad_url user agentID meth remaining rawQuery ctype body s =
     (let (d, w) = s in
      if \<not> RequireAdmin user then (ProxyFailed 403 ''admin role required'', d, w)
      else
        (case parseInt64Param agentID of
           None \<Rightarrow> (ProxyFailed 400 ''invalid agent ID'', d, w)
         | Some i \<Rightarrow>
             (case GetAgent i d of
                (Inl e, d1) \<Rightarrow> (ProxyFailed 404 ''agent not found'', d1, w)
              | (Inr agent, d1) \<Rightarrow>
                  if ag_BaseURL agent = []
                  then (ProxyFailed 400 (''agent '' @ ag_Name agent @ '' is outbound-only (no base URL) '' @ dash @
                          '' direct actions require an inbound or combined agent''), d1, w)
                  else
                    (let url = proxy_url agent remaining rawQuery in
                     case bad_url meth url of
                       Some e \<Rightarrow> (ProxyFailed 500 (''failed to create proxy request: '' @ e), d1, w)
                     | None \<Rightarrow>
                         (case send meth url (proxy_headers agent ctype) body w of
                            (Inl e, w1) \<Rightarrow> (ProxyFailed 502 (''agent '' @ ag_Name agent @ '' unreachable: '' @ e), d1, w1)
                          | (Inr (code, headers, reply), w1) \<Rightarrow> (ProxyReply code headers reply, d1, w1))))))"

section \<open>Jobs of an agent\<close>

lemma on_agent_jobs_same [simp]: "as_jobs (snd (on_agent f s)) = as_jobs s"
  by (simp add: on_agent_def split_beta Let_def)

lemma projectFromRequest_cases:
  assumes "projectFromRequest R name s = (r, s1)"
  shows "as_jobs s1 = as_jobs s"
    "r = Inr p \<Longrightarrow> fst (GetProject (si_host (ru_site R)) (si_disk (ru_site R)) (si_views (ru_site R)) (si_decoders (ru_site R))
        (si_engine (ru_site R)) name (as_world s)) = Inr p"
    "r = Inl a \<Longrightarrow> \<exists>code e. a = ARefused code e"
  using assms by (auto simp: projectFromRequest_def on_agent_def Let_def split: sum.splits core_error.splits prod.splits)

text \<open>Handlers that read: they leave the jobs alone.\<close>

lemma with_agent_project_jobs:
  assumes "\<And>p s. as_jobs (snd (f p s)) = as_jobs s"
  shows "as_jobs (snd (with_agent_project R name f s)) = as_jobs s"
proof -
  obtain r s1 where r: "projectFromRequest R name s = (r, s1)" by fastforce
  with projectFromRequest_cases(1) [OF r] assms show ?thesis
    by (cases r) (auto simp: with_agent_project_def)
qed

lemma agent_reads_jobs:
  assumes "\<And>n a q. req \<noteq> AgJob n a q" "\<And>a. req \<noteq> AgSystemJob a"
  shows "as_jobs (snd (agent_route R fresh req s)) = as_jobs s"
proof (cases req)
  case AgProjects
  then show ?thesis by (simp add: AgentListProjects_def Let_def split: prod.splits sum.splits) (metis on_agent_jobs_same snd_conv)
qed (use assms in \<open>auto simp: AgentGetProject_def AgentImages_def AgentVolumes_def AgentDeleteVolume_def
      AgentNetworks_def AgentDeleteNetwork_def AgentStatus_def AgentListJobs_def AgentGetJob_def AgentLogs_def
      AgentStatsHandler_def AgentRegistryLogin_def AgentRegistryLogins_def AgentDeleteLogin_def AgentPrune_def
      Let_def split_beta split: sum.splits option.splits intro!: with_agent_project_jobs\<close>)


text \<open>A job that a request may start: on an existing project, with a known action, or the pruning of the host.\<close>

definition job_request :: "'w runtime \<Rightarrow> 'w agent_state \<Rightarrow> agent_request \<Rightarrow> ActionJob \<Rightarrow> bool" where
  "job_request R s req job \<longleftrightarrow>
     aj_Status job = ''running'' \<and> aj_Output job = [] \<and>
     ((\<exists>name action q p. req = AgJob name action q \<and>
         fst (GetProject (si_host (ru_site R)) (si_disk (ru_site R)) (si_views (ru_site R)) (si_decoders (ru_site R))
           (si_engine (ru_site R)) name (as_world s)) = Inr p \<and>
         aj_Project job = name \<and> aj_Action job = to_lower (trim_space action) \<and> ValidJobAction (aj_Action job) \<and>
         0 \<le> timeoutFromRequest q) \<or>
      req = AgSystemJob ''prune-system-all'' \<and> aj_Project job = ''(system)'' \<and> aj_Action job = ''prune-system-all'')"

lemma on_agent_jobs_cases:
  assumes "on_agent_jobs f s = (a, s')"
  shows "(\<exists>e m. f (as_jobs s) = (Inl e, m) \<and> a = ARefused 400 e \<and> as_jobs s' = m) \<or>
    (\<exists>job m. f (as_jobs s) = (Inr job, m) \<and> a = AOk 202 (PJob job) \<and> as_jobs s' = m)"
  using assms by (auto simp: on_agent_jobs_def Let_def split: prod.splits sum.splits)

lemma AgentStartJob_cases:
  assumes "AgentStartJob R fresh name action q s = (a, s')"
  shows "as_jobs s' = as_jobs s \<and> (\<exists>code e. a = ARefused code e) \<or>
    (\<exists>job. job_request R s (AgJob name action q) job \<and> as_jobs s' = register job (as_jobs s) \<and> a = AOk 202 (PJob job))"
proof -
  obtain r s1 where p: "projectFromRequest R name s = (r, s1)" by fastforce
  note jobs = projectFromRequest_cases(1) [OF p]
  show ?thesis
  proof (cases r)
    case (Inl x)
    then show ?thesis using assms p jobs projectFromRequest_cases(3) [OF p]
      by (auto simp: AgentStartJob_def with_agent_project_def)
  next
    case (Inr project)
    note found = projectFromRequest_cases(2) [OF p Inr]
    let ?f = "StartJob fresh (agent_now R s1) project action (timeoutFromRequest q)"
    have "on_agent_jobs ?f s1 = (a, s')" using assms p Inr by (simp add: AgentStartJob_def with_agent_project_def)
    from on_agent_jobs_cases [OF this, unfolded jobs] show ?thesis
    proof (elim disjE exE conjE)
      fix e m assume "?f (as_jobs s) = (Inl e, m)" "a = ARefused 400 e" "as_jobs s' = m"
      then show ?thesis by (auto simp: StartJob_def Let_def split: if_splits sum.splits)
    next
      fix job m assume j: "?f (as_jobs s) = (Inr job, m)" "a = AOk 202 (PJob job)" "as_jobs s' = m"
      then obtain i where i: "fresh = Inr i" "ValidJobAction (to_lower (trim_space action))" "0 \<le> timeoutFromRequest q"
        by (auto simp: StartJob_def Let_def split: if_splits sum.splits)
      then have "job = new_job i (pr_Name project) (to_lower (trim_space action)) (agent_now R s1)" "m = register job (as_jobs s)"
        using j(1) by (auto simp: StartJob_def Let_def)
      with j i found GetProject_name [OF found] show ?thesis by (auto simp: job_request_def new_job_def)
    qed
  qed
qed

lemma AgentStartSystemJob_cases:
  assumes "AgentStartSystemJob R fresh action s = (a, s')"
  shows "as_jobs s' = as_jobs s \<and> (\<exists>code e. a = ARefused code e) \<or>
    (\<exists>job. job_request R s (AgSystemJob action) job \<and> as_jobs s' = register job (as_jobs s) \<and> a = AOk 202 (PJob job))"
proof (cases "action = ''prune-system-all''")
  case False
  then show ?thesis using assms by (auto simp: AgentStartSystemJob_def)
next
  case True
  then have "on_agent_jobs (StartSystemPrune fresh (agent_now R s)) s = (a, s')"
    using assms by (simp add: AgentStartSystemJob_def)
  from on_agent_jobs_cases [OF this] True show ?thesis
    by (auto simp: StartSystemPrune_def job_request_def new_job_def Let_def split: sum.splits)
qed

section \<open>Properties\<close>

text \<open>
  Property C4. An agent obeys the holder of its token only. Whoever shows another token, or none, or
  meets an agent without a token, is refused and changes nothing. A request that is let in changes the
  list of jobs only by starting one job: a known action, with a timeout that is not negative, on a
  project that the agent finds on its disk, or the pruning of its host; and then the answer is that job.
\<close>

theorem agent_serves_token_holders:
  assumes "agent_serve R fresh authorization agent_token req s = (a, s')"
  shows "(bearer_token authorization agent_token \<noteq> ru_token R \<or> ru_token R = [] \<longrightarrow>
       a = ARefused 401 ''unauthorized'' \<and> s' = s) \<and>
    (as_jobs s' = as_jobs s \<or>
       (\<exists>job. job_request R s req job \<and> as_jobs s' = register job (as_jobs s) \<and> a = AOk 202 (PJob job)))"
proof (cases "bearer_token authorization agent_token \<noteq> ru_token R \<or> ru_token R = []")
  case True
  then show ?thesis using assms by (auto simp: agent_serve_def agent_auth_def Let_def)
next
  case False
  then have run: "agent_route R fresh req s = (a, s')"
    using assms by (simp add: agent_serve_def agent_auth_def Let_def)
  have "as_jobs s' = as_jobs s \<or>
      (\<exists>job. job_request R s req job \<and> as_jobs s' = register job (as_jobs s) \<and> a = AOk 202 (PJob job))"
  proof (cases "(\<exists>n c q. req = AgJob n c q) \<or> (\<exists>c. req = AgSystemJob c)")
    case True
    then consider n c q where "req = AgJob n c q" | c where "req = AgSystemJob c" by blast
    then show ?thesis
    proof cases
      case 1
      with run AgentStartJob_cases [of R fresh n c q s a s'] show ?thesis by auto
    next
      case 2
      with run AgentStartSystemJob_cases [of R fresh c s a s'] show ?thesis by auto
    qed
  next
    case False
    then have "as_jobs (snd (agent_route R fresh req s)) = as_jobs s" by (intro agent_reads_jobs) blast+
    then show ?thesis using run by simp
  qed
  with False show ?thesis by blast
qed

definition demo_runtime :: "unit runtime" where
  "demo_runtime = \<lparr> ru_site = demo_site,
     ru_vault = \<lparr> va_host = demo_host, va_stdin = (\<lambda>_ _ _ w. (Engine.answer [], w)), va_home = Inr ''/root'',
       va_fs = (\<lambda>_. config_fs []), va_put = (\<lambda>_ w. w), va_decode = Inl, va_encode = (\<lambda>_. Inl ''no''),
       va_base64 = (\<lambda>_. None) \<rparr>,
     ru_token = ''s3cret'', ru_name = ''edge'', ru_valid = (\<lambda>_. True) \<rparr>"

definition demo_state :: "unit agent_state" where
  "demo_state = \<lparr> as_world = (), as_jobs = \<lparr> jm_jobs = [], jm_db = empty_db \<rparr>, as_manifests = [], as_locals = [] \<rparr>"

theorem agent_serves_token_holders_witness:
  "(\<exists>job. agent_serve demo_runtime (Inr ''j1'') ''Bearer s3cret'' [] (AgJob ''web'' ''up'' []) demo_state =
      (AOk 202 (PJob job), demo_state \<lparr> as_jobs := register job (as_jobs demo_state) \<rparr>) \<and> aj_Project job = ''web'') \<and>
   agent_serve demo_runtime (Inr ''j1'') ''Bearer guess'' [] (AgJob ''web'' ''up'' []) demo_state =
      (ARefused 401 ''unauthorized'', demo_state)"
proof -
  let ?r = "agent_serve demo_runtime (Inr ''j1'') ''Bearer s3cret'' [] (AgJob ''web'' ''up'' []) demo_state"
  let ?f = "agent_serve demo_runtime (Inr ''j1'') ''Bearer guess'' [] (AgJob ''web'' ''up'' []) demo_state"
  have ids: "map fst (jm_jobs (as_jobs (snd ?r))) = [''j1'']" "as_manifests (snd ?r) = []" "as_locals (snd ?r) = []" by code_simp+
  then have "as_jobs (snd ?r) \<noteq> as_jobs demo_state" by (auto simp: demo_state_def)
  with agent_serves_token_holders [of demo_runtime "Inr ''j1''" "''Bearer s3cret''" "[]" "AgJob ''web'' ''up'' []" demo_state "fst ?r" "snd ?r"]
  obtain job where job: "job_request demo_runtime demo_state (AgJob ''web'' ''up'' []) job"
      "as_jobs (snd ?r) = register job (as_jobs demo_state)" "fst ?r = AOk 202 (PJob job)" by auto
  have "snd ?r = demo_state \<lparr> as_jobs := register job (as_jobs demo_state) \<rparr>"
    using job(2) ids(2,3) by (intro agent_state.equality) (simp_all add: demo_state_def)
  moreover have "aj_Project job = ''web''" using job(1) by (simp add: job_request_def)
  moreover have "bearer_token ''Bearer guess'' [] = ''guess''" "ru_token demo_runtime = ''s3cret''" by code_simp+
  then have "?f = (ARefused 401 ''unauthorized'', demo_state)"
    using agent_serves_token_holders [of demo_runtime "Inr ''j1''" "''Bearer guess''" "[]" "AgJob ''web'' ''up'' []" demo_state "fst ?f" "snd ?f"]
    by (simp add: prod_eq_iff)
  ultimately show ?thesis using job(3) by (metis prod.collapse)
qed


text \<open>
  The agent does not decode the name of a login, as the controller's handler takes care to: a request to
  log out of Docker Hub makes it run \<^verbatim>\<open>docker logout\<close> for a registry of the encoded name, which succeeds,
  and the login stays.
\<close>

definition encoded_hub :: string where
  "encoded_hub = ''https%3A%2F%2Findex.docker.io%2Fv1%2F''"

lemma agent_logout_of_hub_keeps_login:
  assumes "ho_exec (va_host (ru_vault R)) ''docker'' [''logout'', encoded_hub] (as_world s) = (r, w1)" "cm_error r = None"
  shows "path_unescape encoded_hub = Some hub_key"
    "\<exists>op. AgentDeleteLogin R encoded_hub s = (AOk 200 (POp op), s \<lparr> as_world := w1 \<rparr>) \<and> op_Action op = ''logout '' @ encoded_hub"
proof -
  show "path_unescape encoded_hub = Some hub_key" by code_simp
  have "validRegistryName (trim_prefix (trim_prefix encoded_hub ''https://'') ''http://'')" "encoded_hub \<noteq> []" "encoded_hub \<noteq> hub_key"
    by code_simp+
  then show "\<exists>op. AgentDeleteLogin R encoded_hub s = (AOk 200 (POp op), s \<lparr> as_world := w1 \<rparr>) \<and> op_Action op = ''logout '' @ encoded_hub"
    using assms by (simp add: AgentDeleteLogin_def on_agent_def DeleteSavedRegistryLogin_def Let_def login_answer_def registry_result_def)
qed

text \<open>
  The path that the scheduler builds names the project and the action to the agent as they are:
  \<^verbatim>\<open>url.PathUnescape\<close> undoes \<^verbatim>\<open>url.PathEscape\<close>.
\<close>

theorem path_round_trip: "path_unescape (path_escape s) = Some s"
proof (induction s)
  case (Cons c s)
  have "CHR ''%'' \<notin> {c. path_char c}" by (simp add: path_char_def alnum_char_def is_digit_def lower_char_def)
  then have "path_char c \<Longrightarrow> c \<noteq> CHR ''%''" by blast
  moreover have "char_of (16 * (of_char c div 16) + of_char c mod 16 :: nat) = c" by simp
  ultimately show ?case using Cons unhex_upper [OF nibbles(1)] unhex_upper [OF nibbles(2)]
    by (simp add: path_escape_def)
qed (simp add: path_escape_def)

end
