(* ===== verification/Watch.thy ===== *)
theory Watch
  imports Scheduler Files
begin

text \<open>
  Up and watch: \<^verbatim>\<open>server/internal/core/watch.go\<close> and \<^verbatim>\<open>server/internal/handlers/watch.go\<close>. A session starts a
  project and follows the log of its containers into a file, which browsers read while it grows. The
  state holds the files of the sessions, the followers (the \<^verbatim>\<open>docker compose logs -f\<close> processes with the
  session record they share with the map) and the two maps of the manager. \<open>Start\<close> holds the lock for
  two short sections only; \<open>others k\<close> is whatever other requests and processes do before each of its
  later parts.
\<close>

section \<open>Definitions\<close>

subsection \<open>State\<close>

record watch_session =
  ws_ID :: string
  ws_Project :: string
  ws_StartedAt :: instant
  ws_EndedAt :: instant
  ws_ExitCode :: int
  ws_Running :: bool
  ws_SizeBytes :: int
  ws_LogPath :: string
  ws_MetaPath :: string

record follower =
  fo_session :: watch_session
  fo_cancelled :: bool
  fo_done :: bool

text \<open>
  A file has its text and the time of its last change. The next entry of \<open>wt_faults\<close> is the error of the
  next call that may fail. \<open>wt_running\<close> and \<open>wt_active\<close> are the maps \<^verbatim>\<open>running\<close> (its keys) and \<^verbatim>\<open>perActive\<close>.
\<close>

record 'w watches =
  wt_world :: 'w
  wt_dirs :: "string list"
  wt_files :: "(string \<times> string \<times> instant) list"
  wt_faults :: "string option list"
  wt_followers :: "(string \<times> follower) list"
  wt_running :: "string list"
  wt_active :: "(string \<times> string) list"

text \<open>The manager: \<open>wm_encode\<close> and \<open>wm_decode\<close> stand for \<^verbatim>\<open>encoding/json\<close> (the two paths are not encoded).\<close>

record 'w watcher =
  wm_site :: "'w site"
  wm_root :: string
  wm_perProj :: nat
  wm_encode :: "watch_session \<Rightarrow> string result"
  wm_decode :: "string \<Rightarrow> watch_session result"

definition call :: "('w watches \<Rightarrow> 'a result \<times> 'w watches) \<Rightarrow> 'w watches \<Rightarrow> 'a result \<times> 'w watches" where
  "call f s =
     (case wt_faults s of
        [] \<Rightarrow> f s
      | None # fs \<Rightarrow> f (s \<lparr> wt_faults := fs \<rparr>)
      | Some e # fs \<Rightarrow> (Inl e, s \<lparr> wt_faults := fs \<rparr>))"

definition watch_now :: "'w watcher \<Rightarrow> 'w watches \<Rightarrow> instant" where
  "watch_now M s = ho_now (si_host (wm_site M)) (wt_world s)"

definition file_text :: "string \<Rightarrow> 'w watches \<Rightarrow> string option" where
  "file_text p s = map_option fst (map_of (wt_files s) p)"

definition put_text :: "'w watcher \<Rightarrow> string \<Rightarrow> string \<Rightarrow> 'w watches \<Rightarrow> 'w watches" where
  "put_text M p t s = s \<lparr> wt_files := AList.update p (t, watch_now M s) (wt_files s) \<rparr>"

definition write_text :: "'w watcher \<Rightarrow> string \<Rightarrow> string \<Rightarrow> 'w watches \<Rightarrow> unit result \<times> 'w watches" where
  "write_text M p t = call (\<lambda>s. (Inr (), put_text M p t s))"

definition remove_file :: "string \<Rightarrow> 'w watches \<Rightarrow> unit result \<times> 'w watches" where
  "remove_file p = call (\<lambda>s.
     if map_of (wt_files s) p = None then (Inl ''no such file or directory'', s)
     else (Inr (), s \<lparr> wt_files := AList.delete p (wt_files s) \<rparr>))"

text \<open>\<^verbatim>\<open>os.ReadDir\<close>: the names of the files of a directory in their order, with the times of their changes.\<close>

definition name_in :: "string \<Rightarrow> string \<Rightarrow> string option" where
  "name_in dir p =
     (if has_prefix p (dir @ ''/'') \<and> CHR ''/'' \<notin> set (drop (length dir + 1) p) then Some (drop (length dir + 1) p) else None)"

definition dir_entries :: "string \<Rightarrow> 'w watches \<Rightarrow> (string \<times> instant) list" where
  "dir_entries dir s =
     sort_key fst (List.map_filter (\<lambda>(p, _, t). map_option (\<lambda>n. (n, t)) (name_in dir p)) (wt_files s))"

subsection \<open>Sessions\<close>

definition sessionIDRe :: "string \<Rightarrow> bool" where
  "sessionIDRe s \<longleftrightarrow> length s = 16 \<and> (\<forall>c \<in> set s. is_hex_char c)"

definition session_key :: "string \<Rightarrow> string \<Rightarrow> string" where
  "session_key project i = project @ ''/'' @ i"

definition projectDir :: "'w watcher \<Rightarrow> string \<Rightarrow> 'w watches \<Rightarrow> (string \<times> Project) result \<times> 'w watches" where
  "projectDir M name s =
     (if trim_space name = [] then (Inl ''project name is required'', s)
      else
        (let S = wm_site M in
         case GetProject (si_host S) (si_disk S) (si_views S) (si_decoders S) (si_engine S) name (wt_world s) of
           (Inl e, w1) \<Rightarrow> (Inl (core_text e), s \<lparr> wt_world := w1 \<rparr>)
         | (Inr proj, w1) \<Rightarrow>
             (let dir = join_path (wm_root M) (pr_Name proj) in
              call (\<lambda>s. (Inr (dir, proj), s \<lparr> wt_dirs := List.insert dir (wt_dirs s) \<rparr>)) (s \<lparr> wt_world := w1 \<rparr>))))"

definition writeMeta :: "'w watcher \<Rightarrow> watch_session \<Rightarrow> 'w watches \<Rightarrow> 'w watches" where
  "writeMeta M x s = (case wm_encode M x of Inl _ \<Rightarrow> s | Inr raw \<Rightarrow> snd (write_text M (ws_MetaPath x) raw s))"

definition session_of_entry :: "string \<Rightarrow> string option" where
  "session_of_entry n =
     (if has_suffix n ''.json'' \<and> sessionIDRe (trim_suffix n ''.json'') then Some (trim_suffix n ''.json'') else None)"

text \<open>\<open>rotate\<close>; \<^verbatim>\<open>sort.Slice\<close> need not keep the order of sessions of the same time, this sort does.\<close>

definition rotation :: "nat \<Rightarrow> (string \<times> instant) list \<Rightarrow> string list" where
  "rotation keep entries =
     (let sessions = List.map_filter (\<lambda>(n, t). map_option (\<lambda>i. (i, t)) (session_of_entry n)) entries
      in if length sessions \<le> keep then [] else map fst (take (length sessions - keep) (sort_key snd sessions)))"

fun remove_sessions :: "string \<Rightarrow> string list \<Rightarrow> 'w watches \<Rightarrow> 'w watches" where
  "remove_sessions dir [] s = s"
| "remove_sessions dir (i # is) s =
     remove_sessions dir is (snd (remove_file (join_path dir (i @ ''.json'')) (snd (remove_file (join_path dir (i @ ''.log'')) s))))"

definition rotate_sessions :: "'w watcher \<Rightarrow> string \<Rightarrow> 'w watches \<Rightarrow> 'w watches" where
  "rotate_sessions M dir s =
     (case call (\<lambda>s. (Inr (dir_entries dir s), s)) s of
        (Inl _, s1) \<Rightarrow> s1
      | (Inr entries, s1) \<Rightarrow> remove_sessions dir (rotation (wm_perProj M) entries) s1)"

definition log_size :: "watch_session \<Rightarrow> 'w watches \<Rightarrow> int" where
  "log_size x s = (case file_text (ws_LogPath x) s of None \<Rightarrow> ws_SizeBytes x | Some t \<Rightarrow> int (length t))"

subsection \<open>Start\<close>

definition up_banner :: "OpResult \<Rightarrow> string" where
  "up_banner r = ''=== docker compose up -d ==='' @ [newline] @ op_Output r @ [newline]"

text \<open>The first part: \<^verbatim>\<open>docker compose up\<close> and the beginning of the log.\<close>

definition begin_watch ::
  "'w watcher \<Rightarrow> string result \<Rightarrow> string \<Rightarrow> 'w watches \<Rightarrow> (string \<times> Project \<times> watch_session \<times> OpResult) result \<times> 'w watches" where
  "begin_watch M fresh name s =
     (case projectDir M name s of
        (Inl e, s1) \<Rightarrow> (Inl e, s1)
      | (Inr (dir, project), s1) \<Rightarrow>
          (case fresh of
             Inl e \<Rightarrow> (Inl e, s1)
           | Inr i \<Rightarrow>
               (let x = \<lparr> ws_ID = i, ws_Project = pr_Name project, ws_StartedAt = watch_now M s1, ws_EndedAt = zero_time,
                      ws_ExitCode = 0, ws_Running = True, ws_SizeBytes = 0, ws_LogPath = join_path dir (i @ ''.log''),
                      ws_MetaPath = join_path dir (i @ ''.json'') \<rparr>;
                    (up, w2) = Up (si_host (wm_site M)) project (wt_world s1)
                in (case write_text M (ws_LogPath x) (up_banner up) (s1 \<lparr> wt_world := w2 \<rparr>) of
                      (Inl e, s2) \<Rightarrow> (Inl e, s2)
                    | (Inr _, s2) \<Rightarrow> (Inr (dir, project, x, up), s2)))))"

definition failed_up :: "'w watcher \<Rightarrow> string \<Rightarrow> watch_session \<Rightarrow> OpResult \<Rightarrow> 'w watches \<Rightarrow> watch_session \<times> 'w watches" where
  "failed_up M dir x up s =
     (let x1 = x \<lparr> ws_EndedAt := watch_now M s, ws_Running := False, ws_ExitCode := op_ExitCode up, ws_SizeBytes := log_size x s \<rparr>
      in (x1, rotate_sessions M dir (writeMeta M x1 s)))"

text \<open>The first section under the lock cancels the previous follower of the project.\<close>

definition cancel :: "string \<Rightarrow> (string \<times> follower) list \<Rightarrow> (string \<times> follower) list" where
  "cancel k fos = map (\<lambda>(k', f). (k', if k' = k then f \<lparr> fo_cancelled := True \<rparr> else f)) fos"

definition stop_previous :: "string \<Rightarrow> 'w watches \<Rightarrow> 'w watches" where
  "stop_previous project s =
     (case map_of (wt_active s) project of
        None \<Rightarrow> s
      | Some prev \<Rightarrow>
          (let k = session_key project prev;
               s1 = (if k \<in> set (wt_running s)
                 then s \<lparr> wt_followers := cancel k (wt_followers s), wt_running := removeAll k (wt_running s) \<rparr> else s)
           in s1 \<lparr> wt_active := AList.delete project (wt_active s1) \<rparr>))"

text \<open>
  The follower is started and entered into both maps, in the second section. Two calls may fail: opening
  the log and starting the process.
\<close>

definition follow_args :: "'w host \<Rightarrow> Project \<Rightarrow> string \<Rightarrow> 'w \<Rightarrow> string list" where
  "follow_args H project pname w =
     compose_args H project pname [''logs'', ''-f'', ''--no-color'', ''--timestamps'', ''--since=0s''] w"

definition launch :: "'w watcher \<Rightarrow> Project \<Rightarrow> watch_session \<Rightarrow> 'w watches \<Rightarrow> unit result \<times> 'w watches" where
  "launch M project x s =
     (let (pname, w1) = getProjectName (si_host (wm_site M)) (pr_Name project) (wt_world s);
          k = session_key (pr_Name project) (ws_ID x)
      in (case call (\<lambda>s. if file_text (ws_LogPath x) s = None then (Inl ''no such file or directory'', s) else (Inr (), s))
             (s \<lparr> wt_world := w1 \<rparr>) of
            (Inl e, s1) \<Rightarrow> (Inl e, s1)
          | (Inr _, s1) \<Rightarrow>
              call (\<lambda>s. (Inr (), s \<lparr>
                wt_followers := wt_followers s @ [(k, \<lparr> fo_session = x, fo_cancelled = False, fo_done = False \<rparr>)],
                wt_running := List.insert k (wt_running s), wt_active := AList.update (pr_Name project) (ws_ID x) (wt_active s) \<rparr>)) s1))"

text \<open>The session as its follower has left it: the record is shared.\<close>

definition current :: "string \<Rightarrow> watch_session \<Rightarrow> 'w watches \<Rightarrow> watch_session" where
  "current k x s = (case map_of (wt_followers s) k of None \<Rightarrow> x | Some f \<Rightarrow> fo_session f)"

definition StartWatch ::
  "'w watcher \<Rightarrow> (nat \<Rightarrow> 'w watches \<Rightarrow> 'w watches) \<Rightarrow> string result \<Rightarrow> string \<Rightarrow> 'w watches \<Rightarrow>
   (watch_session \<times> string) result \<times> 'w watches" where
  "StartWatch M others fresh name s =
     (case begin_watch M fresh name s of
        (Inl e, s1) \<Rightarrow> (Inl e, s1)
      | (Inr (dir, project, x, up), s1) \<Rightarrow>
          if \<not> op_Success up then
            (let (x1, s2) = failed_up M dir x up s1 in (Inr (x1, up_banner up), s2))
          else
            (case launch M project x (others 1 (stop_previous (pr_Name project) (others 0 s1))) of
               (Inl e, s2) \<Rightarrow> (Inl e, s2)
             | (Inr _, s2) \<Rightarrow>
                 (let s3 = others 2 s2; x1 = current (session_key (pr_Name project) (ws_ID x)) x s3
                  in (Inr (x1, up_banner up), rotate_sessions M dir (writeMeta M x1 s3)))))"

subsection \<open>The followers\<close>

text \<open>A follower appends to its log, and ends: the goroutine of \<open>Start\<close> settles the session under the lock.\<close>

definition follower_prints :: "'w watcher \<Rightarrow> string \<Rightarrow> string \<Rightarrow> 'w watches \<Rightarrow> 'w watches" where
  "follower_prints M k txt s =
     (case map_of (wt_followers s) k of
        None \<Rightarrow> s
      | Some f \<Rightarrow>
          if fo_done f then s
          else (case file_text (ws_LogPath (fo_session f)) s of
                  None \<Rightarrow> s | Some t \<Rightarrow> put_text M (ws_LogPath (fo_session f)) (t @ txt) s))"

definition follower_exits :: "'w watcher \<Rightarrow> string \<Rightarrow> int \<Rightarrow> 'w watches \<Rightarrow> 'w watches" where
  "follower_exits M k code s =
     (case map_of (wt_followers s) k of
        None \<Rightarrow> s
      | Some f \<Rightarrow>
          if fo_done f then s
          else
            (let x = fo_session f;
                 x1 = x \<lparr> ws_EndedAt := watch_now M s, ws_Running := False, ws_ExitCode := code, ws_SizeBytes := log_size x s \<rparr>;
                 s1 = writeMeta M x1 s
             in s1 \<lparr> wt_followers := map (\<lambda>(k', g). (k', if k' = k then f \<lparr> fo_session := x1, fo_done := True \<rparr> else g)) (wt_followers s1),
                     wt_running := removeAll k (wt_running s1),
                     wt_active := (if map_of (wt_active s1) (ws_Project x) = Some (ws_ID x)
                       then AList.delete (ws_Project x) (wt_active s1) else wt_active s1) \<rparr>))"

text \<open>\<open>Stop\<close> waits until the cancelled process is gone; a killed process has the exit code \<open>-1\<close>.\<close>

definition StopWatch :: "'w watcher \<Rightarrow> string \<Rightarrow> string \<Rightarrow> 'w watches \<Rightarrow> string option \<times> 'w watches" where
  "StopWatch M project i s =
     (let k = session_key project i in
      if \<not> sessionIDRe i then (Some ''invalid session id'', s)
      else if k \<notin> set (wt_running s) then (None, s)
      else (None, follower_exits M k (- 1) (s \<lparr> wt_followers := cancel k (wt_followers s) \<rparr>)))"

subsection \<open>Reading sessions\<close>

definition LoadSession :: "'w watcher \<Rightarrow> string \<Rightarrow> string \<Rightarrow> 'w watches \<Rightarrow> watch_session result \<times> 'w watches" where
  "LoadSession M project i s =
     (if \<not> sessionIDRe i then (Inl ''invalid session id'', s)
      else
        (let dir = join_path (wm_root M) project; meta = join_path dir (i @ ''.json'') in
         case call (\<lambda>s. (case file_text meta s of None \<Rightarrow> Inl ''no such file or directory'' | Some raw \<Rightarrow> Inr raw, s)) s of
           (Inl e, s1) \<Rightarrow> (Inl e, s1)
         | (Inr raw, s1) \<Rightarrow>
             (case wm_decode M raw of
                Inl e \<Rightarrow> (Inl e, s1)
              | Inr x0 \<Rightarrow>
                  (let x = x0 \<lparr> ws_LogPath := join_path dir (i @ ''.log''), ws_MetaPath := meta \<rparr>;
                       x1 = x \<lparr> ws_SizeBytes := log_size x s1 \<rparr>
                   in (Inr (if ws_Running x1 \<and> session_key project i \<notin> set (wt_running s1) then x1 \<lparr> ws_Running := False \<rparr> else x1), s1)))))"

fun load_all :: "'w watcher \<Rightarrow> string \<Rightarrow> string list \<Rightarrow> 'w watches \<Rightarrow> watch_session list \<times> 'w watches" where
  "load_all M project [] s = ([], s)"
| "load_all M project (i # is) s =
     (let (r, s1) = LoadSession M project i s; (xs, s2) = load_all M project is s1
      in (case r of Inl _ \<Rightarrow> xs | Inr x \<Rightarrow> x # xs, s2))"

definition Sessions :: "'w watcher \<Rightarrow> string \<Rightarrow> 'w watches \<Rightarrow> watch_session list result \<times> 'w watches" where
  "Sessions M project s =
     (case projectDir M project s of
        (Inl e, s1) \<Rightarrow> (Inl e, s1)
      | (Inr _, s1) \<Rightarrow>
          (let dir = join_path (wm_root M) project in
           case call (\<lambda>s. (Inr (if dir \<in> set (wt_dirs s) then dir_entries dir s else []), s)) s1 of
             (Inl e, s2) \<Rightarrow> (Inl e, s2)
           | (Inr entries, s2) \<Rightarrow>
               (let (xs, s3) = load_all M project (List.map_filter (session_of_entry \<circ> fst) entries) s2
                in (Inr (rev (sort_key ws_StartedAt (rev xs))), s3))))"


subsection \<open>Streaming\<close>

text \<open>\<^verbatim>\<open>ReadString('\n')\<close> until the end of the file: lines with their newline, and a rest without one.\<close>

fun read_lines :: "string \<Rightarrow> string \<Rightarrow> string list" where
  "read_lines acc [] = (if acc = [] then [] else [acc])"
| "read_lines acc (c # cs) = (if c = newline then (acc @ [c]) # read_lines [] cs else read_lines (acc @ [c]) cs)"

fun write_lines :: "(string \<Rightarrow> 'o \<Rightarrow> string option \<times> 'o) \<Rightarrow> string list \<Rightarrow> 'o \<Rightarrow> string option \<times> 'o" where
  "write_lines out [] u = (None, u)"
| "write_lines out (l # ls) u = (case out l u of (Some e, u1) \<Rightarrow> (Some e, u1) | (None, u1) \<Rightarrow> write_lines out ls u1)"

text \<open>\<open>copyLines\<close> from a position of the file.\<close>

definition copyLines :: "(string \<Rightarrow> 'o \<Rightarrow> string option \<times> 'o) \<Rightarrow> nat \<Rightarrow> string \<Rightarrow> 'o \<Rightarrow> string option \<times> 'o" where
  "copyLines out pos content u = write_lines out (read_lines [] (drop pos content)) u"

text \<open>
  What the loop of \<open>Stream\<close> sees: the log at a tick, whether its follower is still in the map, and the
  log right after that; or the timer of thirty minutes. The list ends where the client goes away.
\<close>

datatype sight = Tick string bool string | IdleTimeout

fun stream_loop :: "(string \<Rightarrow> 'o \<Rightarrow> string option \<times> 'o) \<Rightarrow> nat \<Rightarrow> sight list \<Rightarrow> 'o \<Rightarrow> string option \<times> 'o" where
  "stream_loop out pos [] u = (None, u)"
| "stream_loop out pos (IdleTimeout # ts) u = (None, u)"
| "stream_loop out pos (Tick content alive final # ts) u =
     (case copyLines out pos content u of
        (Some e, u1) \<Rightarrow> (Some e, u1)
      | (None, u1) \<Rightarrow>
          if alive then stream_loop out (length content) ts u1
          else (None, snd (copyLines out (length content) final u1)))"

definition Stream ::
  "'w watcher \<Rightarrow> string \<Rightarrow> string \<Rightarrow> (string \<Rightarrow> 'o \<Rightarrow> string option \<times> 'o) \<Rightarrow> sight list \<Rightarrow> 'w watches \<times> 'o \<Rightarrow> string option \<times> 'w watches \<times> 'o" where
  "Stream M project i out ts su =
     (let (s, u) = su in
      case LoadSession M project i s of
        (Inl e, s1) \<Rightarrow> (Some e, s1, u)
      | (Inr x, s1) \<Rightarrow>
          (case call (\<lambda>s. (case file_text (ws_LogPath x) s of None \<Rightarrow> Inl ''no such file or directory'' | Some t \<Rightarrow> Inr t, s)) s1 of
             (Inl e, s2) \<Rightarrow> (Some e, s2, u)
           | (Inr content, s2) \<Rightarrow>
               (case copyLines out 0 content u of
                  (Some e, u1) \<Rightarrow> (Some e, s2, u1)
                | (None, u1) \<Rightarrow>
                    if \<not> ws_Running x then (None, s2, u1)
                    else (let (err, u2) = stream_loop out (length content) ts u1 in (err, s2, u2)))))"

text \<open>
  \<open>sseWriter\<close>: the rest of a line that has not ended yet, and what was sent. \<open>fails\<close> tells whether the
  connection refuses a piece.
\<close>

record sse =
  se_buffer :: string
  se_sent :: string

definition data_event :: "string \<Rightarrow> string" where
  "data_event line = ''data: '' @ trim_right line [CHR 0x0D] @ [newline, newline]"

function sse_lines :: "(string \<Rightarrow> string option) \<Rightarrow> string \<Rightarrow> sse \<Rightarrow> string option \<times> sse" where
  "sse_lines fails str w =
     (case cut_at newline str of
        None \<Rightarrow> (None, w \<lparr> se_buffer := str \<rparr>)
      | Some (line, rest) \<Rightarrow>
          (case fails (data_event line) of
             Some e \<Rightarrow> (Some e, w)
           | None \<Rightarrow> sse_lines fails rest (w \<lparr> se_sent := se_sent w @ data_event line \<rparr>)))"
  by pat_completeness auto
termination
  by (relation "measure (\<lambda>(_, str, _). length str)") (auto dest!: cut_at_Some)

declare sse_lines.simps [simp del]

definition sse_write :: "(string \<Rightarrow> string option) \<Rightarrow> string \<Rightarrow> sse \<Rightarrow> string option \<times> sse" where
  "sse_write fails p w = sse_lines fails (se_buffer w @ p) (w \<lparr> se_buffer := se_buffer w @ p \<rparr>)"

definition sse_event :: "(string \<Rightarrow> string option) \<Rightarrow> string \<Rightarrow> string \<Rightarrow> sse \<Rightarrow> sse" where
  "sse_event fails name payload w =
     (let txt = ''event: '' @ name @ [newline] @ ''data: '' @ map (\<lambda>c. if c = newline then CHR '' '' else c) payload @ [newline, newline]
      in if fails txt = None then w \<lparr> se_sent := se_sent w @ txt \<rparr> else w)"

subsection \<open>Handlers\<close>

text \<open>The value of \<open>StartHandler\<close> is the session, the path of its stream and what \<^verbatim>\<open>up\<close> printed.\<close>

definition StartHandler ::
  "'w watcher \<Rightarrow> (nat \<Rightarrow> 'w watches \<Rightarrow> 'w watches) \<Rightarrow> string result \<Rightarrow> string \<Rightarrow> 'w watches \<Rightarrow>
   (watch_session \<times> string \<times> string) response \<times> 'w watches" where
  "StartHandler M others fresh name s =
     (case StartWatch M others fresh name s of
        (Inl e, s1) \<Rightarrow> (write_error 400 e, s1)
      | (Inr (x, out), s1) \<Rightarrow>
          (write_json 200 (x, ''/api/v1/projects/'' @ name @ ''/watch/'' @ ws_ID x @ ''/stream'', out), s1))"

definition ListSessions :: "'w watcher \<Rightarrow> string \<Rightarrow> 'w watches \<Rightarrow> watch_session list response \<times> 'w watches" where
  "ListSessions M name s =
     (case Sessions M name s of (Inl e, s1) \<Rightarrow> (write_error 400 e, s1) | (Inr xs, s1) \<Rightarrow> (write_json 200 xs, s1))"

definition GetSessionHandler :: "'w watcher \<Rightarrow> string \<Rightarrow> string \<Rightarrow> 'w watches \<Rightarrow> watch_session response \<times> 'w watches" where
  "GetSessionHandler M name i s =
     (case LoadSession M name i s of (Inl e, s1) \<Rightarrow> (write_error 404 e, s1) | (Inr x, s1) \<Rightarrow> (write_json 200 x, s1))"

definition StopHandler :: "'w watcher \<Rightarrow> string \<Rightarrow> string \<Rightarrow> 'w watches \<Rightarrow> (string \<times> string) response \<times> 'w watches" where
  "StopHandler M name i s =
     (case StopWatch M name i s of
        (Some e, s1) \<Rightarrow> (write_error 400 e, s1)
      | (None, s1) \<Rightarrow> (write_json 200 (i, ''stopped''), s1))"

definition StreamHandler ::
  "'w watcher \<Rightarrow> (string \<Rightarrow> string option) \<Rightarrow> string \<Rightarrow> string \<Rightarrow> sight list \<Rightarrow> 'w watches \<Rightarrow> string \<times> 'w watches" where
  "StreamHandler M fails name i ts s =
     (let (err, s1, w) = Stream M name i (sse_write fails) ts (s, \<lparr> se_buffer = [], se_sent = [] \<rparr>);
          w1 = (case err of None \<Rightarrow> w | Some e \<Rightarrow> sse_event fails ''error'' e w)
      in (se_sent (sse_event fails ''end'' ''session stream closed'' w1), s1))"

text \<open>\<open>Shutdown\<close> cancels what runs, and waits up to three seconds for each of them.\<close>

definition ShutdownWatches :: "'w watches \<Rightarrow> 'w watches" where
  "ShutdownWatches s = s \<lparr> wt_followers := fold cancel (wt_running s) (wt_followers s) \<rparr>"


section \<open>Server-sent events\<close>

abbreviation open_line :: "string \<Rightarrow> string option" where "open_line \<equiv> \<lambda>_. None"

lemma sse_rest: "newline \<notin> set str \<Longrightarrow> sse_lines fails str w = (None, w \<lparr> se_buffer := str \<rparr>)"
  by (subst sse_lines.simps) simp

lemma sse_line:
  "newline \<notin> set a \<Longrightarrow>
   sse_lines open_line (a @ newline # r) w = sse_lines open_line r (w \<lparr> se_sent := se_sent w @ data_event a \<rparr>)"
  by (subst sse_lines.simps) simp

lemma line_induct [case_names rest line]:
  assumes "\<And>str. newline \<notin> set str \<Longrightarrow> P str"
    and "\<And>a r. newline \<notin> set a \<Longrightarrow> P r \<Longrightarrow> P (a @ newline # r)"
  shows "P str"
proof (induction "length str" arbitrary: str rule: less_induct)
  case less
  show ?case
  proof (cases "cut_at newline str")
    case (Some p)
    obtain a r where p: "p = (a, r)" by fastforce
    with Some have str: "str = a @ newline # r" "newline \<notin> set a" by (auto dest!: cut_at_Some)
    show ?thesis unfolding str(1) by (rule assms(2) [OF str(2) less]) (simp add: str(1))
  qed (simp add: assms(1))
qed

lemma sse_lines_buffer: "sse_lines open_line str (w \<lparr> se_buffer := b \<rparr>) = sse_lines open_line str w"
proof (induction str arbitrary: w rule: line_induct)
  case (line a r)
  show ?case unfolding sse_line [OF line(1)] using line(2) [of "w \<lparr> se_sent := se_sent w @ data_event a \<rparr>"]
    by (cases w) simp
qed (simp add: sse_rest)

text \<open>A line that has come completely is sent, whatever comes after it.\<close>

lemma sse_lines_append:
  "sse_lines open_line (str @ q) w =
     sse_lines open_line (se_buffer (snd (sse_lines open_line str w)) @ q) (snd (sse_lines open_line str w))"
  by (induction str arbitrary: w rule: line_induct) (simp_all add: sse_rest sse_line sse_lines_buffer)

lemma sse_write_append:
  "sse_write open_line (p @ q) w = sse_write open_line q (snd (sse_write open_line p w))"
  unfolding sse_write_def sse_lines_buffer append_assoc [symmetric] by (rule sse_lines_append)

definition events_of :: "string \<Rightarrow> string" where
  "events_of txt = concat (map data_event (butlast (split_on newline txt)))"

lemma sse_lines_events:
  "sse_lines open_line str w =
     (None, w \<lparr> se_buffer := last (split_on newline str), se_sent := se_sent w @ events_of str \<rparr>)"
  by (induction str arbitrary: w rule: line_induct)
    (simp_all add: sse_rest sse_line events_of_def split_on_no_sep_id split_on_append)

lemma sse_write_events:
  "sse_write open_line p w =
     (None, w \<lparr> se_buffer := last (split_on newline (se_buffer w @ p)), se_sent := se_sent w @ events_of (se_buffer w @ p) \<rparr>)"
  by (simp add: sse_write_def sse_lines_events)

lemma sse_write_ok [simp]: "fst (sse_write open_line p w) = None"
  by (simp add: sse_write_events)

lemma sse_write_nil: "newline \<notin> set (se_buffer w) \<Longrightarrow> sse_write open_line [] w = (None, w)"
  by (simp add: sse_write_def sse_rest)

lemma sse_buffer_open: "newline \<notin> set (se_buffer (snd (sse_write open_line p w)))"
  using split_on_no_sep [OF last_in_set [OF split_on_nonempty]] by (simp add: sse_write_events)

text \<open>The browser gets the same events however the log is cut into pieces.\<close>

lemma sse_pieces:
  "foldl (\<lambda>w p. snd (sse_write open_line p w)) w ps = (if ps = [] then w else snd (sse_write open_line (concat ps) w))"
proof (induction ps arbitrary: w)
  case (Cons p ps)
  show ?case by (simp add: Cons sse_write_append sse_write_nil sse_buffer_open)
qed simp

lemma concat_read_lines: "concat (read_lines acc str) = acc @ str"
  by (induction acc str rule: read_lines.induct) auto

lemma write_lines_sse:
  "write_lines (sse_write open_line) ls w = (None, foldl (\<lambda>w p. snd (sse_write open_line p w)) w ls)"
  by (induction ls arbitrary: w) (simp_all add: sse_write_events)

lemma copyLines_sse:
  assumes "newline \<notin> set (se_buffer w)"
  shows "copyLines (sse_write open_line) pos content w = sse_write open_line (drop pos content) w"
proof -
  have empty: "read_lines [] str = [] \<longleftrightarrow> str = []" for str using concat_read_lines [of "[]" str] by (cases str) auto
  show ?thesis
  proof (cases "drop pos content = []")
    case True
    then show ?thesis by (simp add: copyLines_def sse_write_nil [OF assms])
  next
    case False
    then show ?thesis
      by (simp add: copyLines_def write_lines_sse sse_pieces empty concat_read_lines prod_eq_iff del: drop_eq_Nil drop_eq_Nil2)
  qed
qed

section \<open>Streaming a growing log\<close>

text \<open>A log grows: each sight of it has the one before it as its beginning; \<open>last_seen\<close> is the last one.\<close>

definition extends :: "string \<Rightarrow> string \<Rightarrow> bool" where
  "extends a b \<longleftrightarrow> (\<exists>c. b = a @ c)"

fun growing :: "string \<Rightarrow> sight list \<Rightarrow> bool" where
  "growing c [] = True"
| "growing c (IdleTimeout # ts) = True"
| "growing c (Tick c1 alive c2 # ts) = (extends c c1 \<and> (if alive then growing c1 ts else extends c1 c2))"

fun last_seen :: "string \<Rightarrow> sight list \<Rightarrow> string" where
  "last_seen c [] = c"
| "last_seen c (IdleTimeout # ts) = c"
| "last_seen c (Tick c1 alive c2 # ts) = (if alive then last_seen c1 ts else c2)"

lemma extends_drop: "extends a b \<Longrightarrow> b = a @ drop (length a) b"
  by (auto simp: extends_def)

lemma last_seen_extends: "growing c ts \<Longrightarrow> extends c (last_seen c ts)"
  by (induction c ts rule: growing.induct) (auto simp: extends_def split: if_splits)

lemma stream_loop_sse:
  assumes "growing c ts" "newline \<notin> set (se_buffer w)"
  shows "stream_loop (sse_write open_line) (length c) ts w = sse_write open_line (drop (length c) (last_seen c ts)) w"
  using assms
proof (induction c ts arbitrary: w rule: growing.induct)
  case (3 c c1 alive c2 ts)
  let ?w1 = "snd (sse_write open_line (drop (length c) c1) w)"
  have copy: "copyLines (sse_write open_line) (length c) c1 w = (None, ?w1)"
    using 3(3) by (simp add: copyLines_sse prod_eq_iff)
  have open1: "newline \<notin> set (se_buffer ?w1)" by (rule sse_buffer_open)
  from 3(2) have c1: "c1 = c @ drop (length c) c1" by (auto dest: extends_drop)
  have both: "sse_write open_line (drop (length c1) d) ?w1 = sse_write open_line (drop (length c) d) w" if "extends c1 d" for d
  proof -
    have "d = c1 @ drop (length c1) d" using extends_drop [OF that] .
    then have "drop (length c) d = drop (length c) c1 @ drop (length c1) d"
      using c1 by (metis append_eq_conv_conj drop_append length_append append_assoc)
    then show ?thesis by (simp add: sse_write_append)
  qed
  show ?case
  proof (cases alive)
    case True
    with 3(2) have g: "growing c1 ts" by simp
    show ?thesis using True copy 3(1) [OF True g open1] both [OF last_seen_extends [OF g]] by simp
  next
    case False
    with 3(2) have "extends c1 c2" by simp
    from both [OF this] have "snd (copyLines (sse_write open_line) (length c1) c2 ?w1) = snd (sse_write open_line (drop (length c) c2) w)"
      by (simp add: copyLines_sse [OF open1])
    then have "stream_loop (sse_write open_line) (length c) (Tick c1 alive c2 # ts) w = (None, snd (sse_write open_line (drop (length c) c2) w))"
      using False copy by simp
    then show ?thesis using False by (simp add: prod_eq_iff)
  qed
qed (simp_all add: sse_write_nil)


section \<open>One follower per project\<close>

definition live :: "follower \<Rightarrow> bool" where
  "live f \<longleftrightarrow> \<not> fo_cancelled f \<and> \<not> fo_done f"

text \<open>
  Followers are filed under their own project and id, and each live one is in both maps of the manager.
\<close>

definition filed :: "string \<times> follower \<Rightarrow> bool" where
  "filed e \<longleftrightarrow> fst e = session_key (ws_Project (fo_session (snd e))) (ws_ID (fo_session (snd e)))"

definition entered :: "'w watches \<Rightarrow> string \<times> follower \<Rightarrow> bool" where
  "entered s e \<longleftrightarrow> (live (snd e) \<longrightarrow> fst e \<in> set (wt_running s) \<and>
     map_of (wt_active s) (ws_Project (fo_session (snd e))) = Some (ws_ID (fo_session (snd e))))"

definition wf_watches :: "'w watches \<Rightarrow> bool" where
  "wf_watches s \<longleftrightarrow> distinct (map fst (wt_followers s)) \<and> (\<forall>e \<in> set (wt_followers s). filed e \<and> entered s e)"

text \<open>The part of the state that the invariant is about.\<close>

definition maps_of :: "'w watches \<Rightarrow> (string \<times> follower) list \<times> string list \<times> (string \<times> string) list" where
  "maps_of s = (wt_followers s, wt_running s, wt_active s)"

lemma wf_same_maps: "maps_of s' = maps_of s \<Longrightarrow> wf_watches s' = wf_watches s"
  by (simp add: maps_of_def wf_watches_def entered_def)

lemma maps_of_world [simp]:
  "maps_of (s \<lparr> wt_world := w \<rparr>) = maps_of s" "maps_of (s \<lparr> wt_faults := fs \<rparr>) = maps_of s"
  "maps_of (s \<lparr> wt_files := ff \<rparr>) = maps_of s" "maps_of (s \<lparr> wt_dirs := ds \<rparr>) = maps_of s"
  by (simp_all add: maps_of_def)

lemma call_maps:
  assumes "\<And>s. maps_of (snd (f s)) = maps_of s"
  shows "maps_of (snd (call f s)) = maps_of s"
  using assms by (auto simp: call_def split: list.splits option.splits)

lemma maps_simps [simp]:
  "maps_of (put_text M p t s) = maps_of s"
  "maps_of (snd (write_text M p t s)) = maps_of s"
  "maps_of (snd (remove_file p s)) = maps_of s"
  "maps_of (writeMeta M x s) = maps_of s"
  "maps_of (snd (projectDir M name s)) = maps_of s"
  "maps_of (remove_sessions dir ids s) = maps_of s"
  "maps_of (rotate_sessions M dir s) = maps_of s"
proof -
  show put: "maps_of (put_text M p t s) = maps_of s" for p t and s :: "'a watches" by (simp add: put_text_def)
  show written: "maps_of (snd (write_text M p t s)) = maps_of s" for p t and s :: "'a watches"
    unfolding write_text_def by (rule call_maps) (simp add: put)
  show remove: "maps_of (snd (remove_file p s)) = maps_of s" for p and s :: "'a watches"
    unfolding remove_file_def by (rule call_maps) auto
  show "maps_of (writeMeta M x s) = maps_of s" by (auto simp: writeMeta_def written split: sum.split)
  show "maps_of (snd (projectDir M name s)) = maps_of s"
    by (auto simp: projectDir_def Let_def split: sum.split prod.split) (subst call_maps; simp)
  show many: "maps_of (remove_sessions dir ids s) = maps_of s" for dir ids and s :: "'a watches"
    by (induction ids arbitrary: s) (simp_all add: remove)
  have "maps_of (snd (call (\<lambda>s. (Inr (dir_entries dir s) :: (string \<times> instant) list result, s)) s)) = maps_of s"
    by (rule call_maps) simp
  then show "maps_of (rotate_sessions M dir s) = maps_of s"
    by (auto simp: rotate_sessions_def many split: sum.split prod.split)
qed

lemma LoadSession_maps [simp]: "maps_of (snd (LoadSession M project i s)) = maps_of s"
proof -
  let ?p = "join_path (join_path (wm_root M) project) (i @ ''.json'')"
  obtain r s1 where c: "call (\<lambda>s. (case file_text ?p s of None \<Rightarrow> Inl ''no such file or directory'' | Some raw \<Rightarrow> Inr raw, s)) s = (r, s1)"
    by fastforce
  have "maps_of (snd (call (\<lambda>s. (case file_text ?p s of None \<Rightarrow> Inl ''no such file or directory'' | Some raw \<Rightarrow> Inr raw, s)) s)) = maps_of s"
    by (rule call_maps) simp
  then have "maps_of s1 = maps_of s" by (simp add: c)
  then show ?thesis by (auto simp: LoadSession_def Let_def c split: sum.split)
qed

lemma load_all_maps [simp]: "maps_of (snd (load_all M project ids s)) = maps_of s"
proof (induction ids arbitrary: s)
  case (Cons i ids)
  show ?case using Cons [of "snd (LoadSession M project i s)"]
    by (simp add: Let_def split_beta)
qed simp

lemma Sessions_maps [simp]: "maps_of (snd (Sessions M project s)) = maps_of s"
proof -
  let ?d = "join_path (wm_root M) project"
  obtain r s1 where p: "projectDir M project s = (r, s1)" by fastforce
  obtain q s2 where c: "call (\<lambda>s. (Inr (if ?d \<in> set (wt_dirs s) then dir_entries ?d s else []) :: (string \<times> instant) list result, s)) s1 = (q, s2)"
    by fastforce
  have "maps_of (snd (call (\<lambda>s. (Inr (if ?d \<in> set (wt_dirs s) then dir_entries ?d s else []) :: (string \<times> instant) list result, s)) s1))
      = maps_of s1" by (rule call_maps) simp
  then have m: "maps_of s2 = maps_of s" using maps_simps(5) [of M project s] by (simp add: c p)
  have "maps_of s1 = maps_of s" using maps_simps(5) [of M project s] by (simp add: p)
  with m show ?thesis
    by (cases r; cases q) (auto simp: Sessions_def Let_def p c split_beta)
qed


text \<open>
  The steps of the manager, one request at a time: each may meet any state of the machine and any failing
  calls. The id of a new session is a fresh one.
\<close>

inductive watch_step :: "'w watcher \<Rightarrow> 'w watches \<Rightarrow> 'w watches \<Rightarrow> bool" for M where
  start: "(\<And>i k. fresh = Inr i \<Longrightarrow> k \<in> fst ` set (wt_followers s) \<Longrightarrow> k \<noteq> session_key name i) \<Longrightarrow>
    watch_step M s (snd (StartWatch M (\<lambda>_ s. s) fresh name s))"
| stop: "watch_step M s (snd (StopWatch M project i s))"
| prints: "watch_step M s (follower_prints M k txt s)"
| exits: "watch_step M s (follower_exits M k code s)"
| load: "watch_step M s (snd (LoadSession M project i s))"
| list: "watch_step M s (snd (Sessions M project s))"
| shutdown: "watch_step M s (ShutdownWatches s)"
| outside: "watch_step M s (s \<lparr> wt_world := w, wt_faults := fs \<rparr>)"

inductive watch_run :: "'w watcher \<Rightarrow> 'w watches \<Rightarrow> 'w watches \<Rightarrow> bool" for M where
  begin_watching: "watch_run M s s"
| then_watch: "watch_run M s s' \<Longrightarrow> watch_step M s' s'' \<Longrightarrow> watch_run M s s''"

lemma wf_watchesD: "wf_watches s \<Longrightarrow> e \<in> set (wt_followers s) \<Longrightarrow> filed e \<and> entered s e"
  by (auto simp: wf_watches_def)

lemma cancel_keys [simp]: "map fst (cancel k fos) = map fst fos"
  by (induction fos) (auto simp: cancel_def)

lemma in_cancel:
  "(k', g) \<in> set (cancel k fos) \<longleftrightarrow> (\<exists>f. (k', f) \<in> set fos \<and> g = (if k' = k then f \<lparr> fo_cancelled := True \<rparr> else f))"
  by (induction fos) (auto simp: cancel_def)

lemma cancelled: "e \<in> set (cancel k fos) \<Longrightarrow> fst e = k \<Longrightarrow> fo_cancelled (snd e)"
  by (cases e) (auto simp: in_cancel)

lemma wf_cancel:
  assumes "wf_watches s"
  shows "wf_watches (s \<lparr> wt_followers := cancel k (wt_followers s) \<rparr>)"
  using assms by (fastforce simp: wf_watches_def filed_def entered_def in_cancel live_def split: if_splits)

lemma fold_cancel_keys: "wf_watches s \<Longrightarrow> wf_watches (s \<lparr> wt_followers := fold cancel ks (wt_followers s) \<rparr>)"
proof (induction ks arbitrary: s)
  case (Cons k ks)
  from Cons.IH [OF wf_cancel [OF Cons.prems, of k]] show ?case by simp
qed simp

text \<open>After the first section under the lock the project has no live follower.\<close>

lemma stop_previous_effect:
  assumes "wf_watches s"
  shows "wf_watches (stop_previous project s)"
    "(k, f) \<in> set (wt_followers (stop_previous project s)) \<Longrightarrow> ws_Project (fo_session f) = project \<Longrightarrow> \<not> live f"
    "fst ` set (wt_followers (stop_previous project s)) = fst ` set (wt_followers s)"
proof -
  have "wf_watches (stop_previous project s) \<and>
    (\<forall>k f. (k, f) \<in> set (wt_followers (stop_previous project s)) \<longrightarrow> ws_Project (fo_session f) = project \<longrightarrow> \<not> live f) \<and>
    map fst (wt_followers (stop_previous project s)) = map fst (wt_followers s)"
  proof (cases "map_of (wt_active s) project")
    case None
    then have "stop_previous project s = s" by (simp add: stop_previous_def)
    moreover have "\<not> live f" if "(k, f) \<in> set (wt_followers s)" "ws_Project (fo_session f) = project" for k f
      using wf_watchesD [OF assms that(1)] that(2) None by (auto simp: entered_def)
    ultimately show ?thesis using assms by simp
  next
    case (Some prev)
    let ?k = "session_key project prev"
    have mine: "k = ?k \<and> k \<in> set (wt_running s)"
      if "(k, f) \<in> set (wt_followers s)" "live f" "ws_Project (fo_session f) = project" for k f
      using wf_watchesD [OF assms that(1)] that(2,3) Some by (auto simp: entered_def filed_def)
    have other: "ws_Project (fo_session f) \<noteq> project \<and> k \<noteq> ?k \<or> \<not> live f"
      if "(k, f) \<in> set (wt_followers s)" "\<not> (k = ?k \<and> k \<in> set (wt_running s))" for k f
      using wf_watchesD [OF assms that(1)] that(2) Some mine [OF that(1)] by (auto simp: entered_def filed_def)
    have s': "stop_previous project s = (if ?k \<in> set (wt_running s)
        then s \<lparr> wt_followers := cancel ?k (wt_followers s), wt_running := removeAll ?k (wt_running s),
                 wt_active := AList.delete project (wt_active s) \<rparr>
        else s \<lparr> wt_active := AList.delete project (wt_active s) \<rparr>)"
      using Some by (simp add: stop_previous_def Let_def)
    show ?thesis
    proof (cases "?k \<in> set (wt_running s)")
      case True
      have "filed (k, f) \<and> entered (stop_previous project s) (k, f)" "ws_Project (fo_session f) = project \<Longrightarrow> \<not> live f"
        if "(k, f) \<in> set (wt_followers (stop_previous project s))" for k f
      proof -
        from that True obtain g where g: "(k, g) \<in> set (wt_followers s)" "f = (if k = ?k then g \<lparr> fo_cancelled := True \<rparr> else g)"
          by (auto simp: s' in_cancel)
        show "filed (k, f) \<and> entered (stop_previous project s) (k, f)"
          using g wf_watchesD [OF assms g(1)] other [OF g(1)] True
          by (auto simp: s' filed_def entered_def live_def delete_conv')
        show "ws_Project (fo_session f) = project \<Longrightarrow> \<not> live f"
          using g mine [OF g(1)] by (auto simp: live_def split: if_splits)
      qed
      then show ?thesis using assms True by (auto simp: wf_watches_def s')
    next
      case False
      have "filed (k, f) \<and> entered (stop_previous project s) (k, f)" "ws_Project (fo_session f) = project \<Longrightarrow> \<not> live f"
        if "(k, f) \<in> set (wt_followers s)" for k f
        using wf_watchesD [OF assms that] other [OF that] mine [OF that] False
        by (auto simp: s' entered_def delete_conv')
      then show ?thesis using assms False by (auto simp: wf_watches_def s')
    qed
  qed
  then show "wf_watches (stop_previous project s)"
    "(k, f) \<in> set (wt_followers (stop_previous project s)) \<Longrightarrow> ws_Project (fo_session f) = project \<Longrightarrow> \<not> live f"
    "fst ` set (wt_followers (stop_previous project s)) = fst ` set (wt_followers s)"
    by (blast, blast, metis list.set_map)
qed


lemma wf_launch:
  assumes "wf_watches s" "session_key (pr_Name project) (ws_ID x) \<notin> fst ` set (wt_followers s)"
    "\<And>k f. (k, f) \<in> set (wt_followers s) \<Longrightarrow> ws_Project (fo_session f) = pr_Name project \<Longrightarrow> \<not> live f"
    "ws_Project x = pr_Name project"
  shows "wf_watches (snd (launch M project x s))"
proof -
  let ?k = "session_key (pr_Name project) (ws_ID x)"
  let ?open = "\<lambda>s. if file_text (ws_LogPath x) s = None then (Inl ''no such file or directory'' :: unit result, s) else (Inr (), s)"
  obtain pname w1 where n: "getProjectName (si_host (wm_site M)) (pr_Name project) (wt_world s) = (pname, w1)" by fastforce
  obtain r s1 where r: "call ?open (s \<lparr> wt_world := w1 \<rparr>) = (r, s1)" by fastforce
  have "maps_of (snd (call ?open (s \<lparr> wt_world := w1 \<rparr>))) = maps_of (s \<lparr> wt_world := w1 \<rparr>)" by (rule call_maps) simp
  then have m: "maps_of s1 = maps_of s" by (simp add: r)
  note wf1 = assms(1) [folded wf_same_maps [OF m]]
  show ?thesis
  proof (cases r)
    case (Inl e)
    then show ?thesis using n r wf1 by (simp add: launch_def)
  next
    case (Inr u)
    let ?enter = "\<lambda>s. s \<lparr> wt_followers := wt_followers s @ [(?k, \<lparr> fo_session = x, fo_cancelled = False, fo_done = False \<rparr>)],
        wt_running := List.insert ?k (wt_running s), wt_active := AList.update (pr_Name project) (ws_ID x) (wt_active s) \<rparr>"
    have enter: "wf_watches (?enter t)" if "maps_of t = maps_of s" for t :: "'a watches"
    proof -
      have t: "wt_followers t = wt_followers s" "wt_running t = wt_running s" "wt_active t = wt_active s"
        using that by (simp_all add: maps_of_def)
      have "filed e \<and> entered (?enter t) e" if "e \<in> set (wt_followers s)" for e
        using that wf_watchesD [OF assms(1) that] assms(3) [of "fst e" "snd e"]
        by (auto simp: entered_def t update_conv')
      then show ?thesis using assms(1,2,4) by (auto simp: wf_watches_def t filed_def entered_def update_conv')
    qed
    have "snd (launch M project x s) = snd (call (\<lambda>s. (Inr () :: unit result, ?enter s)) s1)"
      using n r Inr by (simp add: launch_def Let_def)
    moreover have "wf_watches (snd (call (\<lambda>s. (Inr () :: unit result, ?enter s)) s1))"
      using enter [OF m] enter [of "s1 \<lparr> wt_faults := fs \<rparr>" for fs] wf1 m
      by (auto simp: call_def wf_same_maps [OF maps_of_world(2)] split: list.splits option.splits)
    ultimately show ?thesis by simp
  qed
qed

lemma begin_watch_maps:
  assumes "begin_watch M fresh name s = (r, s1)"
  shows "maps_of s1 = maps_of s"
    "r = Inr (dir, project, x, up) \<Longrightarrow> ws_Project x = pr_Name project \<and> fresh = Inr (ws_ID x) \<and> pr_Name project = name"
proof -
  obtain p s2 where p: "projectDir M name s = (p, s2)" by fastforce
  have m2: "maps_of s2 = maps_of s" using maps_simps(5) [of M name s] by (simp add: p)
  have found: "pr_Name q = name" if "GetProject H K V J e name w = (Inr q, w1)" for H K V J e w w1 q
    using GetProject_name [of H K V J e name w q] that by simp
  have named: "pr_Name q = name" if "p = Inr (d, q)" for d q
    using p that
    by (auto simp: projectDir_def call_def Let_def dest: found split: if_splits prod.splits sum.splits list.splits option.splits)
  have "maps_of s1 = maps_of s \<and>
    (r = Inr (dir, project, x, up) \<longrightarrow> ws_Project x = pr_Name project \<and> fresh = Inr (ws_ID x) \<and> pr_Name project = name)"
  proof (cases "\<exists>d q i. p = Inr (d, q) \<and> fresh = Inr i")
    case False
    then show ?thesis using assms p m2 by (cases p; cases fresh) (auto simp: begin_watch_def)
  next
    case True
    then obtain d q i where o: "p = Inr (d, q)" "fresh = Inr i" by blast
    obtain u w3 where u: "Up (si_host (wm_site M)) q (wt_world s2) = (u, w3)" by fastforce
    obtain r2 s3 where t: "write_text M (join_path d (i @ ''.log'')) (up_banner u) (s2 \<lparr> wt_world := w3 \<rparr>) = (r2, s3)" by fastforce
    have "maps_of s3 = maps_of s"
      using maps_simps(2) [of M "join_path d (i @ ''.log'')" "up_banner u" "s2 \<lparr> wt_world := w3 \<rparr>"] m2 by (simp add: t)
    then show ?thesis using assms p o u t named [OF o(1)] by (cases r2) (auto simp: begin_watch_def Let_def)
  qed
  then show "maps_of s1 = maps_of s"
    "r = Inr (dir, project, x, up) \<Longrightarrow> ws_Project x = pr_Name project \<and> fresh = Inr (ws_ID x) \<and> pr_Name project = name"
    by blast+
qed

lemma wf_StartWatch:
  assumes "wf_watches s" "\<And>i k. fresh = Inr i \<Longrightarrow> k \<in> fst ` set (wt_followers s) \<Longrightarrow> k \<noteq> session_key name i"
  shows "wf_watches (snd (StartWatch M (\<lambda>_ s. s) fresh name s))"
proof -
  obtain r s1 where b: "begin_watch M fresh name s = (r, s1)" by fastforce
  note m1 = begin_watch_maps(1) [OF b]
  note wf1 = assms(1) [folded wf_same_maps [OF m1]]
  show ?thesis
  proof (cases r)
    case (Inl e)
    then show ?thesis using b wf1 by (simp add: StartWatch_def)
  next
    case (Inr v)
    obtain dir project x up where v: "v = (dir, project, x, up)" by (metis prod_cases4)
    note bw = begin_watch_maps(2) [OF b Inr [unfolded v]]
    show ?thesis
    proof (cases "op_Success up")
      case False
      have "maps_of (snd (failed_up M dir x up s1)) = maps_of s1" by (simp add: failed_up_def Let_def)
      from wf_same_maps [OF this] show ?thesis using b Inr v False wf1 by (simp add: StartWatch_def split_beta)
    next
      case True
      let ?s2 = "stop_previous (pr_Name project) s1"
      note sp = stop_previous_effect [OF wf1, where project = "pr_Name project"]
      have "session_key (pr_Name project) (ws_ID x) \<notin> fst ` set (wt_followers ?s2)"
        using assms(2) bw sp(3) m1 by (auto simp: maps_of_def)
      then have wl: "wf_watches (snd (launch M project x ?s2))"
        using wf_launch [OF sp(1)] sp(2) bw by blast
      obtain q s3 where l: "launch M project x ?s2 = (q, s3)" by fastforce
      have "maps_of (rotate_sessions M dir (writeMeta M y s3)) = maps_of s3" for y by simp
      note wf3 = wf_same_maps [OF this]
      show ?thesis using b Inr v True wl l
        by (cases q) (simp_all add: StartWatch_def Let_def wf3)
    qed
  qed
qed

lemma wf_follower_exits:
  assumes "wf_watches s"
  shows "wf_watches (follower_exits M k code s)"
proof (cases "map_of (wt_followers s) k")
  case None
  then show ?thesis using assms by (simp add: follower_exits_def)
next
  case (Some f)
  show ?thesis
  proof (cases "fo_done f")
    case True
    then show ?thesis using assms Some by (simp add: follower_exits_def)
  next
    case False
    define x where "x = fo_session f"
    define x1 where "x1 = x \<lparr> ws_EndedAt := watch_now M s, ws_Running := False, ws_ExitCode := code, ws_SizeBytes := log_size x s \<rparr>"
    define s1 where "s1 = writeMeta M x1 s"
    have m1: "maps_of s1 = maps_of s" by (simp add: s1_def)
    note wf1 = assms [folded wf_same_maps [OF m1]]
    let ?g = "\<lambda>(k', g). (k', if k' = k then f \<lparr> fo_session := x1, fo_done := True \<rparr> else g)"
    let ?s' = "s1 \<lparr> wt_followers := map ?g (wt_followers s1), wt_running := removeAll k (wt_running s1),
        wt_active := (if map_of (wt_active s1) (ws_Project x) = Some (ws_ID x)
          then AList.delete (ws_Project x) (wt_active s1) else wt_active s1) \<rparr>"
    have s': "follower_exits M k code s = ?s'"
      using Some False unfolding follower_exits_def s1_def x1_def x_def by (simp add: Let_def)
    have kf: "(k, f) \<in> set (wt_followers s1)" using Some m1 by (auto simp: maps_of_def dest: map_of_SomeD)
    then have k: "k = session_key (ws_Project x) (ws_ID x)"
      using wf_watchesD [OF wf1] by (auto simp: filed_def x_def)
    have keys: "map fst (map ?g (wt_followers s1)) = map fst (wt_followers s1)" by (simp add: comp_def split_beta)
    have "filed e \<and> entered ?s' e" if e: "e \<in> set (map ?g (wt_followers s1))" for e
    proof -
      from e obtain h where h: "(fst e, h) \<in> set (wt_followers s1)"
          "snd e = (if fst e = k then f \<lparr> fo_session := x1, fo_done := True \<rparr> else h)" by auto
      note w = wf_watchesD [OF wf1 h(1)]
      show ?thesis
      proof (cases "fst e = k")
        case True
        then show ?thesis using h(2) k by (simp add: filed_def entered_def live_def x1_def)
      next
        case False
        then have "snd e = h" using h(2) by simp
        then show ?thesis using w False k by (auto simp: filed_def entered_def delete_conv')
      qed
    qed
    moreover have "distinct (map fst (map ?g (wt_followers s1)))"
      unfolding keys using wf1 by (simp add: wf_watches_def)
    ultimately show ?thesis unfolding s' wf_watches_def by (simp del: map_map list.set_map)
  qed
qed

lemma wf_watch_step: "watch_step M s s' \<Longrightarrow> wf_watches s \<Longrightarrow> wf_watches s'"
proof (induction rule: watch_step.induct)
  case (start fresh s name)
  then show ?case by (intro wf_StartWatch) blast+
next
  case (stop s project i)
  then show ?case by (simp add: StopWatch_def Let_def wf_cancel wf_follower_exits)
next
  case (prints s k str)
  have "maps_of (follower_prints M k str s) = maps_of s" by (simp add: follower_prints_def split: option.split)
  with prints wf_same_maps show ?case by blast
next
  case (exits s k code)
  then show ?case by (rule wf_follower_exits)
next
  case (shutdown s)
  then show ?case by (simp add: ShutdownWatches_def fold_cancel_keys)
next
  case (outside s fs w)
  have "maps_of (s \<lparr> wt_world := w, wt_faults := fs \<rparr>) = maps_of s" by (simp add: maps_of_def)
  with outside wf_same_maps show ?case by blast
qed (use wf_same_maps in \<open>blast intro: LoadSession_maps Sessions_maps\<close>)+

lemma wf_watch_run: "watch_run M s s' \<Longrightarrow> wf_watches s \<Longrightarrow> wf_watches s'"
  by (induction rule: watch_run.induct) (auto intro: wf_watch_step)


section \<open>Properties\<close>

definition live_followers :: "string \<Rightarrow> 'w watches \<Rightarrow> (string \<times> follower) list" where
  "live_followers project s = filter (\<lambda>e. live (snd e) \<and> ws_Project (fo_session (snd e)) = project) (wt_followers s)"

lemma no_elements: "(\<And>e. e \<notin> set es) \<Longrightarrow> es = []"
  by (cases es) auto

lemma one_key:
  assumes "distinct (map fst es)" "\<And>e e'. e \<in> set es \<Longrightarrow> e' \<in> set es \<Longrightarrow> fst e = fst e'"
  shows "length es \<le> 1"
proof (cases es rule: remdups_adj.cases)
  case (3 e e' rest)
  then have "fst e = fst e'" by (intro assms(2)) simp_all
  with assms(1) 3 show ?thesis by simp
qed simp_all

lemma live_followers_entered:
  assumes "wf_watches s" "e \<in> set (live_followers project s)"
  shows "map_of (wt_active s) project = Some (ws_ID (fo_session (snd e)))"
    "fst e = session_key project (ws_ID (fo_session (snd e)))" "fst e \<in> set (wt_running s)"
  using assms wf_watchesD [OF assms(1), of e] by (auto simp: live_followers_def entered_def filed_def)

lemma follower_exits_live:
  assumes "e \<in> set (wt_followers (follower_exits M k code s))" "live (snd e)"
  shows "e \<in> set (wt_followers s)"
proof -
  have w: "wt_followers (writeMeta M x s) = wt_followers s" for x
    using maps_simps(4) [of M x s] by (simp add: maps_of_def)
  show ?thesis
  proof (cases "map_of (wt_followers s) k")
    case None
    then show ?thesis using assms(1) by (simp add: follower_exits_def)
  next
    case (Some f)
    show ?thesis
    proof (cases "fo_done f")
      case True
      then show ?thesis using assms(1) Some by (simp add: follower_exits_def)
    next
      case False
      then have "wt_followers (follower_exits M k code s) =
          map (\<lambda>(k', g). (k', if k' = k then f \<lparr> fo_session := fo_session f \<lparr> ws_EndedAt := watch_now M s, ws_Running := False,
            ws_ExitCode := code, ws_SizeBytes := log_size (fo_session f) s \<rparr>, fo_done := True \<rparr> else g)) (wt_followers s)"
        using Some by (simp add: follower_exits_def Let_def w)
      then show ?thesis using assms by (auto simp: live_def split: if_splits)
    qed
  qed
qed

lemma live_followers_exit:
  "live_followers project s = [] \<Longrightarrow> live_followers project (follower_exits M k code s) = []"
  using follower_exits_live [of _ M k code s] unfolding live_followers_def filter_empty_conv by blast

text \<open>
  Property C5. However sessions are started, stopped, read and shut down, one request after the other,
  and whatever the followers and the machine do meanwhile: no project ever has two live followers, and
  stopping the session that the manager has noted for a project leaves it without any.
\<close>

theorem one_live_follower:
  assumes "watch_run M s s'" "wt_followers s = []"
  shows "length (live_followers project s') \<le> 1 \<and>
    (map_of (wt_active s') project = Some i \<and> sessionIDRe i \<longrightarrow>
       live_followers project (snd (StopWatch M project i s')) = [])"
proof
  have "wf_watches s" using assms(2) by (simp add: wf_watches_def)
  then have wf: "wf_watches s'" using wf_watch_run [OF assms(1)] by blast
  have keys: "distinct (map fst (live_followers project s'))"
    using wf by (auto simp: wf_watches_def live_followers_def intro: distinct_map_filter)
  have "fst e = fst e'" if "e \<in> set (live_followers project s')" "e' \<in> set (live_followers project s')" for e e'
    using live_followers_entered(1,2) [OF wf that(1)] live_followers_entered(1,2) [OF wf that(2)] by simp
  with keys show "length (live_followers project s') \<le> 1" by (rule one_key)
  show "map_of (wt_active s') project = Some i \<and> sessionIDRe i \<longrightarrow>
      live_followers project (snd (StopWatch M project i s')) = []"
  proof
    assume a: "map_of (wt_active s') project = Some i \<and> sessionIDRe i"
    let ?k = "session_key project i"
    have wf': "wf_watches (snd (StopWatch M project i s'))" using wf_watch_step [OF watch_step.stop wf] .
    show "live_followers project (snd (StopWatch M project i s')) = []"
    proof (cases "?k \<in> set (wt_running s')")
      case False
      then have "e \<notin> set (live_followers project s')" for e
        using live_followers_entered [OF wf, of e project] a by auto
      then have "live_followers project s' = []" by (rule no_elements)
      then show ?thesis using a False by (simp add: StopWatch_def Let_def)
    next
      case True
      let ?t = "s' \<lparr> wt_followers := cancel ?k (wt_followers s') \<rparr>"
      have "live_followers project ?t = []"
      proof (rule no_elements)
        fix e
        show "e \<notin> set (live_followers project ?t)"
        proof
          assume e: "e \<in> set (live_followers project ?t)"
          note n = live_followers_entered [OF wf_cancel [OF wf] e]
          from n(1) a have "ws_ID (fo_session (snd e)) = i" by simp
          with n(2) have "fst e = ?k" by simp
          then have "fo_cancelled (snd e)" using e by (intro cancelled [of e ?k "wt_followers s'"]) (simp_all add: live_followers_def)
          with e show False by (simp add: live_followers_def live_def)
        qed
      qed
      then have "live_followers project (follower_exits M ?k (- 1) ?t) = []" by (rule live_followers_exit)
      with True a show ?thesis by (simp add: StopWatch_def Let_def)
    qed
  qed
qed

text \<open>
  Property C40. The stream of a session sends its log completely and in order. Whatever the ticks of the
  server see of the growing log, the browser gets one event for each complete line of its last state, up
  to the end of the follower or the departure of the client; what has no newline at the end stays in the
  buffer.
\<close>

theorem stream_sends_whole_log:
  assumes "LoadSession M project i s = (Inr x, s1)" "wt_faults s1 = []"
    "file_text (ws_LogPath x) s1 = Some content" "growing content ts"
  defines "final \<equiv> (if ws_Running x then last_seen content ts else content)"
  shows "Stream M project i (sse_write open_line) ts (s, \<lparr> se_buffer = [], se_sent = [] \<rparr>) =
    (None, s1, \<lparr> se_buffer = last (split_on newline final), se_sent = concat (map data_event (butlast (split_on newline final))) \<rparr>)"
proof -
  let ?w = "\<lparr> se_buffer = [], se_sent = [] \<rparr>"
  have first: "copyLines (sse_write open_line) 0 content ?w = (None, snd (sse_write open_line content ?w))"
    by (simp add: copyLines_sse prod_eq_iff)
  have rest: "stream_loop (sse_write open_line) (length content) ts (snd (sse_write open_line content ?w)) =
      (None, snd (sse_write open_line (last_seen content ts) ?w))"
  proof -
    have "last_seen content ts = content @ drop (length content) (last_seen content ts)"
      using extends_drop [OF last_seen_extends [OF assms(4)]] .
    then have "sse_write open_line (last_seen content ts) ?w =
        sse_write open_line (drop (length content) (last_seen content ts)) (snd (sse_write open_line content ?w))"
      by (metis sse_write_append)
    then show ?thesis by (simp add: stream_loop_sse [OF assms(4) sse_buffer_open] prod_eq_iff)
  qed
  have "Stream M project i (sse_write open_line) ts (s, ?w) = (None, s1, snd (sse_write open_line final ?w))"
    using assms(1-3) first rest by (simp add: Stream_def call_def final_def)
  then show ?thesis by (simp add: sse_write_events events_of_def)
qed

section \<open>A concrete server\<close>

definition demo_session :: "string \<Rightarrow> watch_session" where
  "demo_session i = \<lparr> ws_ID = i, ws_Project = ''web'', ws_StartedAt = 0, ws_EndedAt = zero_time, ws_ExitCode = 0,
     ws_Running = True, ws_SizeBytes = 0, ws_LogPath = [], ws_MetaPath = [] \<rparr>"

definition demo_watcher :: "unit watcher" where
  "demo_watcher = \<lparr> wm_site = demo_site, wm_root = ''/state/logs'', wm_perProj = 20, wm_encode = (\<lambda>x. Inr (ws_ID x)),
     wm_decode = (\<lambda>raw. Inr (demo_session raw)) \<rparr>"

definition no_watches :: "unit watches" where
  "no_watches = \<lparr> wt_world = (), wt_dirs = [], wt_files = [], wt_faults = [], wt_followers = [], wt_running = [], wt_active = [] \<rparr>"

definition id_a :: string where "id_a = ''aaaaaaaaaaaaaaaa''"
definition id_b :: string where "id_b = ''bbbbbbbbbbbbbbbb''"

definition demo_start :: "string \<Rightarrow> unit watches \<Rightarrow> unit watches" where
  "demo_start i s = snd (StartWatch demo_watcher (\<lambda>_ s. s) (Inr i) ''web'' s)"

theorem one_live_follower_witness:
  "length (live_followers ''web'' (demo_start id_b (demo_start id_a no_watches))) = 1 \<and>
   live_followers ''web'' (snd (StopWatch demo_watcher ''web'' id_b (demo_start id_b (demo_start id_a no_watches)))) = []"
proof -
  let ?s1 = "demo_start id_a no_watches" and ?s2 = "demo_start id_b (demo_start id_a no_watches)"
  have keys: "map fst (wt_followers no_watches) = []" "map fst (wt_followers ?s1) = [session_key ''web'' id_a]" by code_simp+
  have "watch_step demo_watcher no_watches ?s1"
    unfolding demo_start_def by (rule watch_step.start) (simp add: no_watches_def)
  moreover have "watch_step demo_watcher ?s1 ?s2"
    unfolding demo_start_def [of id_b] using keys(2)
    by (intro watch_step.start) (auto simp: session_key_def id_a_def id_b_def dest: arg_cong [of _ _ set])
  ultimately have run: "watch_run demo_watcher no_watches ?s2" by (meson watch_run.intros)
  have "map_of (wt_active ?s2) ''web'' = Some id_b" "sessionIDRe id_b" "live_followers ''web'' ?s2 \<noteq> []" by code_simp+
  with one_live_follower [OF run, of "''web''" id_b] show ?thesis by (auto simp: no_watches_def le_Suc_eq)
qed

theorem stream_sends_whole_log_witness:
  "se_sent (snd (snd (Stream demo_watcher ''web'' id_a (sse_write open_line)
     [Tick (''up'' @ [newline] @ ''rea'') True [], Tick (''up'' @ [newline] @ ''ready'' @ [newline]) False (''up'' @ [newline] @ ''ready'' @ [newline])]
     ((no_watches \<lparr> wt_files := [(''/state/logs/web/'' @ id_a @ ''.json'', id_a, 0), (''/state/logs/web/'' @ id_a @ ''.log'', ''up'', 0)],
          wt_running := [session_key ''web'' id_a] \<rparr>), \<lparr> se_buffer = [], se_sent = [] \<rparr>)))) =
   ''data: up'' @ [newline, newline] @ ''data: ready'' @ [newline, newline]"
proof -
  let ?s = "no_watches \<lparr> wt_files := [(''/state/logs/web/'' @ id_a @ ''.json'', id_a, 0), (''/state/logs/web/'' @ id_a @ ''.log'', ''up'', 0)],
          wt_running := [session_key ''web'' id_a] \<rparr>"
  let ?ts = "[Tick (''up'' @ [newline] @ ''rea'') True [], Tick (''up'' @ [newline] @ ''ready'' @ [newline]) False (''up'' @ [newline] @ ''ready'' @ [newline])]"
  obtain r s1 where l: "LoadSession demo_watcher ''web'' id_a ?s = (r, s1)" by fastforce
  have run: "(case fst (LoadSession demo_watcher ''web'' id_a ?s) of Inr x \<Rightarrow> ws_Running x \<and> ws_LogPath x = ''/state/logs/web/'' @ id_a @ ''.log'' | Inl _ \<Rightarrow> False)"
    by code_simp
  then obtain x where x: "r = Inr x" "ws_Running x" "ws_LogPath x = ''/state/logs/web/'' @ id_a @ ''.log''"
    unfolding l by (cases r) simp_all
  have "s1 = ?s" using l x(1) by (auto simp: LoadSession_def call_def no_watches_def Let_def split: if_splits sum.splits option.splits)
  moreover have "file_text (''/state/logs/web/'' @ id_a @ ''.log'') ?s = Some ''up''" "wt_faults ?s = []" by code_simp+
  moreover have "growing ''up'' ?ts" by (simp add: extends_def)
  moreover have "concat (map data_event (butlast (split_on newline (last_seen ''up'' ?ts)))) =
      ''data: up'' @ [newline, newline] @ ''data: ready'' @ [newline, newline]" by code_simp
  ultimately show ?thesis
    using stream_sends_whole_log [OF l [unfolded x(1)], of "''up''" ?ts] x(2,3) by simp
qed


section \<open>Where the manager falls short\<close>

text \<open>
  Two requests at once: a second \<open>Start\<close> that runs while the first is about to start its follower finds no
  previous session to stop. Both followers live, and only one is noted, so that no later start will stop the other.
\<close>

lemma concurrent_starts_leave_two_followers:
  "let s = snd (StartWatch demo_watcher (\<lambda>k s. if k = 1 then demo_start id_b s else s) (Inr id_a) ''web'' no_watches)
   in map (\<lambda>e. ws_ID (fo_session (snd e))) (live_followers ''web'' s) = [id_b, id_a] \<and> wt_active s = [(''web'', id_a)]"
  by code_simp

text \<open>
  The rotation counts a running session like the others, by the age of its record, which is written when
  it starts. Failed starts do not end it, so that enough of them delete the log that it still follows.
\<close>

definition failing_watcher :: "unit watcher" where
  "failing_watcher = demo_watcher \<lparr> wm_perProj := 1,
     wm_site := demo_site \<lparr> si_host := demo_host \<lparr> ho_exec := (\<lambda>cmd args w.
       if ''up'' \<in> set args then (Engine.answer [] \<lparr> cm_error := Some (ExitError 1 ''exit status 1'') \<rparr>, w)
       else ho_exec demo_host cmd args w) \<rparr> \<rparr> \<rparr>"

lemma rotation_deletes_running_session:
  "let s = snd (StartWatch failing_watcher (\<lambda>_ s. s) (Inr id_b) ''web'' (demo_start id_a no_watches)) in
     session_key ''web'' id_a \<in> set (wt_running s) \<and> length (live_followers ''web'' s) = 1 \<and>
     file_text (''/state/logs/web/'' @ id_a @ ''.log'') s = None"
  by code_simp

text \<open>The text after the last newline of a log is never sent, not even when its session is over.\<close>

lemma unfinished_line_is_not_sent:
  "fst (StreamHandler demo_watcher open_line ''web'' id_a []
      (no_watches \<lparr> wt_files := [(''/state/logs/web/'' @ id_a @ ''.json'', id_a, 0),
        (''/state/logs/web/'' @ id_a @ ''.log'', ''up'' @ [newline] @ ''exited with 1'', 0)] \<rparr>)) =
   ''data: up'' @ [newline, newline] @ ''event: end'' @ [newline] @ ''data: session stream closed'' @ [newline, newline]"
  by code_simp

end
