(* ===== verification/Spec2Isabelle.thy ===== *)
theory Spec2Isabelle
  imports EnvFile Cadence AgentApi Engine UpdateManager Scheduler AgentLoop Auth TemplateUpdate
    ProjectFiles Firewall AuditLog ProjectRequests AgentRuntime Watch
begin

text \<open>
  Verification of the Stack Manager server (\<^verbatim>\<open>server/\<close>, written in Go).

  \<^bold>\<open>The program.\<close> Stack Manager runs Docker Compose projects on one host and on remote hosts. The
  engine (\<^verbatim>\<open>internal/core/engine.go\<close>, \<^verbatim>\<open>compose.go\<close>, \<^verbatim>\<open>hooks.go\<close>) finds projects below its root
  directories and runs \<^verbatim>\<open>docker compose\<close> for them; jobs (\<^verbatim>\<open>jobs.go\<close>) run its actions in the background
  and keep their output; the scheduler (\<^verbatim>\<open>scheduler.go\<close>) starts jobs, or queues commands for remote
  agents, when a schedule is due; update checks (\<^verbatim>\<open>images.go\<close>, \<^verbatim>\<open>registry.go\<close>, \<^verbatim>\<open>update_checks.go\<close>,
  \<^verbatim>\<open>update_manager.go\<close>, \<^verbatim>\<open>update_policy.go\<close>) compare local images with their registries; the store
  (\<^verbatim>\<open>internal/storage\<close>) keeps agents, commands, schedules, runs, jobs, check results and the audit log in
  MySQL with a Redis cache in front; \<^verbatim>\<open>internal/auth\<close> keeps users and sessions; \<^verbatim>\<open>internal/handlers\<close>
  and \<^verbatim>\<open>internal/middleware\<close> are the HTTP interface.

  \<^bold>\<open>The theories.\<close>
  \<^item> \<open>Prelude\<close>: Go strings (\<^verbatim>\<open>Split\<close>, \<^verbatim>\<open>Cut\<close>, \<^verbatim>\<open>TrimSpace\<close> with its Unicode spaces, \<^verbatim>\<open>Atoi\<close>), 64-bit
    wrap-around, SQL tables as lists of rows, HTTP responses.
  \<^item> \<open>GoTime\<close>, \<open>Cadence\<close>: \<^verbatim>\<open>time.Date\<close>, \<^verbatim>\<open>AddDate\<close> and time zones; the next run of a schedule and the
    validation of schedules. The next run is the first due instant (steady zones), stable under late
    ticks, and always later for intervals; the exceptions found are proved too.
  \<^item> \<open>EnvFile\<close>: \<^verbatim>\<open>.env\<close> files (\<^verbatim>\<open>template_update.go\<close>, \<^verbatim>\<open>create.go\<close>, \<^verbatim>\<open>compose_env.go\<close>). Merging keeps every
    value of the user; the environment of a command shadows no key of the project.
  \<^item> \<open>Types\<close>, \<open>Storage\<close>, \<open>StoreInvariants\<close>: the records of the API and the store with failing
    statements; ids, references and the cache stay consistent over every execution, and a queued
    command is handed out once.
  \<^item> \<open>AgentApi\<close>: the handlers of agents and schedules; only the holder of an agent's token gets its
    commands.
  \<^item> \<open>Engine\<close>: compose commands, hooks, preflight, verification of an update, pruning. The machine is an
    argument (the record \<open>host\<close>), and a trace of its commands shows what an update may do.
  \<^item> \<open>UpdateChecks\<close>, \<open>UpdateManager\<close>: image references, registry checks, policies, the stored results and
    the fleet check with its cooldown.
  \<^item> \<open>Jobs\<close>, \<open>Discovery\<close>, \<open>Scheduler\<close>: background jobs with bounded output, projects on disk and their
    deletion, and the scheduler beside the goroutines of its jobs: every interleaving settles the run.
  \<^item> \<open>Auth\<close>: users, sessions, TOTP and the authentication of requests. Whoever passes has shown the API
    key or logged in; operators change only their own row; an administrator always remains.
  \<^item> \<open>Files\<close>, \<open>TemplateUpdate\<close>: a file system whose calls may fail or stop half-way, the creation of
    projects and their update from the catalog. A new project touches nothing outside its directory,
    and an interrupted update leaves the old files in place or in their backups.
  \<^item> \<open>ProjectFiles\<close>: the editor of project files and the project documents. What is saved reads back and
    leaves its old text in a backup; the list of documents is the set its specification describes.
  \<^item> \<open>NetAddr\<close>, \<open>Firewall\<close>: \<^verbatim>\<open>net.ParseIP\<close> and the firewall skill (\<^verbatim>\<open>skills/firewall\<close>). Every container it
    starts has the fixed command line and checked arguments; saving settings is a map update.
  \<^item> \<open>AuditLog\<close>: the audit middleware and its handlers. The log is the history of the mutating calls.
  \<^item> \<open>Volumes\<close>: the volumes and networks of a project; a removal stays within the project.
  \<^item> \<open>Peers\<close>: the projects of other controllers; they are asked for their own projects only.
  \<^item> \<open>ProjectApi\<close>, \<open>ProjectRequests\<close>: the HTTP handlers of projects, which compose all of the above. Bulk
    actions account for every project; a deleted project runs no more; peers do not ask in circles.

  \<^item> \<open>AgentLoop\<close>: the callback agent (\<^verbatim>\<open>cmd/server/agent_callback.go\<close>) and its composition with the
    handlers of \<open>AgentApi\<close> over a network that loses calls and answers: no command is executed twice, and
    a round that gets through settles what it executed.
  \<^item> \<open>RegistryLogins\<close>: logging in to registries and out again (\<^verbatim>\<open>registry.go\<close>); Docker's configuration is
    never left damaged. \<open>AgentRuntime\<close>: the HTTP interface of an inbound agent and the controller's proxy
    to it; an agent obeys the holder of its token only.
  \<^item> \<open>Watch\<close>: starting a project and following its logs (\<^verbatim>\<open>core/watch.go\<close>, \<^verbatim>\<open>handlers/watch.go\<close>). No
    project has two live followers, and the event stream of a session sends its log completely.

  \<^bold>\<open>Arguments in place of the outside.\<close> Code outside the repository is an argument of the definitions:
  Docker and the shell (\<open>host\<close>), the file system (\<open>disk\<close>), registries and HTTP clients, JSON decoders,
  the time zone database, bcrypt and the TOTP library (\<open>crypto\<close>), the collation of MySQL. Clock readings
  and random values are arguments as well. A failing database is a list of coming failures in the
  state, so the lemmas hold for every pattern of failures. Concurrency is modelled where it decides a
  property: \<open>others k\<close> in \<open>Scheduler\<close> and \<open>Watch\<close> is whatever the other goroutines do between two steps.

  \<^bold>\<open>Not modelled.\<close> The built-in templates are data (\<^verbatim>\<open>templates.go\<close>, \<^verbatim>\<open>templates_extra.go\<close>,
  \<^verbatim>\<open>templates_vetted_ai.go\<close>): the catalog is an argument. The skills for backups, databases and
  debugging, the reverse proxy, shells over WebSocket, GPU set-up, metrics and the process set-up are
  left out; the manifest gives the reason for each.

  \<^bold>\<open>Bounds.\<close> No definition runs on fuel except \<open>watch_loop\<close>, whose number of polls follows from the
  schedule's timeout as in the source.
\<close>

end
